(* ===== verification/Prelude.thy ===== *)
theory Prelude
  imports Main "HOL-Library.Sublist"
begin

text \<open>
  The prelude of the development: the vocabulary every component shares.
  It holds Go's string operations that the sources call (\<open>strings.TrimSpace\<close>,
  \<open>HasPrefix\<close>, \<open>HasSuffix\<close>, \<open>Contains\<close>, \<open>ToLower\<close>, splitting at a separator),
  Go's signed 64-bit arithmetic, association lists that stand for Go maps built and read in
  one place, and the lemma collections the component proofs use.
  Strings are byte strings: a \<^typ>\<open>char\<close> is one byte, as in a Go \<open>string\<close>.
\<close>

section \<open>Lemma collections\<close>

named_theorems table_simps \<open>lookup tables of parsers, constructors and routes\<close>
named_theorems step_defs \<open>definitions a step of a component unfolds\<close>

section \<open>Go values\<close>

text \<open>A Go pointer to an immutable value: nil is \<^const>\<open>None\<close>.\<close>

type_synonym 'a ptr = "'a option"

text \<open>A Go slice: nil is \<^const>\<open>None\<close>, which \<open>len\<close> and \<open>range\<close> do not distinguish from an
  empty slice, but a comparison with nil does.\<close>

type_synonym 'a slice = "'a list option"

definition slice_list :: "'a slice \<Rightarrow> 'a list" where
  "slice_list s = (case s of None \<Rightarrow> [] | Some xs \<Rightarrow> xs)"

lemma slice_list_simps [simp]: "slice_list None = []" "slice_list (Some xs) = xs"
  by (simp_all add: slice_list_def)

text \<open>Go's \<open>int64\<close> addition wraps around in two's complement.\<close>

definition wrap64 :: "int \<Rightarrow> int" where
  "wrap64 x = (x + 2 ^ 63) mod 2 ^ 64 - 2 ^ 63"

lemma wrap64_bounds: "- (2 ^ 63) \<le> wrap64 x" "wrap64 x < 2 ^ 63"
  by (simp_all add: wrap64_def)

lemma wrap64_id: "- (2 ^ 63) \<le> x \<Longrightarrow> x < 2 ^ 63 \<Longrightarrow> wrap64 x = x"
  by (simp add: wrap64_def)

section \<open>Bytes and strings\<close>

definition lf :: char where "lf = CHR 0x0A"
definition cr :: char where "cr = CHR 0x0D"

definition dq :: char where "dq = CHR 0x22"

text \<open>\<open>unicode.IsSpace\<close> on ASCII: tab, newline, vertical tab, form feed, return, space.\<close>

definition is_space :: "char \<Rightarrow> bool" where
  "is_space c = (c \<in> {CHR 0x09, CHR 0x0A, CHR 0x0B, CHR 0x0C, CHR 0x0D, CHR 0x20})"

definition trim_left :: "string \<Rightarrow> string" where
  "trim_left s = dropWhile is_space s"

definition trim_space :: "string \<Rightarrow> string" where
  "trim_space s = rev (dropWhile is_space (rev (dropWhile is_space s)))"

definition has_prefix :: "string \<Rightarrow> string \<Rightarrow> bool" where
  "has_prefix s p = (take (length p) s = p)"

definition has_suffix :: "string \<Rightarrow> string \<Rightarrow> bool" where
  "has_suffix s p = has_prefix (rev s) (rev p)"

fun contains_str :: "string \<Rightarrow> string \<Rightarrow> bool" where
  "contains_str [] p = (p = [])"
| "contains_str (c # s) p = (has_prefix (c # s) p \<or> contains_str s p)"

definition to_lower_char :: "char \<Rightarrow> char" where
  "to_lower_char c = (if 65 \<le> (of_char c :: nat) \<and> (of_char c :: nat) \<le> 90
                      then char_of ((of_char c :: nat) + 32) else c)"

definition to_lower :: "string \<Rightarrow> string" where
  "to_lower = map to_lower_char"

definition is_digit :: "char \<Rightarrow> bool" where
  "is_digit c = (48 \<le> (of_char c :: nat) \<and> (of_char c :: nat) \<le> 57)"

definition digit_val :: "char \<Rightarrow> int" where
  "digit_val c = int (of_char c) - 48"

text \<open>\<open>strings.Split(s, sep)\<close> for a one-byte separator.\<close>

fun split_at :: "char \<Rightarrow> string \<Rightarrow> string list" where
  "split_at sep [] = [[]]"
| "split_at sep (c # s) =
     (if c = sep then [] # split_at sep s
      else (case split_at sep s of [] \<Rightarrow> [[c]] | w # ws \<Rightarrow> (c # w) # ws))"

lemma split_at_nonempty [simp]: "split_at sep s \<noteq> []"
  by (induction s) (auto split: list.splits)

lemma dropWhile_length_le: "length (dropWhile P xs) \<le> length xs"
  by (induction xs) auto

lemma trim_space_length: "length (trim_space s) \<le> length s"
  unfolding trim_space_def
  by (metis dropWhile_length_le le_trans length_rev)

lemma has_prefix_prefix: "has_prefix s p = prefix p s"
  by (auto simp: has_prefix_def prefix_def) (metis append_take_drop_id)

section \<open>Decimal numbers\<close>

text \<open>\<open>strconv.Itoa\<close> on a non-negative number, and \<open>strconv.Atoi\<close>, which also takes a sign.\<close>

definition digit_char :: "nat \<Rightarrow> char" where
  "digit_char d = char_of (48 + d)"

fun itoa :: "nat \<Rightarrow> string" where
  "itoa n = (if n < 10 then [digit_char n] else itoa (n div 10) @ [digit_char (n mod 10)])"

declare itoa.simps [simp del]

definition digits_val :: "string \<Rightarrow> int" where
  "digits_val s = foldl (\<lambda>a c. a * 10 + digit_val c) 0 s"

definition atoi :: "string \<Rightarrow> int option" where
  "atoi s =
     (let signed = has_prefix s ''-'' \<or> has_prefix s ''+'';
          ds = (if signed then tl s else s);
          v = (if has_prefix s ''-'' then - digits_val ds else digits_val ds)
      in if ds \<noteq> [] \<and> list_all is_digit ds \<and> - (2 ^ 63) \<le> v \<and> v < 2 ^ 63
         then Some v else None)"

definition render_int :: "int \<Rightarrow> string" where
  "render_int i = (if i < 0 then CHR ''-'' # itoa (nat (- i)) else itoa (nat i))"

text \<open>Go compares strings byte by byte.\<close>

fun str_less :: "string \<Rightarrow> string \<Rightarrow> bool" where
  "str_less s [] = False"
| "str_less [] (d # t) = True"
| "str_less (c # s) (d # t) =
     ((of_char c :: nat) < of_char d \<or> c = d \<and> str_less s t)"

lemma of_char_digit [simp]: "d < 10 \<Longrightarrow> (of_char (digit_char d) :: nat) = 48 + d"
  by (simp add: digit_char_def)

lemma digit_char_is_digit [simp]: "d < 10 \<Longrightarrow> is_digit (digit_char d)"
  by (simp add: is_digit_def)

lemma digit_val_digit_char [simp]: "d < 10 \<Longrightarrow> digit_val (digit_char d) = int d"
  by (simp add: digit_val_def)

lemma digits_val_snoc [simp]: "digits_val (s @ [c]) = digits_val s * 10 + digit_val c"
  by (simp add: digits_val_def)

lemma itoa_digits: "itoa n \<noteq> [] \<and> list_all is_digit (itoa n)"
proof (induction n rule: itoa.induct)
  case (1 n)
  show ?case by (cases "n < 10") (use 1 in \<open>auto simp: itoa.simps [of n]\<close>)
qed

lemma digits_val_itoa [simp]: "digits_val (itoa n) = int n"
proof (induction n rule: itoa.induct)
  case (1 n)
  show ?case
  proof (cases "n < 10")
    case True
    then show ?thesis by (simp add: itoa.simps [of n] digits_val_def)
  next
    case False
    then show ?thesis using 1 by (simp add: itoa.simps [of n]) (simp add: zdiv_int zmod_int)
  qed
qed

lemma itoa_unsigned: "\<not> has_prefix (itoa n) ''-'' \<and> \<not> has_prefix (itoa n) ''+''"
proof -
  obtain c cs where c: "itoa n = c # cs" "is_digit c"
    using itoa_digits [of n] by (cases "itoa n") auto
  then show ?thesis by (auto simp: has_prefix_def is_digit_def)
qed

lemma atoi_itoa [simp]: "n < 2 ^ 63 \<Longrightarrow> atoi (itoa n) = Some (int n)"
  using itoa_digits [of n] itoa_unsigned [of n] by (simp add: atoi_def Let_def)

lemma itoa_inject [simp]: "itoa m = itoa n \<longleftrightarrow> m = n"
  by (metis digits_val_itoa of_nat_eq_iff)

lemma itoa_small:
  "itoa 0 = ''0''" "itoa (Suc 0) = ''1''" "itoa 1 = ''1''" "itoa 2 = ''2''" "itoa (Suc (Suc 0)) = ''2''" "itoa 3 = ''3''" "itoa 4 = ''4''"
  "itoa 5 = ''5''" "itoa 6 = ''6''" "itoa 7 = ''7''" "itoa 8 = ''8''" "itoa 9 = ''9''"
  by code_simp+

section \<open>Association lists\<close>

text \<open>Go maps that one function builds and another reads are association lists, so that the
  definitions stay executable; \<open>put\<close> overwrites, \<open>drop_key\<close> deletes.\<close>

definition put :: "'k \<Rightarrow> 'v \<Rightarrow> ('k \<times> 'v) list \<Rightarrow> ('k \<times> 'v) list" where
  "put k v m = (k, v) # filter (\<lambda>p. fst p \<noteq> k) m"

definition drop_key :: "'k \<Rightarrow> ('k \<times> 'v) list \<Rightarrow> ('k \<times> 'v) list" where
  "drop_key k m = filter (\<lambda>p. fst p \<noteq> k) m"

lemma map_of_filter_key: "map_of (filter (\<lambda>p. P (fst p)) m) k = (if P k then map_of m k else None)"
  by (induction m) auto

lemma map_of_put [simp]: "map_of (put k v m) = (map_of m)(k \<mapsto> v)"
  by (rule ext) (simp add: put_def map_of_filter_key [where P = "\<lambda>x. x \<noteq> k"])

lemma map_of_drop_key [simp]: "map_of (drop_key k m) = (map_of m)(k := None)"
  by (rule ext) (simp add: drop_key_def map_of_filter_key [where P = "\<lambda>x. x \<noteq> k"])

lemma set_drop_key [simp]: "set (drop_key k m) = {p \<in> set m. fst p \<noteq> k}"
  by (auto simp: drop_key_def)

end
