(* ===== verification/Json.thy ===== *)
theory Json
  imports Prelude
begin

text \<open>
  JSON values and the part of \<open>encoding/json\<close> the sources use: \<open>json.Unmarshal\<close> into
  structs, pointers, slices, maps and custom \<open>UnmarshalJSON\<close> receivers.

  A Go type that is decoded is a \<open>gotype\<close>: its zero value and the function that stores a JSON
  value into a target of that type and says whether it succeeded. As in \<open>encoding/json\<close>, a
  type mismatch leaves the mismatched target as it was, decoding goes on with the other fields,
  and the call as a whole reports an error; \<open>null\<close> leaves a scalar or a struct untouched and
  sets a pointer, a slice or a map to nil; object keys match a field by name exactly, and
  otherwise up to ASCII case; a repeated key stores again into the same field.

  A \<open>json.RawMessage\<close> is a \<open>raw\<close>: \<^const>\<open>None\<close> is the empty message (the key was absent), and
  \<open>Some JNull\<close> is the four bytes \<open>null\<close>, which is not empty. A raw message that was cut out of
  a decoded frame is always syntactically valid, so it is kept as the value it spells; the
  white space between its tokens is not kept.
\<close>

section \<open>Values\<close>

datatype json =
    JNull
  | JBool bool
  | JNum string
  | JStr string
  | JArr "json list"
  | JObj "(string \<times> json) list"

type_synonym raw = "json option"

section \<open>Number literals\<close>

text \<open>\<open>strconv.ParseInt(s, 10, 64)\<close> and \<open>strconv.ParseUint(s, 10, 64)\<close>.\<close>

definition parse_int64 :: "string \<Rightarrow> int option" where
  "parse_int64 s =
     (let neg = has_prefix s ''-'';
          ds = (if neg then tl s else s);
          v = (if neg then - digits_val ds else digits_val ds)
      in if ds \<noteq> [] \<and> list_all is_digit ds \<and> - (2 ^ 63) \<le> v \<and> v < 2 ^ 63
         then Some v else None)"

definition parse_uint64 :: "string \<Rightarrow> int option" where
  "parse_uint64 s =
     (if s \<noteq> [] \<and> list_all is_digit s \<and> digits_val s < 2 ^ 64
      then Some (digits_val s) else None)"

lemma parse_int64_range:
  "parse_int64 s = Some v \<Longrightarrow> - (2 ^ 63) \<le> v \<and> v < 2 ^ 63"
  by (auto simp: parse_int64_def Let_def split: if_splits)

section \<open>Decoded values and Go types\<close>

datatype gval =
    GStr string
  | GBool bool
  | GInt int
  | GNum string
  | GRaw raw
  | GPtr "gval option"
  | GSlice "gval list option"
  | GMap "(string \<times> gval) list option"
  | GStruct "(string \<times> gval) list"

record gotype =
  zero_of :: gval
  dec_of :: "json \<Rightarrow> gval \<Rightarrow> gval \<times> bool"

definition t_str :: gotype where
  "t_str = \<lparr>zero_of = GStr [],
     dec_of = (\<lambda>j g. case j of JStr s \<Rightarrow> (GStr s, True) | JNull \<Rightarrow> (g, True) | _ \<Rightarrow> (g, False))\<rparr>"

definition t_bool :: gotype where
  "t_bool = \<lparr>zero_of = GBool False,
     dec_of = (\<lambda>j g. case j of JBool b \<Rightarrow> (GBool b, True) | JNull \<Rightarrow> (g, True) | _ \<Rightarrow> (g, False))\<rparr>"

text \<open>Go's \<open>int\<close> and \<open>int64\<close>; \<open>uint64\<close>; \<open>float64\<close>, whose literal is kept.\<close>

definition t_int :: gotype where
  "t_int = \<lparr>zero_of = GInt 0,
     dec_of = (\<lambda>j g. case j of
         JNum s \<Rightarrow> (case parse_int64 s of Some v \<Rightarrow> (GInt v, True) | None \<Rightarrow> (g, False))
       | JNull \<Rightarrow> (g, True) | _ \<Rightarrow> (g, False))\<rparr>"

definition t_uint64 :: gotype where
  "t_uint64 = \<lparr>zero_of = GInt 0,
     dec_of = (\<lambda>j g. case j of
         JNum s \<Rightarrow> (case parse_uint64 s of Some v \<Rightarrow> (GInt v, True) | None \<Rightarrow> (g, False))
       | JNull \<Rightarrow> (g, True) | _ \<Rightarrow> (g, False))\<rparr>"

definition t_float :: gotype where
  "t_float = \<lparr>zero_of = GNum ''0'',
     dec_of = (\<lambda>j g. case j of JNum s \<Rightarrow> (GNum s, True) | JNull \<Rightarrow> (g, True) | _ \<Rightarrow> (g, False))\<rparr>"

text \<open>\<open>json.RawMessage\<close> takes every value verbatim, \<open>null\<close> included.\<close>

definition t_raw :: gotype where
  "t_raw = \<lparr>zero_of = GRaw None, dec_of = (\<lambda>j g. (GRaw (Some j), True))\<rparr>"

definition t_ptr :: "gotype \<Rightarrow> gotype" where
  "t_ptr t = \<lparr>zero_of = GPtr None,
     dec_of = (\<lambda>j g. if j = JNull then (GPtr None, True)
       else (let cur = (case g of GPtr (Some v) \<Rightarrow> v | _ \<Rightarrow> zero_of t)
             in (case dec_of t j cur of (v, ok) \<Rightarrow> (GPtr (Some v), ok))))\<rparr>"

text \<open>What a container decoded, and whether every part of it did.\<close>

definition pack_slice :: "(gval \<times> bool) list \<Rightarrow> gval \<times> bool" where
  "pack_slice rs = (GSlice (Some (map fst rs)), list_all snd rs)"

definition pack_map :: "(string \<times> gval) list \<Rightarrow> (string \<times> gval \<times> bool) list \<Rightarrow> gval \<times> bool" where
  "pack_map m0 rs = (GMap (Some (foldl (\<lambda>m r. put (fst r) (fst (snd r)) m) m0 rs)),
                     list_all (\<lambda>r. snd (snd r)) rs)"

definition pack_struct :: "(string \<times> gval \<times> bool) list \<Rightarrow> gval \<times> bool" where
  "pack_struct rs = (GStruct (map (\<lambda>r. (fst r, fst (snd r))) rs), list_all (\<lambda>r. snd (snd r)) rs)"

definition t_slice :: "gotype \<Rightarrow> gotype" where
  "t_slice t = \<lparr>zero_of = GSlice None,
     dec_of = (\<lambda>j g. case j of
         JNull \<Rightarrow> (GSlice None, True)
       | JArr xs \<Rightarrow> pack_slice (map (\<lambda>x. dec_of t x (zero_of t)) xs)
       | _ \<Rightarrow> (g, False))\<rparr>"

definition t_map :: "gotype \<Rightarrow> gotype" where
  "t_map t = \<lparr>zero_of = GMap None,
     dec_of = (\<lambda>j g. case j of
         JNull \<Rightarrow> (GMap None, True)
       | JObj kvs \<Rightarrow>
           pack_map (case g of GMap (Some m) \<Rightarrow> m | _ \<Rightarrow> [])
             (map (\<lambda>kv. (fst kv, dec_of t (snd kv) (zero_of t))) kvs)
       | _ \<Rightarrow> (g, False))\<rparr>"

text \<open>The field an object key stores into: exact name first, then up to case.\<close>

definition match_field :: "string list \<Rightarrow> string \<Rightarrow> string option" where
  "match_field names k =
     (if k \<in> set names then Some k
      else find (\<lambda>n. to_lower n = to_lower k) names)"

text \<open>The values an object stores into field \<open>n\<close>, in order.\<close>

definition values_for :: "string list \<Rightarrow> string \<Rightarrow> (string \<times> json) list \<Rightarrow> json list" where
  "values_for names n kvs = map snd (filter (\<lambda>kv. match_field names (fst kv) = Some n) kvs)"

fun dec_seq :: "gotype \<Rightarrow> json list \<Rightarrow> gval \<Rightarrow> gval \<times> bool" where
  "dec_seq t [] g = (g, True)"
| "dec_seq t (j # js) g =
     (case dec_of t j g of (g1, ok1) \<Rightarrow> (case dec_seq t js g1 of (g2, ok2) \<Rightarrow> (g2, ok1 \<and> ok2)))"

fun struct_get :: "(string \<times> gval) list \<Rightarrow> string \<Rightarrow> gval" where
  "struct_get [] n = GPtr None"
| "struct_get ((m, v) # vs) n = (if m = n then v else struct_get vs n)"

definition t_struct :: "(string \<times> gotype) list \<Rightarrow> gotype" where
  "t_struct fs = \<lparr>zero_of = GStruct (map (\<lambda>f. (fst f, zero_of (snd f))) fs),
     dec_of = (\<lambda>j g. case j of
         JNull \<Rightarrow> (g, True)
       | JObj kvs \<Rightarrow>
           pack_struct (map (\<lambda>f. (fst f,
               dec_seq (snd f) (values_for (map fst fs) (fst f) kvs)
                 (struct_get (case g of GStruct vs \<Rightarrow> vs | _ \<Rightarrow> []) (fst f)))) fs)
       | _ \<Rightarrow> (g, False))\<rparr>"

text \<open>\<open>json.Unmarshal(raw, &target)\<close> with a fresh target: what it holds afterwards, and whether
  the call returned a nil error. An empty message is a syntax error.\<close>

definition unmarshal :: "gotype \<Rightarrow> raw \<Rightarrow> gval \<times> bool" where
  "unmarshal t r = (case r of None \<Rightarrow> (zero_of t, False) | Some j \<Rightarrow> dec_of t j (zero_of t))"

section \<open>Reading a decoded struct\<close>

fun gfield :: "gval \<Rightarrow> string \<Rightarrow> gval" where
  "gfield (GStruct vs) n = struct_get vs n"
| "gfield (GPtr (Some g)) n = gfield g n"
| "gfield _ n = GPtr None"

fun as_str :: "gval \<Rightarrow> string" where
  "as_str (GStr s) = s" | "as_str _ = []"

fun as_bool :: "gval \<Rightarrow> bool" where
  "as_bool (GBool b) = b" | "as_bool _ = False"

fun as_int :: "gval \<Rightarrow> int" where
  "as_int (GInt i) = i" | "as_int _ = 0"

fun as_raw :: "gval \<Rightarrow> raw" where
  "as_raw (GRaw r) = r" | "as_raw _ = None"

fun as_ptr :: "gval \<Rightarrow> gval ptr" where
  "as_ptr (GPtr p) = p" | "as_ptr _ = None"

fun as_slice :: "gval \<Rightarrow> gval slice" where
  "as_slice (GSlice s) = s" | "as_slice _ = None"

fun as_map :: "gval \<Rightarrow> (string \<times> gval) list ptr" where
  "as_map (GMap m) = m" | "as_map _ = None"

definition f_str :: "gval \<Rightarrow> string \<Rightarrow> string" where "f_str g n = as_str (gfield g n)"
definition f_bool :: "gval \<Rightarrow> string \<Rightarrow> bool" where "f_bool g n = as_bool (gfield g n)"
definition f_int :: "gval \<Rightarrow> string \<Rightarrow> int" where "f_int g n = as_int (gfield g n)"
definition f_raw :: "gval \<Rightarrow> string \<Rightarrow> raw" where "f_raw g n = as_raw (gfield g n)"

definition f_pstr :: "gval \<Rightarrow> string \<Rightarrow> string ptr" where
  "f_pstr g n = map_option as_str (as_ptr (gfield g n))"

definition f_pint :: "gval \<Rightarrow> string \<Rightarrow> int ptr" where
  "f_pint g n = map_option as_int (as_ptr (gfield g n))"

definition f_pbool :: "gval \<Rightarrow> string \<Rightarrow> bool ptr" where
  "f_pbool g n = map_option as_bool (as_ptr (gfield g n))"

definition f_ptr :: "gval \<Rightarrow> string \<Rightarrow> gval ptr" where
  "f_ptr g n = as_ptr (gfield g n)"

definition f_slice :: "gval \<Rightarrow> string \<Rightarrow> gval slice" where
  "f_slice g n = as_slice (gfield g n)"

definition f_strs :: "gval \<Rightarrow> string \<Rightarrow> string slice" where
  "f_strs g n = map_option (map as_str) (as_slice (gfield g n))"

definition f_raws :: "gval \<Rightarrow> string \<Rightarrow> raw slice" where
  "f_raws g n = map_option (map as_raw) (as_slice (gfield g n))"

section \<open>Lemmas on decoding\<close>

lemmas gotype_defs = t_str_def t_bool_def t_int_def t_uint64_def t_float_def t_raw_def
  t_ptr_def t_slice_def t_map_def t_struct_def pack_slice_def pack_map_def pack_struct_def

lemmas field_defs = f_str_def f_bool_def f_int_def f_raw_def f_pstr_def f_pint_def f_pbool_def
  f_ptr_def f_slice_def f_strs_def f_raws_def

text \<open>The evaluation bundle for concrete messages.\<close>

lemmas json_eval = gotype_defs field_defs unmarshal_def values_for_def match_field_def
  to_lower_def to_lower_char_def put_def parse_int64_def parse_uint64_def digits_val_def
  digit_val_def is_digit_def has_prefix_def Let_def

lemma unmarshal_struct_null: "unmarshal (t_struct fs) (Some JNull) = (zero_of (t_struct fs), True)"
  by (simp add: unmarshal_def t_struct_def)

lemma struct_get_map:
  "distinct (map fst fs) \<Longrightarrow> f \<in> set fs \<Longrightarrow>
     struct_get (map (\<lambda>f. (fst f, h f)) fs) (fst f) = h f"
  by (induction fs) (auto simp: rev_image_eqI)

text \<open>An object none of whose keys is a field leaves the target at its zero value.\<close>

lemma unmarshal_struct_unmatched:
  assumes "distinct (map fst fs)" and "\<forall>kv \<in> set kvs. match_field (map fst fs) (fst kv) = None"
  shows "unmarshal (t_struct fs) (Some (JObj kvs)) = (zero_of (t_struct fs), True)"
proof -
  have "values_for (map fst fs) n kvs = []" for n
    using assms(2) by (auto simp: values_for_def filter_empty_conv)
  then show ?thesis
    using assms(1) by (simp add: unmarshal_def t_struct_def pack_struct_def Let_def o_def list_all_iff struct_get_map)
qed

lemma unmarshal_raw [simp]: "unmarshal t_raw (Some j) = (GRaw (Some j), True)"
  by (simp add: unmarshal_def t_raw_def)

end
