(* ===== verification/Errors.thy ===== *)
theory Errors
  imports Json
begin

text \<open>
  The errors of the SDK (\<open>types/errors.go\<close> and the sentinel errors of the other files): one
  datatype whose constructors are the error structs, the sentinels and the two ways an error
  carries others (\<open>fmt.Errorf\<close> with one wrapped error, \<open>errors.Join\<close> or an \<open>Unwrap\<close> that
  returns a list). \<open>errors.Is\<close>, \<open>errors.As\<close>, the \<open>Is...Error\<close> helpers and the \<open>Error()\<close>
  texts are functions on it. The text that \<open>encoding/json\<close> gives its own errors is not modelled:
  such a cause is the constant \<open>json_cause\<close>.
\<close>

section \<open>Error values\<close>

datatype sentinel =
    ErrClientAlreadyConnected
  | ErrClientClosed
  | ErrClientNotConnected
  | ErrThreadClosed
  | ErrNoActiveTurn
  | ErrDemuxClosed
  | ErrParseGiveUp
  | ErrUnclassifiableFrame
  | ErrThreadEventStreamGap
  | ErrThreadEventIdentityMissing
  | ErrRuntimeControlsUnsupported
  | ErrBackgroundTerminalPagination
  | ErrBackgroundTerminalNotTerminated
  | ErrLineTooLong
  | ErrEOF
  | ErrUnexpectedEOF
  | ErrETXTBSY
  | ErrContextCanceled
  | ErrContextDeadlineExceeded
  | ErrESRCH
  | ErrProcessDone

datatype goError =
    ErrText string
  | Sentinel sentinel
  | ErrWrap string goError
  | ErrJoin "goError list"
  | CLINotFoundError string
  | CLIConnectionError string "goError ptr"
  | ProcessError string int string
  | JSONDecodeError raw goError
  | MessageParseError string raw
  | RPCError int string raw
  | ApprovalDeniedError string string
  | FeatureNotEnabledError string string string
  | UnsupportedApprovalPolicyError string string
  | MCPServerOAuthRequiredError string string
  | AGENTSMDExistsError string
  | ThreadHistoryError string string string "goError ptr"

definition json_cause :: goError where
  "json_cause = ErrText ''json''"

section \<open>Wrapping\<close>

text \<open>\<open>errors.As\<close> with a target type: \<open>p\<close> recognises the concrete type.\<close>

fun errors_as :: "(goError \<Rightarrow> bool) \<Rightarrow> goError \<Rightarrow> bool" where
  "errors_as p (ErrWrap m e) = (p (ErrWrap m e) \<or> errors_as p e)"
| "errors_as p (ErrJoin es) = (p (ErrJoin es) \<or> list_ex (errors_as p) es)"
| "errors_as p (CLIConnectionError m c) =
     (p (CLIConnectionError m c) \<or> (case c of None \<Rightarrow> False | Some e \<Rightarrow> errors_as p e))"
| "errors_as p (JSONDecodeError r e) = (p (JSONDecodeError r e) \<or> errors_as p e)"
| "errors_as p (ThreadHistoryError c t m cause) =
     (p (ThreadHistoryError c t m cause) \<or> (case cause of None \<Rightarrow> False | Some e \<Rightarrow> errors_as p e))"
| "errors_as p e = p e"

definition errors_is :: "sentinel \<Rightarrow> goError \<Rightarrow> bool" where
  "errors_is s = errors_as (\<lambda>e. e = Sentinel s)"

fun is_CLINotFoundError :: "goError \<Rightarrow> bool" where
  "is_CLINotFoundError (CLINotFoundError m) = True" | "is_CLINotFoundError _ = False"
fun is_CLIConnectionError :: "goError \<Rightarrow> bool" where
  "is_CLIConnectionError (CLIConnectionError m c) = True" | "is_CLIConnectionError _ = False"
fun is_ProcessError :: "goError \<Rightarrow> bool" where
  "is_ProcessError (ProcessError m x s) = True" | "is_ProcessError _ = False"
fun is_JSONDecodeError :: "goError \<Rightarrow> bool" where
  "is_JSONDecodeError (JSONDecodeError r c) = True" | "is_JSONDecodeError _ = False"
fun is_MessageParseError :: "goError \<Rightarrow> bool" where
  "is_MessageParseError (MessageParseError m r) = True" | "is_MessageParseError _ = False"
fun is_RPCError :: "goError \<Rightarrow> bool" where
  "is_RPCError (RPCError c m d) = True" | "is_RPCError _ = False"
fun is_ApprovalDeniedError :: "goError \<Rightarrow> bool" where
  "is_ApprovalDeniedError (ApprovalDeniedError m r) = True" | "is_ApprovalDeniedError _ = False"
fun is_FeatureNotEnabledError :: "goError \<Rightarrow> bool" where
  "is_FeatureNotEnabledError (FeatureNotEnabledError f m t) = True"
| "is_FeatureNotEnabledError _ = False"
fun is_UnsupportedApprovalPolicyError :: "goError \<Rightarrow> bool" where
  "is_UnsupportedApprovalPolicyError (UnsupportedApprovalPolicyError p v) = True"
| "is_UnsupportedApprovalPolicyError _ = False"
fun is_MCPServerOAuthRequiredError :: "goError \<Rightarrow> bool" where
  "is_MCPServerOAuthRequiredError (MCPServerOAuthRequiredError n m) = True"
| "is_MCPServerOAuthRequiredError _ = False"
fun is_AGENTSMDExistsError :: "goError \<Rightarrow> bool" where
  "is_AGENTSMDExistsError (AGENTSMDExistsError p) = True" | "is_AGENTSMDExistsError _ = False"

text \<open>The last three helpers look at the code of the first \<open>ThreadHistoryError\<close> in the chain.\<close>

fun first_history_code :: "goError \<Rightarrow> string option"
and first_history_code_list :: "goError list \<Rightarrow> string option" where
  "first_history_code (ThreadHistoryError c t m cause) = Some c"
| "first_history_code (ErrWrap m e) = first_history_code e"
| "first_history_code (ErrJoin es) = first_history_code_list es"
| "first_history_code (CLIConnectionError m (Some e)) = first_history_code e"
| "first_history_code (JSONDecodeError r e) = first_history_code e"
| "first_history_code _ = None"
| "first_history_code_list [] = None"
| "first_history_code_list (e # es) =
     (case first_history_code e of Some c \<Rightarrow> Some c | None \<Rightarrow> first_history_code_list es)"

definition is_ThreadHistoryError :: "goError \<Rightarrow> bool" where
  "is_ThreadHistoryError e = (first_history_code e \<noteq> None)"
definition is_InvalidThreadIDError :: "goError \<Rightarrow> bool" where
  "is_InvalidThreadIDError e = (first_history_code e = Some ''invalid_thread_id'')"
definition is_ThreadNotFoundError :: "goError \<Rightarrow> bool" where
  "is_ThreadNotFoundError e = (first_history_code e = Some ''thread_not_found'')"

section \<open>Lemmas\<close>

lemma errors_as_self: "p e \<Longrightarrow> errors_as p e"
  by (cases e) auto

lemma errors_is_simps [simp]:
  "errors_is s (ErrWrap m e) = errors_is s e"
  "errors_is s (Sentinel t) = (t = s)"
  "errors_is s (ErrText m) = False"
  "errors_is s (ErrJoin es) = list_ex (errors_is s) es"
  "errors_is s (JSONDecodeError r e) = errors_is s e"
  "errors_is s (MessageParseError m r) = False"
  "errors_is s (RPCError c m d) = False"
  by (auto simp: errors_is_def)

text \<open>The \<open>Is...Error\<close> helpers see through any number of \<open>fmt.Errorf\<close> wrappers.\<close>

lemma errors_as_wraps:
  assumes "\<And>m x. \<not> p (ErrWrap m x)"
  shows "errors_as p (foldr ErrWrap ms e) = errors_as p e"
  using assms by (induction ms) auto

end
