(* ===== verification/Items.thy ===== *)
theory Items
  imports Errors
begin

text \<open>
  The thread items and item deltas of \<open>types/items.go\<close>: one record per Go struct, with the
  source's field names after a prefix, the sealed interfaces \<open>ThreadItem\<close> and \<open>ItemDelta\<close> as
  datatypes over them, and the behaviour attached to the types: the discriminators
  \<open>ItemType\<close> and \<open>DeltaType\<close>, the compatibility projection of a file change part
  (\<open>FileChangePart.UnmarshalJSON\<close>, \<open>MarshalJSON\<close>), the tolerant decoders of
  \<open>AgentStates\<close>, \<open>AgentState\<close> and \<open>MCPToolCallErrorField\<close>, and the ordering
  used by \<open>AgentStates.Entries\<close>.
\<close>

section \<open>Item structs\<close>

record agentMessage =
  am_ID :: "string"
  am_Text :: "string"
  am_Phase :: "string"
  am_MemoryCitation :: "raw"

record userMessagePart =
  ump_Type :: "string"
  ump_Text :: "string"
  ump_Path :: "string"
  ump_TextElements :: "raw"

record userMessage =
  um_ID :: "string"
  um_Content :: "userMessagePart slice"

record commandExecution =
  ce_ID :: "string"
  ce_Command :: "string"
  ce_Cwd :: "string"
  ce_Source :: "string"
  ce_ProcessID :: "string"
  ce_Status :: "string"
  ce_ExitCode :: "int ptr"
  ce_AggregatedOutput :: "string"
  ce_DurationMs :: "int ptr"
  ce_CommandActions :: "raw"

record patchChangeKind =
  pck_Type :: "string"
  pck_MovePath :: "string ptr"

record fileChangePart =
  fcp_Path :: "string"
  fcp_Kind :: "patchChangeKind ptr"
  fcp_Operation :: "string"
  fcp_Diff :: "string"

record fileChange =
  fc_ID :: "string"
  fc_Status :: "string"
  fc_Changes :: "fileChangePart slice"

record mCPToolCallErrorField =
  mef_Message :: "string"

record mCPToolCall =
  mtc_ID :: "string"
  mtc_ServerName :: "string"
  mtc_ToolName :: "string"
  mtc_Input :: "raw"
  mtc_Result :: "raw"
  mtc_Status :: "string"
  mtc_Error :: "mCPToolCallErrorField"
  mtc_DurationMs :: "int ptr"

record webSearch =
  ws_ID :: "string"
  ws_Query :: "string"
  ws_Action :: "raw"

record memoryRead =
  mr_ID :: "string"
  mr_Query :: "string"
  mr_Result :: "string"

record memoryWrite =
  mw_ID :: "string"
  mw_Key :: "string"
  mw_Value :: "string"

record plan =
  pl_ID :: "string"
  pl_Text :: "string"
  pl_Status :: "string"

record reasoning =
  re_ID :: "string"
  re_Summary :: "raw slice"
  re_Content :: "raw slice"

record systemError =
  se_ID :: "string"
  se_Message :: "string"

record hookPrompt =
  hp_ID :: "string"
  hp_Fragments :: "raw slice"

record dynamicToolCall =
  dtc_ID :: "string"
  dtc_Tool :: "string"
  dtc_Arguments :: "raw"
  dtc_Status :: "string"
  dtc_Success :: "bool ptr"
  dtc_ContentItems :: "raw"
  dtc_DurationMs :: "int ptr"

record agentState =
  as_Status :: "string"
  as_Message :: "string ptr"
  as_Raw :: "raw"

record collabAgentToolCall =
  cat_ID :: "string"
  cat_Tool :: "string"
  cat_Status :: "string"
  cat_AgentsStates :: "(string \<times> agentState) list ptr"
  cat_Model :: "string"
  cat_Prompt :: "string"
  cat_ReasoningEffort :: "string"
  cat_SenderThreadID :: "string"
  cat_ReceiverThreadIDs :: "string slice"

record subAgentActivity =
  saa_ID :: "string"
  saa_AgentPath :: "string"
  saa_AgentThreadID :: "string"
  saa_Kind :: "string"

record imageView =
  iv_ID :: "string"
  iv_Path :: "string"

record imageGeneration =
  ig_ID :: "string"
  ig_Status :: "string"
  ig_SavedPath :: "string"
  ig_RevisedPrompt :: "string"
  ig_Result :: "raw"

record enteredReviewMode =
  erm_ID :: "string"
  erm_Review :: "raw"

record exitedReviewMode =
  xrm_ID :: "string"
  xrm_Review :: "raw"

record contextCompaction =
  cc_ID :: "string"

record unknownItem =
  ui_Type :: "string"
  ui_Raw :: "raw"

section \<open>Delta structs\<close>

record agentMessageDelta =
  amd_TextChunk :: "string"

record reasoningTextDelta =
  rtd_TextChunk :: "string"
  rtd_ContentIndex :: "int"

record reasoningSummaryTextDelta =
  rstd_SummaryChunk :: "string"
  rstd_SummaryIndex :: "int"

record reasoningSummaryPartAdded =
  rspa_SummaryIndex :: "int"

record commandOutputDelta =
  cod_OutputChunk :: "string"

record fileChangeOutputDelta =
  fcod_DiffChunk :: "string"

record planDelta =
  pd_Chunk :: "string"

record mCPToolCallProgress =
  mtp_Message :: "string"

record terminalInteraction =
  ti_ProcessID :: "string"
  ti_Stdin :: "string"

record unknownDelta =
  ud_Type :: "string"
  ud_Raw :: "raw"

section \<open>The sealed interfaces\<close>

datatype threadItem =
    ItemAgentMessage agentMessage
  | ItemUserMessage userMessage
  | ItemCommandExecution commandExecution
  | ItemFileChange fileChange
  | ItemMCPToolCall mCPToolCall
  | ItemWebSearch webSearch
  | ItemMemoryRead memoryRead
  | ItemMemoryWrite memoryWrite
  | ItemPlan plan
  | ItemReasoning reasoning
  | ItemSystemError systemError
  | ItemHookPrompt hookPrompt
  | ItemDynamicToolCall dynamicToolCall
  | ItemCollabAgentToolCall collabAgentToolCall
  | ItemSubAgentActivity subAgentActivity
  | ItemImageView imageView
  | ItemImageGeneration imageGeneration
  | ItemEnteredReviewMode enteredReviewMode
  | ItemExitedReviewMode exitedReviewMode
  | ItemContextCompaction contextCompaction
  | ItemUnknownItem unknownItem

datatype itemDelta =
    DeltaAgentMessageDelta agentMessageDelta
  | DeltaReasoningTextDelta reasoningTextDelta
  | DeltaReasoningSummaryTextDelta reasoningSummaryTextDelta
  | DeltaReasoningSummaryPartAdded reasoningSummaryPartAdded
  | DeltaCommandOutputDelta commandOutputDelta
  | DeltaFileChangeOutputDelta fileChangeOutputDelta
  | DeltaPlanDelta planDelta
  | DeltaMCPToolCallProgress mCPToolCallProgress
  | DeltaTerminalInteraction terminalInteraction
  | DeltaUnknownDelta unknownDelta

fun itemType :: "threadItem \<Rightarrow> string" where
  "itemType (ItemAgentMessage i) = ''agentMessage''"
| "itemType (ItemUserMessage i) = ''userMessage''"
| "itemType (ItemCommandExecution i) = ''commandExecution''"
| "itemType (ItemFileChange i) = ''fileChange''"
| "itemType (ItemMCPToolCall i) = ''mcpToolCall''"
| "itemType (ItemWebSearch i) = ''webSearch''"
| "itemType (ItemMemoryRead i) = ''memoryRead''"
| "itemType (ItemMemoryWrite i) = ''memoryWrite''"
| "itemType (ItemPlan i) = ''plan''"
| "itemType (ItemReasoning i) = ''reasoning''"
| "itemType (ItemSystemError i) = ''systemError''"
| "itemType (ItemHookPrompt i) = ''hookPrompt''"
| "itemType (ItemDynamicToolCall i) = ''dynamicToolCall''"
| "itemType (ItemCollabAgentToolCall i) = ''collabAgentToolCall''"
| "itemType (ItemSubAgentActivity i) = ''subAgentActivity''"
| "itemType (ItemImageView i) = ''imageView''"
| "itemType (ItemImageGeneration i) = ''imageGeneration''"
| "itemType (ItemEnteredReviewMode i) = ''enteredReviewMode''"
| "itemType (ItemExitedReviewMode i) = ''exitedReviewMode''"
| "itemType (ItemContextCompaction i) = ''contextCompaction''"
| "itemType (ItemUnknownItem i) = ui_Type i"

fun deltaType :: "itemDelta \<Rightarrow> string" where
  "deltaType (DeltaAgentMessageDelta d) = ''agentMessage/delta''"
| "deltaType (DeltaReasoningTextDelta d) = ''reasoning/textDelta''"
| "deltaType (DeltaReasoningSummaryTextDelta d) = ''reasoning/summaryTextDelta''"
| "deltaType (DeltaReasoningSummaryPartAdded d) = ''reasoning/summaryPartAdded''"
| "deltaType (DeltaCommandOutputDelta d) = ''commandExecution/outputDelta''"
| "deltaType (DeltaFileChangeOutputDelta d) = ''fileChange/outputDelta''"
| "deltaType (DeltaPlanDelta d) = ''plan/delta''"
| "deltaType (DeltaMCPToolCallProgress d) = ''mcpToolCall/progress''"
| "deltaType (DeltaTerminalInteraction d) = ''commandExecution/terminalInteraction''"
| "deltaType (DeltaUnknownDelta d) = ud_Type d"

section \<open>File change parts\<close>

definition legacyFileChangeOperation :: "string \<Rightarrow> string" where
  "legacyFileChangeOperation k =
     (if k = ''add'' then ''create''
      else if k = ''update'' then ''modify''
      else if k = ''delete'' then ''delete''
      else [])"

definition t_patchChangeKind :: gotype where
  "t_patchChangeKind = t_struct [(''type'', t_str), (''move_path'', t_ptr t_str)]"

definition to_patchChangeKind :: "gval \<Rightarrow> patchChangeKind" where
  "to_patchChangeKind g = \<lparr>pck_Type = f_str g ''type'', pck_MovePath = f_pstr g ''move_path''\<rparr>"

definition t_wirePart :: gotype where
  "t_wirePart = t_struct [(''path'', t_str), (''kind'', t_ptr t_patchChangeKind),
                          (''operation'', t_str), (''diff'', t_str)]"

text \<open>The second decoding of \<open>FileChangePart.UnmarshalJSON\<close>, into a map of raw fields, only asks
  which keys were spelled exactly like this; the first one also matches up to case.\<close>

fun has_key :: "string \<Rightarrow> json \<Rightarrow> bool" where
  "has_key k (JObj kvs) = (k \<in> set (map fst kvs))"
| "has_key k _ = False"

definition struct_set :: "string \<Rightarrow> gval \<Rightarrow> (string \<times> gval) list \<Rightarrow> (string \<times> gval) list" where
  "struct_set n v vs = map (\<lambda>p. if fst p = n then (n, v) else p) vs"

fun set_field :: "string \<Rightarrow> gval \<Rightarrow> gval \<Rightarrow> gval" where
  "set_field n v (GStruct vs) = GStruct (struct_set n v vs)"
| "set_field n v g = g"

definition t_fileChangePart :: gotype where
  "t_fileChangePart = \<lparr>zero_of = zero_of t_wirePart,
     dec_of = (\<lambda>j p. case dec_of t_wirePart j p of (decoded, ok) \<Rightarrow>
       if \<not> ok then (p, False)
       else if has_key ''kind'' j \<and> \<not> has_key ''operation'' j
       then (set_field ''operation''
               (GStr (case f_ptr decoded ''kind'' of
                        None \<Rightarrow> []
                      | Some k \<Rightarrow> legacyFileChangeOperation (f_str k ''type''))) decoded, True)
       else (decoded, True))\<rparr>"

definition to_fileChangePart :: "gval \<Rightarrow> fileChangePart" where
  "to_fileChangePart g = \<lparr>fcp_Path = f_str g ''path'',
     fcp_Kind = map_option to_patchChangeKind (f_ptr g ''kind''),
     fcp_Operation = f_str g ''operation'', fcp_Diff = f_str g ''diff''\<rparr>"

text \<open>\<open>json.Unmarshal\<close> into a \<open>FileChangePart\<close>, and \<open>MarshalJSON\<close> with its \<open>omitempty\<close> tags.\<close>

definition decode_fileChangePart :: "raw \<Rightarrow> fileChangePart \<times> bool" where
  "decode_fileChangePart r =
     (case unmarshal t_fileChangePart r of (d, ok) \<Rightarrow> (to_fileChangePart d, ok))"

definition omit_empty :: "string \<Rightarrow> string \<Rightarrow> (string \<times> json) list" where
  "omit_empty k s = (if s = [] then [] else [(k, JStr s)])"

definition encode_patchChangeKind :: "patchChangeKind \<Rightarrow> json" where
  "encode_patchChangeKind k = JObj ((''type'', JStr (pck_Type k)) #
     (case pck_MovePath k of None \<Rightarrow> [] | Some p \<Rightarrow> [(''move_path'', JStr p)]))"

definition encode_fileChangePart :: "fileChangePart \<Rightarrow> json" where
  "encode_fileChangePart p =
     (let operation = (if fcp_Kind p \<noteq> None then [] else fcp_Operation p)
      in JObj ([(''path'', JStr (fcp_Path p))]
        @ (case fcp_Kind p of None \<Rightarrow> [] | Some k \<Rightarrow> [(''kind'', encode_patchChangeKind k)])
        @ omit_empty ''operation'' operation
        @ omit_empty ''diff'' (fcp_Diff p)))"

section \<open>MCP tool call errors\<close>

text \<open>\<open>MCPToolCallErrorField.UnmarshalJSON\<close> never fails: an object with a non-empty message,
  else a string, else the field stays as it was.\<close>

definition t_mcpErrorObject :: gotype where
  "t_mcpErrorObject = t_struct [(''message'', t_str)]"

definition t_mCPToolCallErrorField :: gotype where
  "t_mCPToolCallErrorField = \<lparr>zero_of = zero_of t_mcpErrorObject,
     dec_of = (\<lambda>j e.
       if j = JNull then (e, True)
       else (case unmarshal t_mcpErrorObject (Some j) of (obj, ok) \<Rightarrow>
         if ok \<and> f_str obj ''message'' \<noteq> []
         then (set_field ''message'' (GStr (f_str obj ''message'')) e, True)
         else (case unmarshal t_str (Some j) of (s, ok') \<Rightarrow>
           if ok' then (set_field ''message'' s e, True) else (e, True))))\<rparr>"

definition to_mCPToolCallErrorField :: "gval \<Rightarrow> mCPToolCallErrorField" where
  "to_mCPToolCallErrorField g = \<lparr>mef_Message = f_str g ''message''\<rparr>"

section \<open>Agent states\<close>

text \<open>The \<open>Raw\<close> field of an \<open>AgentState\<close> has no JSON name; here it is the field \<open>-\<close>, which no
  key reaches because the decoded struct is the one without it.\<close>

definition t_agentStateAlias :: gotype where
  "t_agentStateAlias = t_struct [(''status'', t_str), (''message'', t_ptr t_str)]"

definition t_agentState :: gotype where
  "t_agentState = \<lparr>zero_of = GStruct [(''status'', GStr []), (''message'', GPtr None), (''-'', GRaw None)],
     dec_of = (\<lambda>j a.
       let a1 = set_field ''-'' (GRaw (Some j)) a in
       (case unmarshal t_agentStateAlias (Some j) of (decoded, ok) \<Rightarrow>
          if \<not> ok then (a1, False)
          else (set_field ''message'' (gfield decoded ''message'')
                  (set_field ''status'' (gfield decoded ''status'') a1), True)))\<rparr>"

definition to_agentState :: "gval \<Rightarrow> agentState" where
  "to_agentState g = \<lparr>as_Status = f_str g ''status'', as_Message = f_pstr g ''message'',
                      as_Raw = f_raw g ''-''\<rparr>"

text \<open>\<open>AgentStates.UnmarshalJSON\<close>: null clears, an object is taken as it is, an array gets the
  positions as keys, everything else is an error.\<close>

definition t_agentStates :: gotype where
  "t_agentStates = \<lparr>zero_of = GMap None,
     dec_of = (\<lambda>j s. case j of
         JNull \<Rightarrow> (GMap None, True)
       | JObj kvs \<Rightarrow>
           (case unmarshal (t_map t_agentState) (Some j) of (states, ok) \<Rightarrow>
              if ok then (states, True) else (s, False))
       | JArr xs \<Rightarrow>
           (case unmarshal (t_slice t_agentState) (Some j) of (states, ok) \<Rightarrow>
              if ok then (GMap (Some (zip (map itoa [0..<length xs]) (slice_list (as_slice states)))), True)
              else (s, False))
       | _ \<Rightarrow> (s, False))\<rparr>"

definition to_agentStates :: "gval \<Rightarrow> (string \<times> agentState) list ptr" where
  "to_agentStates g = map_option (map (\<lambda>p. (fst p, to_agentState (snd p)))) (as_map g)"

text \<open>The comparison of \<open>AgentStates.Entries\<close> and the sort it is given to. \<open>sort.Slice\<close> is an
  insertion sort up to twelve elements; each element moves left over the sorted prefix (kept
  reversed here) while it is smaller than its neighbour. The map is the list of its pairs in
  the order this run's \<open>range\<close> happens to visit them.\<close>

definition key_less :: "string \<Rightarrow> string \<Rightarrow> bool" where
  "key_less l r = (case (atoi l, atoi r) of
      (Some a, Some b) \<Rightarrow> a < b
    | _ \<Rightarrow> str_less l r)"

fun sink :: "('a \<Rightarrow> 'a \<Rightarrow> bool) \<Rightarrow> 'a \<Rightarrow> 'a list \<Rightarrow> 'a list" where
  "sink lt x [] = [x]"
| "sink lt x (y # ys) = (if lt x y then y # sink lt x ys else x # y # ys)"

definition sort_slice :: "('a \<Rightarrow> 'a \<Rightarrow> bool) \<Rightarrow> 'a list \<Rightarrow> 'a list" where
  "sort_slice lt xs = rev (foldl (\<lambda>acc x. sink lt x acc) [] xs)"

definition agentStates_Entries :: "(string \<times> 's) list \<Rightarrow> (string \<times> 's) list" where
  "agentStates_Entries s =
     map (\<lambda>k. (k, the (map_of s k))) (sort_slice key_less (map fst s))"

section \<open>Lemmas: sorting\<close>

lemma set_sink [simp]: "set (sink lt x ys) = insert x (set ys)"
  by (induction ys) auto

lemma distinct_sink [simp]: "distinct (sink lt x ys) \<longleftrightarrow> x \<notin> set ys \<and> distinct ys"
  by (induction ys) auto

lemma sort_slice_snoc [simp]: "sort_slice lt (xs @ [x]) = rev (sink lt x (rev (sort_slice lt xs)))"
  by (simp add: sort_slice_def)

lemma sort_slice_Nil [simp]: "sort_slice lt [] = []"
  by (simp add: sort_slice_def)

lemma set_sort_slice [simp]: "set (sort_slice lt xs) = set xs"
  by (induction xs rule: rev_induct) auto

lemma distinct_sort_slice [simp]: "distinct (sort_slice lt xs) = distinct xs"
  by (induction xs rule: rev_induct) auto

lemma length_sink [simp]: "length (sink lt x ys) = Suc (length ys)"
  by (induction ys) auto

lemma length_sort_slice [simp]: "length (sort_slice lt xs) = length xs"
  by (induction xs rule: rev_induct) auto

text \<open>Where the comparison is the order of a key, the result is sorted by the key.\<close>

lemma sink_sorted:
  assumes "\<And>a b. a \<in> A \<Longrightarrow> b \<in> A \<Longrightarrow> lt a b \<longleftrightarrow> (f a :: 'b :: linorder) < f b"
    and "x \<in> A" and "set ys \<subseteq> A" and "sorted_wrt (\<ge>) (map f ys)"
  shows "sorted_wrt (\<ge>) (map f (sink lt x ys))"
  using assms(3,4) by (induction ys) (use assms(1,2) in \<open>auto simp: not_less intro: order.strict_implies_order order_trans\<close>)

lemma sort_slice_sorted:
  assumes "\<And>a b. a \<in> set xs \<Longrightarrow> b \<in> set xs \<Longrightarrow> lt a b \<longleftrightarrow> (f a :: 'b :: linorder) < f b"
  shows "sorted (map f (sort_slice lt xs))"
proof -
  have "set ys \<subseteq> set xs \<Longrightarrow> sorted_wrt (\<ge>) (map f (rev (sort_slice lt ys)))" for ys
    by (induction ys rule: rev_induct) (simp_all add: sink_sorted [OF assms])
  from this [of xs] show ?thesis
    by (simp add: rev_map sorted_wrt_rev flip: rev_map)
qed

lemma key_less_itoa:
  "m < 2 ^ 63 \<Longrightarrow> n < 2 ^ 63 \<Longrightarrow> key_less (itoa m) (itoa n) \<longleftrightarrow> m < n"
  by (simp add: key_less_def)

section \<open>Lemmas: struct fields\<close>

lemmas item_eval = json_eval t_patchChangeKind_def to_patchChangeKind_def t_wirePart_def
  t_fileChangePart_def to_fileChangePart_def decode_fileChangePart_def
  encode_fileChangePart_def encode_patchChangeKind_def omit_empty_def struct_set_def
  legacyFileChangeOperation_def t_mCPToolCallErrorField_def t_mcpErrorObject_def
  to_mCPToolCallErrorField_def t_agentState_def t_agentStateAlias_def to_agentState_def
  t_agentStates_def to_agentStates_def

section \<open>Properties\<close>

text \<open>Writing a file change part and reading it back gives the part again, except that the
  compatibility field \<open>Operation\<close> is the projection of the kind when a kind is present
  (whatever it held before), and is kept when no kind is present.\<close>

theorem fileChangePart_roundtrip:
  "decode_fileChangePart (Some (encode_fileChangePart p)) =
     (p\<lparr>fcp_Operation := (case fcp_Kind p of None \<Rightarrow> fcp_Operation p
                            | Some k \<Rightarrow> legacyFileChangeOperation (pck_Type k))\<rparr>, True)"
proof -
  obtain path kind oper diff where p: "p = \<lparr>fcp_Path = path, fcp_Kind = kind, fcp_Operation = oper, fcp_Diff = diff\<rparr>"
    by (cases p) auto
  show ?thesis
  proof (cases kind)
    case None
    then show ?thesis
      by (simp add: p item_eval)
  next
    case (Some k)
    obtain t m where k: "k = \<lparr>pck_Type = t, pck_MovePath = m\<rparr>" by (cases k) auto
    show ?thesis
      by (cases m) (simp_all add: p Some k item_eval)
  qed
qed

text \<open>Agent states that arrived as a legacy array come out of \<open>Entries\<close> in the array's order,
  whatever order the run visits the map in.\<close>

theorem agentStates_Entries_legacy_array:
  assumes "length states < 2 ^ 63" and "distinct (map fst m)"
    and "set m = set (zip (map itoa [0..<length states]) states)"
  shows "agentStates_Entries m = zip (map itoa [0..<length states]) states"
proof -
  let ?n = "length states"
  let ?z = "zip (map itoa [0..<?n]) states"
  let ?ks = "sort_slice key_less (map fst m)"
  let ?f = "\<lambda>k. the (atoi k)"
  have keys: "set (map fst m) = itoa ` {0..<?n}"
    using arg_cong [OF assms(3), of "image fst"] by (simp flip: set_map add: map_fst_zip_take) simp
  have dz: "distinct (map fst ?z)"
    by (simp add: distinct_map inj_on_def)
  have val: "?f (itoa i) = int i" if "i < ?n" for i
    using that assms(1) by simp
  have "sorted (map ?f ?ks)"
    by (rule sort_slice_sorted) (use keys assms(1) in \<open>auto simp: key_less_itoa\<close>)
  moreover have "inj_on ?f (set ?ks)"
    using keys val by (auto simp: inj_on_def)
  then have "distinct (map ?f ?ks)"
    using assms(2) by (simp add: distinct_map)
  moreover have "set (map ?f ?ks) = set (map int [0..<?n])"
    using keys val by (force simp: image_iff)
  ultimately have "map ?f ?ks = map int [0..<?n]"
    by (intro sorted_distinct_set_unique) (auto simp: distinct_map sorted_map)
  also have "\<dots> = map ?f (map itoa [0..<?n])"
    using val by simp
  finally have "?ks = map itoa [0..<?n]"
    by (rule map_inj_on) (use keys val in \<open>auto simp: inj_on_def\<close>)
  moreover have "map_of m = map_of ?z"
    using assms(2,3) dz by (metis map_of_inject_set)
  ultimately have "agentStates_Entries m = map (\<lambda>k. (k, the (map_of ?z k))) (map itoa [0..<?n])"
    by (simp add: agentStates_Entries_def)
  also have "\<dots> = ?z"
  proof (rule nth_equalityI)
    fix i assume "i < length (map (\<lambda>k. (k, the (map_of ?z k))) (map itoa [0..<?n]))"
    then have i: "i < ?n" by simp
    then have "map_of ?z (itoa i) = Some (states ! i)"
      using map_of_zip_nth [of "map itoa [0..<?n]" states i] by (simp add: distinct_map inj_on_def)
    then show "map (\<lambda>k. (k, the (map_of ?z k))) (map itoa [0..<?n]) ! i = ?z ! i"
      using i by simp
  qed simp
  finally show ?thesis .
qed

theorem agentStates_Entries_legacy_array_witness:
  "agentStates_Entries [(''2'', ''c''), (''0'', ''a''), (''1'', ''b'')]
    = zip (map itoa [0..<3]) [''a'', ''b'', ''c'']"
  using agentStates_Entries_legacy_array
      [of "[''a'', ''b'', ''c'']" "[(''2'', ''c''), (''0'', ''a''), (''1'', ''b'')]"]
  by (simp add: itoa_small upt_rec insert_commute)

text \<open>With keys that are not all numbers the order is not determined by the map: the comparison
  is not transitive (\<open>2 < 10 < 1a < 2\<close>), so two visiting orders of the same map can give two
  different results.\<close>

theorem agentStates_Entries_order_dependent:
  "map_of [(''2'', s), (''10'', t), (''1a'', u)] = map_of [(''10'', t), (''1a'', u), (''2'', s)] \<and>
   agentStates_Entries [(''2'', s), (''10'', t), (''1a'', u)]
     \<noteq> agentStates_Entries [(''10'', t), (''1a'', u), (''2'', s)]"
  by (rule conjI, rule ext, simp)
    (simp add: agentStates_Entries_def sort_slice_def key_less_def atoi_def has_prefix_def Let_def
      is_digit_def digits_val_def digit_val_def)

end
