(* ===== verification/Items_Parser.thy ===== *)
theory Items_Parser
  imports Items
begin

text \<open>
  The item parser of \<open>internal/events/items.go\<close>: for each item struct its decoding by JSON tags
  (\<open>t_X\<close> is the Go type as \<open>encoding/json\<close> sees it, \<open>to_X\<close> reads the decoded struct into the
  record), \<open>decodeItem\<close>, the table \<open>itemDecoders\<close>, \<open>ParseItem\<close> with its forward-compatible
  fallback, and \<open>ParseItemDelta\<close> for the legacy delta envelope.
\<close>

section \<open>Item structs on the wire\<close>

definition t_agentMessage :: gotype where
  "t_agentMessage = t_struct
    [(''id'', t_str), (''text'', t_str), (''phase'', t_str), (''memoryCitation'', t_raw)]"

definition to_agentMessage :: "gval \<Rightarrow> agentMessage" where
  "to_agentMessage g = \<lparr>am_ID = f_str g ''id'', am_Text = f_str g ''text'', am_Phase = f_str g ''phase'',
     am_MemoryCitation = f_raw g ''memoryCitation''\<rparr>"

definition t_userMessagePart :: gotype where
  "t_userMessagePart = t_struct
    [(''type'', t_str), (''text'', t_str), (''path'', t_str), (''text_elements'', t_raw)]"

definition to_userMessagePart :: "gval \<Rightarrow> userMessagePart" where
  "to_userMessagePart g = \<lparr>ump_Type = f_str g ''type'', ump_Text = f_str g ''text'', ump_Path = f_str g ''path'',
     ump_TextElements = f_raw g ''text_elements''\<rparr>"

definition t_userMessage :: gotype where
  "t_userMessage = t_struct
    [(''id'', t_str), (''content'', t_slice t_userMessagePart)]"

definition to_userMessage :: "gval \<Rightarrow> userMessage" where
  "to_userMessage g = \<lparr>um_ID = f_str g ''id'',
     um_Content = map_option (map to_userMessagePart) (f_slice g ''content'')\<rparr>"

definition t_commandExecution :: gotype where
  "t_commandExecution = t_struct
    [(''id'', t_str), (''command'', t_str), (''cwd'', t_str), (''source'', t_str),
     (''processId'', t_str), (''status'', t_str), (''exitCode'', t_ptr t_int),
     (''aggregatedOutput'', t_str), (''durationMs'', t_ptr t_int),
     (''commandActions'', t_raw)]"

definition to_commandExecution :: "gval \<Rightarrow> commandExecution" where
  "to_commandExecution g = \<lparr>ce_ID = f_str g ''id'', ce_Command = f_str g ''command'', ce_Cwd = f_str g ''cwd'',
     ce_Source = f_str g ''source'', ce_ProcessID = f_str g ''processId'',
     ce_Status = f_str g ''status'', ce_ExitCode = f_pint g ''exitCode'',
     ce_AggregatedOutput = f_str g ''aggregatedOutput'',
     ce_DurationMs = f_pint g ''durationMs'', ce_CommandActions = f_raw g ''commandActions''\<rparr>"

definition t_fileChange :: gotype where
  "t_fileChange = t_struct
    [(''id'', t_str), (''status'', t_str), (''changes'', t_slice t_fileChangePart)]"

definition to_fileChange :: "gval \<Rightarrow> fileChange" where
  "to_fileChange g = \<lparr>fc_ID = f_str g ''id'', fc_Status = f_str g ''status'',
     fc_Changes = map_option (map to_fileChangePart) (f_slice g ''changes'')\<rparr>"

definition t_mCPToolCall :: gotype where
  "t_mCPToolCall = t_struct
    [(''id'', t_str), (''server'', t_str), (''tool'', t_str), (''arguments'', t_raw),
     (''result'', t_raw), (''status'', t_str), (''error'', t_mCPToolCallErrorField),
     (''durationMs'', t_ptr t_int)]"

definition to_mCPToolCall :: "gval \<Rightarrow> mCPToolCall" where
  "to_mCPToolCall g = \<lparr>mtc_ID = f_str g ''id'', mtc_ServerName = f_str g ''server'',
     mtc_ToolName = f_str g ''tool'', mtc_Input = f_raw g ''arguments'',
     mtc_Result = f_raw g ''result'', mtc_Status = f_str g ''status'',
     mtc_Error = to_mCPToolCallErrorField (gfield g ''error''),
     mtc_DurationMs = f_pint g ''durationMs''\<rparr>"

definition t_webSearch :: gotype where
  "t_webSearch = t_struct
    [(''id'', t_str), (''query'', t_str), (''action'', t_raw)]"

definition to_webSearch :: "gval \<Rightarrow> webSearch" where
  "to_webSearch g = \<lparr>ws_ID = f_str g ''id'', ws_Query = f_str g ''query'', ws_Action = f_raw g ''action''\<rparr>"

definition t_memoryRead :: gotype where
  "t_memoryRead = t_struct
    [(''id'', t_str), (''query'', t_str), (''result'', t_str)]"

definition to_memoryRead :: "gval \<Rightarrow> memoryRead" where
  "to_memoryRead g = \<lparr>mr_ID = f_str g ''id'', mr_Query = f_str g ''query'', mr_Result = f_str g ''result''\<rparr>"

definition t_memoryWrite :: gotype where
  "t_memoryWrite = t_struct
    [(''id'', t_str), (''key'', t_str), (''value'', t_str)]"

definition to_memoryWrite :: "gval \<Rightarrow> memoryWrite" where
  "to_memoryWrite g = \<lparr>mw_ID = f_str g ''id'', mw_Key = f_str g ''key'', mw_Value = f_str g ''value''\<rparr>"

definition t_plan :: gotype where
  "t_plan = t_struct
    [(''id'', t_str), (''text'', t_str), (''status'', t_str)]"

definition to_plan :: "gval \<Rightarrow> plan" where
  "to_plan g = \<lparr>pl_ID = f_str g ''id'', pl_Text = f_str g ''text'', pl_Status = f_str g ''status''\<rparr>"

definition t_reasoning :: gotype where
  "t_reasoning = t_struct
    [(''id'', t_str), (''summary'', t_slice t_raw), (''content'', t_slice t_raw)]"

definition to_reasoning :: "gval \<Rightarrow> reasoning" where
  "to_reasoning g = \<lparr>re_ID = f_str g ''id'', re_Summary = f_raws g ''summary'',
     re_Content = f_raws g ''content''\<rparr>"

definition t_systemError :: gotype where
  "t_systemError = t_struct
    [(''id'', t_str), (''message'', t_str)]"

definition to_systemError :: "gval \<Rightarrow> systemError" where
  "to_systemError g = \<lparr>se_ID = f_str g ''id'', se_Message = f_str g ''message''\<rparr>"

definition t_hookPrompt :: gotype where
  "t_hookPrompt = t_struct
    [(''id'', t_str), (''fragments'', t_slice t_raw)]"

definition to_hookPrompt :: "gval \<Rightarrow> hookPrompt" where
  "to_hookPrompt g = \<lparr>hp_ID = f_str g ''id'', hp_Fragments = f_raws g ''fragments''\<rparr>"

definition t_dynamicToolCall :: gotype where
  "t_dynamicToolCall = t_struct
    [(''id'', t_str), (''tool'', t_str), (''arguments'', t_raw), (''status'', t_str),
     (''success'', t_ptr t_bool), (''contentItems'', t_raw), (''durationMs'', t_ptr t_int)]"

definition to_dynamicToolCall :: "gval \<Rightarrow> dynamicToolCall" where
  "to_dynamicToolCall g = \<lparr>dtc_ID = f_str g ''id'', dtc_Tool = f_str g ''tool'',
     dtc_Arguments = f_raw g ''arguments'', dtc_Status = f_str g ''status'',
     dtc_Success = f_pbool g ''success'', dtc_ContentItems = f_raw g ''contentItems'',
     dtc_DurationMs = f_pint g ''durationMs''\<rparr>"

definition t_collabAgentToolCall :: gotype where
  "t_collabAgentToolCall = t_struct
    [(''id'', t_str), (''tool'', t_str), (''status'', t_str),
     (''agentsStates'', t_agentStates), (''model'', t_str), (''prompt'', t_str),
     (''reasoningEffort'', t_str), (''senderThreadId'', t_str),
     (''receiverThreadIds'', t_slice t_str)]"

definition to_collabAgentToolCall :: "gval \<Rightarrow> collabAgentToolCall" where
  "to_collabAgentToolCall g = \<lparr>cat_ID = f_str g ''id'', cat_Tool = f_str g ''tool'', cat_Status = f_str g ''status'',
     cat_AgentsStates = to_agentStates (gfield g ''agentsStates''),
     cat_Model = f_str g ''model'', cat_Prompt = f_str g ''prompt'',
     cat_ReasoningEffort = f_str g ''reasoningEffort'',
     cat_SenderThreadID = f_str g ''senderThreadId'',
     cat_ReceiverThreadIDs = f_strs g ''receiverThreadIds''\<rparr>"

definition t_subAgentActivity :: gotype where
  "t_subAgentActivity = t_struct
    [(''id'', t_str), (''agentPath'', t_str), (''agentThreadId'', t_str), (''kind'', t_str)]"

definition to_subAgentActivity :: "gval \<Rightarrow> subAgentActivity" where
  "to_subAgentActivity g = \<lparr>saa_ID = f_str g ''id'', saa_AgentPath = f_str g ''agentPath'',
     saa_AgentThreadID = f_str g ''agentThreadId'', saa_Kind = f_str g ''kind''\<rparr>"

definition t_imageView :: gotype where
  "t_imageView = t_struct
    [(''id'', t_str), (''path'', t_str)]"

definition to_imageView :: "gval \<Rightarrow> imageView" where
  "to_imageView g = \<lparr>iv_ID = f_str g ''id'', iv_Path = f_str g ''path''\<rparr>"

definition t_imageGeneration :: gotype where
  "t_imageGeneration = t_struct
    [(''id'', t_str), (''status'', t_str), (''savedPath'', t_str),
     (''revisedPrompt'', t_str), (''result'', t_raw)]"

definition to_imageGeneration :: "gval \<Rightarrow> imageGeneration" where
  "to_imageGeneration g = \<lparr>ig_ID = f_str g ''id'', ig_Status = f_str g ''status'',
     ig_SavedPath = f_str g ''savedPath'', ig_RevisedPrompt = f_str g ''revisedPrompt'',
     ig_Result = f_raw g ''result''\<rparr>"

definition t_enteredReviewMode :: gotype where
  "t_enteredReviewMode = t_struct
    [(''id'', t_str), (''review'', t_raw)]"

definition to_enteredReviewMode :: "gval \<Rightarrow> enteredReviewMode" where
  "to_enteredReviewMode g = \<lparr>erm_ID = f_str g ''id'', erm_Review = f_raw g ''review''\<rparr>"

definition t_exitedReviewMode :: gotype where
  "t_exitedReviewMode = t_struct
    [(''id'', t_str), (''review'', t_raw)]"

definition to_exitedReviewMode :: "gval \<Rightarrow> exitedReviewMode" where
  "to_exitedReviewMode g = \<lparr>xrm_ID = f_str g ''id'', xrm_Review = f_raw g ''review''\<rparr>"

definition t_contextCompaction :: gotype where
  "t_contextCompaction = t_struct
    [(''id'', t_str)]"

definition to_contextCompaction :: "gval \<Rightarrow> contextCompaction" where
  "to_contextCompaction g = \<lparr>cc_ID = f_str g ''id''\<rparr>"

section \<open>Item deltas of the legacy envelope\<close>

definition t_agentMessageDelta :: gotype where
  "t_agentMessageDelta = t_struct
    [(''text_chunk'', t_str)]"

definition to_agentMessageDelta :: "gval \<Rightarrow> agentMessageDelta" where
  "to_agentMessageDelta g = \<lparr>amd_TextChunk = f_str g ''text_chunk''\<rparr>"

definition t_reasoningTextDelta :: gotype where
  "t_reasoningTextDelta = t_struct
    [(''text_chunk'', t_str), (''content_index'', t_int)]"

definition to_reasoningTextDelta :: "gval \<Rightarrow> reasoningTextDelta" where
  "to_reasoningTextDelta g = \<lparr>rtd_TextChunk = f_str g ''text_chunk'', rtd_ContentIndex = f_int g ''content_index''\<rparr>"

definition t_commandOutputDelta :: gotype where
  "t_commandOutputDelta = t_struct
    [(''output_chunk'', t_str)]"

definition to_commandOutputDelta :: "gval \<Rightarrow> commandOutputDelta" where
  "to_commandOutputDelta g = \<lparr>cod_OutputChunk = f_str g ''output_chunk''\<rparr>"

definition t_fileChangeOutputDelta :: gotype where
  "t_fileChangeOutputDelta = t_struct
    [(''diff_chunk'', t_str)]"

definition to_fileChangeOutputDelta :: "gval \<Rightarrow> fileChangeOutputDelta" where
  "to_fileChangeOutputDelta g = \<lparr>fcod_DiffChunk = f_str g ''diff_chunk''\<rparr>"

definition t_mCPToolCallProgress :: gotype where
  "t_mCPToolCallProgress = t_struct
    [(''message'', t_str)]"

definition to_mCPToolCallProgress :: "gval \<Rightarrow> mCPToolCallProgress" where
  "to_mCPToolCallProgress g = \<lparr>mtp_Message = f_str g ''message''\<rparr>"

section \<open>The decoder table\<close>

text \<open>\<open>wrapParseErr\<close>; \<open>json_text\<close> stands for the text of the decoder's own error.\<close>

definition json_text :: string where
  "json_text = ''json''"

definition wrapParseErr :: "string \<Rightarrow> raw \<Rightarrow> goError" where
  "wrapParseErr kind r = MessageParseError (''unmarshal '' @ kind @ '': '' @ json_text) r"

text \<open>\<open>decodeItem\<close> is one body for all item types: the Go type, its reading and the constructor
  of the interface are its type arguments.\<close>

definition decodeItem :: "gotype \<Rightarrow> (gval \<Rightarrow> threadItem) \<Rightarrow> string \<Rightarrow> raw \<Rightarrow> goError + threadItem" where
  "decodeItem t rd kind r =
     (case unmarshal t r of (it, ok) \<Rightarrow>
        if \<not> ok then Inl (wrapParseErr kind r) else Inr (rd it))"

definition itemDecoders :: "(string \<times> (string \<Rightarrow> raw \<Rightarrow> goError + threadItem)) list" where
  "itemDecoders =
  [(''agentMessage'', decodeItem t_agentMessage (\<lambda>g. ItemAgentMessage (to_agentMessage g))),
     (''userMessage'', decodeItem t_userMessage (\<lambda>g. ItemUserMessage (to_userMessage g))),
     (''commandExecution'', decodeItem t_commandExecution (\<lambda>g. ItemCommandExecution (to_commandExecution g))),
     (''fileChange'', decodeItem t_fileChange (\<lambda>g. ItemFileChange (to_fileChange g))),
     (''mcpToolCall'', decodeItem t_mCPToolCall (\<lambda>g. ItemMCPToolCall (to_mCPToolCall g))),
     (''webSearch'', decodeItem t_webSearch (\<lambda>g. ItemWebSearch (to_webSearch g))),
     (''memoryRead'', decodeItem t_memoryRead (\<lambda>g. ItemMemoryRead (to_memoryRead g))),
     (''memoryWrite'', decodeItem t_memoryWrite (\<lambda>g. ItemMemoryWrite (to_memoryWrite g))),
     (''plan'', decodeItem t_plan (\<lambda>g. ItemPlan (to_plan g))),
     (''reasoning'', decodeItem t_reasoning (\<lambda>g. ItemReasoning (to_reasoning g))),
     (''systemError'', decodeItem t_systemError (\<lambda>g. ItemSystemError (to_systemError g))),
     (''hookPrompt'', decodeItem t_hookPrompt (\<lambda>g. ItemHookPrompt (to_hookPrompt g))),
     (''dynamicToolCall'', decodeItem t_dynamicToolCall (\<lambda>g. ItemDynamicToolCall (to_dynamicToolCall g))),
     (''collabAgentToolCall'', decodeItem t_collabAgentToolCall (\<lambda>g. ItemCollabAgentToolCall (to_collabAgentToolCall g))),
     (''subAgentActivity'', decodeItem t_subAgentActivity (\<lambda>g. ItemSubAgentActivity (to_subAgentActivity g))),
     (''imageView'', decodeItem t_imageView (\<lambda>g. ItemImageView (to_imageView g))),
     (''imageGeneration'', decodeItem t_imageGeneration (\<lambda>g. ItemImageGeneration (to_imageGeneration g))),
     (''enteredReviewMode'', decodeItem t_enteredReviewMode (\<lambda>g. ItemEnteredReviewMode (to_enteredReviewMode g))),
     (''exitedReviewMode'', decodeItem t_exitedReviewMode (\<lambda>g. ItemExitedReviewMode (to_exitedReviewMode g))),
     (''contextCompaction'', decodeItem t_contextCompaction (\<lambda>g. ItemContextCompaction (to_contextCompaction g)))]"

section \<open>ParseItem and ParseItemDelta\<close>

definition t_disc :: gotype where
  "t_disc = t_struct [(''type'', t_str)]"

definition ParseItem :: "raw \<Rightarrow> goError + threadItem" where
  "ParseItem r =
     (if r = None then Inl (MessageParseError ''empty item payload'' None)
      else (case unmarshal t_disc r of (disc, ok) \<Rightarrow>
        if \<not> ok then Inl (JSONDecodeError r json_cause)
        else (case map_of itemDecoders (f_str disc ''type'') of
            Some decode \<Rightarrow> decode (f_str disc ''type'') r
          | None \<Rightarrow> Inr (ItemUnknownItem \<lparr>ui_Type = f_str disc ''type'', ui_Raw = r\<rparr>))))"

definition decodeDelta :: "gotype \<Rightarrow> (gval \<Rightarrow> itemDelta) \<Rightarrow> string \<Rightarrow> raw \<Rightarrow> goError + itemDelta" where
  "decodeDelta t rd kind r =
     (case unmarshal t r of (d, ok) \<Rightarrow>
        if \<not> ok then Inl (wrapParseErr kind r) else Inr (rd d))"

definition ParseItemDelta :: "raw \<Rightarrow> goError + itemDelta" where
  "ParseItemDelta r =
     (if r = None then Inl (MessageParseError ''empty delta payload'' None)
      else (case unmarshal t_disc r of (disc, ok) \<Rightarrow>
        if \<not> ok then Inl (JSONDecodeError r json_cause)
        else let ty = f_str disc ''type'' in
          if ty = ''agent_message_delta'' then
            decodeDelta t_agentMessageDelta (\<lambda>g. DeltaAgentMessageDelta (to_agentMessageDelta g)) ty r
          else if ty = ''reasoning_delta'' then
            decodeDelta t_reasoningTextDelta (\<lambda>g. DeltaReasoningTextDelta (to_reasoningTextDelta g)) ty r
          else if ty = ''command_output_delta'' then
            decodeDelta t_commandOutputDelta (\<lambda>g. DeltaCommandOutputDelta (to_commandOutputDelta g)) ty r
          else if ty = ''file_change_output_delta'' then
            decodeDelta t_fileChangeOutputDelta (\<lambda>g. DeltaFileChangeOutputDelta (to_fileChangeOutputDelta g)) ty r
          else if ty = ''mcp_tool_call_progress'' then
            decodeDelta t_mCPToolCallProgress (\<lambda>g. DeltaMCPToolCallProgress (to_mCPToolCallProgress g)) ty r
          else Inr (DeltaUnknownDelta \<lparr>ud_Type = ty, ud_Raw = r\<rparr>)))"

section \<open>Lemmas\<close>

lemma ParseItem_unknown:
  "r \<noteq> None \<Longrightarrow> unmarshal t_disc r = (disc, True) \<Longrightarrow> map_of itemDecoders (f_str disc ''type'') = None
     \<Longrightarrow> ParseItem r = Inr (ItemUnknownItem \<lparr>ui_Type = f_str disc ''type'', ui_Raw = r\<rparr>)"
  by (cases r) (simp_all add: ParseItem_def)

lemma ParseItem_known:
  "r \<noteq> None \<Longrightarrow> unmarshal t_disc r = (disc, True) \<Longrightarrow> map_of itemDecoders (f_str disc ''type'') = Some dec
     \<Longrightarrow> ParseItem r = dec (f_str disc ''type'') r"
  by (cases r) (simp_all add: ParseItem_def)

text \<open>Every entry of the table decodes to an item whose discriminator is the entry's key.\<close>

definition decoder_ok :: "string \<times> (string \<Rightarrow> raw \<Rightarrow> goError + threadItem) \<Rightarrow> bool" where
  "decoder_ok e = (\<forall>kind r it. snd e kind r = Inr it \<longrightarrow> itemType it = fst e)"

lemma decoder_ok_decodeItem:
  "(\<And>g. itemType (rd g) = k) \<Longrightarrow> decoder_ok (k, decodeItem t rd)"
  by (auto simp: decoder_ok_def decodeItem_def split: prod.splits if_splits)

lemma itemDecoders_ok: "list_all decoder_ok itemDecoders"
  by (simp add: itemDecoders_def decoder_ok_decodeItem)

lemma decodeItem_error:
  "decodeItem t rd kind r = Inl e \<Longrightarrow> e = wrapParseErr kind r"
  by (auto simp: decodeItem_def split: prod.splits if_splits)

lemma itemDecoders_error:
  "map_of itemDecoders k = Some dec \<Longrightarrow> dec kind r = Inl e \<Longrightarrow> e = wrapParseErr kind r"
proof -
  have "list_all (\<lambda>d. \<forall>kind r e. snd d kind r = Inl e \<longrightarrow> e = wrapParseErr kind r) itemDecoders"
    by (simp add: itemDecoders_def decodeItem_error)
  then show "map_of itemDecoders k = Some dec \<Longrightarrow> dec kind r = Inl e \<Longrightarrow> e = wrapParseErr kind r"
    by (auto simp: list_all_iff dest!: map_of_SomeD)
qed

section \<open>Properties\<close>

text \<open>C39: An item is parsed into the type its wire discriminator names: whatever \<open>ParseItem\<close>
  returns, known or unknown, \<open>ItemType\<close> of it is the payload's \<open>type\<close>.\<close>

theorem ParseItem_discriminator:
  assumes "ParseItem r = Inr it"
  shows "itemType it = f_str (fst (unmarshal t_disc r)) ''type''"
proof -
  obtain disc ok where d: "unmarshal t_disc r = (disc, ok)" by fastforce
  show ?thesis
  proof (cases "map_of itemDecoders (f_str disc ''type'')")
    case None
    with assms d show ?thesis by (auto simp: ParseItem_def split: if_splits)
  next
    case (Some dec)
    then have "decoder_ok (f_str disc ''type'', dec)"
      using itemDecoders_ok by (auto simp: list_all_iff dest!: map_of_SomeD)
    with assms d Some show ?thesis by (auto simp: ParseItem_def decoder_ok_def split: if_splits)
  qed
qed

theorem ParseItem_discriminator_witness:
  "itemType (ItemPlan \<lparr>pl_ID = [], pl_Text = ''do'', pl_Status = []\<rparr>) = ''plan''"
proof -
  let ?r = "Some (JObj [(''type'', JStr ''plan''), (''text'', JStr ''do'')])"
  have "ParseItem ?r = Inr (ItemPlan \<lparr>pl_ID = [], pl_Text = ''do'', pl_Status = []\<rparr>)"
    by (simp add: ParseItem_def t_disc_def itemDecoders_def decodeItem_def t_plan_def to_plan_def json_eval)
  from ParseItem_discriminator [OF this] show ?thesis
    by (simp add: t_disc_def json_eval)
qed

text \<open>\<open>ParseItem\<close> is total and forward compatible: it fails only on an empty payload, on a payload
  that has no string discriminator, or with the parse error of a type it knows; a payload with a
  discriminator outside the table is kept whole as an \<open>UnknownItem\<close>.\<close>

theorem ParseItem_total:
  "(r = None \<and> ParseItem r = Inl (MessageParseError ''empty item payload'' None)) \<or>
   (r \<noteq> None \<and> \<not> snd (unmarshal t_disc r) \<and> ParseItem r = Inl (JSONDecodeError r json_cause)) \<or>
   (r \<noteq> None \<and> snd (unmarshal t_disc r) \<and>
     (let ty = f_str (fst (unmarshal t_disc r)) ''type'' in
      if ty \<in> set (map fst itemDecoders)
      then ParseItem r = Inl (wrapParseErr ty r) \<or> (\<exists>it. ParseItem r = Inr it \<and> itemType it = ty)
      else ParseItem r = Inr (ItemUnknownItem \<lparr>ui_Type = ty, ui_Raw = r\<rparr>)))"
proof -
  obtain disc ok where d: "unmarshal t_disc r = (disc, ok)" by fastforce
  show ?thesis
  proof (cases "map_of itemDecoders (f_str disc ''type'')")
    case None
    then have "f_str disc ''type'' \<notin> set (map fst itemDecoders)"
      by (simp add: map_of_eq_None_iff)
    with None d show ?thesis by (auto simp: ParseItem_def Let_def)
  next
    case (Some dec)
    then have "f_str disc ''type'' \<in> set (map fst itemDecoders)"
      using map_of_eq_None_iff [of itemDecoders "f_str disc ''type''"] by auto
    moreover have "decoder_ok (f_str disc ''type'', dec)"
      using itemDecoders_ok Some by (auto simp: list_all_iff dest!: map_of_SomeD)
    ultimately show ?thesis
      using Some d itemDecoders_error [OF Some]
      by (cases "dec (f_str disc ''type'') r") (auto simp: ParseItem_def decoder_ok_def Let_def)
  qed
qed

end
