(* ===== verification/Events_Thread.thy ===== *)
theory Events_Thread
  imports Json
begin

text \<open>
  The events of \<open>types/events_thread.go\<close>, \<open>types/events_turn.go\<close> and
  \<open>types/events_realtime.go\<close>: one record per struct, whose fields carry the struct's name, and the
  methods they stand for.
\<close>

record threadArchived =
  threadArchived_ThreadID :: "string"

record threadUnarchived =
  threadUnarchived_ThreadID :: "string"

record threadClosed =
  threadClosed_ThreadID :: "string"

record threadDeleted =
  threadDeleted_ThreadID :: "string"

record threadNameUpdated =
  threadNameUpdated_ThreadID :: "string"
  threadNameUpdated_ThreadName :: "string ptr"

record threadStatusChanged =
  threadStatusChanged_ThreadID :: "string"
  threadStatusChanged_Status :: "raw"

record threadSettingsUpdated =
  threadSettingsUpdated_ThreadID :: "string"
  threadSettingsUpdated_ThreadSettings :: "raw"

record contextCompacted =
  contextCompacted_ThreadID :: "string"
  contextCompacted_TurnID :: "string"

record threadGoalUpdated =
  threadGoalUpdated_ThreadID :: "string"
  threadGoalUpdated_TurnID :: "string ptr"
  threadGoalUpdated_Goal :: "raw"

record threadGoalCleared =
  threadGoalCleared_ThreadID :: "string"

record turnDiffUpdated =
  turnDiffUpdated_ThreadID :: "string"
  turnDiffUpdated_TurnID :: "string"
  turnDiffUpdated_Diff :: "string"

record turnPlanUpdated =
  turnPlanUpdated_ThreadID :: "string"
  turnPlanUpdated_TurnID :: "string"
  turnPlanUpdated_Plan :: "raw"
  turnPlanUpdated_Explanation :: "string ptr"

record turnModerationMetadata =
  turnModerationMetadata_ThreadID :: "string"
  turnModerationMetadata_TurnID :: "string"
  turnModerationMetadata_Metadata :: "raw"

record itemGuardianApprovalReviewStarted =
  itemGuardianApprovalReviewStarted_ThreadID :: "string"
  itemGuardianApprovalReviewStarted_TurnID :: "string"
  itemGuardianApprovalReviewStarted_ReviewID :: "string"
  itemGuardianApprovalReviewStarted_TargetItemID :: "string ptr"
  itemGuardianApprovalReviewStarted_Action :: "raw"
  itemGuardianApprovalReviewStarted_Review :: "raw"

record itemGuardianApprovalReviewCompleted =
  itemGuardianApprovalReviewCompleted_ThreadID :: "string"
  itemGuardianApprovalReviewCompleted_TurnID :: "string"
  itemGuardianApprovalReviewCompleted_ReviewID :: "string"
  itemGuardianApprovalReviewCompleted_TargetItemID :: "string ptr"
  itemGuardianApprovalReviewCompleted_Action :: "raw"
  itemGuardianApprovalReviewCompleted_Review :: "raw"
  itemGuardianApprovalReviewCompleted_DecisionSource :: "raw"

record fileChangePatchUpdated =
  fileChangePatchUpdated_ThreadID :: "string"
  fileChangePatchUpdated_TurnID :: "string"
  fileChangePatchUpdated_ItemID :: "string"
  fileChangePatchUpdated_Changes :: "raw"

record threadRealtimeStarted =
  threadRealtimeStarted_ThreadID :: "string"
  threadRealtimeStarted_Params :: "raw"

record threadRealtimeClosed =
  threadRealtimeClosed_ThreadID :: "string"
  threadRealtimeClosed_Params :: "raw"

record threadRealtimeError =
  threadRealtimeError_ThreadID :: "string"
  threadRealtimeError_Params :: "raw"

record threadRealtimeItemAdded =
  threadRealtimeItemAdded_ThreadID :: "string"
  threadRealtimeItemAdded_Params :: "raw"

record threadRealtimeOutputAudioDelta =
  threadRealtimeOutputAudioDelta_ThreadID :: "string"
  threadRealtimeOutputAudioDelta_Params :: "raw"

record threadRealtimeSdp =
  threadRealtimeSdp_ThreadID :: "string"
  threadRealtimeSdp_Params :: "raw"

record threadRealtimeTranscriptDelta =
  threadRealtimeTranscriptDelta_ThreadID :: "string"
  threadRealtimeTranscriptDelta_Params :: "raw"

record threadRealtimeTranscriptDone =
  threadRealtimeTranscriptDone_ThreadID :: "string"
  threadRealtimeTranscriptDone_Params :: "raw"

datatype eventOfThread =
    EvThreadArchived threadArchived
  | EvThreadUnarchived threadUnarchived
  | EvThreadClosed threadClosed
  | EvThreadDeleted threadDeleted
  | EvThreadNameUpdated threadNameUpdated
  | EvThreadStatusChanged threadStatusChanged
  | EvThreadSettingsUpdated threadSettingsUpdated
  | EvContextCompacted contextCompacted
  | EvThreadGoalUpdated threadGoalUpdated
  | EvThreadGoalCleared threadGoalCleared
  | EvTurnDiffUpdated turnDiffUpdated
  | EvTurnPlanUpdated turnPlanUpdated
  | EvTurnModerationMetadata turnModerationMetadata
  | EvItemGuardianApprovalReviewStarted itemGuardianApprovalReviewStarted
  | EvItemGuardianApprovalReviewCompleted itemGuardianApprovalReviewCompleted
  | EvFileChangePatchUpdated fileChangePatchUpdated
  | EvThreadRealtimeStarted threadRealtimeStarted
  | EvThreadRealtimeClosed threadRealtimeClosed
  | EvThreadRealtimeError threadRealtimeError
  | EvThreadRealtimeItemAdded threadRealtimeItemAdded
  | EvThreadRealtimeOutputAudioDelta threadRealtimeOutputAudioDelta
  | EvThreadRealtimeSdp threadRealtimeSdp
  | EvThreadRealtimeTranscriptDelta threadRealtimeTranscriptDelta
  | EvThreadRealtimeTranscriptDone threadRealtimeTranscriptDone

fun eventMethod_thread :: "eventOfThread \<Rightarrow> string" where
  "eventMethod_thread (EvThreadArchived e) = ''thread/archived''"
| "eventMethod_thread (EvThreadUnarchived e) = ''thread/unarchived''"
| "eventMethod_thread (EvThreadClosed e) = ''thread/closed''"
| "eventMethod_thread (EvThreadDeleted e) = ''thread/deleted''"
| "eventMethod_thread (EvThreadNameUpdated e) = ''thread/name/updated''"
| "eventMethod_thread (EvThreadStatusChanged e) = ''thread/status/changed''"
| "eventMethod_thread (EvThreadSettingsUpdated e) = ''thread/settings/updated''"
| "eventMethod_thread (EvContextCompacted e) = ''thread/compacted''"
| "eventMethod_thread (EvThreadGoalUpdated e) = ''thread/goal/updated''"
| "eventMethod_thread (EvThreadGoalCleared e) = ''thread/goal/cleared''"
| "eventMethod_thread (EvTurnDiffUpdated e) = ''turn/diff/updated''"
| "eventMethod_thread (EvTurnPlanUpdated e) = ''turn/plan/updated''"
| "eventMethod_thread (EvTurnModerationMetadata e) = ''turn/moderationMetadata''"
| "eventMethod_thread (EvItemGuardianApprovalReviewStarted e) = ''item/autoApprovalReview/started''"
| "eventMethod_thread (EvItemGuardianApprovalReviewCompleted e) = ''item/autoApprovalReview/completed''"
| "eventMethod_thread (EvFileChangePatchUpdated e) = ''item/fileChange/patchUpdated''"
| "eventMethod_thread (EvThreadRealtimeStarted e) = ''thread/realtime/started''"
| "eventMethod_thread (EvThreadRealtimeClosed e) = ''thread/realtime/closed''"
| "eventMethod_thread (EvThreadRealtimeError e) = ''thread/realtime/error''"
| "eventMethod_thread (EvThreadRealtimeItemAdded e) = ''thread/realtime/itemAdded''"
| "eventMethod_thread (EvThreadRealtimeOutputAudioDelta e) = ''thread/realtime/outputAudio/delta''"
| "eventMethod_thread (EvThreadRealtimeSdp e) = ''thread/realtime/sdp''"
| "eventMethod_thread (EvThreadRealtimeTranscriptDelta e) = ''thread/realtime/transcript/delta''"
| "eventMethod_thread (EvThreadRealtimeTranscriptDone e) = ''thread/realtime/transcript/done''"

end
