(* ===== verification/Events_System.thy ===== *)
theory Events_System
  imports Json
begin

text \<open>
  The events of \<open>types/events_system.go\<close> and the hook events of \<open>types/hooks.go\<close>: one record per
  struct and the methods they stand for. The named string types (hook event names, scopes,
  statuses) are strings, as on the wire: the code compares them but never rejects one.
\<close>

record hookOutputEntry =
  hookOutputEntry_Kind :: "string"
  hookOutputEntry_Text :: "string"

record hookRunSummary =
  hookRunSummary_ID :: "string"
  hookRunSummary_EventName :: "string"
  hookRunSummary_HandlerType :: "string"
  hookRunSummary_ExecutionMode :: "string"
  hookRunSummary_Scope :: "string"
  hookRunSummary_SourcePath :: "string"
  hookRunSummary_Entries :: "hookOutputEntry slice"
  hookRunSummary_Status :: "string"
  hookRunSummary_StatusMessage :: "string ptr"
  hookRunSummary_DisplayOrder :: "int"
  hookRunSummary_StartedAt :: "int"
  hookRunSummary_CompletedAt :: "int ptr"
  hookRunSummary_DurationMs :: "int ptr"

record mCPServerStartupStatusUpdated =
  mCPServerStartupStatusUpdated_ThreadID :: "string ptr"
  mCPServerStartupStatusUpdated_Name :: "string"
  mCPServerStartupStatusUpdated_Status :: "raw"
  mCPServerStartupStatusUpdated_Error :: "string ptr"
  mCPServerStartupStatusUpdated_FailureReason :: "string ptr"

record mCPServerOAuthLoginCompleted =
  mCPServerOAuthLoginCompleted_ThreadID :: "string ptr"
  mCPServerOAuthLoginCompleted_Name :: "string"
  mCPServerOAuthLoginCompleted_Success :: "bool"
  mCPServerOAuthLoginCompleted_Error :: "string ptr"

record accountLoginCompleted =
  accountLoginCompleted_Success :: "bool"
  accountLoginCompleted_LoginID :: "string ptr"
  accountLoginCompleted_Error :: "string ptr"

record accountRateLimitsUpdated =
  accountRateLimitsUpdated_RateLimits :: "raw"

record accountUpdated =
  accountUpdated_AuthMode :: "raw"
  accountUpdated_PlanType :: "raw"

record modelRerouted =
  modelRerouted_ThreadID :: "string"
  modelRerouted_TurnID :: "string"
  modelRerouted_FromModel :: "string"
  modelRerouted_ToModel :: "string"
  modelRerouted_Reason :: "raw"

record modelVerification =
  modelVerification_ThreadID :: "string"
  modelVerification_TurnID :: "string"
  modelVerification_Verifications :: "raw"

record modelSafetyBufferingUpdated =
  modelSafetyBufferingUpdated_ThreadID :: "string"
  modelSafetyBufferingUpdated_TurnID :: "string"
  modelSafetyBufferingUpdated_Model :: "string"
  modelSafetyBufferingUpdated_Reasons :: "string slice"
  modelSafetyBufferingUpdated_ShowBufferingUI :: "bool"
  modelSafetyBufferingUpdated_UseCases :: "string slice"
  modelSafetyBufferingUpdated_FasterModel :: "string ptr"

record configWarning =
  configWarning_Summary :: "string"
  configWarning_Details :: "string ptr"
  configWarning_Path :: "string ptr"
  configWarning_Range :: "raw"

record deprecationNotice =
  deprecationNotice_Summary :: "string"
  deprecationNotice_Details :: "string ptr"

record warning =
  warning_ThreadID :: "string ptr"
  warning_Message :: "string"

record guardianWarning =
  guardianWarning_ThreadID :: "string"
  guardianWarning_Message :: "string"

record fsChanged =
  fsChanged_WatchID :: "string"
  fsChanged_ChangedPaths :: "string slice"

record appListUpdated =
  appListUpdated_Data :: "raw"

record serverRequestResolved =
  serverRequestResolved_ThreadID :: "string"
  serverRequestResolved_RequestID :: "raw"

record processOutputDelta =
  processOutputDelta_ProcessHandle :: "string"
  processOutputDelta_Stream :: "string"
  processOutputDelta_DeltaBase64 :: "string"
  processOutputDelta_CapReached :: "bool"

record processExited =
  processExited_ProcessHandle :: "string"
  processExited_ExitCode :: "int"
  processExited_Stdout :: "string"
  processExited_Stderr :: "string"
  processExited_StdoutCapReached :: "bool"
  processExited_StderrCapReached :: "bool"

record commandExecOutputDelta =
  commandExecOutputDelta_ProcessID :: "string"
  commandExecOutputDelta_Stream :: "string"
  commandExecOutputDelta_DeltaBase64 :: "string"
  commandExecOutputDelta_CapReached :: "bool"

record remoteControlStatusChanged =
  remoteControlStatusChanged_EnvironmentID :: "string ptr"
  remoteControlStatusChanged_Status :: "string"

record externalAgentConfigImportCompleted =
  externalAgentConfigImportCompleted_Params :: "raw"

record externalAgentConfigImportProgress =
  externalAgentConfigImportProgress_ImportID :: "string"
  externalAgentConfigImportProgress_ItemTypeResults :: "raw"

record windowsWorldWritableWarning =
  windowsWorldWritableWarning_ExtraCount :: "int"
  windowsWorldWritableWarning_FailedScan :: "bool"
  windowsWorldWritableWarning_SamplePaths :: "string slice"

record windowsSandboxSetupCompleted =
  windowsSandboxSetupCompleted_Success :: "bool"
  windowsSandboxSetupCompleted_Mode :: "raw"
  windowsSandboxSetupCompleted_Error :: "string ptr"

record fuzzyFileSearchSessionUpdated =
  fuzzyFileSearchSessionUpdated_Params :: "raw"

record fuzzyFileSearchSessionCompleted =
  fuzzyFileSearchSessionCompleted_Params :: "raw"

record hookStarted =
  hookStarted_ThreadID :: "string"
  hookStarted_TurnID :: "string ptr"
  hookStarted_Run :: "hookRunSummary"

record hookCompleted =
  hookCompleted_ThreadID :: "string"
  hookCompleted_TurnID :: "string ptr"
  hookCompleted_Run :: "hookRunSummary"

datatype eventOfSystem =
    EvMCPServerStartupStatusUpdated mCPServerStartupStatusUpdated
  | EvMCPServerOAuthLoginCompleted mCPServerOAuthLoginCompleted
  | EvAccountLoginCompleted accountLoginCompleted
  | EvAccountRateLimitsUpdated accountRateLimitsUpdated
  | EvAccountUpdated accountUpdated
  | EvModelRerouted modelRerouted
  | EvModelVerification modelVerification
  | EvModelSafetyBufferingUpdated modelSafetyBufferingUpdated
  | EvConfigWarning configWarning
  | EvDeprecationNotice deprecationNotice
  | EvWarning warning
  | EvGuardianWarning guardianWarning
  | EvFsChanged fsChanged
  | EvSkillsChanged
  | EvAppListUpdated appListUpdated
  | EvServerRequestResolved serverRequestResolved
  | EvProcessOutputDelta processOutputDelta
  | EvProcessExited processExited
  | EvCommandExecOutputDelta commandExecOutputDelta
  | EvRemoteControlStatusChanged remoteControlStatusChanged
  | EvExternalAgentConfigImportCompleted externalAgentConfigImportCompleted
  | EvExternalAgentConfigImportProgress externalAgentConfigImportProgress
  | EvWindowsWorldWritableWarning windowsWorldWritableWarning
  | EvWindowsSandboxSetupCompleted windowsSandboxSetupCompleted
  | EvFuzzyFileSearchSessionUpdated fuzzyFileSearchSessionUpdated
  | EvFuzzyFileSearchSessionCompleted fuzzyFileSearchSessionCompleted
  | EvHookStarted hookStarted
  | EvHookCompleted hookCompleted

fun eventMethod_system :: "eventOfSystem \<Rightarrow> string" where
  "eventMethod_system (EvMCPServerStartupStatusUpdated e) = ''mcpServer/startupStatus/updated''"
| "eventMethod_system (EvMCPServerOAuthLoginCompleted e) = ''mcpServer/oauthLogin/completed''"
| "eventMethod_system (EvAccountLoginCompleted e) = ''account/login/completed''"
| "eventMethod_system (EvAccountRateLimitsUpdated e) = ''account/rateLimits/updated''"
| "eventMethod_system (EvAccountUpdated e) = ''account/updated''"
| "eventMethod_system (EvModelRerouted e) = ''model/rerouted''"
| "eventMethod_system (EvModelVerification e) = ''model/verification''"
| "eventMethod_system (EvModelSafetyBufferingUpdated e) = ''model/safetyBuffering/updated''"
| "eventMethod_system (EvConfigWarning e) = ''configWarning''"
| "eventMethod_system (EvDeprecationNotice e) = ''deprecationNotice''"
| "eventMethod_system (EvWarning e) = ''warning''"
| "eventMethod_system (EvGuardianWarning e) = ''guardianWarning''"
| "eventMethod_system (EvFsChanged e) = ''fs/changed''"
| "eventMethod_system EvSkillsChanged = ''skills/changed''"
| "eventMethod_system (EvAppListUpdated e) = ''app/list/updated''"
| "eventMethod_system (EvServerRequestResolved e) = ''serverRequest/resolved''"
| "eventMethod_system (EvProcessOutputDelta e) = ''process/outputDelta''"
| "eventMethod_system (EvProcessExited e) = ''process/exited''"
| "eventMethod_system (EvCommandExecOutputDelta e) = ''command/exec/outputDelta''"
| "eventMethod_system (EvRemoteControlStatusChanged e) = ''remoteControl/status/changed''"
| "eventMethod_system (EvExternalAgentConfigImportCompleted e) = ''externalAgentConfig/import/completed''"
| "eventMethod_system (EvExternalAgentConfigImportProgress e) = ''externalAgentConfig/import/progress''"
| "eventMethod_system (EvWindowsWorldWritableWarning e) = ''windows/worldWritableWarning''"
| "eventMethod_system (EvWindowsSandboxSetupCompleted e) = ''windowsSandbox/setupCompleted''"
| "eventMethod_system (EvFuzzyFileSearchSessionUpdated e) = ''fuzzyFileSearch/sessionUpdated''"
| "eventMethod_system (EvFuzzyFileSearchSessionCompleted e) = ''fuzzyFileSearch/sessionCompleted''"
| "eventMethod_system (EvHookStarted e) = ''hook/started''"
| "eventMethod_system (EvHookCompleted e) = ''hook/completed''"

end
