(* ===== verification/Events.thy ===== *)
theory Events
  imports Items Events_Thread Events_System
begin

text \<open>
  The events of \<open>types/events.go\<close> (thread, turn and item lifecycle, token usage, errors and the
  forward-compatible \<open>UnknownEvent\<close>) with the usage counters of \<open>types/usage.go\<close>, and the sealed
  interface \<open>ThreadEvent\<close>. The interface is grouped by the source file its members are declared
  in: \<open>EvThread\<close> and \<open>EvSystem\<close> embed the members of the other two theories.
\<close>

section \<open>Token usage\<close>

record tokenUsage =
  tu_TotalTokens :: int
  tu_InputTokens :: int
  tu_CachedInputTokens :: int
  tu_OutputTokens :: int
  tu_ReasoningOutputTokens :: int

definition zero_usage :: tokenUsage where
  "zero_usage = \<lparr>tu_TotalTokens = 0, tu_InputTokens = 0, tu_CachedInputTokens = 0,
                 tu_OutputTokens = 0, tu_ReasoningOutputTokens = 0\<rparr>"

text \<open>\<open>TokenUsage.Add\<close>, in 64-bit arithmetic.\<close>

definition usage_Add :: "tokenUsage \<Rightarrow> tokenUsage \<Rightarrow> tokenUsage" where
  "usage_Add u v =
     \<lparr>tu_TotalTokens = wrap64 (tu_TotalTokens u + tu_TotalTokens v),
      tu_InputTokens = wrap64 (tu_InputTokens u + tu_InputTokens v),
      tu_CachedInputTokens = wrap64 (tu_CachedInputTokens u + tu_CachedInputTokens v),
      tu_OutputTokens = wrap64 (tu_OutputTokens u + tu_OutputTokens v),
      tu_ReasoningOutputTokens = wrap64 (tu_ReasoningOutputTokens u + tu_ReasoningOutputTokens v)\<rparr>"

lemma usage_Add_commute: "usage_Add u v = usage_Add v u"
  by (simp add: usage_Add_def add.commute)

section \<open>Event structs\<close>

record threadStarted =
  threadStarted_ThreadID :: "string"

record turnStarted =
  turnStarted_ThreadID :: "string"
  turnStarted_TurnID :: "string"

record turnCompleted =
  turnCompleted_ThreadID :: "string"
  turnCompleted_TurnID :: "string"
  turnCompleted_Status :: "string"
  turnCompleted_Error :: "string"
  turnCompleted_Usage :: "tokenUsage"

record turnFailed =
  turnFailed_ThreadID :: "string"
  turnFailed_TurnID :: "string"
  turnFailed_Code :: "string"
  turnFailed_Message :: "string"

record itemStarted =
  itemStarted_ThreadID :: "string"
  itemStarted_TurnID :: "string"
  itemStarted_ItemID :: "string"
  itemStarted_Item :: "threadItem"

record itemUpdated =
  itemUpdated_ThreadID :: "string"
  itemUpdated_TurnID :: "string"
  itemUpdated_ItemID :: "string"
  itemUpdated_Delta :: "itemDelta"

record itemCompleted =
  itemCompleted_ThreadID :: "string"
  itemCompleted_TurnID :: "string"
  itemCompleted_ItemID :: "string"
  itemCompleted_Item :: "threadItem"

record tokenUsageUpdated =
  tokenUsageUpdated_ThreadID :: "string"
  tokenUsageUpdated_Usage :: "tokenUsage"
  tokenUsageUpdated_LastUsage :: "tokenUsage"
  tokenUsageUpdated_TotalUsage :: "tokenUsage"
  tokenUsageUpdated_ModelContextWindow :: "int"

record errorEvent =
  errorEvent_ThreadID :: "string"
  errorEvent_TurnID :: "string"
  errorEvent_WillRetry :: "bool"
  errorEvent_Code :: "string"
  errorEvent_Message :: "string"
  errorEvent_AdditionalDetails :: "string ptr"
  errorEvent_CodexErrorInfo :: "raw"
  errorEvent_Context :: "raw"

record unknownEvent =
  unknownEvent_Method :: "string"
  unknownEvent_Params :: "raw"
  unknownEvent_ThreadID :: "string"
  unknownEvent_TurnID :: "string"
  unknownEvent_ItemID :: "string"

section \<open>The sealed interface\<close>

datatype threadEvent =
    EvThreadStarted threadStarted
  | EvTurnStarted turnStarted
  | EvTurnCompleted turnCompleted
  | EvTurnFailed turnFailed
  | EvItemStarted itemStarted
  | EvItemUpdated itemUpdated
  | EvItemCompleted itemCompleted
  | EvTokenUsageUpdated tokenUsageUpdated
  | EvErrorEvent errorEvent
  | EvUnknownEvent unknownEvent
  | EvThread eventOfThread
  | EvSystem eventOfSystem

fun eventMethod :: "threadEvent \<Rightarrow> string" where
  "eventMethod (EvThreadStarted e) = ''thread/started''"
| "eventMethod (EvTurnStarted e) = ''turn/started''"
| "eventMethod (EvTurnCompleted e) = ''turn/completed''"
| "eventMethod (EvTurnFailed e) = ''turn/failed''"
| "eventMethod (EvItemStarted e) = ''item/started''"
| "eventMethod (EvItemUpdated e) = ''item/updated''"
| "eventMethod (EvItemCompleted e) = ''item/completed''"
| "eventMethod (EvTokenUsageUpdated e) = ''thread/tokenUsage/updated''"
| "eventMethod (EvErrorEvent e) = ''error''"
| "eventMethod (EvUnknownEvent e) = unknownEvent_Method e"
| "eventMethod (EvThread e) = eventMethod_thread e"
| "eventMethod (EvSystem e) = eventMethod_system e"

end
