(* ===== verification/Events_Parser.thy ===== *)
theory Events_Parser
  imports Items_Parser Events
begin

text \<open>
  The event parser of \<open>internal/events/parser*.go\<close>: one definition per parse function, named as in
  the source, the two dispatch tables \<open>eventParsers\<close> and \<open>rawEventBuilders\<close> with the source's keys,
  and \<open>ParseEvent\<close>. Parsers that decode a flat envelope into one event read their anonymous struct
  through \<open>unmarshalTo\<close>; the envelope with the nested thread and turn objects is
  \<open>identifiersEnvelope\<close>. The properties say that \<open>ParseEvent\<close> never loses a notification: unknown
  methods are kept whole, known ones give an event of their own method or a decoding error.
\<close>

section \<open>Envelopes\<close>

definition cloneRaw :: "raw \<Rightarrow> raw" where
  "cloneRaw r = (case r of None \<Rightarrow> None | Some j \<Rightarrow> Some j)"

definition unmarshalTo :: "gotype \<Rightarrow> raw \<Rightarrow> goError + gval" where
  "unmarshalTo t r =
     (if r = None then Inr (zero_of t)
      else (case unmarshal t r of (v, ok) \<Rightarrow>
        if \<not> ok then Inl (JSONDecodeError r json_cause) else Inr v))"

definition t_tokenUsage :: gotype where
  "t_tokenUsage = t_struct [(''totalTokens'', t_int), (''inputTokens'', t_int),
     (''cachedInputTokens'', t_int), (''outputTokens'', t_int), (''reasoningOutputTokens'', t_int)]"

definition to_tokenUsage :: "gval \<Rightarrow> tokenUsage" where
  "to_tokenUsage g = \<lparr>tu_TotalTokens = f_int g ''totalTokens'', tu_InputTokens = f_int g ''inputTokens'',
     tu_CachedInputTokens = f_int g ''cachedInputTokens'', tu_OutputTokens = f_int g ''outputTokens'',
     tu_ReasoningOutputTokens = f_int g ''reasoningOutputTokens''\<rparr>"

definition t_idWrapper :: gotype where
  "t_idWrapper = t_struct [(''id'', t_str)]"

definition identifiersEnvelope :: gotype where
  "identifiersEnvelope = t_struct
    [(''threadId'', t_str), (''turnId'', t_str), (''itemId'', t_str),
     (''thread'', t_ptr t_idWrapper), (''turn'', t_ptr t_idWrapper), (''item'', t_raw),
     (''delta'', t_raw), (''status'', t_str), (''usage'', t_ptr t_tokenUsage), (''code'', t_str),
     (''message'', t_str), (''tokens_freed'', t_int), (''strategy'', t_str), (''context'', t_raw),
     (''error'', t_raw), (''willRetry'', t_bool)]"

text \<open>An empty string falls back to the nested object when there is one.\<close>

definition or_nested :: "string \<Rightarrow> gval ptr \<Rightarrow> string" where
  "or_nested s obj = (if s = [] then (case obj of None \<Rightarrow> s | Some g \<Rightarrow> f_str g ''id'') else s)"

definition resolveIDs :: "gval \<Rightarrow> string \<times> string \<times> string" where
  "resolveIDs e = (or_nested (f_str e ''threadId'') (f_ptr e ''thread''),
                   or_nested (f_str e ''turnId'') (f_ptr e ''turn''),
                   f_str e ''itemId'')"

definition unmarshalEnvelope :: "raw \<Rightarrow> goError + gval" where
  "unmarshalEnvelope r = unmarshalTo identifiersEnvelope r"

definition extractUnknownEventIDs :: "raw \<Rightarrow> string \<times> string \<times> string" where
  "extractUnknownEventIDs r =
     (case unmarshalEnvelope r of Inl e \<Rightarrow> ([], [], []) | Inr env \<Rightarrow> resolveIDs env)"

text \<open>The error of this decoding is ignored; what was decoded before it counts.\<close>

definition extractItemID :: "raw \<Rightarrow> string" where
  "extractItemID r = f_str (fst (unmarshal t_idWrapper r)) ''id''"

section \<open>Lifecycle parsers\<close>

definition parseThreadStarted :: "raw \<Rightarrow> goError + threadEvent" where
  "parseThreadStarted r =
     (case unmarshalEnvelope r of Inl e \<Rightarrow> Inl e
      | Inr env \<Rightarrow> Inr (EvThreadStarted \<lparr>threadStarted_ThreadID = fst (resolveIDs env)\<rparr>))"

definition parseTurnStarted :: "raw \<Rightarrow> goError + threadEvent" where
  "parseTurnStarted r =
     (case unmarshalEnvelope r of Inl e \<Rightarrow> Inl e
      | Inr env \<Rightarrow> (case resolveIDs env of (threadID, turnID, _) \<Rightarrow>
          Inr (EvTurnStarted \<lparr>turnStarted_ThreadID = threadID, turnStarted_TurnID = turnID\<rparr>)))"

definition t_terminalError :: gotype where
  "t_terminalError = t_struct [(''message'', t_str)]"

definition t_turnCompletedEnvelope :: gotype where
  "t_turnCompletedEnvelope = t_struct
    [(''threadId'', t_str), (''turnId'', t_str),
     (''turn'', t_ptr (t_struct [(''id'', t_str), (''status'', t_str), (''error'', t_ptr t_terminalError)])),
     (''status'', t_str), (''error'', t_ptr t_terminalError), (''usage'', t_ptr t_tokenUsage)]"

definition or_empty :: "string \<Rightarrow> string \<Rightarrow> string" where
  "or_empty s t = (if s = [] then t else s)"

definition error_message :: "gval ptr \<Rightarrow> string \<Rightarrow> string" where
  "error_message e d = (case e of None \<Rightarrow> d | Some g \<Rightarrow> f_str g ''message'')"

definition parseTurnCompleted :: "raw \<Rightarrow> goError + threadEvent" where
  "parseTurnCompleted r =
     (case unmarshalTo t_turnCompletedEnvelope r of Inl e \<Rightarrow> Inl e
      | Inr env \<Rightarrow>
          (let turn = f_ptr env ''turn'';
               turnID0 = f_str env ''turnId'';
               status0 = f_str env ''status'';
               error0 = error_message (f_ptr env ''error'') [];
               turnID = (case turn of None \<Rightarrow> turnID0 | Some t \<Rightarrow> or_empty turnID0 (f_str t ''id''));
               status = (case turn of None \<Rightarrow> status0 | Some t \<Rightarrow> or_empty status0 (f_str t ''status''));
               errorMessage = (case turn of None \<Rightarrow> error0 | Some t \<Rightarrow> error_message (f_ptr t ''error'') error0)
           in Inr (EvTurnCompleted \<lparr>turnCompleted_ThreadID = f_str env ''threadId'',
                turnCompleted_TurnID = turnID, turnCompleted_Status = status,
                turnCompleted_Error = errorMessage,
                turnCompleted_Usage = (case f_ptr env ''usage'' of None \<Rightarrow> zero_usage
                                       | Some u \<Rightarrow> to_tokenUsage u)\<rparr>)))"

definition parseTurnFailed :: "raw \<Rightarrow> goError + threadEvent" where
  "parseTurnFailed r =
     (case unmarshalEnvelope r of Inl e \<Rightarrow> Inl e
      | Inr env \<Rightarrow> (case resolveIDs env of (threadID, turnID, _) \<Rightarrow>
          Inr (EvTurnFailed \<lparr>turnFailed_ThreadID = threadID, turnFailed_TurnID = turnID,
                 turnFailed_Code = f_str env ''code'', turnFailed_Message = f_str env ''message''\<rparr>)))"

definition parseItemStarted :: "raw \<Rightarrow> goError + threadEvent" where
  "parseItemStarted r =
     (case unmarshalEnvelope r of Inl e \<Rightarrow> Inl e
      | Inr env \<Rightarrow> (case resolveIDs env of (threadID, turnID, itemID) \<Rightarrow>
          if f_raw env ''item'' = None
          then Inl (MessageParseError ''item/started missing item field'' r)
          else (case ParseItem (f_raw env ''item'') of Inl e \<Rightarrow> Inl e
            | Inr item \<Rightarrow> Inr (EvItemStarted \<lparr>itemStarted_ThreadID = threadID,
                itemStarted_TurnID = turnID,
                itemStarted_ItemID = (if itemID = [] then extractItemID (f_raw env ''item'') else itemID),
                itemStarted_Item = item\<rparr>))))"

definition parseItemUpdated :: "raw \<Rightarrow> goError + threadEvent" where
  "parseItemUpdated r =
     (case unmarshalEnvelope r of Inl e \<Rightarrow> Inl e
      | Inr env \<Rightarrow> (case resolveIDs env of (threadID, turnID, itemID) \<Rightarrow>
          if f_raw env ''delta'' = None
          then Inl (MessageParseError ''item/updated missing delta field'' r)
          else (case ParseItemDelta (f_raw env ''delta'') of Inl e \<Rightarrow> Inl e
            | Inr delta \<Rightarrow> Inr (EvItemUpdated \<lparr>itemUpdated_ThreadID = threadID,
                itemUpdated_TurnID = turnID, itemUpdated_ItemID = itemID,
                itemUpdated_Delta = delta\<rparr>))))"

definition parseItemCompleted :: "raw \<Rightarrow> goError + threadEvent" where
  "parseItemCompleted r =
     (case unmarshalEnvelope r of Inl e \<Rightarrow> Inl e
      | Inr env \<Rightarrow> (case resolveIDs env of (threadID, turnID, itemID) \<Rightarrow>
          if f_raw env ''item'' = None
          then Inl (MessageParseError ''item/completed missing item field'' r)
          else (case ParseItem (f_raw env ''item'') of Inl e \<Rightarrow> Inl e
            | Inr item \<Rightarrow> Inr (EvItemCompleted \<lparr>itemCompleted_ThreadID = threadID,
                itemCompleted_TurnID = turnID,
                itemCompleted_ItemID = (if itemID = [] then extractItemID (f_raw env ''item'') else itemID),
                itemCompleted_Item = item\<rparr>))))"

definition t_tokenUsageEnvelope :: gotype where
  "t_tokenUsageEnvelope = t_struct
    [(''threadId'', t_str),
     (''tokenUsage'', t_ptr (t_struct [(''total'', t_ptr t_tokenUsage), (''last'', t_ptr t_tokenUsage),
                                       (''modelContextWindow'', t_int)])),
     (''usage'', t_ptr t_tokenUsage)]"

definition parseTokenUsageUpdated :: "raw \<Rightarrow> goError + threadEvent" where
  "parseTokenUsageUpdated r =
     (case unmarshalTo t_tokenUsageEnvelope r of Inl e \<Rightarrow> Inl e
      | Inr env \<Rightarrow>
          (let tokenUsage = f_ptr env ''tokenUsage'';
               total = (case tokenUsage of None \<Rightarrow> None | Some t \<Rightarrow> map_option to_tokenUsage (f_ptr t ''total''));
               last = (case tokenUsage of None \<Rightarrow> None | Some t \<Rightarrow> map_option to_tokenUsage (f_ptr t ''last''));
               flat = map_option to_tokenUsage (f_ptr env ''usage'');
               (usage, lastUsage, totalUsage) =
                 (case (total, last, flat) of
                    (Some t, Some l, _) \<Rightarrow> (t, l, t)
                  | (Some t, None, _) \<Rightarrow> (t, zero_usage, t)
                  | (None, Some l, _) \<Rightarrow> (l, l, zero_usage)
                  | (None, None, Some u) \<Rightarrow> (u, zero_usage, zero_usage)
                  | (None, None, None) \<Rightarrow> (zero_usage, zero_usage, zero_usage))
           in Inr (EvTokenUsageUpdated \<lparr>tokenUsageUpdated_ThreadID = f_str env ''threadId'',
                tokenUsageUpdated_Usage = usage, tokenUsageUpdated_LastUsage = lastUsage,
                tokenUsageUpdated_TotalUsage = totalUsage,
                tokenUsageUpdated_ModelContextWindow =
                  (case tokenUsage of None \<Rightarrow> 0 | Some t \<Rightarrow> f_int t ''modelContextWindow'')\<rparr>)))"

section \<open>Error events\<close>

definition t_turnError :: gotype where
  "t_turnError = t_struct [(''message'', t_str), (''additionalDetails'', t_ptr t_str),
                           (''codexErrorInfo'', t_raw)]"

text \<open>The error object counts as present when its raw message is not empty, so a \<open>null\<close> one does.\<close>

definition parseErrorEvent :: "raw \<Rightarrow> goError + threadEvent" where
  "parseErrorEvent r =
     (case unmarshalEnvelope r of Inl e \<Rightarrow> Inl e
      | Inr env \<Rightarrow> (case resolveIDs env of (threadID, turnID, _) \<Rightarrow>
          (let ev = \<lparr>errorEvent_ThreadID = threadID, errorEvent_TurnID = turnID,
                     errorEvent_WillRetry = f_bool env ''willRetry'', errorEvent_Code = f_str env ''code'',
                     errorEvent_Message = f_str env ''message'', errorEvent_AdditionalDetails = None,
                     errorEvent_CodexErrorInfo = None,
                     errorEvent_Context = cloneRaw (f_raw env ''context'')\<rparr>
           in if f_raw env ''error'' = None then Inr (EvErrorEvent ev)
              else (case unmarshal t_turnError (f_raw env ''error'') of (turnError, ok) \<Rightarrow>
                if \<not> ok then Inl (JSONDecodeError r json_cause)
                else Inr (EvErrorEvent (ev\<lparr>errorEvent_Message := f_str turnError ''message'',
                       errorEvent_AdditionalDetails := f_pstr turnError ''additionalDetails'',
                       errorEvent_CodexErrorInfo := cloneRaw (f_raw turnError ''codexErrorInfo'')\<rparr>))))))"

section \<open>Shared shapes\<close>

definition parseSimpleThreadEvent :: "(string \<Rightarrow> threadEvent) \<Rightarrow> raw \<Rightarrow> goError + threadEvent" where
  "parseSimpleThreadEvent build r =
     (case unmarshalTo (t_struct [(''threadId'', t_str)]) r of Inl e \<Rightarrow> Inl e
      | Inr env \<Rightarrow> Inr (build (f_str env ''threadId'')))"

text \<open>The decoding error of a realtime payload is ignored.\<close>

definition wrapRealtime :: "(string \<Rightarrow> raw \<Rightarrow> threadEvent) \<Rightarrow> raw \<Rightarrow> goError + threadEvent" where
  "wrapRealtime build r =
     Inr (build (if r = None then [] else
                 f_str (fst (unmarshal (t_struct [(''threadId'', t_str)]) r)) ''threadId'') (cloneRaw r))"

text \<open>\<open>parseFlatDelta\<close> decodes the payload again as a map of raw fields and reads the named one,
  spelled exactly, as a string.\<close>

definition flat_text :: "string \<Rightarrow> gval \<Rightarrow> gval \<times> bool" where
  "flat_text fieldName payload =
     (case as_map payload of
        None \<Rightarrow> (GStr [], True)
      | Some m \<Rightarrow> (case map_of m fieldName of
          None \<Rightarrow> (GStr [], True)
        | Some v \<Rightarrow> unmarshal t_str (as_raw v)))"

definition parseFlatDelta :: "string \<Rightarrow> (string \<Rightarrow> itemDelta) \<Rightarrow> raw \<Rightarrow> goError + threadEvent" where
  "parseFlatDelta fieldName build r =
     (case unmarshalTo (t_struct [(''threadId'', t_str), (''turnId'', t_str), (''itemId'', t_str)]) r of
        Inl e \<Rightarrow> Inl e
      | Inr ids \<Rightarrow>
          (case unmarshalTo (t_map t_raw) r of
             Inl e \<Rightarrow> Inl e
           | Inr payload \<Rightarrow>
               (case flat_text fieldName payload of (text, ok) \<Rightarrow>
                  if \<not> ok then Inl (JSONDecodeError r json_cause)
                  else Inr (EvItemUpdated \<lparr>itemUpdated_ThreadID = f_str ids ''threadId'',
                         itemUpdated_TurnID = f_str ids ''turnId'', itemUpdated_ItemID = f_str ids ''itemId'',
                         itemUpdated_Delta = build (as_str text)\<rparr>))))"

section \<open>Hook runs\<close>

definition t_hookOutputEntry :: gotype where
  "t_hookOutputEntry = t_struct [(''kind'', t_str), (''text'', t_str)]"

definition to_hookOutputEntry :: "gval \<Rightarrow> hookOutputEntry" where
  "to_hookOutputEntry g = \<lparr>hookOutputEntry_Kind = f_str g ''kind'', hookOutputEntry_Text = f_str g ''text''\<rparr>"

definition t_hookRunSummary :: gotype where
  "t_hookRunSummary = t_struct
    [(''id'', t_str), (''eventName'', t_str), (''handlerType'', t_str), (''executionMode'', t_str),
     (''scope'', t_str), (''sourcePath'', t_str), (''entries'', t_slice t_hookOutputEntry),
     (''status'', t_str), (''statusMessage'', t_ptr t_str), (''displayOrder'', t_int),
     (''startedAt'', t_int), (''completedAt'', t_ptr t_int), (''durationMs'', t_ptr t_int)]"

definition to_hookRunSummary :: "gval \<Rightarrow> hookRunSummary" where
  "to_hookRunSummary g = \<lparr>hookRunSummary_ID = f_str g ''id'', hookRunSummary_EventName = f_str g ''eventName'',
     hookRunSummary_HandlerType = f_str g ''handlerType'',
     hookRunSummary_ExecutionMode = f_str g ''executionMode'', hookRunSummary_Scope = f_str g ''scope'',
     hookRunSummary_SourcePath = f_str g ''sourcePath'',
     hookRunSummary_Entries = map_option (map to_hookOutputEntry) (f_slice g ''entries''),
     hookRunSummary_Status = f_str g ''status'', hookRunSummary_StatusMessage = f_pstr g ''statusMessage'',
     hookRunSummary_DisplayOrder = f_int g ''displayOrder'', hookRunSummary_StartedAt = f_int g ''startedAt'',
     hookRunSummary_CompletedAt = f_pint g ''completedAt'',
     hookRunSummary_DurationMs = f_pint g ''durationMs''\<rparr>"

definition parseHookEvent :: "bool \<Rightarrow> raw \<Rightarrow> goError + threadEvent" where
  "parseHookEvent started r =
     (case unmarshalTo (t_struct [(''threadId'', t_str), (''turnId'', t_ptr t_str), (''run'', t_hookRunSummary)]) r of
        Inl e \<Rightarrow> Inl e
      | Inr env \<Rightarrow>
          if started
          then Inr (EvSystem (EvHookStarted \<lparr>hookStarted_ThreadID = f_str env ''threadId'',
                 hookStarted_TurnID = f_pstr env ''turnId'',
                 hookStarted_Run = to_hookRunSummary (gfield env ''run'')\<rparr>))
          else Inr (EvSystem (EvHookCompleted \<lparr>hookCompleted_ThreadID = f_str env ''threadId'',
                 hookCompleted_TurnID = f_pstr env ''turnId'',
                 hookCompleted_Run = to_hookRunSummary (gfield env ''run'')\<rparr>)))"

section \<open>Thread and turn parsers\<close>

definition parseThreadNameUpdated :: "raw \<Rightarrow> goError + threadEvent" where
  "parseThreadNameUpdated r =
     (case unmarshalTo (t_struct [(''threadId'', t_str), (''threadName'', t_ptr t_str)]) r of
        Inl e \<Rightarrow> Inl e
      | Inr env \<Rightarrow> Inr (EvThread (EvThreadNameUpdated \<lparr>threadNameUpdated_ThreadID = f_str env ''threadId'',
          threadNameUpdated_ThreadName = f_pstr env ''threadName''\<rparr>)))"

definition parseThreadStatusChanged :: "raw \<Rightarrow> goError + threadEvent" where
  "parseThreadStatusChanged r =
     (case unmarshalTo (t_struct [(''threadId'', t_str), (''status'', t_raw)]) r of
        Inl e \<Rightarrow> Inl e
      | Inr env \<Rightarrow> Inr (EvThread (EvThreadStatusChanged \<lparr>threadStatusChanged_ThreadID = f_str env ''threadId'',
          threadStatusChanged_Status = cloneRaw (f_raw env ''status'')\<rparr>)))"

definition parseThreadSettingsUpdated :: "raw \<Rightarrow> goError + threadEvent" where
  "parseThreadSettingsUpdated r =
     (case unmarshalTo (t_struct [(''threadId'', t_str), (''threadSettings'', t_raw)]) r of
        Inl e \<Rightarrow> Inl e
      | Inr env \<Rightarrow> Inr (EvThread (EvThreadSettingsUpdated \<lparr>threadSettingsUpdated_ThreadID = f_str env ''threadId'',
          threadSettingsUpdated_ThreadSettings = cloneRaw (f_raw env ''threadSettings'')\<rparr>)))"

definition parseContextCompacted :: "raw \<Rightarrow> goError + threadEvent" where
  "parseContextCompacted r =
     (case unmarshalTo (t_struct [(''threadId'', t_str), (''turnId'', t_str)]) r of
        Inl e \<Rightarrow> Inl e
      | Inr env \<Rightarrow> Inr (EvThread (EvContextCompacted \<lparr>contextCompacted_ThreadID = f_str env ''threadId'',
          contextCompacted_TurnID = f_str env ''turnId''\<rparr>)))"

definition parseTurnDiffUpdated :: "raw \<Rightarrow> goError + threadEvent" where
  "parseTurnDiffUpdated r =
     (case unmarshalTo (t_struct [(''threadId'', t_str), (''turnId'', t_str), (''diff'', t_str)]) r of
        Inl e \<Rightarrow> Inl e
      | Inr env \<Rightarrow> Inr (EvThread (EvTurnDiffUpdated \<lparr>turnDiffUpdated_ThreadID = f_str env ''threadId'',
          turnDiffUpdated_TurnID = f_str env ''turnId'',
          turnDiffUpdated_Diff = f_str env ''diff''\<rparr>)))"

definition parseTurnPlanUpdated :: "raw \<Rightarrow> goError + threadEvent" where
  "parseTurnPlanUpdated r =
     (case unmarshalTo (t_struct [(''threadId'', t_str), (''turnId'', t_str), (''plan'', t_raw),
        (''explanation'', t_ptr t_str)]) r of
        Inl e \<Rightarrow> Inl e
      | Inr env \<Rightarrow> Inr (EvThread (EvTurnPlanUpdated \<lparr>turnPlanUpdated_ThreadID = f_str env ''threadId'',
          turnPlanUpdated_TurnID = f_str env ''turnId'',
          turnPlanUpdated_Plan = cloneRaw (f_raw env ''plan''),
          turnPlanUpdated_Explanation = f_pstr env ''explanation''\<rparr>)))"

definition parseTurnModerationMetadata :: "raw \<Rightarrow> goError + threadEvent" where
  "parseTurnModerationMetadata r =
     (case unmarshalTo (t_struct [(''threadId'', t_str), (''turnId'', t_str), (''metadata'', t_raw)]) r of
        Inl e \<Rightarrow> Inl e
      | Inr env \<Rightarrow> Inr (EvThread (EvTurnModerationMetadata \<lparr>turnModerationMetadata_ThreadID = f_str env ''threadId'',
          turnModerationMetadata_TurnID = f_str env ''turnId'',
          turnModerationMetadata_Metadata = cloneRaw (f_raw env ''metadata'')\<rparr>)))"

definition parseThreadGoalUpdated :: "raw \<Rightarrow> goError + threadEvent" where
  "parseThreadGoalUpdated r =
     (case unmarshalTo (t_struct [(''threadId'', t_str), (''turnId'', t_ptr t_str), (''goal'', t_raw)]) r of
        Inl e \<Rightarrow> Inl e
      | Inr env \<Rightarrow> Inr (EvThread (EvThreadGoalUpdated \<lparr>threadGoalUpdated_ThreadID = f_str env ''threadId'',
          threadGoalUpdated_TurnID = f_pstr env ''turnId'',
          threadGoalUpdated_Goal = cloneRaw (f_raw env ''goal'')\<rparr>)))"

section \<open>Item parsers\<close>

definition parseReasoningTextDelta :: "raw \<Rightarrow> goError + threadEvent" where
  "parseReasoningTextDelta r =
     (case unmarshalTo (t_struct [(''threadId'', t_str), (''turnId'', t_str), (''itemId'', t_str), (''delta'', t_str),
        (''contentIndex'', t_int)]) r of
        Inl e \<Rightarrow> Inl e
      | Inr env \<Rightarrow> Inr (EvItemUpdated \<lparr>itemUpdated_ThreadID = f_str env ''threadId'',
          itemUpdated_TurnID = f_str env ''turnId'',
          itemUpdated_ItemID = f_str env ''itemId'',
          itemUpdated_Delta = DeltaReasoningTextDelta \<lparr>rtd_TextChunk = f_str env ''delta'', rtd_ContentIndex = f_int env ''contentIndex''\<rparr>\<rparr>))"

definition parseReasoningSummaryTextDelta :: "raw \<Rightarrow> goError + threadEvent" where
  "parseReasoningSummaryTextDelta r =
     (case unmarshalTo (t_struct [(''threadId'', t_str), (''turnId'', t_str), (''itemId'', t_str), (''delta'', t_str),
        (''summaryIndex'', t_int)]) r of
        Inl e \<Rightarrow> Inl e
      | Inr env \<Rightarrow> Inr (EvItemUpdated \<lparr>itemUpdated_ThreadID = f_str env ''threadId'',
          itemUpdated_TurnID = f_str env ''turnId'',
          itemUpdated_ItemID = f_str env ''itemId'',
          itemUpdated_Delta = DeltaReasoningSummaryTextDelta \<lparr>rstd_SummaryChunk = f_str env ''delta'', rstd_SummaryIndex = f_int env ''summaryIndex''\<rparr>\<rparr>))"

definition parseReasoningSummaryPartAdded :: "raw \<Rightarrow> goError + threadEvent" where
  "parseReasoningSummaryPartAdded r =
     (case unmarshalTo (t_struct [(''threadId'', t_str), (''turnId'', t_str), (''itemId'', t_str),
        (''summaryIndex'', t_int)]) r of
        Inl e \<Rightarrow> Inl e
      | Inr env \<Rightarrow> Inr (EvItemUpdated \<lparr>itemUpdated_ThreadID = f_str env ''threadId'',
          itemUpdated_TurnID = f_str env ''turnId'',
          itemUpdated_ItemID = f_str env ''itemId'',
          itemUpdated_Delta = DeltaReasoningSummaryPartAdded \<lparr>rspa_SummaryIndex = f_int env ''summaryIndex''\<rparr>\<rparr>))"

definition parseMCPToolCallProgress :: "raw \<Rightarrow> goError + threadEvent" where
  "parseMCPToolCallProgress r =
     (case unmarshalTo (t_struct [(''threadId'', t_str), (''turnId'', t_str), (''itemId'', t_str),
        (''message'', t_str)]) r of
        Inl e \<Rightarrow> Inl e
      | Inr env \<Rightarrow> Inr (EvItemUpdated \<lparr>itemUpdated_ThreadID = f_str env ''threadId'',
          itemUpdated_TurnID = f_str env ''turnId'',
          itemUpdated_ItemID = f_str env ''itemId'',
          itemUpdated_Delta = DeltaMCPToolCallProgress \<lparr>mtp_Message = f_str env ''message''\<rparr>\<rparr>))"

definition parseTerminalInteraction :: "raw \<Rightarrow> goError + threadEvent" where
  "parseTerminalInteraction r =
     (case unmarshalTo (t_struct [(''threadId'', t_str), (''turnId'', t_str), (''itemId'', t_str),
        (''processId'', t_str), (''stdin'', t_str)]) r of
        Inl e \<Rightarrow> Inl e
      | Inr env \<Rightarrow> Inr (EvItemUpdated \<lparr>itemUpdated_ThreadID = f_str env ''threadId'',
          itemUpdated_TurnID = f_str env ''turnId'',
          itemUpdated_ItemID = f_str env ''itemId'',
          itemUpdated_Delta = DeltaTerminalInteraction \<lparr>ti_ProcessID = f_str env ''processId'', ti_Stdin = f_str env ''stdin''\<rparr>\<rparr>))"

definition parseGuardianReviewStarted :: "raw \<Rightarrow> goError + threadEvent" where
  "parseGuardianReviewStarted r =
     (case unmarshalTo (t_struct [(''threadId'', t_str), (''turnId'', t_str), (''reviewId'', t_str),
        (''targetItemId'', t_ptr t_str), (''action'', t_raw), (''review'', t_raw)]) r of
        Inl e \<Rightarrow> Inl e
      | Inr env \<Rightarrow> Inr (EvThread (EvItemGuardianApprovalReviewStarted \<lparr>itemGuardianApprovalReviewStarted_ThreadID = f_str env ''threadId'',
          itemGuardianApprovalReviewStarted_TurnID = f_str env ''turnId'',
          itemGuardianApprovalReviewStarted_ReviewID = f_str env ''reviewId'',
          itemGuardianApprovalReviewStarted_TargetItemID = f_pstr env ''targetItemId'',
          itemGuardianApprovalReviewStarted_Action = cloneRaw (f_raw env ''action''),
          itemGuardianApprovalReviewStarted_Review = cloneRaw (f_raw env ''review'')\<rparr>)))"

definition parseGuardianReviewCompleted :: "raw \<Rightarrow> goError + threadEvent" where
  "parseGuardianReviewCompleted r =
     (case unmarshalTo (t_struct [(''threadId'', t_str), (''turnId'', t_str), (''reviewId'', t_str),
        (''targetItemId'', t_ptr t_str), (''action'', t_raw), (''review'', t_raw),
        (''decisionSource'', t_raw)]) r of
        Inl e \<Rightarrow> Inl e
      | Inr env \<Rightarrow> Inr (EvThread (EvItemGuardianApprovalReviewCompleted \<lparr>itemGuardianApprovalReviewCompleted_ThreadID = f_str env ''threadId'',
          itemGuardianApprovalReviewCompleted_TurnID = f_str env ''turnId'',
          itemGuardianApprovalReviewCompleted_ReviewID = f_str env ''reviewId'',
          itemGuardianApprovalReviewCompleted_TargetItemID = f_pstr env ''targetItemId'',
          itemGuardianApprovalReviewCompleted_Action = cloneRaw (f_raw env ''action''),
          itemGuardianApprovalReviewCompleted_Review = cloneRaw (f_raw env ''review''),
          itemGuardianApprovalReviewCompleted_DecisionSource = cloneRaw (f_raw env ''decisionSource'')\<rparr>)))"

definition parseFileChangePatchUpdated :: "raw \<Rightarrow> goError + threadEvent" where
  "parseFileChangePatchUpdated r =
     (case unmarshalTo (t_struct [(''threadId'', t_str), (''turnId'', t_str), (''itemId'', t_str),
        (''changes'', t_raw)]) r of
        Inl e \<Rightarrow> Inl e
      | Inr env \<Rightarrow> Inr (EvThread (EvFileChangePatchUpdated \<lparr>fileChangePatchUpdated_ThreadID = f_str env ''threadId'',
          fileChangePatchUpdated_TurnID = f_str env ''turnId'',
          fileChangePatchUpdated_ItemID = f_str env ''itemId'',
          fileChangePatchUpdated_Changes = cloneRaw (f_raw env ''changes'')\<rparr>)))"

section \<open>System parsers\<close>

definition parseMCPServerStartupStatus :: "raw \<Rightarrow> goError + threadEvent" where
  "parseMCPServerStartupStatus r =
     (case unmarshalTo (t_struct [(''threadId'', t_ptr t_str), (''name'', t_str), (''status'', t_raw),
        (''error'', t_ptr t_str), (''failureReason'', t_ptr t_str)]) r of
        Inl e \<Rightarrow> Inl e
      | Inr env \<Rightarrow> Inr (EvSystem (EvMCPServerStartupStatusUpdated \<lparr>mCPServerStartupStatusUpdated_ThreadID = f_pstr env ''threadId'',
          mCPServerStartupStatusUpdated_Name = f_str env ''name'',
          mCPServerStartupStatusUpdated_Status = cloneRaw (f_raw env ''status''),
          mCPServerStartupStatusUpdated_Error = f_pstr env ''error'',
          mCPServerStartupStatusUpdated_FailureReason = f_pstr env ''failureReason''\<rparr>)))"

definition parseMCPServerOAuthLoginCompleted :: "raw \<Rightarrow> goError + threadEvent" where
  "parseMCPServerOAuthLoginCompleted r =
     (case unmarshalTo (t_struct [(''threadId'', t_ptr t_str), (''name'', t_str), (''success'', t_bool),
        (''error'', t_ptr t_str)]) r of
        Inl e \<Rightarrow> Inl e
      | Inr env \<Rightarrow> Inr (EvSystem (EvMCPServerOAuthLoginCompleted \<lparr>mCPServerOAuthLoginCompleted_ThreadID = f_pstr env ''threadId'',
          mCPServerOAuthLoginCompleted_Name = f_str env ''name'',
          mCPServerOAuthLoginCompleted_Success = f_bool env ''success'',
          mCPServerOAuthLoginCompleted_Error = f_pstr env ''error''\<rparr>)))"

definition parseAccountLoginCompleted :: "raw \<Rightarrow> goError + threadEvent" where
  "parseAccountLoginCompleted r =
     (case unmarshalTo (t_struct [(''success'', t_bool), (''loginId'', t_ptr t_str), (''error'', t_ptr t_str)]) r of
        Inl e \<Rightarrow> Inl e
      | Inr env \<Rightarrow> Inr (EvSystem (EvAccountLoginCompleted \<lparr>accountLoginCompleted_Success = f_bool env ''success'',
          accountLoginCompleted_LoginID = f_pstr env ''loginId'',
          accountLoginCompleted_Error = f_pstr env ''error''\<rparr>)))"

definition parseAccountRateLimitsUpdated :: "raw \<Rightarrow> goError + threadEvent" where
  "parseAccountRateLimitsUpdated r =
     (case unmarshalTo (t_struct [(''rateLimits'', t_raw)]) r of
        Inl e \<Rightarrow> Inl e
      | Inr env \<Rightarrow> Inr (EvSystem (EvAccountRateLimitsUpdated \<lparr>accountRateLimitsUpdated_RateLimits = cloneRaw (f_raw env ''rateLimits'')\<rparr>)))"

definition parseAccountUpdated :: "raw \<Rightarrow> goError + threadEvent" where
  "parseAccountUpdated r =
     (case unmarshalTo (t_struct [(''authMode'', t_raw), (''planType'', t_raw)]) r of
        Inl e \<Rightarrow> Inl e
      | Inr env \<Rightarrow> Inr (EvSystem (EvAccountUpdated \<lparr>accountUpdated_AuthMode = cloneRaw (f_raw env ''authMode''),
          accountUpdated_PlanType = cloneRaw (f_raw env ''planType'')\<rparr>)))"

definition parseModelRerouted :: "raw \<Rightarrow> goError + threadEvent" where
  "parseModelRerouted r =
     (case unmarshalTo (t_struct [(''threadId'', t_str), (''turnId'', t_str), (''fromModel'', t_str),
        (''toModel'', t_str), (''reason'', t_raw)]) r of
        Inl e \<Rightarrow> Inl e
      | Inr env \<Rightarrow> Inr (EvSystem (EvModelRerouted \<lparr>modelRerouted_ThreadID = f_str env ''threadId'',
          modelRerouted_TurnID = f_str env ''turnId'',
          modelRerouted_FromModel = f_str env ''fromModel'',
          modelRerouted_ToModel = f_str env ''toModel'',
          modelRerouted_Reason = cloneRaw (f_raw env ''reason'')\<rparr>)))"

definition parseModelVerification :: "raw \<Rightarrow> goError + threadEvent" where
  "parseModelVerification r =
     (case unmarshalTo (t_struct [(''threadId'', t_str), (''turnId'', t_str), (''verifications'', t_raw)]) r of
        Inl e \<Rightarrow> Inl e
      | Inr env \<Rightarrow> Inr (EvSystem (EvModelVerification \<lparr>modelVerification_ThreadID = f_str env ''threadId'',
          modelVerification_TurnID = f_str env ''turnId'',
          modelVerification_Verifications = cloneRaw (f_raw env ''verifications'')\<rparr>)))"

definition parseModelSafetyBufferingUpdated :: "raw \<Rightarrow> goError + threadEvent" where
  "parseModelSafetyBufferingUpdated r =
     (case unmarshalTo (t_struct [(''threadId'', t_str), (''turnId'', t_str), (''model'', t_str),
        (''reasons'', t_slice t_str), (''showBufferingUi'', t_bool),
        (''useCases'', t_slice t_str), (''fasterModel'', t_ptr t_str)]) r of
        Inl e \<Rightarrow> Inl e
      | Inr env \<Rightarrow> Inr (EvSystem (EvModelSafetyBufferingUpdated \<lparr>modelSafetyBufferingUpdated_ThreadID = f_str env ''threadId'',
          modelSafetyBufferingUpdated_TurnID = f_str env ''turnId'',
          modelSafetyBufferingUpdated_Model = f_str env ''model'',
          modelSafetyBufferingUpdated_Reasons = f_strs env ''reasons'',
          modelSafetyBufferingUpdated_ShowBufferingUI = f_bool env ''showBufferingUi'',
          modelSafetyBufferingUpdated_UseCases = f_strs env ''useCases'',
          modelSafetyBufferingUpdated_FasterModel = f_pstr env ''fasterModel''\<rparr>)))"

definition parseConfigWarning :: "raw \<Rightarrow> goError + threadEvent" where
  "parseConfigWarning r =
     (case unmarshalTo (t_struct [(''summary'', t_str), (''details'', t_ptr t_str), (''path'', t_ptr t_str),
        (''range'', t_raw)]) r of
        Inl e \<Rightarrow> Inl e
      | Inr env \<Rightarrow> Inr (EvSystem (EvConfigWarning \<lparr>configWarning_Summary = f_str env ''summary'',
          configWarning_Details = f_pstr env ''details'',
          configWarning_Path = f_pstr env ''path'',
          configWarning_Range = cloneRaw (f_raw env ''range'')\<rparr>)))"

definition parseWarning :: "raw \<Rightarrow> goError + threadEvent" where
  "parseWarning r =
     (case unmarshalTo (t_struct [(''threadId'', t_ptr t_str), (''message'', t_str)]) r of
        Inl e \<Rightarrow> Inl e
      | Inr env \<Rightarrow> Inr (EvSystem (EvWarning \<lparr>warning_ThreadID = f_pstr env ''threadId'',
          warning_Message = f_str env ''message''\<rparr>)))"

definition parseGuardianWarning :: "raw \<Rightarrow> goError + threadEvent" where
  "parseGuardianWarning r =
     (case unmarshalTo (t_struct [(''threadId'', t_str), (''message'', t_str)]) r of
        Inl e \<Rightarrow> Inl e
      | Inr env \<Rightarrow> Inr (EvSystem (EvGuardianWarning \<lparr>guardianWarning_ThreadID = f_str env ''threadId'',
          guardianWarning_Message = f_str env ''message''\<rparr>)))"

definition parseDeprecationNotice :: "raw \<Rightarrow> goError + threadEvent" where
  "parseDeprecationNotice r =
     (case unmarshalTo (t_struct [(''summary'', t_str), (''details'', t_ptr t_str)]) r of
        Inl e \<Rightarrow> Inl e
      | Inr env \<Rightarrow> Inr (EvSystem (EvDeprecationNotice \<lparr>deprecationNotice_Summary = f_str env ''summary'',
          deprecationNotice_Details = f_pstr env ''details''\<rparr>)))"

definition parseFsChanged :: "raw \<Rightarrow> goError + threadEvent" where
  "parseFsChanged r =
     (case unmarshalTo (t_struct [(''watchId'', t_str), (''changedPaths'', t_slice t_str)]) r of
        Inl e \<Rightarrow> Inl e
      | Inr env \<Rightarrow> Inr (EvSystem (EvFsChanged \<lparr>fsChanged_WatchID = f_str env ''watchId'',
          fsChanged_ChangedPaths = f_strs env ''changedPaths''\<rparr>)))"

definition parseAppListUpdated :: "raw \<Rightarrow> goError + threadEvent" where
  "parseAppListUpdated r =
     (case unmarshalTo (t_struct [(''data'', t_raw)]) r of
        Inl e \<Rightarrow> Inl e
      | Inr env \<Rightarrow> Inr (EvSystem (EvAppListUpdated \<lparr>appListUpdated_Data = cloneRaw (f_raw env ''data'')\<rparr>)))"

definition parseExternalAgentConfigImportProgress :: "raw \<Rightarrow> goError + threadEvent" where
  "parseExternalAgentConfigImportProgress r =
     (case unmarshalTo (t_struct [(''importId'', t_str), (''itemTypeResults'', t_raw)]) r of
        Inl e \<Rightarrow> Inl e
      | Inr env \<Rightarrow> Inr (EvSystem (EvExternalAgentConfigImportProgress \<lparr>externalAgentConfigImportProgress_ImportID = f_str env ''importId'',
          externalAgentConfigImportProgress_ItemTypeResults = cloneRaw (f_raw env ''itemTypeResults'')\<rparr>)))"

definition parseServerRequestResolved :: "raw \<Rightarrow> goError + threadEvent" where
  "parseServerRequestResolved r =
     (case unmarshalTo (t_struct [(''threadId'', t_str), (''requestId'', t_raw)]) r of
        Inl e \<Rightarrow> Inl e
      | Inr env \<Rightarrow> Inr (EvSystem (EvServerRequestResolved \<lparr>serverRequestResolved_ThreadID = f_str env ''threadId'',
          serverRequestResolved_RequestID = cloneRaw (f_raw env ''requestId'')\<rparr>)))"

definition parseProcessOutputDelta :: "raw \<Rightarrow> goError + threadEvent" where
  "parseProcessOutputDelta r =
     (case unmarshalTo (t_struct [(''processHandle'', t_str), (''stream'', t_str), (''deltaBase64'', t_str),
        (''capReached'', t_bool)]) r of
        Inl e \<Rightarrow> Inl e
      | Inr env \<Rightarrow> Inr (EvSystem (EvProcessOutputDelta \<lparr>processOutputDelta_ProcessHandle = f_str env ''processHandle'',
          processOutputDelta_Stream = f_str env ''stream'',
          processOutputDelta_DeltaBase64 = f_str env ''deltaBase64'',
          processOutputDelta_CapReached = f_bool env ''capReached''\<rparr>)))"

definition parseProcessExited :: "raw \<Rightarrow> goError + threadEvent" where
  "parseProcessExited r =
     (case unmarshalTo (t_struct [(''processHandle'', t_str), (''exitCode'', t_int), (''stdout'', t_str),
        (''stderr'', t_str), (''stdoutCapReached'', t_bool), (''stderrCapReached'', t_bool)]) r of
        Inl e \<Rightarrow> Inl e
      | Inr env \<Rightarrow> Inr (EvSystem (EvProcessExited \<lparr>processExited_ProcessHandle = f_str env ''processHandle'',
          processExited_ExitCode = f_int env ''exitCode'',
          processExited_Stdout = f_str env ''stdout'',
          processExited_Stderr = f_str env ''stderr'',
          processExited_StdoutCapReached = f_bool env ''stdoutCapReached'',
          processExited_StderrCapReached = f_bool env ''stderrCapReached''\<rparr>)))"

definition parseCommandExecOutputDelta :: "raw \<Rightarrow> goError + threadEvent" where
  "parseCommandExecOutputDelta r =
     (case unmarshalTo (t_struct [(''processId'', t_str), (''stream'', t_str), (''deltaBase64'', t_str),
        (''capReached'', t_bool)]) r of
        Inl e \<Rightarrow> Inl e
      | Inr env \<Rightarrow> Inr (EvSystem (EvCommandExecOutputDelta \<lparr>commandExecOutputDelta_ProcessID = f_str env ''processId'',
          commandExecOutputDelta_Stream = f_str env ''stream'',
          commandExecOutputDelta_DeltaBase64 = f_str env ''deltaBase64'',
          commandExecOutputDelta_CapReached = f_bool env ''capReached''\<rparr>)))"

definition parseRemoteControlStatusChanged :: "raw \<Rightarrow> goError + threadEvent" where
  "parseRemoteControlStatusChanged r =
     (case unmarshalTo (t_struct [(''environmentId'', t_ptr t_str), (''status'', t_str)]) r of
        Inl e \<Rightarrow> Inl e
      | Inr env \<Rightarrow> Inr (EvSystem (EvRemoteControlStatusChanged \<lparr>remoteControlStatusChanged_EnvironmentID = f_pstr env ''environmentId'',
          remoteControlStatusChanged_Status = f_str env ''status''\<rparr>)))"

definition parseWindowsWorldWritableWarning :: "raw \<Rightarrow> goError + threadEvent" where
  "parseWindowsWorldWritableWarning r =
     (case unmarshalTo (t_struct [(''extraCount'', t_int), (''failedScan'', t_bool), (''samplePaths'', t_slice t_str)]) r of
        Inl e \<Rightarrow> Inl e
      | Inr env \<Rightarrow> Inr (EvSystem (EvWindowsWorldWritableWarning \<lparr>windowsWorldWritableWarning_ExtraCount = f_int env ''extraCount'',
          windowsWorldWritableWarning_FailedScan = f_bool env ''failedScan'',
          windowsWorldWritableWarning_SamplePaths = f_strs env ''samplePaths''\<rparr>)))"

definition parseWindowsSandboxSetupCompleted :: "raw \<Rightarrow> goError + threadEvent" where
  "parseWindowsSandboxSetupCompleted r =
     (case unmarshalTo (t_struct [(''mode'', t_raw), (''success'', t_bool), (''error'', t_ptr t_str)]) r of
        Inl e \<Rightarrow> Inl e
      | Inr env \<Rightarrow> Inr (EvSystem (EvWindowsSandboxSetupCompleted \<lparr>windowsSandboxSetupCompleted_Success = f_bool env ''success'',
          windowsSandboxSetupCompleted_Mode = cloneRaw (f_raw env ''mode''),
          windowsSandboxSetupCompleted_Error = f_pstr env ''error''\<rparr>)))"

section \<open>The dispatch tables\<close>

definition eventParsers :: "(string \<times> (raw \<Rightarrow> goError + threadEvent)) list" where
  "eventParsers =
    [(''thread/started'', parseThreadStarted),
     (''thread/archived'', parseSimpleThreadEvent (\<lambda>id. EvThread (EvThreadArchived \<lparr> threadArchived_ThreadID = id \<rparr>))),
     (''thread/unarchived'', parseSimpleThreadEvent (\<lambda>id. EvThread (EvThreadUnarchived \<lparr> threadUnarchived_ThreadID = id \<rparr>))),
     (''thread/closed'', parseSimpleThreadEvent (\<lambda>id. EvThread (EvThreadClosed \<lparr> threadClosed_ThreadID = id \<rparr>))),
     (''thread/deleted'', parseSimpleThreadEvent (\<lambda>id. EvThread (EvThreadDeleted \<lparr> threadDeleted_ThreadID = id \<rparr>))),
     (''thread/name/updated'', parseThreadNameUpdated),
     (''thread/status/changed'', parseThreadStatusChanged),
     (''thread/settings/updated'', parseThreadSettingsUpdated),
     (''thread/compacted'', parseContextCompacted),
     (''compaction_event'', parseContextCompacted),
     (''thread/tokenUsage/updated'', parseTokenUsageUpdated),
     (''thread/goal/updated'', parseThreadGoalUpdated),
     (''thread/goal/cleared'', parseSimpleThreadEvent (\<lambda>id. EvThread (EvThreadGoalCleared \<lparr> threadGoalCleared_ThreadID = id \<rparr>))),
     (''turn/started'', parseTurnStarted),
     (''turn/completed'', parseTurnCompleted),
     (''turn/failed'', parseTurnFailed),
     (''turn/diff/updated'', parseTurnDiffUpdated),
     (''turn/plan/updated'', parseTurnPlanUpdated),
     (''turn/moderationMetadata'', parseTurnModerationMetadata),
     (''item/started'', parseItemStarted),
     (''item/updated'', parseItemUpdated),
     (''item/completed'', parseItemCompleted),
     (''item/agentMessage/delta'', parseFlatDelta ''delta'' (\<lambda>s. DeltaAgentMessageDelta \<lparr>amd_TextChunk = s\<rparr>)),
     (''item/commandExecution/outputDelta'', parseFlatDelta ''delta'' (\<lambda>s. DeltaCommandOutputDelta \<lparr>cod_OutputChunk = s\<rparr>)),
     (''item/fileChange/outputDelta'', parseFlatDelta ''delta'' (\<lambda>s. DeltaFileChangeOutputDelta \<lparr>fcod_DiffChunk = s\<rparr>)),
     (''item/fileChange/patchUpdated'', parseFileChangePatchUpdated),
     (''item/plan/delta'', parseFlatDelta ''delta'' (\<lambda>s. DeltaPlanDelta \<lparr>pd_Chunk = s\<rparr>)),
     (''item/reasoning/textDelta'', parseReasoningTextDelta),
     (''item/reasoning/summaryTextDelta'', parseReasoningSummaryTextDelta),
     (''item/reasoning/summaryPartAdded'', parseReasoningSummaryPartAdded),
     (''item/mcpToolCall/progress'', parseMCPToolCallProgress),
     (''item/commandExecution/terminalInteraction'', parseTerminalInteraction),
     (''item/autoApprovalReview/started'', parseGuardianReviewStarted),
     (''item/autoApprovalReview/completed'', parseGuardianReviewCompleted),
     (''thread/realtime/started'', wrapRealtime (\<lambda>id raw. EvThread (EvThreadRealtimeStarted \<lparr>threadRealtimeStarted_ThreadID = id, threadRealtimeStarted_Params = raw\<rparr>))),
     (''thread/realtime/closed'', wrapRealtime (\<lambda>id raw. EvThread (EvThreadRealtimeClosed \<lparr>threadRealtimeClosed_ThreadID = id, threadRealtimeClosed_Params = raw\<rparr>))),
     (''thread/realtime/error'', wrapRealtime (\<lambda>id raw. EvThread (EvThreadRealtimeError \<lparr>threadRealtimeError_ThreadID = id, threadRealtimeError_Params = raw\<rparr>))),
     (''thread/realtime/itemAdded'', wrapRealtime (\<lambda>id raw. EvThread (EvThreadRealtimeItemAdded \<lparr>threadRealtimeItemAdded_ThreadID = id, threadRealtimeItemAdded_Params = raw\<rparr>))),
     (''thread/realtime/outputAudio/delta'', wrapRealtime (\<lambda>id raw. EvThread (EvThreadRealtimeOutputAudioDelta \<lparr>threadRealtimeOutputAudioDelta_ThreadID = id, threadRealtimeOutputAudioDelta_Params = raw\<rparr>))),
     (''thread/realtime/sdp'', wrapRealtime (\<lambda>id raw. EvThread (EvThreadRealtimeSdp \<lparr>threadRealtimeSdp_ThreadID = id, threadRealtimeSdp_Params = raw\<rparr>))),
     (''thread/realtime/transcript/delta'', wrapRealtime (\<lambda>id raw. EvThread (EvThreadRealtimeTranscriptDelta \<lparr>threadRealtimeTranscriptDelta_ThreadID = id, threadRealtimeTranscriptDelta_Params = raw\<rparr>))),
     (''thread/realtime/transcript/done'', wrapRealtime (\<lambda>id raw. EvThread (EvThreadRealtimeTranscriptDone \<lparr>threadRealtimeTranscriptDone_ThreadID = id, threadRealtimeTranscriptDone_Params = raw\<rparr>))),
     (''mcpServer/startupStatus/updated'', parseMCPServerStartupStatus),
     (''mcpServer/oauthLogin/completed'', parseMCPServerOAuthLoginCompleted),
     (''account/login/completed'', parseAccountLoginCompleted),
     (''account/rateLimits/updated'', parseAccountRateLimitsUpdated),
     (''account/updated'', parseAccountUpdated),
     (''model/rerouted'', parseModelRerouted),
     (''model/safetyBuffering/updated'', parseModelSafetyBufferingUpdated),
     (''model/verification'', parseModelVerification),
     (''command/exec/outputDelta'', parseCommandExecOutputDelta),
     (''process/outputDelta'', parseProcessOutputDelta),
     (''process/exited'', parseProcessExited),
     (''remoteControl/status/changed'', parseRemoteControlStatusChanged),
     (''configWarning'', parseConfigWarning),
     (''warning'', parseWarning),
     (''guardianWarning'', parseGuardianWarning),
     (''deprecationNotice'', parseDeprecationNotice),
     (''fs/changed'', parseFsChanged),
     (''app/list/updated'', parseAppListUpdated),
     (''serverRequest/resolved'', parseServerRequestResolved),
     (''externalAgentConfig/import/progress'', parseExternalAgentConfigImportProgress),
     (''windows/worldWritableWarning'', parseWindowsWorldWritableWarning),
     (''windowsSandbox/setupCompleted'', parseWindowsSandboxSetupCompleted),
     (''hook/started'', parseHookEvent True),
     (''hook/completed'', parseHookEvent False),
     (''error'', parseErrorEvent)]"

definition rawEventBuilders :: "(string \<times> (raw \<Rightarrow> threadEvent)) list" where
  "rawEventBuilders =
    [(''externalAgentConfig/import/completed'',
        \<lambda>params. EvSystem (EvExternalAgentConfigImportCompleted \<lparr>externalAgentConfigImportCompleted_Params = cloneRaw params\<rparr>)),
     (''skills/changed'', \<lambda>_. EvSystem EvSkillsChanged),
     (''fuzzyFileSearch/sessionUpdated'',
        \<lambda>params. EvSystem (EvFuzzyFileSearchSessionUpdated \<lparr>fuzzyFileSearchSessionUpdated_Params = cloneRaw params\<rparr>)),
     (''fuzzyFileSearch/sessionCompleted'',
        \<lambda>params. EvSystem (EvFuzzyFileSearchSessionCompleted \<lparr>fuzzyFileSearchSessionCompleted_Params = cloneRaw params\<rparr>))]"

section \<open>ParseEvent\<close>

definition ParseEvent :: "string \<Rightarrow> raw \<Rightarrow> goError + threadEvent" where
  "ParseEvent method params =
     (case map_of eventParsers method of
        Some parse \<Rightarrow> parse params
      | None \<Rightarrow> (case map_of rawEventBuilders method of
          Some build \<Rightarrow> Inr (build params)
        | None \<Rightarrow> (case extractUnknownEventIDs params of (threadID, turnID, itemID) \<Rightarrow>
            Inr (EvUnknownEvent \<lparr>unknownEvent_Method = method, unknownEvent_Params = cloneRaw params,
                   unknownEvent_ThreadID = threadID, unknownEvent_TurnID = turnID,
                   unknownEvent_ItemID = itemID\<rparr>))))"

section \<open>Lemmas: what a parser yields\<close>

definition is_parse_error :: "goError \<Rightarrow> bool" where
  "is_parse_error e = (is_JSONDecodeError e \<or> is_MessageParseError e)"

text \<open>A parser yields method \<open>m\<close> when every event it returns has that method and every error it
  returns is a decoding or a parse error.\<close>

definition yields :: "string \<Rightarrow> (raw \<Rightarrow> goError + threadEvent) \<Rightarrow> bool" where
  "yields m f = (\<forall>r. case f r of Inl e \<Rightarrow> is_parse_error e | Inr ev \<Rightarrow> eventMethod ev = m)"

lemma is_parse_error_simps [simp]:
  "is_parse_error (JSONDecodeError r e)" "is_parse_error (MessageParseError s r)"
  "is_parse_error (wrapParseErr k r)"
  by (simp_all add: is_parse_error_def wrapParseErr_def)

lemma unmarshalTo_error: "unmarshalTo t r = Inl e \<Longrightarrow> is_parse_error e"
  by (auto simp: unmarshalTo_def split: if_splits prod.splits)

lemma unmarshalEnvelope_error: "unmarshalEnvelope r = Inl e \<Longrightarrow> is_parse_error e"
  by (simp add: unmarshalEnvelope_def unmarshalTo_error)

lemma ParseItem_error: "ParseItem r = Inl e \<Longrightarrow> is_parse_error e"
  by (auto simp: ParseItem_def dest: itemDecoders_error split: if_splits prod.splits option.splits)

lemma ParseItemDelta_error: "ParseItemDelta r = Inl e \<Longrightarrow> is_parse_error e"
  by (auto simp: ParseItemDelta_def decodeDelta_def Let_def split: if_splits prod.splits)

lemmas parser_errors = unmarshalTo_error unmarshalEnvelope_error ParseItem_error ParseItemDelta_error

text \<open>The shape of the flat parsers: decode one struct, build one event.\<close>

lemma yields_flat:
  "(\<And>env. eventMethod (b env) = m) \<Longrightarrow>
     yields m (\<lambda>r. case unmarshalTo t r of Inl e \<Rightarrow> Inl e | Inr env \<Rightarrow> Inr (b env))"
  by (auto simp: yields_def intro: parser_errors split: sum.splits)

lemma yields_simple: "(\<And>id. eventMethod (b id) = m) \<Longrightarrow> yields m (parseSimpleThreadEvent b)"
  by (auto simp: yields_def parseSimpleThreadEvent_def intro: parser_errors split: sum.splits)

lemma yields_realtime: "(\<And>id p. eventMethod (b id p) = m) \<Longrightarrow> yields m (wrapRealtime b)"
  by (simp add: yields_def wrapRealtime_def)

lemma yields_delta: "yields ''item/updated'' (parseFlatDelta f b)"
  by (auto simp: yields_def parseFlatDelta_def intro: parser_errors split: sum.splits prod.splits)

lemma yields_hook:
  "yields ''hook/started'' (parseHookEvent True)" "yields ''hook/completed'' (parseHookEvent False)"
  by (auto simp: yields_def parseHookEvent_def intro: parser_errors split: sum.splits)

lemma yields_lifecycle:
  "yields ''thread/started'' parseThreadStarted"
  "yields ''thread/tokenUsage/updated'' parseTokenUsageUpdated"
  "yields ''turn/started'' parseTurnStarted"
  "yields ''turn/completed'' parseTurnCompleted"
  "yields ''turn/failed'' parseTurnFailed"
  "yields ''item/started'' parseItemStarted"
  "yields ''item/updated'' parseItemUpdated"
  "yields ''item/completed'' parseItemCompleted"
  "yields ''error'' parseErrorEvent"
  by (auto simp: yields_def parseThreadStarted_def parseTurnStarted_def parseTurnCompleted_def
        parseTurnFailed_def parseItemStarted_def parseItemUpdated_def parseItemCompleted_def
        parseTokenUsageUpdated_def parseErrorEvent_def Let_def
      intro: parser_errors split: sum.splits prod.splits if_splits option.splits)

lemma yields_parsers:
  "yields ''thread/name/updated'' parseThreadNameUpdated"
  "yields ''thread/status/changed'' parseThreadStatusChanged"
  "yields ''thread/settings/updated'' parseThreadSettingsUpdated"
  "yields ''thread/compacted'' parseContextCompacted"
  "yields ''thread/goal/updated'' parseThreadGoalUpdated"
  "yields ''turn/diff/updated'' parseTurnDiffUpdated"
  "yields ''turn/plan/updated'' parseTurnPlanUpdated"
  "yields ''turn/moderationMetadata'' parseTurnModerationMetadata"
  "yields ''item/fileChange/patchUpdated'' parseFileChangePatchUpdated"
  "yields ''item/updated'' parseReasoningTextDelta"
  "yields ''item/updated'' parseReasoningSummaryTextDelta"
  "yields ''item/updated'' parseReasoningSummaryPartAdded"
  "yields ''item/updated'' parseMCPToolCallProgress"
  "yields ''item/updated'' parseTerminalInteraction"
  "yields ''item/autoApprovalReview/started'' parseGuardianReviewStarted"
  "yields ''item/autoApprovalReview/completed'' parseGuardianReviewCompleted"
  "yields ''mcpServer/startupStatus/updated'' parseMCPServerStartupStatus"
  "yields ''mcpServer/oauthLogin/completed'' parseMCPServerOAuthLoginCompleted"
  "yields ''account/login/completed'' parseAccountLoginCompleted"
  "yields ''account/rateLimits/updated'' parseAccountRateLimitsUpdated"
  "yields ''account/updated'' parseAccountUpdated"
  "yields ''model/rerouted'' parseModelRerouted"
  "yields ''model/safetyBuffering/updated'' parseModelSafetyBufferingUpdated"
  "yields ''model/verification'' parseModelVerification"
  "yields ''command/exec/outputDelta'' parseCommandExecOutputDelta"
  "yields ''process/outputDelta'' parseProcessOutputDelta"
  "yields ''process/exited'' parseProcessExited"
  "yields ''remoteControl/status/changed'' parseRemoteControlStatusChanged"
  "yields ''configWarning'' parseConfigWarning"
  "yields ''warning'' parseWarning"
  "yields ''guardianWarning'' parseGuardianWarning"
  "yields ''deprecationNotice'' parseDeprecationNotice"
  "yields ''fs/changed'' parseFsChanged"
  "yields ''app/list/updated'' parseAppListUpdated"
  "yields ''serverRequest/resolved'' parseServerRequestResolved"
  "yields ''externalAgentConfig/import/progress'' parseExternalAgentConfigImportProgress"
  "yields ''windows/worldWritableWarning'' parseWindowsWorldWritableWarning"
  "yields ''windowsSandbox/setupCompleted'' parseWindowsSandboxSetupCompleted"
  by (simp_all add: yields_flat parseThreadNameUpdated_def [abs_def] parseThreadStatusChanged_def [abs_def] parseThreadSettingsUpdated_def [abs_def]
    parseContextCompacted_def [abs_def] parseTurnDiffUpdated_def [abs_def] parseTurnPlanUpdated_def [abs_def]
    parseTurnModerationMetadata_def [abs_def] parseThreadGoalUpdated_def [abs_def] parseReasoningTextDelta_def [abs_def]
    parseReasoningSummaryTextDelta_def [abs_def] parseReasoningSummaryPartAdded_def [abs_def] parseMCPToolCallProgress_def [abs_def]
    parseTerminalInteraction_def [abs_def] parseGuardianReviewStarted_def [abs_def] parseGuardianReviewCompleted_def [abs_def]
    parseFileChangePatchUpdated_def [abs_def] parseMCPServerStartupStatus_def [abs_def] parseMCPServerOAuthLoginCompleted_def [abs_def]
    parseAccountLoginCompleted_def [abs_def] parseAccountRateLimitsUpdated_def [abs_def] parseAccountUpdated_def [abs_def]
    parseModelRerouted_def [abs_def] parseModelVerification_def [abs_def] parseModelSafetyBufferingUpdated_def [abs_def]
    parseConfigWarning_def [abs_def] parseWarning_def [abs_def] parseGuardianWarning_def [abs_def]
    parseDeprecationNotice_def [abs_def] parseFsChanged_def [abs_def] parseAppListUpdated_def [abs_def]
    parseExternalAgentConfigImportProgress_def [abs_def] parseServerRequestResolved_def [abs_def] parseProcessOutputDelta_def [abs_def]
    parseProcessExited_def [abs_def] parseCommandExecOutputDelta_def [abs_def] parseRemoteControlStatusChanged_def [abs_def]
    parseWindowsWorldWritableWarning_def [abs_def] parseWindowsSandboxSetupCompleted_def [abs_def])

lemmas yields_all = yields_lifecycle yields_parsers yields_hook yields_delta

text \<open>The method an event type stands for, given the wire method: the streaming deltas are all
  normalised to \<open>item/updated\<close>, and the old compaction name to the current one.\<close>

definition delta_methods :: "string list" where
  "delta_methods = [''item/agentMessage/delta'',
     ''item/commandExecution/outputDelta'',
     ''item/fileChange/outputDelta'',
     ''item/plan/delta'',
     ''item/reasoning/textDelta'',
     ''item/reasoning/summaryTextDelta'',
     ''item/reasoning/summaryPartAdded'',
     ''item/mcpToolCall/progress'',
     ''item/commandExecution/terminalInteraction'']"

definition canonical_method :: "string \<Rightarrow> string" where
  "canonical_method m = (if m = ''compaction_event'' then ''thread/compacted''
                         else if m \<in> set delta_methods then ''item/updated'' else m)"

lemma eventParsers_yield: "list_all (\<lambda>e. yields (canonical_method (fst e)) (snd e)) eventParsers"
  by (simp add: eventParsers_def canonical_method_def delta_methods_def yields_all yields_simple
      yields_realtime)

lemma rawEventBuilders_yield:
  "list_all (\<lambda>e. \<forall>p. eventMethod (snd e p) = canonical_method (fst e)) rawEventBuilders"
  by (simp add: rawEventBuilders_def canonical_method_def delta_methods_def)

lemma delta_methods_known: "list_all (\<lambda>m. map_of eventParsers m \<noteq> None) (''compaction_event'' # delta_methods)"
  by (simp add: delta_methods_def eventParsers_def)

lemma canonical_method_unknown: "map_of eventParsers m = None \<Longrightarrow> canonical_method m = m"
  using delta_methods_known by (auto simp: canonical_method_def list_all_iff)

lemma ParseEvent_unknown:
  "map_of eventParsers m = None \<Longrightarrow> map_of rawEventBuilders m = None \<Longrightarrow>
     \<exists>t u i. ParseEvent m p = Inr (EvUnknownEvent \<lparr>unknownEvent_Method = m, unknownEvent_Params = p,
               unknownEvent_ThreadID = t, unknownEvent_TurnID = u, unknownEvent_ItemID = i\<rparr>)"
  by (cases "extractUnknownEventIDs p") (auto simp: ParseEvent_def cloneRaw_def split: option.splits)

lemmas parse_event_eval = ParseEvent_def unmarshalTo_def unmarshalEnvelope_def identifiersEnvelope_def
  resolveIDs_def or_nested_def t_idWrapper_def cloneRaw_def json_eval

section \<open>Properties\<close>

text \<open>\<open>ParseEvent\<close> answers every notification with an event of the notification's own method
  (streaming deltas normalised to \<open>item/updated\<close>) or with a decoding or parse error, never with an
  event of another method.\<close>

theorem ParseEvent_method:
  "case ParseEvent m p of Inl e \<Rightarrow> is_parse_error e | Inr ev \<Rightarrow> eventMethod ev = canonical_method m"
proof (cases "map_of eventParsers m")
  case (Some f)
  then have "yields (canonical_method m) f"
    using eventParsers_yield by (auto simp: list_all_iff dest!: map_of_SomeD)
  with Some show ?thesis by (simp add: ParseEvent_def yields_def)
next
  case None
  show ?thesis
  proof (cases "map_of rawEventBuilders m")
    case (Some b)
    then have "eventMethod (b p) = canonical_method m"
      using rawEventBuilders_yield by (auto simp: list_all_iff dest!: map_of_SomeD)
    with None Some show ?thesis by (simp add: ParseEvent_def)
  next
    assume "map_of rawEventBuilders m = None"
    with None ParseEvent_unknown [of m p] canonical_method_unknown [of m] show ?thesis by auto
  qed
qed

text \<open>A notification whose method is in neither table is never dropped and never fails, whatever
  its payload is: it becomes an \<open>UnknownEvent\<close> that carries the method and the whole payload.\<close>

theorem ParseEvent_forward_compatible:
  assumes "m \<notin> set (map fst eventParsers)" and "m \<notin> set (map fst rawEventBuilders)"
  shows "\<exists>t u i. ParseEvent m p = Inr (EvUnknownEvent \<lparr>unknownEvent_Method = m, unknownEvent_Params = p,
           unknownEvent_ThreadID = t, unknownEvent_TurnID = u, unknownEvent_ItemID = i\<rparr>)"
  using assms by (intro ParseEvent_unknown) (simp_all add: map_of_eq_None_iff)

theorem ParseEvent_forward_compatible_witness:
  "\<exists>t u i. ParseEvent ''x/new'' (Some (JArr [])) = Inr (EvUnknownEvent \<lparr>unknownEvent_Method = ''x/new'',
     unknownEvent_Params = Some (JArr []), unknownEvent_ThreadID = t, unknownEvent_TurnID = u,
     unknownEvent_ItemID = i\<rparr>)"
  by (rule ParseEvent_forward_compatible) (simp_all add: eventParsers_def rawEventBuilders_def)

text \<open>How a payload of a turn event may spell its two identifiers: each as a field, and as the \<open>id\<close> of an
  object that may be missing, null or there.\<close>

record turnSpelling =
  sp_threadId :: "string option"
  sp_turnId :: "string option"
  sp_thread :: "string option option"
  sp_turn :: "string option option"

definition member_if :: "string \<Rightarrow> ('a \<Rightarrow> json) \<Rightarrow> 'a option \<Rightarrow> (string \<times> json) list" where
  "member_if k f x = (case x of None \<Rightarrow> [] | Some v \<Rightarrow> [(k, f v)])"

definition id_object :: "string option \<Rightarrow> json" where
  "id_object x = (case x of None \<Rightarrow> JNull | Some i \<Rightarrow> JObj [(''id'', JStr i)])"

definition spelled :: "turnSpelling \<Rightarrow> json" where
  "spelled s = JObj (member_if ''threadId'' JStr (sp_threadId s) @ member_if ''turnId'' JStr (sp_turnId s)
     @ member_if ''thread'' id_object (sp_thread s) @ member_if ''turn'' id_object (sp_turn s))"

text \<open>The identifier that is meant: the field, unless it is missing or empty, else that of the object.\<close>

definition or_blank :: "string option \<Rightarrow> string" where
  "or_blank x = (case x of None \<Rightarrow> [] | Some i \<Rightarrow> i)"

definition meant_id :: "string option \<Rightarrow> string option option \<Rightarrow> string" where
  "meant_id flat nested = (if or_blank flat \<noteq> [] then or_blank flat
     else (case nested of None \<Rightarrow> [] | Some x \<Rightarrow> or_blank x))"

lemma envelope_spelled:
  "\<exists>env. unmarshalEnvelope (Some (spelled s)) = Inr env \<and>
     resolveIDs env = (meant_id (sp_threadId s) (sp_thread s), meant_id (sp_turnId s) (sp_turn s), []) \<and>
     f_str env ''code'' = [] \<and> f_str env ''message'' = []"
  by (cases "sp_threadId s"; cases "sp_turnId s"; cases "sp_thread s"; cases "sp_turn s")
    (auto simp: parse_event_eval spelled_def member_if_def id_object_def meant_id_def or_blank_def split: option.split)

lemma turn_completed_spelled:
  "parseTurnCompleted (Some (spelled s)) = Inr (EvTurnCompleted \<lparr>turnCompleted_ThreadID = or_blank (sp_threadId s),
     turnCompleted_TurnID = meant_id (sp_turnId s) (sp_turn s), turnCompleted_Status = [], turnCompleted_Error = [],
     turnCompleted_Usage = zero_usage\<rparr>)"
  by (cases "sp_threadId s"; cases "sp_turnId s"; cases "sp_thread s"; cases "sp_turn s")
    (auto simp: parse_event_eval parseTurnCompleted_def t_turnCompletedEnvelope_def spelled_def member_if_def
      id_object_def meant_id_def or_blank_def or_empty_def error_message_def split: option.split)

text \<open>C38: The identifiers of a turn event are read in every spelling: for the start, the failure and the end
  of a turn the turn is the one the field \<open>turnId\<close> names, or, where that is missing or empty, the one
  the object \<open>turn\<close> names, and the same holds of the thread for the start and the failure; the end of a
  turn takes its thread from the field \<open>threadId\<close> alone.\<close>

theorem turn_identifiers_read:
  "ParseEvent ''turn/started'' (Some (spelled s)) = Inr (EvTurnStarted
     \<lparr>turnStarted_ThreadID = meant_id (sp_threadId s) (sp_thread s),
      turnStarted_TurnID = meant_id (sp_turnId s) (sp_turn s)\<rparr>) \<and>
   ParseEvent ''turn/failed'' (Some (spelled s)) = Inr (EvTurnFailed
     \<lparr>turnFailed_ThreadID = meant_id (sp_threadId s) (sp_thread s),
      turnFailed_TurnID = meant_id (sp_turnId s) (sp_turn s), turnFailed_Code = [], turnFailed_Message = []\<rparr>) \<and>
   ParseEvent ''turn/completed'' (Some (spelled s)) = Inr (EvTurnCompleted
     \<lparr>turnCompleted_ThreadID = or_blank (sp_threadId s), turnCompleted_TurnID = meant_id (sp_turnId s) (sp_turn s),
      turnCompleted_Status = [], turnCompleted_Error = [], turnCompleted_Usage = zero_usage\<rparr>)"
proof -
  have m: "map_of eventParsers ''turn/started'' = Some parseTurnStarted"
    "map_of eventParsers ''turn/failed'' = Some parseTurnFailed"
    "map_of eventParsers ''turn/completed'' = Some parseTurnCompleted"
    by (simp_all add: eventParsers_def)
  show ?thesis
    using envelope_spelled [of s] turn_completed_spelled [of s]
    by (auto simp: ParseEvent_def m parseTurnStarted_def parseTurnFailed_def)
qed

text \<open>An error notification that carries a flat message and \<open>"error": null\<close> loses its message:
  the four bytes of \<open>null\<close> count as an error object, whose message is empty.\<close>

theorem error_event_null_object_erases_message:
  "ParseEvent ''error'' (Some (JObj [(''message'', JStr msg), (''error'', JNull)])) =
     Inr (EvErrorEvent \<lparr>errorEvent_ThreadID = [], errorEvent_TurnID = [], errorEvent_WillRetry = False,
       errorEvent_Code = [], errorEvent_Message = [], errorEvent_AdditionalDetails = None,
       errorEvent_CodexErrorInfo = None, errorEvent_Context = None\<rparr>) \<and>
   ParseEvent ''error'' (Some (JObj [(''message'', JStr msg)])) =
     Inr (EvErrorEvent \<lparr>errorEvent_ThreadID = [], errorEvent_TurnID = [], errorEvent_WillRetry = False,
       errorEvent_Code = [], errorEvent_Message = msg, errorEvent_AdditionalDetails = None,
       errorEvent_CodexErrorInfo = None, errorEvent_Context = None\<rparr>)"
proof -
  have "map_of eventParsers ''error'' = Some parseErrorEvent"
    by (simp add: eventParsers_def)
  then show ?thesis
    by (simp add: parse_event_eval parseErrorEvent_def t_turnError_def)
qed

end
