(* ===== verification/Framing.thy ===== *)
theory Framing
  imports Errors
begin

text \<open>
  The contract of a framed byte stream, which the JSON-RPC lines and the hook bridge frames both
  implement: \<open>emit\<close> turns a message into the bytes a writer appends, \<open>get\<close> takes the first message
  off the bytes a reader has. From the two laws (a written message is read back whatever follows
  it, and an empty stream is at its end) the locale derives that a reader sees exactly the
  messages written, in order, and that framing is unambiguous.
\<close>

datatype 'a readResult = ReadOk 'a string | ReadEOF | ReadErr goError

text \<open>A reader that keeps reading until the stream ends or a read fails; at most \<open>n\<close> reads.\<close>

fun read_all :: "(string \<Rightarrow> 'a readResult) \<Rightarrow> nat \<Rightarrow> string \<Rightarrow> 'a list" where
  "read_all get 0 s = []"
| "read_all get (Suc n) s = (case get s of
      ReadOk x r \<Rightarrow> x # read_all get n r
    | ReadEOF \<Rightarrow> []
    | ReadErr e \<Rightarrow> [])"

definition emit_all :: "('a \<Rightarrow> string) \<Rightarrow> 'a list \<Rightarrow> string" where
  "emit_all emit xs = concat (map emit xs)"

lemma emit_all_simps [simp]:
  "emit_all emit [] = []" "emit_all emit (x # xs) = emit x @ emit_all emit xs"
  by (simp_all add: emit_all_def)

locale frame_codec =
  fixes ok :: "'a \<Rightarrow> bool" and emit :: "'a \<Rightarrow> string" and get :: "string \<Rightarrow> 'a readResult"
  assumes get_emit: "ok x \<Longrightarrow> get (emit x @ rest) = ReadOk x rest"
    and get_empty: "get [] = ReadEOF"
begin

lemma emit_nonempty: "ok x \<Longrightarrow> emit x \<noteq> []"
  using get_emit [of x "[]"] get_empty by auto

lemma read_all_emit_all:
  "list_all ok xs \<Longrightarrow> length xs \<le> n \<Longrightarrow>
     read_all get n (emit_all emit xs @ rest) = xs @ read_all get (n - length xs) rest"
proof (induction xs arbitrary: n)
  case (Cons x xs)
  then obtain m where "n = Suc m" by (cases n) auto
  with Cons show ?case by (simp add: get_emit)
qed simp

lemma read_all_empty: "read_all get n [] = []"
  by (cases n) (simp_all add: get_empty)

lemma read_all_exact:
  assumes "list_all ok xs" and "length xs \<le> n"
  shows "read_all get n (emit_all emit xs) = xs"
proof -
  have "read_all get n (emit_all emit xs @ []) = xs @ read_all get (n - length xs) []"
    using assms by (rule read_all_emit_all)
  then show ?thesis by (simp add: read_all_empty)
qed

lemma emit_all_unambiguous:
  assumes "list_all ok xs" and "list_all ok ys" and "emit_all emit xs = emit_all emit ys"
  shows "xs = ys"
proof -
  define n where "n = max (length xs) (length ys)"
  have "xs = read_all get n (emit_all emit xs)"
    by (rule read_all_exact [OF assms(1), symmetric]) (simp add: n_def)
  also have "\<dots> = read_all get n (emit_all emit ys)"
    by (simp only: assms(3))
  also have "\<dots> = ys"
    by (rule read_all_exact [OF assms(2)]) (simp add: n_def)
  finally show ?thesis .
qed

text \<open>What was read before more messages were appended stays the beginning of what is read.\<close>

lemma read_all_append:
  assumes "list_all ok xs" and "list_all ok ys"
  shows "read_all get (length xs + length ys) (emit_all emit xs @ emit_all emit ys) = xs @ ys"
  using read_all_emit_all [OF assms(1), of "length xs + length ys"] read_all_exact [OF assms(2) le_refl]
  by simp

end

end
