(* ===== verification/Json_Text.thy ===== *)
theory Json_Text
  imports Json
begin

text \<open>
  JSON as text: \<open>json.Marshal\<close> on a value (\<open>render\<close>) and the syntax side of \<open>json.Unmarshal\<close>
  (\<open>parse_json\<close>), which the line framing of \<open>internal/jsonrpc\<close> and the hook frames rest on.
  The renderer escapes as Go's encoder does by default (\<open>", \, <, >, &\<close>, the control characters and
  U+2028/9); the scanner accepts Go's grammar: the four white-space bytes, number literals, the
  escapes with surrogate pairs, no raw control character in a string, nesting up to 10000.
  Strings are assumed to be valid UTF-8; Go's replacement of invalid bytes is not modelled.
  The parser carries fuel; \<open>parse_json\<close> gives it two units per byte, and the lemmas show that
  every rendered value is read back with it.
\<close>

section \<open>Rendering\<close>

definition bsl :: char where "bsl = CHR 0x5C"

definition hex_digit :: "nat \<Rightarrow> char" where
  "hex_digit n = (if n < 10 then char_of (48 + n) else char_of (87 + n))"

definition hex4 :: "nat \<Rightarrow> string" where
  "hex4 n = [hex_digit (n div 4096 mod 16), hex_digit (n div 256 mod 16),
             hex_digit (n div 16 mod 16), hex_digit (n mod 16)]"

definition u_escape :: "nat \<Rightarrow> string" where
  "u_escape n = bsl # CHR ''u'' # hex4 n"

definition escape_char :: "char \<Rightarrow> string" where
  "escape_char c =
     (if c = dq \<or> c = bsl then [bsl, c]
      else if c = CHR 0x08 then [bsl, CHR ''b'']
      else if c = CHR 0x0C then [bsl, CHR ''f'']
      else if c = CHR 0x0A then [bsl, CHR ''n'']
      else if c = CHR 0x0D then [bsl, CHR ''r'']
      else if c = CHR 0x09 then [bsl, CHR ''t'']
      else if (of_char c :: nat) < 32 \<or> c \<in> {CHR ''<'', CHR ''>'', CHR ''&''}
      then u_escape (of_char c)
      else [c])"

text \<open>U+2028 and U+2029 are the bytes E2 80 A8 and E2 80 A9.\<close>

definition line_sep :: "string \<Rightarrow> nat option" where
  "line_sep s = (if take 3 s = [CHR 0xE2, CHR 0x80, CHR 0xA8] then Some 0x2028
                 else if take 3 s = [CHR 0xE2, CHR 0x80, CHR 0xA9] then Some 0x2029
                 else None)"

function (sequential) escape :: "string \<Rightarrow> string" where
  "escape [] = []"
| "escape (c # s) = (case line_sep (c # s) of
      Some n \<Rightarrow> u_escape n @ escape (drop 2 s)
    | None \<Rightarrow> escape_char c @ escape s)"
  by pat_completeness auto
termination by (relation "measure length") auto

definition render_str :: "string \<Rightarrow> string" where
  "render_str s = dq # escape s @ [dq]"

fun render :: "json \<Rightarrow> string"
and render_elems :: "json list \<Rightarrow> string"
and render_members :: "(string \<times> json) list \<Rightarrow> string" where
  "render JNull = ''null''"
| "render (JBool True) = ''true''"
| "render (JBool False) = ''false''"
| "render (JNum s) = s"
| "render (JStr s) = render_str s"
| "render (JArr []) = ''[]''"
| "render (JArr (x # xs)) = ''['' @ render_elems (x # xs) @ '']''"
| "render (JObj []) = ''{}''"
| "render (JObj (m # ms)) = ''{'' @ render_members (m # ms) @ ''}''"
| "render_elems [] = []"
| "render_elems [x] = render x"
| "render_elems (x # y # xs) = render x @ '','' @ render_elems (y # xs)"
| "render_members [] = []"
| "render_members [(k, v)] = render_str k @ '':'' @ render v"
| "render_members ((k, v) # m # ms) = render_str k @ '':'' @ render v @ '','' @ render_members (m # ms)"

section \<open>Scanning strings\<close>

definition hex_val :: "char \<Rightarrow> nat option" where
  "hex_val c = (let n = of_char c in
     if 48 \<le> n \<and> n \<le> 57 then Some (n - 48)
     else if 97 \<le> n \<and> n \<le> 102 then Some (n - 87)
     else if 65 \<le> n \<and> n \<le> 70 then Some (n - 55) else None)"

definition hex4_val :: "char \<Rightarrow> char \<Rightarrow> char \<Rightarrow> char \<Rightarrow> nat option" where
  "hex4_val a b c d = (case (hex_val a, hex_val b, hex_val c, hex_val d) of
      (Some w, Some x, Some y, Some z) \<Rightarrow> Some (4096 * w + 256 * x + 16 * y + z)
    | _ \<Rightarrow> None)"

definition unescape :: "char \<Rightarrow> char option" where
  "unescape e = (if e \<in> {dq, bsl, CHR ''/''} then Some e
     else if e = CHR ''b'' then Some (CHR 0x08)
     else if e = CHR ''f'' then Some (CHR 0x0C)
     else if e = CHR ''n'' then Some (CHR 0x0A)
     else if e = CHR ''r'' then Some (CHR 0x0D)
     else if e = CHR ''t'' then Some (CHR 0x09) else None)"

text \<open>A string literal is first cut into bytes and code units of \<open>\uXXXX\<close> escapes.\<close>

datatype strUnit = Byte char | Code nat

fun scan_str :: "string \<Rightarrow> (strUnit list \<times> string) option" where
  "scan_str [] = None"
| "scan_str (c # s) =
     (if c = dq then Some ([], s)
      else if (of_char c :: nat) < 32 then None
      else if c \<noteq> bsl then map_option (apfst (Cons (Byte c))) (scan_str s)
      else (case s of
          [] \<Rightarrow> None
        | e # t \<Rightarrow>
            if e = CHR ''u'' then
              (case t of
                 h1 # h2 # h3 # h4 # t' \<Rightarrow>
                   (case hex4_val h1 h2 h3 h4 of
                      None \<Rightarrow> None
                    | Some n \<Rightarrow> map_option (apfst (Cons (Code n))) (scan_str t'))
               | _ \<Rightarrow> None)
            else (case unescape e of
                None \<Rightarrow> None
              | Some b \<Rightarrow> map_option (apfst (Cons (Byte b))) (scan_str t))))"

definition utf8 :: "nat \<Rightarrow> string" where
  "utf8 n = (if n < 128 then [char_of n]
     else if n < 2048 then [char_of (192 + n div 64), char_of (128 + n mod 64)]
     else if n < 65536 then [char_of (224 + n div 4096), char_of (128 + n div 64 mod 64),
                             char_of (128 + n mod 64)]
     else [char_of (240 + n div 262144), char_of (128 + n div 4096 mod 64),
           char_of (128 + n div 64 mod 64), char_of (128 + n mod 64)])"

definition is_hi :: "nat \<Rightarrow> bool" where "is_hi n = (0xD800 \<le> n \<and> n < 0xDC00)"
definition is_lo :: "nat \<Rightarrow> bool" where "is_lo n = (0xDC00 \<le> n \<and> n < 0xE000)"

text \<open>A high surrogate followed by a low one is one rune; a lone surrogate is U+FFFD.\<close>

definition rune :: "nat \<Rightarrow> string" where
  "rune n = utf8 (if is_hi n \<or> is_lo n then 0xFFFD else n)"

fun assemble :: "strUnit list \<Rightarrow> string" where
  "assemble [] = []"
| "assemble (Byte c # us) = c # assemble us"
| "assemble [Code n] = rune n"
| "assemble (Code n # Byte c # us) = rune n @ c # assemble us"
| "assemble (Code h # Code l # us) =
     (if is_hi h \<and> is_lo l
      then utf8 (0x10000 + (h - 0xD800) * 1024 + (l - 0xDC00)) @ assemble us
      else rune h @ assemble (Code l # us))"

definition p_str :: "string \<Rightarrow> (string \<times> string) option" where
  "p_str s = map_option (apfst assemble) (scan_str s)"

section \<open>Scanning values\<close>

definition json_ws :: "char \<Rightarrow> bool" where
  "json_ws c = (c \<in> {CHR 0x20, CHR 0x09, CHR 0x0A, CHR 0x0D})"

definition skip_ws :: "string \<Rightarrow> string" where
  "skip_ws = dropWhile json_ws"

definition num_char :: "char \<Rightarrow> bool" where
  "num_char c = (is_digit c \<or> c \<in> {CHR ''-'', CHR ''+'', CHR ''.'', CHR ''e'', CHR ''E''})"

definition valid_int :: "string \<Rightarrow> bool" where
  "valid_int ds = (ds \<noteq> [] \<and> list_all is_digit ds \<and> (hd ds = CHR ''0'' \<longrightarrow> tl ds = []))"

definition valid_exp :: "string \<Rightarrow> bool" where
  "valid_exp s = (case s of
      [] \<Rightarrow> True
    | c # t \<Rightarrow> (c = CHR ''e'' \<or> c = CHR ''E'') \<and>
        (let ds = (case t of [] \<Rightarrow> [] | g # u \<Rightarrow> if g = CHR ''-'' \<or> g = CHR ''+'' then u else t)
         in ds \<noteq> [] \<and> list_all is_digit ds))"

definition valid_frac :: "string \<Rightarrow> bool" where
  "valid_frac s = (case s of
      [] \<Rightarrow> True
    | c # t \<Rightarrow> if c = CHR ''.''
               then takeWhile is_digit t \<noteq> [] \<and> valid_exp (dropWhile is_digit t)
               else valid_exp s)"

definition valid_number :: "string \<Rightarrow> bool" where
  "valid_number s = (let u = (case s of [] \<Rightarrow> [] | c # t \<Rightarrow> if c = CHR ''-'' then t else s)
     in valid_int (takeWhile is_digit u) \<and> valid_frac (dropWhile is_digit u))"

definition p_num :: "string \<Rightarrow> (json \<times> string) option" where
  "p_num s = (let w = takeWhile num_char s in
     if valid_number w then Some (JNum w, dropWhile num_char s) else None)"

definition p_lit :: "string \<Rightarrow> json \<Rightarrow> string \<Rightarrow> (json \<times> string) option" where
  "p_lit w v s = (if has_prefix s w then Some (v, drop (length w) s) else None)"

fun p_val :: "nat \<Rightarrow> string \<Rightarrow> (json \<times> string) option"
and p_elems :: "nat \<Rightarrow> string \<Rightarrow> (json list \<times> string) option"
and p_members :: "nat \<Rightarrow> string \<Rightarrow> ((string \<times> json) list \<times> string) option" where
  "p_val 0 s = None"
| "p_val (Suc n) s =
     (case skip_ws s of
        [] \<Rightarrow> None
      | c # t \<Rightarrow>
          if c = dq then map_option (apfst JStr) (p_str t)
          else if c = CHR ''['' then
            (case skip_ws t of
               [] \<Rightarrow> None
             | d # u \<Rightarrow> if d = CHR '']'' then Some (JArr [], u)
                        else map_option (apfst JArr) (p_elems n t))
          else if c = CHR ''{'' then
            (case skip_ws t of
               [] \<Rightarrow> None
             | d # u \<Rightarrow> if d = CHR ''}'' then Some (JObj [], u)
                        else map_option (apfst JObj) (p_members n t))
          else if c = CHR ''t'' then p_lit ''true'' (JBool True) (c # t)
          else if c = CHR ''f'' then p_lit ''false'' (JBool False) (c # t)
          else if c = CHR ''n'' then p_lit ''null'' JNull (c # t)
          else p_num (c # t))"
| "p_elems 0 s = None"
| "p_elems (Suc n) s =
     (case p_val n s of
        None \<Rightarrow> None
      | Some (v, t) \<Rightarrow>
          (case skip_ws t of
             [] \<Rightarrow> None
           | d # u \<Rightarrow> if d = CHR '']'' then Some ([v], u)
                      else if d = CHR '','' then map_option (apfst (Cons v)) (p_elems n u)
                      else None))"
| "p_members 0 s = None"
| "p_members (Suc n) s =
     (case skip_ws s of
        [] \<Rightarrow> None
      | q # t \<Rightarrow>
          if q \<noteq> dq then None
          else (case p_str t of
             None \<Rightarrow> None
           | Some (k, t1) \<Rightarrow>
               (case skip_ws t1 of
                  [] \<Rightarrow> None
                | e # t2 \<Rightarrow>
                    if e \<noteq> CHR '':'' then None
                    else (case p_val n t2 of
                       None \<Rightarrow> None
                     | Some (v, t3) \<Rightarrow>
                         (case skip_ws t3 of
                            [] \<Rightarrow> None
                          | d # u \<Rightarrow> if d = CHR ''}'' then Some ([(k, v)], u)
                                     else if d = CHR '','' then map_option (apfst (Cons (k, v))) (p_members n u)
                                     else None)))))"

fun json_depth :: "json \<Rightarrow> nat" where
  "json_depth (JArr xs) = Suc (fold max (map json_depth xs) 0)"
| "json_depth (JObj ms) = Suc (fold max (map (\<lambda>m. json_depth (snd m)) ms) 0)"
| "json_depth _ = 0"

text \<open>One value, with white space around it, and nothing else.\<close>

definition parse_json :: "string \<Rightarrow> json option" where
  "parse_json s = (case p_val (2 * length s + 1) s of
      Some (j, t) \<Rightarrow> if skip_ws t = [] \<and> json_depth j \<le> 10000 then Some j else None
    | None \<Rightarrow> None)"

section \<open>Lemmas: strings\<close>

fun unit_str :: "strUnit \<Rightarrow> string" where
  "unit_str (Byte c) = [c]"
| "unit_str (Code n) = rune n"

fun plain_unit :: "strUnit \<Rightarrow> bool" where
  "plain_unit (Byte c) = True"
| "plain_unit (Code n) = (\<not> is_hi n)"

lemma assemble_plain:
  "list_all plain_unit us \<Longrightarrow> assemble us = concat (map unit_str us)"
  by (induction us rule: assemble.induct) auto

lemma hex_val_digit [simp]: "n < 16 \<Longrightarrow> hex_val (hex_digit n) = Some n"
  by (auto simp: hex_val_def hex_digit_def)

lemma hex4_val_hex4: "n < 65536 \<Longrightarrow>
  hex4_val (hex_digit (n div 4096 mod 16)) (hex_digit (n div 256 mod 16))
           (hex_digit (n div 16 mod 16)) (hex_digit (n mod 16)) = Some n"
proof -
  assume "n < 65536"
  then have a: "n div 4096 mod 16 = n div 4096" by (simp add: div_less_iff_less_mult)
  have b: "n mod 4096 = 256 * (n div 256 mod 16) + n mod 256"
    using mod_mult2_eq [of n 256 16] by simp
  have c: "n mod 256 = 16 * (n div 16 mod 16) + n mod 16"
    using mod_mult2_eq [of n 16 16] by simp
  have "4096 * (n div 4096) + n mod 4096 = n" by simp
  moreover have "n div 4096 < 16" using a by (metis mod_less_divisor zero_less_numeral)
  ultimately show ?thesis by (simp add: hex4_val_def a b c)
qed

lemma dq_simps [simp]:
  "dq \<noteq> bsl" "bsl \<noteq> dq" "\<not> (of_char dq :: nat) < 32" "\<not> (of_char bsl :: nat) < 32"
  "bsl \<noteq> CHR ''u''" "dq \<noteq> CHR ''u''" "dq \<noteq> CHR ''[''" "dq \<noteq> CHR '']''" "dq \<noteq> CHR ''{''" "dq \<noteq> CHR ''}''"
  "CHR ''['' \<noteq> dq" "CHR '']'' \<noteq> dq" "CHR ''{'' \<noteq> dq" "CHR ''}'' \<noteq> dq" "CHR ''t'' \<noteq> dq" "CHR ''f'' \<noteq> dq"
  "CHR ''n'' \<noteq> dq"
  by (simp_all add: dq_def bsl_def)

lemma scan_u_escape: "n < 65536 \<Longrightarrow>
  scan_str (u_escape n @ r) = map_option (apfst (Cons (Code n))) (scan_str r)"
proof -
  assume "n < 65536"
  from hex4_val_hex4 [OF this] show ?thesis
    by (simp add: u_escape_def hex4_def)
qed

definition short_escapes :: "char set" where
  "short_escapes = {dq, bsl, CHR 0x08, CHR 0x0C, CHR 0x0A, CHR 0x0D, CHR 0x09}"

definition code_escaped :: "char \<Rightarrow> bool" where
  "code_escaped c = ((of_char c :: nat) < 32 \<or> c \<in> {CHR ''<'', CHR ''>'', CHR ''&''})"

lemma scan_short_escape:
  "c \<in> short_escapes \<Longrightarrow> scan_str (escape_char c @ r) = map_option (apfst (Cons (Byte c))) (scan_str r)"
  unfolding short_escapes_def
  by (elim insertE emptyE) (simp_all add: escape_char_def unescape_def dq_def bsl_def)

lemma escape_char_cases:
  "c \<notin> short_escapes \<Longrightarrow> escape_char c = (if code_escaped c then u_escape (of_char c) else [c])"
  by (simp add: escape_char_def short_escapes_def code_escaped_def)

lemma code_escaped_ascii: "code_escaped c \<Longrightarrow> (of_char c :: nat) < 128"
  by (auto simp: code_escaped_def)

lemma unit_str_ascii:
  "(of_char c :: nat) < 128 \<Longrightarrow> unit_str (Code (of_char c)) = [c] \<and> plain_unit (Code (of_char c))"
  by (simp add: rune_def utf8_def is_hi_def is_lo_def)

lemma scan_raw_char:
  "c \<notin> short_escapes \<Longrightarrow> \<not> code_escaped c \<Longrightarrow>
     scan_str (c # r) = map_option (apfst (Cons (Byte c))) (scan_str r)"
  by (simp add: short_escapes_def code_escaped_def)

lemma scan_escape_char:
  "\<exists>u. scan_str (escape_char c @ r) = map_option (apfst (Cons u)) (scan_str r) \<and>
       plain_unit u \<and> unit_str u = [c]"
proof (cases "c \<in> short_escapes \<or> \<not> code_escaped c")
  case True
  then have "scan_str (escape_char c @ r) = map_option (apfst (Cons (Byte c))) (scan_str r)"
    by (cases "c \<in> short_escapes") (simp_all only: scan_short_escape escape_char_cases scan_raw_char
          if_False append_Cons append_Nil simp_thms)
  then show ?thesis by (intro exI [of _ "Byte c"]) (simp only: plain_unit.simps unit_str.simps)
next
  case False
  then have "(of_char c :: nat) < 128" and "escape_char c = u_escape (of_char c)"
    using code_escaped_ascii [of c] escape_char_cases [of c] by simp_all
  with unit_str_ascii [of c] scan_u_escape [of "of_char c" r] show ?thesis
    by (intro exI [of _ "Code (of_char c)"]) (simp del: unit_str.simps plain_unit.simps)
qed

lemma utf8_seps:
  "utf8 0x2028 = [CHR 0xE2, CHR 0x80, CHR 0xA8]" "utf8 0x2029 = [CHR 0xE2, CHR 0x80, CHR 0xA9]"
  by (simp_all add: utf8_def char_of_def bit_simps)

lemma unit_str_seps:
  "unit_str (Code 0x2028) = utf8 0x2028" "unit_str (Code 0x2029) = utf8 0x2029"
  "plain_unit (Code 0x2028)" "plain_unit (Code 0x2029)"
  by (simp_all add: rune_def is_hi_def is_lo_def)

lemma line_sep_cases:
  "line_sep s = Some n \<Longrightarrow> n = 0x2028 \<and> take 3 s = utf8 0x2028 \<or> n = 0x2029 \<and> take 3 s = utf8 0x2029"
  unfolding line_sep_def utf8_seps by (simp only: split: if_splits) simp_all

lemma line_sep_bytes:
  assumes "line_sep s = Some n"
  shows "s = unit_str (Code n) @ drop 3 s \<and> plain_unit (Code n) \<and> n < 65536"
proof -
  from line_sep_cases [OF assms] have n: "n = 0x2028 \<or> n = 0x2029" and t: "take 3 s = utf8 n"
    by auto
  from n have r: "unit_str (Code n) = utf8 n" and p: "plain_unit (Code n)" and b: "n < 65536"
    using unit_str_seps by auto
  have "s = utf8 n @ drop 3 s"
    using append_take_drop_id [of 3 s] by (simp only: t)
  then show ?thesis unfolding r using p b by blast
qed

lemma scan_escape:
  "\<exists>us. scan_str (escape s @ dq # r) = Some (us, r) \<and> list_all plain_unit us \<and>
        concat (map unit_str us) = s"
proof (induction s rule: escape.induct)
  case 1
  show ?case by (simp add: exI [of _ "[]"])
next
  case (2 c s)
  show ?case
  proof (cases "line_sep (c # s)")
    case None
    from 2(1) [OF None] obtain us where us: "scan_str (escape s @ dq # r) = Some (us, r)"
      "list_all plain_unit us" "concat (map unit_str us) = s" by blast
    from scan_escape_char [of c "escape s @ dq # r"] obtain u where
      "scan_str (escape_char c @ escape s @ dq # r) = Some (u # us, r)" "plain_unit u" "unit_str u = [c]"
      using us by auto
    with us None show ?thesis by (intro exI [of _ "u # us"]) simp
  next
    case (Some n)
    from 2(2) [OF Some] obtain us where us: "scan_str (escape (drop 2 s) @ dq # r) = Some (us, r)"
      "list_all plain_unit us" "concat (map unit_str us) = drop 2 s" by blast
    from line_sep_bytes [OF Some] have b: "unit_str (Code n) @ drop 2 s = c # s"
      "plain_unit (Code n)" "n < 65536" by auto
    have "escape (c # s) = u_escape n @ escape (drop 2 s)" using Some by simp
    with us b show ?thesis
      by (intro exI [of _ "Code n # us"]) (simp add: scan_u_escape del: escape.simps)
  qed
qed

lemma p_str_escape: "p_str (escape s @ dq # r) = Some (s, r)"
  using scan_escape [of s r] by (auto simp: p_str_def assemble_plain)

section \<open>Lemmas: rendered values are read back\<close>

text \<open>Number literals are what \<open>json.Marshal\<close> gives for a number, or were scanned before.\<close>

fun wf_json :: "json \<Rightarrow> bool" where
  "wf_json (JNum s) = valid_number s"
| "wf_json (JArr xs) = list_all wf_json xs"
| "wf_json (JObj ms) = list_all (\<lambda>m. wf_json (snd m)) ms"
| "wf_json _ = True"

lemma valid_exp_chars: "valid_exp s \<Longrightarrow> list_all num_char s"
  by (cases s; cases "tl s")
    (auto simp: valid_exp_def num_char_def list_all_iff Let_def split: if_splits)

lemma valid_frac_chars: "valid_frac s \<Longrightarrow> list_all num_char s"
proof (cases s)
  case (Cons c t)
  assume v: "valid_frac s"
  show ?thesis
  proof (cases "c = CHR ''.''")
    case True
    then have "list_all num_char (dropWhile is_digit t)"
      using v Cons by (simp add: valid_frac_def valid_exp_chars)
    moreover have "list_all num_char (takeWhile is_digit t)"
      by (auto simp: list_all_iff num_char_def dest: set_takeWhileD)
    ultimately have "list_all num_char (takeWhile is_digit t @ dropWhile is_digit t)"
      by (simp only: list_all_append)
    then show ?thesis using True Cons by (simp add: num_char_def)
  next
    case False
    then have "valid_frac s = valid_exp s" using Cons by (simp add: valid_frac_def)
    with v show ?thesis by (simp add: valid_exp_chars)
  qed
qed simp

lemma valid_number_chars: "valid_number s \<Longrightarrow> s \<noteq> [] \<and> list_all num_char s"
proof -
  assume v: "valid_number s"
  define u where "u = (case s of [] \<Rightarrow> [] | c # t \<Rightarrow> if c = CHR ''-'' then t else s)"
  have v': "valid_int (takeWhile is_digit u)" "valid_frac (dropWhile is_digit u)"
    using v by (simp_all add: valid_number_def u_def Let_def)
  have "list_all num_char (takeWhile is_digit u)"
    by (auto simp: list_all_iff num_char_def dest: set_takeWhileD)
  moreover have "list_all num_char (dropWhile is_digit u)"
    using v'(2) by (rule valid_frac_chars)
  ultimately have "list_all num_char (takeWhile is_digit u @ dropWhile is_digit u)"
    by (simp only: list_all_append)
  then have "list_all num_char u" by simp
  moreover have "u \<noteq> []" using v'(1) by (auto simp: valid_int_def)
  ultimately show ?thesis
    by (cases s) (auto simp: u_def num_char_def split: if_splits)
qed

lemma valid_number_head: "valid_number (c # s) \<Longrightarrow> is_digit c \<or> c = CHR ''-''"
  by (cases "is_digit c") (auto simp: valid_number_def valid_int_def split: if_splits)

definition follow :: "string \<Rightarrow> bool" where
  "follow r = (case r of [] \<Rightarrow> True | c # _ \<Rightarrow> \<not> num_char c)"

lemma follow_simps [simp]: "follow []" "follow (CHR '','' # r)" "follow (CHR '']'' # r)" "follow (CHR ''}'' # r)"
  by (simp_all add: follow_def num_char_def is_digit_def)

lemma p_num_render: "valid_number s \<Longrightarrow> follow r \<Longrightarrow> p_num (s @ r) = Some (JNum s, r)"
proof -
  assume v: "valid_number s" and f: "follow r"
  from v have n: "\<forall>c \<in> set s. num_char c" by (simp add: valid_number_chars flip: list_all_iff)
  then have "takeWhile num_char (s @ r) = s @ takeWhile num_char r" "dropWhile num_char (s @ r) = dropWhile num_char r"
    by simp_all
  moreover have "takeWhile num_char r = []" "dropWhile num_char r = r"
    using f by (cases r; simp add: follow_def)+
  ultimately show ?thesis using v by (simp add: p_num_def)
qed

text \<open>The first byte of a rendered value, which no white space and no closing bracket is.\<close>

lemma skip_ws_nonspace [simp]: "\<not> json_ws c \<Longrightarrow> skip_ws (c # s) = c # s"
  by (simp add: skip_ws_def)

lemma json_ws_simps [simp]:
  "\<not> json_ws dq" "\<not> json_ws (CHR ''['')" "\<not> json_ws (CHR '']'')" "\<not> json_ws (CHR ''{'')"
  "\<not> json_ws (CHR ''}'')" "\<not> json_ws (CHR '','')" "\<not> json_ws (CHR '':'')" "\<not> json_ws (CHR ''t'')"
  "\<not> json_ws (CHR ''f'')" "\<not> json_ws (CHR ''n'')" "\<not> json_ws (CHR ''-'')"
  by (simp_all add: json_ws_def dq_def)

lemma num_head: "is_digit c \<or> c = CHR ''-'' \<Longrightarrow> \<not> json_ws c \<and> c \<noteq> dq \<and> c \<noteq> CHR ''['' \<and> c \<noteq> CHR '']''
   \<and> c \<noteq> CHR ''{'' \<and> c \<noteq> CHR ''}'' \<and> c \<noteq> CHR ''t'' \<and> c \<noteq> CHR ''f'' \<and> c \<noteq> CHR ''n''"
  by (auto simp: is_digit_def json_ws_def dq_def)

lemma render_head:
  "wf_json j \<Longrightarrow> \<exists>c s. render j = c # s \<and> \<not> json_ws c \<and> c \<noteq> CHR '']''"
proof (cases j)
  case (JNum s)
  assume "wf_json j"
  with JNum have v: "valid_number s" by simp
  then obtain c t where s: "s = c # t" using valid_number_chars [of s] by (cases s) auto
  with v JNum show ?thesis using num_head [of c] valid_number_head [of c t] by auto
next
  case (JBool b)
  then show ?thesis by (cases b) auto
next
  case (JArr xs)
  then show ?thesis by (cases xs) auto
next
  case (JObj ms)
  then show ?thesis by (cases ms) auto
qed (auto simp: render_str_def)

lemma p_val_render:
  "wf_json j \<Longrightarrow> 2 * length (render j) + 1 \<le> n \<Longrightarrow> follow r \<Longrightarrow>
     p_val n (render j @ r) = Some (j, r)"
  "list_all wf_json xs \<Longrightarrow> xs \<noteq> [] \<Longrightarrow> 2 * length (render_elems xs) + 2 \<le> n \<Longrightarrow>
     p_elems n (render_elems xs @ CHR '']'' # r) = Some (xs, r)"
  "list_all (\<lambda>m. wf_json (snd m)) ms \<Longrightarrow> ms \<noteq> [] \<Longrightarrow> 2 * length (render_members ms) + 2 \<le> n \<Longrightarrow>
     p_members n (render_members ms @ CHR ''}'' # r) = Some (ms, r)"
proof (induction j and xs and ms arbitrary: n r and n r and n r
    rule: render_render_elems_render_members.induct)
  case (4 s)
  then obtain m where n: "n = Suc m" by (cases n) auto
  obtain c t where s: "s = c # t" using 4 valid_number_chars [of s] by (cases s) auto
  with 4 have h: "is_digit c \<or> c = CHR ''-''" using valid_number_head [of c t] by simp
  have "p_num (s @ r) = Some (JNum s, r)" using 4 by (simp add: p_num_render)
  with s n num_head [OF h] show ?case by simp
next
  case (5 s)
  then obtain m where "n = Suc m" by (cases n) auto
  then show ?case by (simp add: render_str_def p_str_escape)
next
  case (7 x xs)
  then obtain m where n: "n = Suc m" by (cases n) auto
  obtain c s where h: "render_elems (x # xs) = c # s" "\<not> json_ws c" "c \<noteq> CHR '']''"
    using render_head [of x] 7 by (cases xs) auto
  have "p_elems m (render_elems (x # xs) @ CHR '']'' # r) = Some (x # xs, r)"
    using 7 n by (intro 7(1)) auto
  with h n show ?case by simp
next
  case (9 a ms)
  then obtain m where n: "n = Suc m" by (cases n) auto
  obtain k v where kv: "a = (k, v)" by (cases a)
  obtain s where h: "render_members (a # ms) = dq # s"
    by (cases ms) (auto simp: kv render_str_def)
  have "p_members m (render_members (a # ms) @ CHR ''}'' # r) = Some (a # ms, r)"
    using 9 n by (intro 9(1)) auto
  with h n show ?case by simp
next
  case (11 x)
  then obtain m where n: "n = Suc m" by (cases n) auto
  with 11 show ?case by simp
next
  case (12 x y xs)
  then obtain m where n: "n = Suc m" by (cases n) auto
  have "render x \<noteq> []" using render_head [of x] 12 by auto
  with 12 n show ?case by simp
next
  case (14 k v)
  then obtain m where n: "n = Suc m" by (cases n) auto
  with 14 show ?case by (simp add: render_str_def p_str_escape)
next
  case (15 k v b ms)
  then obtain m where n: "n = Suc m" by (cases n) auto
  have "render v \<noteq> []" using render_head [of v] 15 by auto
  with 15 n show ?case by (simp add: render_str_def p_str_escape)
qed (case_tac n; simp add: p_lit_def has_prefix_def dq_def)+

lemma parse_json_render:
  "wf_json j \<Longrightarrow> json_depth j \<le> 10000 \<Longrightarrow> parse_json (render j) = Some j"
  using p_val_render(1) [of j "2 * length (render j) + 1" "[]"]
  by (simp add: parse_json_def skip_ws_def)

section \<open>Lemmas: the fuel is enough\<close>

lemma skip_ws_length: "length (skip_ws s) \<le> length s"
  by (simp add: skip_ws_def dropWhile_length_le)

lemma skip_ws_Cons: "skip_ws s = c # t \<Longrightarrow> length t < length s"
  using skip_ws_length [of s] by simp

lemma scan_str_length: "scan_str s = Some (us, t) \<Longrightarrow> length t < length s"
  by (induction s arbitrary: us t rule: scan_str.induct)
    (fastforce split: if_splits list.splits option.splits)+

lemma p_str_length: "p_str s = Some (k, t) \<Longrightarrow> length t < length s"
  by (auto simp: p_str_def scan_str_length)

lemma p_lit_length: "p_lit w v s = Some (j, t) \<Longrightarrow> w \<noteq> [] \<Longrightarrow> s \<noteq> [] \<Longrightarrow> length t < length s"
  by (auto simp: p_lit_def split: if_splits)

lemma p_num_length: "p_num s = Some (j, t) \<Longrightarrow> length t < length s"
proof -
  assume a: "p_num s = Some (j, t)"
  then have "takeWhile num_char s \<noteq> []" and t: "t = dropWhile num_char s"
    using valid_number_chars [of "takeWhile num_char s"] by (auto simp: p_num_def Let_def split: if_splits)
  moreover have "length s = length (takeWhile num_char s) + length (dropWhile num_char s)"
    by (metis length_append takeWhile_dropWhile_id)
  ultimately show ?thesis by simp
qed

lemma p_length:
  "p_val n s = Some (v, t) \<Longrightarrow> length t < length s"
  "p_elems n s = Some (vs, t) \<Longrightarrow> length t < length s"
  "p_members n s = Some (ms, t) \<Longrightarrow> length t < length s"
proof (induction n s and n s and n s arbitrary: v t and vs t and ms t rule: p_val_p_elems_p_members.induct)
  case (2 n s)
  then show ?case
    by (fastforce dest: skip_ws_Cons p_str_length p_lit_length p_num_length
        split: list.splits if_splits)
next
  case (4 n s)
  then show ?case
    by (fastforce dest: skip_ws_Cons split: list.splits if_splits option.splits)
next
  case (6 n s)
  then show ?case
    by (fastforce dest: skip_ws_Cons p_str_length split: list.splits if_splits option.splits)
qed simp_all

lemma p_fuel:
  "2 * length s + 1 \<le> n \<Longrightarrow> p_val (Suc n) s = p_val n s"
  "2 * length s + 2 \<le> n \<Longrightarrow> p_elems (Suc n) s = p_elems n s"
  "2 * length s + 2 \<le> n \<Longrightarrow> p_members (Suc n) s = p_members n s"
proof (induction n arbitrary: s)
  case (Suc n)
  {
    case 1
    have "p_elems (Suc n) t = p_elems n t \<and> p_members (Suc n) t = p_members n t"
      if "skip_ws s = c # t" for c t
      using Suc(2,3) [of t] skip_ws_Cons [OF that] 1 by simp
    then show ?case unfolding p_val.simps(2) [of "Suc n" s] p_val.simps(2) [of n s]
      by (auto split: list.splits simp del: p_elems.simps p_members.simps)
  next
    case 2
    then have "p_val (Suc n) s = p_val n s" using Suc(1) [of s] by simp
    moreover have "p_elems (Suc n) u = p_elems n u" if "p_val n s = Some (v, t)" "skip_ws t = d # u" for v t d u
      using Suc(2) [of u] p_length(1) [OF that(1)] skip_ws_Cons [OF that(2)] 2 by simp
    ultimately show ?case unfolding p_elems.simps(2) [of "Suc n" s] p_elems.simps(2) [of n s]
      by (auto simp del: p_val.simps p_elems.simps split: option.splits list.splits)
  next
    case 3
    have "p_val (Suc n) t2 = p_val n t2"
      if "skip_ws s = q # t" "p_str t = Some (k, t1)" "skip_ws t1 = e # t2" for q t k t1 e t2
      using Suc(1) [of t2] skip_ws_Cons [OF that(1)] p_str_length [OF that(2)] skip_ws_Cons [OF that(3)] 3
      by simp
    moreover have "p_members (Suc n) u = p_members n u"
      if "skip_ws s = q # t" "p_str t = Some (k, t1)" "skip_ws t1 = e # t2" "p_val n t2 = Some (v, t3)"
        "skip_ws t3 = d # u" for q t k t1 e t2 v t3 d u
      using Suc(3) [of u] skip_ws_Cons [OF that(1)] p_str_length [OF that(2)] skip_ws_Cons [OF that(3)]
        p_length(1) [OF that(4)] skip_ws_Cons [OF that(5)] 3 by simp
    ultimately show ?case unfolding p_members.simps(2) [of "Suc n" s] p_members.simps(2) [of n s]
      by (auto simp del: p_val.simps p_members.simps split: option.splits list.splits)
  }
qed simp_all

lemma p_val_fuel: "2 * length s + 1 \<le> n \<Longrightarrow> p_val n s = p_val (2 * length s + 1) s"
  by (induction n rule: dec_induct) (simp_all add: p_fuel(1) del: p_val.simps)

section \<open>Lemmas: no control characters\<close>

definition printable :: "string \<Rightarrow> bool" where
  "printable s = list_all (\<lambda>c. 32 \<le> (of_char c :: nat)) s"

lemma printable_append [simp]: "printable (s @ t) \<longleftrightarrow> printable s \<and> printable t"
  by (simp add: printable_def)

lemma printable_Cons [simp]: "printable (c # s) \<longleftrightarrow> 32 \<le> (of_char c :: nat) \<and> printable s"
  by (simp add: printable_def)

lemma printable_Nil [simp]: "printable []"
  by (simp add: printable_def)

lemma of_char_hex_digit: "n < 16 \<Longrightarrow> 32 \<le> (of_char (hex_digit n) :: nat)"
  by (simp add: hex_digit_def)

lemma printable_u_escape [simp]: "printable (u_escape n)"
  by (simp add: u_escape_def hex4_def of_char_hex_digit bsl_def)

lemma printable_escape_char [simp]: "printable (escape_char c)"
  by (auto simp: escape_char_def bsl_def dq_def)

lemma printable_escape [simp]: "printable (escape s)"
  by (induction s rule: escape.induct) (auto split: option.splits)

lemma printable_render_str [simp]: "printable (render_str s)"
  by (simp add: render_str_def dq_def)

lemma printable_number: "valid_number s \<Longrightarrow> printable s"
  using valid_number_chars [of s] by (auto simp: printable_def num_char_def is_digit_def list_all_iff)

lemma printable_render:
  "wf_json j \<Longrightarrow> printable (render j)"
  "list_all wf_json xs \<Longrightarrow> printable (render_elems xs)"
  "list_all (\<lambda>m. wf_json (snd m)) ms \<Longrightarrow> printable (render_members ms)"
  by (induction j and xs and ms rule: render_render_elems_render_members.induct)
    (simp_all add: printable_number)

text \<open>A rendered value is one line: it holds no line feed and does not end in a return.\<close>

lemma render_one_line: "wf_json j \<Longrightarrow> lf \<notin> set (render j) \<and> cr \<notin> set (render j)"
  using printable_render(1) [of j] by (auto simp: printable_def list_all_iff lf_def cr_def)

end
