(* ===== verification/Jsonrpc.thy ===== *)
theory Jsonrpc
  imports Framing Json_Text
begin

text \<open>
  The JSON-RPC layer of \<open>internal/jsonrpc\<close> below the demultiplexer: the message structs of
  \<open>types.go\<close> with their encoding and the decoding of an inbound \<open>rawFrame\<close>, the id allocator of
  \<open>ids.go\<close>, and the newline framing of \<open>framing.go\<close>. \<open>LineWriter.WriteFrame\<close> is modelled with
  the partial writes its loop handles; \<open>LineReader.ReadLine\<close> with the limits of \<open>bufio.Scanner\<close>:
  a line (without its newline) of \<open>maxSize\<close> or more bytes is an error, a trailing return is
  dropped, and a last line without newline is still delivered.
\<close>

section \<open>Ids\<close>

text \<open>\<open>atomic.Uint64.Add(1)\<close> wraps at 64 bits.\<close>

definition next_id :: "nat \<Rightarrow> nat" where
  "next_id n = (n + 1) mod 2 ^ 64"

section \<open>Messages\<close>

record rpcRequest =
  req_ID :: nat
  req_Method :: string
  req_Params :: raw

record rpcErrorObj =
  rpc_Code :: int
  rpc_Message :: string
  rpc_Data :: raw

record rpcResponse =
  resp_ID :: nat
  resp_Result :: raw
  resp_Error :: "rpcErrorObj ptr"

record rpcNotification =
  note_Method :: string
  note_Params :: raw
  note_DecodeError :: "goError ptr"

record rawFrame =
  rf_ID :: "nat ptr"
  rf_Method :: "string ptr"
  rf_Params :: raw
  rf_Result :: raw
  rf_Error :: "rpcErrorObj ptr"

text \<open>\<open>omitempty\<close> on a raw message.\<close>

definition omit_raw :: "string \<Rightarrow> raw \<Rightarrow> (string \<times> json) list" where
  "omit_raw k r = (case r of None \<Rightarrow> [] | Some j \<Rightarrow> [(k, j)])"

definition encode_Request :: "rpcRequest \<Rightarrow> json" where
  "encode_Request r = JObj ([(''id'', JNum (itoa (req_ID r))), (''method'', JStr (req_Method r))]
                            @ omit_raw ''params'' (req_Params r))"

definition encode_Notification :: "rpcNotification \<Rightarrow> json" where
  "encode_Notification n = JObj ([(''method'', JStr (note_Method n))] @ omit_raw ''params'' (note_Params n))"

definition encode_RPCError :: "rpcErrorObj \<Rightarrow> json" where
  "encode_RPCError e = JObj ([(''code'', JNum (render_int (rpc_Code e))), (''message'', JStr (rpc_Message e))]
                             @ omit_raw ''data'' (rpc_Data e))"

definition encode_Response :: "rpcResponse \<Rightarrow> json" where
  "encode_Response r = JObj ([(''id'', JNum (itoa (resp_ID r)))] @ omit_raw ''result'' (resp_Result r)
     @ (case resp_Error r of None \<Rightarrow> [] | Some e \<Rightarrow> [(''error'', encode_RPCError e)]))"

definition t_rpcError :: gotype where
  "t_rpcError = t_struct [(''code'', t_int), (''message'', t_str), (''data'', t_raw)]"

definition to_rpcError :: "gval \<Rightarrow> rpcErrorObj" where
  "to_rpcError g = \<lparr>rpc_Code = f_int g ''code'', rpc_Message = f_str g ''message'', rpc_Data = f_raw g ''data''\<rparr>"

definition t_rawFrame :: gotype where
  "t_rawFrame = t_struct [(''id'', t_ptr t_uint64), (''method'', t_ptr t_str), (''params'', t_raw),
                          (''result'', t_raw), (''error'', t_ptr t_rpcError)]"

definition to_rawFrame :: "gval \<Rightarrow> rawFrame" where
  "to_rawFrame g = \<lparr>rf_ID = map_option nat (f_pint g ''id''), rf_Method = f_pstr g ''method'',
     rf_Params = f_raw g ''params'', rf_Result = f_raw g ''result'',
     rf_Error = map_option to_rpcError (f_ptr g ''error'')\<rparr>"

text \<open>\<open>json.Unmarshal(line, &frame)\<close>: a syntax error or a mismatch is a decode failure.\<close>

definition decode_frame :: "string \<Rightarrow> rawFrame option" where
  "decode_frame line = (case parse_json line of
      None \<Rightarrow> None
    | Some j \<Rightarrow> (case unmarshal t_rawFrame (Some j) of (g, ok) \<Rightarrow>
        if ok then Some (to_rawFrame g) else None))"

text \<open>The four cases of \<open>classifyAndRoute\<close>.\<close>

datatype frameClass =
    ServerRequestFrame nat string raw
  | NotificationFrame string raw
  | ResponseFrame rpcResponse
  | Unclassifiable

definition classify :: "rawFrame \<Rightarrow> frameClass" where
  "classify f = (case (rf_Method f, rf_ID f) of
      (Some m, Some i) \<Rightarrow> ServerRequestFrame i m (rf_Params f)
    | (Some m, None) \<Rightarrow> NotificationFrame m (rf_Params f)
    | (None, Some i) \<Rightarrow> ResponseFrame \<lparr>resp_ID = i, resp_Result = rf_Result f, resp_Error = rf_Error f\<rparr>
    | (None, None) \<Rightarrow> Unclassifiable)"

section \<open>Line framing\<close>

definition MinReadBufferSize :: nat where
  "MinReadBufferSize = 2 * 1024 * 1024"

definition put_line :: "string \<Rightarrow> string" where
  "put_line l = l @ [lf]"

text \<open>What one \<open>Write\<close> of the underlying writer did: it took some bytes, or took some and failed.\<close>

datatype writeResult = Wrote nat | WriteFailed nat

datatype writeStatus = WriteDone | WriteError | WritePending

fun write_loop :: "string \<Rightarrow> writeResult list \<Rightarrow> string \<times> writeStatus" where
  "write_loop [] rs = ([], WriteDone)"
| "write_loop (c # line) [] = ([], WritePending)"
| "write_loop (c # line) (WriteFailed n # rs) = (take n (c # line), WriteError)"
| "write_loop (c # line) (Wrote n # rs) =
     (let r = write_loop (drop n (c # line)) rs in (take n (c # line) @ fst r, snd r))"

definition WriteFrame :: "json \<Rightarrow> writeResult list \<Rightarrow> string \<times> writeStatus" where
  "WriteFrame v rs = write_loop (put_line (render v)) rs"

text \<open>Closing the writer. \<open>closer\<close> is what closing the stream under it returns; \<open>lw_closes\<close> counts how often
  that was done.\<close>

record lineWriter =
  lw_closeable :: bool
  lw_onceDone :: bool
  lw_closeErr :: "goError ptr"
  lw_closes :: nat

definition NewLineWriter :: "bool \<Rightarrow> lineWriter" where
  "NewLineWriter closeable = \<lparr>lw_closeable = closeable, lw_onceDone = False, lw_closeErr = None, lw_closes = 0\<rparr>"

definition lw_Close :: "goError ptr \<Rightarrow> lineWriter \<Rightarrow> goError ptr \<times> lineWriter" where
  "lw_Close closer lw =
     (if \<not> lw_closeable lw then (None, lw)
      else if lw_onceDone lw then (lw_closeErr lw, lw)
      else (closer, lw\<lparr>lw_onceDone := True, lw_closeErr := closer, lw_closes := lw_closes lw + 1\<rparr>))"

lemma lw_Close_idempotent: "lw_Close r2 (snd (lw_Close r1 lw)) = (fst (lw_Close r1 lw), snd (lw_Close r1 lw))"
  by (simp add: lw_Close_def)

definition drop_cr :: "string \<Rightarrow> string" where
  "drop_cr l = (if l \<noteq> [] \<and> last l = cr then butlast l else l)"

text \<open>\<open>NewLineReaderWithSize\<close> never goes below the minimum.\<close>

definition line_limit :: "nat \<Rightarrow> nat" where
  "line_limit maxSize = (if maxSize < MinReadBufferSize then MinReadBufferSize else maxSize)"

definition ReadLine :: "nat \<Rightarrow> string \<Rightarrow> string readResult" where
  "ReadLine maxSize s =
     (let l = takeWhile (\<lambda>c. c \<noteq> lf) s; r = dropWhile (\<lambda>c. c \<noteq> lf) s
      in if line_limit maxSize \<le> length l then ReadErr (ErrWrap ''ReadLine'' (Sentinel ErrLineTooLong))
         else case r of
             [] \<Rightarrow> if l = [] then ReadEOF else ReadOk (drop_cr l) []
           | _ # r' \<Rightarrow> ReadOk (drop_cr l) r')"

text \<open>The lines that survive the framing.\<close>

definition line_ok :: "nat \<Rightarrow> string \<Rightarrow> bool" where
  "line_ok maxSize l = (lf \<notin> set l \<and> cr \<notin> set l \<and> length l < line_limit maxSize)"

section \<open>Lemmas: framing\<close>

lemma drop_cr_id [simp]: "cr \<notin> set l \<Longrightarrow> drop_cr l = l"
  unfolding drop_cr_def by (metis last_in_set)

lemma ReadLine_put_line: "line_ok m l \<Longrightarrow> ReadLine m (put_line l @ rest) = ReadOk l rest"
proof -
  assume a: "line_ok m l"
  then have "takeWhile (\<lambda>c. c \<noteq> lf) (l @ lf # rest) = l" "dropWhile (\<lambda>c. c \<noteq> lf) (l @ lf # rest) = lf # rest"
    by (auto simp: line_ok_def takeWhile_eq_all_conv takeWhile_append dropWhile_append)
  with a show ?thesis by (simp add: ReadLine_def put_line_def line_ok_def)
qed

lemma ReadLine_empty: "ReadLine m [] = ReadEOF"
  by (simp add: ReadLine_def line_limit_def MinReadBufferSize_def)

interpretation lines: frame_codec "line_ok m" put_line "ReadLine m"
  by unfold_locales (simp_all add: ReadLine_put_line ReadLine_empty)

lemma write_loop_prefix:
  "prefix (fst (write_loop line rs)) line \<and>
   (snd (write_loop line rs) = WriteDone \<longrightarrow> fst (write_loop line rs) = line)"
proof (induction line rs rule: write_loop.induct)
  case (4 c line n rs)
  then obtain z where "drop n (c # line) = fst (write_loop (drop n (c # line)) rs) @ z"
    by (auto simp: prefix_def)
  then have "c # line = take n (c # line) @ fst (write_loop (drop n (c # line)) rs) @ z"
    by (metis append_take_drop_id)
  then show ?case
    using 4 by (auto simp: Let_def prefix_def append_take_drop_id)
qed (auto simp: take_is_prefix)

lemma write_loop_progress:
  "\<forall>r \<in> set rs. \<exists>n > 0. r = Wrote n \<Longrightarrow> length line \<le> length rs \<Longrightarrow>
     write_loop line rs = (line, WriteDone)"
proof (induction line rs rule: write_loop.induct)
  case (4 c line n rs)
  then have "write_loop (drop n (c # line)) rs = (drop n (c # line), WriteDone)" by auto
  then show ?case by (simp add: Let_def)
qed auto

section \<open>Lemmas: messages\<close>

lemma digits_char_num: "list_all is_digit ds \<Longrightarrow> takeWhile is_digit ds = ds \<and> dropWhile is_digit ds = []"
  by (induction ds) auto

lemma itoa_no_leading_zero: "n \<noteq> 0 \<Longrightarrow> hd (itoa n) \<noteq> CHR ''0''"
proof (induction n rule: itoa.induct)
  case (1 n)
  show ?case
  proof (cases "n < 10")
    case True
    then have "(of_char (digit_char n) :: nat) = 48 + n" by simp
    then have "digit_char n \<noteq> CHR ''0''" using 1(2) by auto
    with True show ?thesis by (simp add: itoa.simps [of n])
  next
    case False
    then show ?thesis using 1 itoa_digits [of "n div 10"] by (simp add: itoa.simps [of n] hd_append)
  qed
qed

lemma valid_number_itoa: "valid_number (itoa n)"
proof -
  obtain c cs where c: "itoa n = c # cs" using itoa_digits [of n] by (cases "itoa n") auto
  have d: "list_all is_digit (itoa n)" using itoa_digits by blast
  have "cs = []" if "c = CHR ''0''"
  proof -
    have "n = 0" using that c itoa_no_leading_zero [of n] by auto
    then show ?thesis using c by (simp add: itoa.simps [of 0])
  qed
  moreover have "c \<noteq> CHR ''-''" using d c by (auto simp: is_digit_def)
  moreover have "is_digit c" "list_all is_digit cs" using d c by auto
  ultimately show ?thesis using c
    by (simp add: valid_number_def valid_int_def valid_frac_def digits_char_num)
qed

lemma valid_number_render_int: "valid_number (render_int i)"
proof (cases "i < 0")
  case True
  obtain c cs where c: "itoa (nat (- i)) = c # cs" using itoa_digits by (cases "itoa (nat (- i))") auto
  moreover have "c \<noteq> CHR ''-''" using itoa_unsigned [of "nat (- i)"] c by (auto simp: has_prefix_def)
  ultimately show ?thesis using True valid_number_itoa [of "nat (- i)"]
    by (simp add: render_int_def valid_number_def)
qed (simp add: render_int_def valid_number_itoa)

lemma parse_uint64_itoa [simp]: "n < 2 ^ 64 \<Longrightarrow> parse_uint64 (itoa n) = Some (int n)"
  using itoa_digits [of n] by (simp add: parse_uint64_def)

lemma parse_int64_render_int [simp]: "- (2 ^ 63) \<le> i \<Longrightarrow> i < 2 ^ 63 \<Longrightarrow> parse_int64 (render_int i) = Some i"
  using itoa_digits [of "nat i"] itoa_digits [of "nat (- i)"] itoa_unsigned [of "nat i"]
  by (auto simp: parse_int64_def render_int_def Let_def) (simp_all add: has_prefix_def)

text \<open>Evaluating the decoding of a message whose numbers are symbolic.\<close>

lemmas message_eval = gotype_defs field_defs unmarshal_def values_for_def match_field_def
  to_lower_def to_lower_char_def t_rpcError_def t_rawFrame_def to_rpcError_def to_rawFrame_def
  omit_raw_def

definition wf_raw :: "raw \<Rightarrow> bool" where
  "wf_raw r = (case r of None \<Rightarrow> True | Some j \<Rightarrow> wf_json j \<and> json_depth j < 9999)"

definition wf_rpcError :: "rpcErrorObj \<Rightarrow> bool" where
  "wf_rpcError e = (- (2 ^ 63) \<le> rpc_Code e \<and> rpc_Code e < 2 ^ 63 \<and> wf_raw (rpc_Data e))"

lemma decode_frame_render:
  "wf_json j \<Longrightarrow> json_depth j \<le> 10000 \<Longrightarrow> unmarshal t_rawFrame (Some j) = (g, True) \<Longrightarrow>
     decode_frame (render j) = Some (to_rawFrame g)"
  by (simp add: decode_frame_def parse_json_render)

lemma next_id_iterate: "(next_id ^^ k) 0 = k mod 2 ^ 64"
  by (induction k) (simp_all add: next_id_def mod_Suc_eq)

lemma to_rawFrame_Request:
  "req_ID r < 2 ^ 64 \<Longrightarrow> \<exists>g. unmarshal t_rawFrame (Some (encode_Request r)) = (g, True) \<and>
     to_rawFrame g = \<lparr>rf_ID = Some (req_ID r), rf_Method = Some (req_Method r), rf_Params = req_Params r,
                      rf_Result = None, rf_Error = None\<rparr>"
  by (cases "req_Params r") (simp_all add: encode_Request_def message_eval)

lemma to_rawFrame_Notification:
  "\<exists>g. unmarshal t_rawFrame (Some (encode_Notification n)) = (g, True) \<and>
     to_rawFrame g = \<lparr>rf_ID = None, rf_Method = Some (note_Method n), rf_Params = note_Params n,
                      rf_Result = None, rf_Error = None\<rparr>"
  by (cases "note_Params n") (simp_all add: encode_Notification_def message_eval)

lemma unmarshal_RPCError:
  "- (2 ^ 63) \<le> rpc_Code e \<Longrightarrow> rpc_Code e < 2 ^ 63 \<Longrightarrow>
     \<exists>g. dec_of t_rpcError (encode_RPCError e) (zero_of t_rpcError) = (g, True) \<and> to_rpcError g = e"
  by (cases e; cases "rpc_Data e") (simp_all add: encode_RPCError_def message_eval)

lemma to_rawFrame_Response:
  assumes "resp_ID r < 2 ^ 64"
    and "\<And>e. resp_Error r = Some e \<Longrightarrow> - (2 ^ 63) \<le> rpc_Code e \<and> rpc_Code e < 2 ^ 63"
  shows "\<exists>g. unmarshal t_rawFrame (Some (encode_Response r)) = (g, True) \<and>
     to_rawFrame g = \<lparr>rf_ID = Some (resp_ID r), rf_Method = None, rf_Params = None,
                      rf_Result = resp_Result r, rf_Error = resp_Error r\<rparr>"
proof (cases "resp_Error r")
  case None
  with assms show ?thesis
    by (cases "resp_Result r") (simp_all add: encode_Response_def message_eval)
next
  case (Some e)
  with unmarshal_RPCError [of e] assms obtain g where
    g: "dec_of t_rpcError (encode_RPCError e) (zero_of t_rpcError) = (g, True)" "to_rpcError g = e" by auto
  have n: "encode_RPCError e \<noteq> JNull" by (simp add: encode_RPCError_def)
  show ?thesis
    using assms(1) Some g n
    by (cases "resp_Result r")
      (simp_all add: encode_Response_def omit_raw_def t_rawFrame_def unmarshal_def t_struct_def t_ptr_def
        t_uint64_def t_str_def t_raw_def pack_struct_def values_for_def match_field_def to_lower_def
        to_lower_char_def to_rawFrame_def field_defs)
qed

lemma wf_encode:
  "wf_raw (req_Params r) \<Longrightarrow> wf_json (encode_Request r) \<and> json_depth (encode_Request r) \<le> 10000"
  "wf_raw (note_Params n) \<Longrightarrow> wf_json (encode_Notification n) \<and> json_depth (encode_Notification n) \<le> 10000"
  "wf_raw (rpc_Data e) \<Longrightarrow> wf_json (encode_RPCError e) \<and> json_depth (encode_RPCError e) < 10000"
  "wf_raw (resp_Result p) \<Longrightarrow> (\<And>e. resp_Error p = Some e \<Longrightarrow> wf_raw (rpc_Data e)) \<Longrightarrow>
     wf_json (encode_Response p) \<and> json_depth (encode_Response p) \<le> 10000"
proof -
  show e: "wf_json (encode_RPCError e) \<and> json_depth (encode_RPCError e) < 10000" if "wf_raw (rpc_Data e)" for e
    using that by (cases "rpc_Data e")
      (auto simp: encode_RPCError_def omit_raw_def wf_raw_def valid_number_render_int)
  show "wf_raw (req_Params r) \<Longrightarrow> wf_json (encode_Request r) \<and> json_depth (encode_Request r) \<le> 10000"
    by (cases "req_Params r") (auto simp: encode_Request_def omit_raw_def wf_raw_def valid_number_itoa)
  show "wf_raw (note_Params n) \<Longrightarrow> wf_json (encode_Notification n) \<and> json_depth (encode_Notification n) \<le> 10000"
    by (cases "note_Params n") (auto simp: encode_Notification_def omit_raw_def wf_raw_def)
  show "wf_json (encode_Response p) \<and> json_depth (encode_Response p) \<le> 10000"
    if "wf_raw (resp_Result p)" "\<And>e. resp_Error p = Some e \<Longrightarrow> wf_raw (rpc_Data e)"
  proof (cases "resp_Error p")
    case None
    with that(1) show ?thesis
      by (cases "resp_Result p") (auto simp: encode_Response_def omit_raw_def wf_raw_def valid_number_itoa)
  next
    case (Some x)
    with e [OF that(2)] that(1) show ?thesis
      by (cases "resp_Result p") (auto simp: encode_Response_def omit_raw_def wf_raw_def valid_number_itoa)
  qed
qed

section \<open>Properties\<close>

text \<open>C29: Frames written through \<open>LineWriter.WriteFrame\<close>, however the operating system split the
  writes, are read back by \<open>LineReader\<close> as exactly the values written, in order, as long as each
  fits the read buffer.\<close>

theorem frames_delivered:
  assumes "\<And>j rs. (j, rs) \<in> set ws \<Longrightarrow> wf_json j \<and> json_depth j \<le> 10000 \<and>
             length (render j) < line_limit m \<and> snd (WriteFrame j rs) = WriteDone"
  shows "map parse_json (read_all (ReadLine m) (length ws)
           (concat (map (\<lambda>w. fst (WriteFrame (fst w) (snd w))) ws))) = map (\<lambda>w. Some (fst w)) ws"
proof -
  have w: "fst (WriteFrame (fst w) (snd w)) = put_line (render (fst w))" if "w \<in> set ws" for w
    using assms [of "fst w" "snd w"] that write_loop_prefix [of "put_line (render (fst w))" "snd w"]
    by (auto simp: WriteFrame_def)
  have "concat (map (\<lambda>w. fst (WriteFrame (fst w) (snd w))) ws) =
        emit_all put_line (map (\<lambda>w. render (fst w)) ws)"
    using w by (simp add: emit_all_def o_def cong: map_cong)
  moreover have "list_all (line_ok m) (map (\<lambda>w. render (fst w)) ws)"
    using assms render_one_line by (fastforce simp: list_all_iff line_ok_def)
  ultimately show ?thesis
    using lines.read_all_exact [of m "map (\<lambda>w. render (fst w)) ws" "length ws"] assms
    by (auto simp: parse_json_render)
qed

theorem frames_delivered_witness:
  "map parse_json (read_all (ReadLine 0) (length [(JBool True, [Wrote 2, Wrote 3]), (JNull, [Wrote 5])])
     (concat (map (\<lambda>w. fst (WriteFrame (fst w) (snd w))) [(JBool True, [Wrote 2, Wrote 3]), (JNull, [Wrote 5])])))
   = map (\<lambda>w. Some (fst w)) [(JBool True, [Wrote 2, Wrote 3]), (JNull, [Wrote 5])]"
  by (rule frames_delivered) (auto simp: line_limit_def MinReadBufferSize_def WriteFrame_def put_line_def)

text \<open>C30: A request, a notification and a response survive the trip through their text: the frame
  decoded at the other end has the same id, method, params, result and error, and is classified as
  a server request, a notification and a response respectively.\<close>

theorem message_roundtrip:
  assumes "req_ID r < 2 ^ 64" and "wf_raw (req_Params r)" and "wf_raw (note_Params n)"
    and "resp_ID p < 2 ^ 64" and "wf_raw (resp_Result p)" and "\<forall>e. resp_Error p = Some e \<longrightarrow> wf_rpcError e"
  shows "map_option classify (decode_frame (render (encode_Request r))) =
           Some (ServerRequestFrame (req_ID r) (req_Method r) (req_Params r)) \<and>
         map_option classify (decode_frame (render (encode_Notification n))) =
           Some (NotificationFrame (note_Method n) (note_Params n)) \<and>
         map_option classify (decode_frame (render (encode_Response p))) = Some (ResponseFrame p)"
proof (intro conjI)
  obtain g where "unmarshal t_rawFrame (Some (encode_Request r)) = (g, True)"
    "to_rawFrame g = \<lparr>rf_ID = Some (req_ID r), rf_Method = Some (req_Method r), rf_Params = req_Params r,
       rf_Result = None, rf_Error = None\<rparr>" using to_rawFrame_Request [OF assms(1)] by blast
  then show "map_option classify (decode_frame (render (encode_Request r))) =
      Some (ServerRequestFrame (req_ID r) (req_Method r) (req_Params r))"
    using decode_frame_render [of "encode_Request r" g] wf_encode(1) [OF assms(2)] by (simp add: classify_def)
next
  obtain g where "unmarshal t_rawFrame (Some (encode_Notification n)) = (g, True)"
    "to_rawFrame g = \<lparr>rf_ID = None, rf_Method = Some (note_Method n), rf_Params = note_Params n,
       rf_Result = None, rf_Error = None\<rparr>" using to_rawFrame_Notification by blast
  then show "map_option classify (decode_frame (render (encode_Notification n))) =
      Some (NotificationFrame (note_Method n) (note_Params n))"
    using decode_frame_render [of "encode_Notification n" g] wf_encode(2) [OF assms(3)] by (simp add: classify_def)
next
  have "\<And>e. resp_Error p = Some e \<Longrightarrow> - (2 ^ 63) \<le> rpc_Code e \<and> rpc_Code e < 2 ^ 63"
    and w: "\<And>e. resp_Error p = Some e \<Longrightarrow> wf_raw (rpc_Data e)"
    using assms(6) by (auto simp: wf_rpcError_def)
  then obtain g where "unmarshal t_rawFrame (Some (encode_Response p)) = (g, True)"
    "to_rawFrame g = \<lparr>rf_ID = Some (resp_ID p), rf_Method = None, rf_Params = None,
       rf_Result = resp_Result p, rf_Error = resp_Error p\<rparr>" using to_rawFrame_Response [OF assms(4)] by blast
  then show "map_option classify (decode_frame (render (encode_Response p))) = Some (ResponseFrame p)"
    using decode_frame_render [of "encode_Response p" g] wf_encode(4) [OF assms(5) w] by (simp add: classify_def)
qed

theorem message_roundtrip_witness:
  "map_option classify (decode_frame (render (encode_Response
     \<lparr>resp_ID = 7, resp_Result = None, resp_Error = Some \<lparr>rpc_Code = -32601, rpc_Message = ''no'', rpc_Data = None\<rparr>\<rparr>)))
   = Some (ResponseFrame \<lparr>resp_ID = 7, resp_Result = None,
       resp_Error = Some \<lparr>rpc_Code = -32601, rpc_Message = ''no'', rpc_Data = None\<rparr>\<rparr>)"
  using message_roundtrip [of "\<lparr>req_ID = 1, req_Method = ''m'', req_Params = None\<rparr>"
      "\<lparr>note_Method = ''n'', note_Params = None, note_DecodeError = None\<rparr>"
      "\<lparr>resp_ID = 7, resp_Result = None, resp_Error = Some \<lparr>rpc_Code = -32601, rpc_Message = ''no'', rpc_Data = None\<rparr>\<rparr>"]
  by (simp add: wf_raw_def wf_rpcError_def)

end
