(* ===== verification/Demux.thy ===== *)
theory Demux
  imports Jsonrpc
begin

text \<open>
  The demultiplexer of \<open>internal/jsonrpc/demux.go\<close> and \<open>demux_ordered.go\<close> as a state machine. Its
  state is the struct's: the pending table, the three outbound channels with their capacities, the
  closed flag and the stop signal, and the variables of the read loop (consecutive decode failures,
  whether a gap marker is queued, whether a frame was seen). A call of \<open>Send\<close> owns a channel of
  capacity one; it is registered before its frame is written, and what it returned stays recorded.
  \<open>dm_writer\<close> is the error a write to the pipe meets now, if any; the pipe can break at any time, and
  \<open>Close\<close> closes it. \<open>dm_written\<close> holds the frames whose write returned no error. Telemetry calls are logged in order. The fields
  \<open>dm_lines\<close> and \<open>dm_consumed\<close> record what the loop read and what the consumer took; nothing
  reads them.

  One rule of \<open>dstep\<close> is one atomic action of one goroutine: a line read and classified, the
  non-blocking or blocking part of a delivery, the parts of \<open>Send\<close> (registering, writing, a branch of
  its \<open>select\<close>), \<open>Close\<close>, a receive by the consumer. Rules that are enabled together model the scheduler and \<open>select\<close>'s choice.
\<close>

section \<open>State\<close>

datatype serverMessage = MsgNotification rpcNotification | MsgRequest nat string raw

datatype telemetry =
    OnFirstMessage
  | OnParseError nat
  | OnParseGiveUp nat
  | OnUnrecoverable goError
  | OnBackpressure
  | OnUnknownMessage

text \<open>Where the read loop is: reading; in \<open>deliver...\<close> with a message, the gap flag and exit error
  that follow the delivery, and whether backpressure was reported; in \<open>ch <- resp\<close>; or gone.\<close>

datatype loopState =
    Reading
  | Delivering serverMessage bool "goError ptr" bool
  | Responding rpcResponse
  | Exited "goError ptr"

record rpcCall =
  call_request :: json
  call_sent :: bool
  call_buf :: "rpcResponse option"
  call_result :: "(goError + rpcResponse) option"

record demux =
  dm_ordered :: bool
  dm_maxParseErrors :: nat
  dm_next :: nat
  dm_pending :: "nat list"
  dm_calls :: "(nat \<times> rpcCall) list"
  dm_closed :: bool
  dm_stopped :: bool
  dm_ctxDone :: bool
  dm_notifications :: "serverMessage list"
  dm_serverRequests :: "serverMessage list"
  dm_serverMessages :: "serverMessage list"
  dm_consecutive :: nat
  dm_gapQueued :: bool
  dm_firstMessage :: bool
  dm_loop :: loopState
  dm_trace :: "telemetry list"
  dm_writer :: "goError ptr"
  dm_writerClosed :: bool
  dm_written :: "json list"
  dm_lines :: "string list"
  dm_consumed :: "serverMessage list"

definition DefaultMaxConsecutiveParseErrors :: nat where
  "DefaultMaxConsecutiveParseErrors = 10"

text \<open>\<open>WithMaxParseErrors(0)\<close> keeps the default.\<close>

definition WithMaxParseErrors :: "nat \<Rightarrow> nat" where
  "WithMaxParseErrors n = (if 0 < n then n else DefaultMaxConsecutiveParseErrors)"

definition NewDemux :: "bool \<Rightarrow> nat \<Rightarrow> demux" where
  "NewDemux ordered n = \<lparr>dm_ordered = ordered, dm_maxParseErrors = WithMaxParseErrors n, dm_next = 0,
     dm_pending = [], dm_calls = [], dm_closed = False, dm_stopped = False, dm_ctxDone = False,
     dm_notifications = [], dm_serverRequests = [], dm_serverMessages = [], dm_consecutive = 0,
     dm_gapQueued = False, dm_firstMessage = True, dm_loop = Reading, dm_trace = [],
     dm_writer = None, dm_writerClosed = False, dm_written = [], dm_lines = [], dm_consumed = []\<rparr>"

section \<open>Delivery\<close>

definition log :: "telemetry \<Rightarrow> demux \<Rightarrow> demux" where
  "log t d = d\<lparr>dm_trace := dm_trace d @ [t]\<rparr>"

fun is_request :: "serverMessage \<Rightarrow> bool" where
  "is_request (MsgRequest i m p) = True"
| "is_request (MsgNotification n) = False"

text \<open>Room in the channel \<open>deliverNotification\<close> or \<open>deliverServerRequest\<close> sends to: one shared
  channel of 64 in ordered mode, else 64 notifications and 16 requests.\<close>

definition room :: "demux \<Rightarrow> serverMessage \<Rightarrow> bool" where
  "room d m = (if dm_ordered d then length (dm_serverMessages d) < 64
               else if is_request m then length (dm_serverRequests d) < 16
               else length (dm_notifications d) < 64)"

definition enqueue :: "serverMessage \<Rightarrow> demux \<Rightarrow> demux" where
  "enqueue m d =
     (if dm_ordered d then d\<lparr>dm_serverMessages := dm_serverMessages d @ [m]\<rparr>
      else if is_request m then d\<lparr>dm_serverRequests := dm_serverRequests d @ [m]\<rparr>
      else d\<lparr>dm_notifications := dm_notifications d @ [m]\<rparr>)"

definition exit_loop :: "goError ptr \<Rightarrow> demux \<Rightarrow> demux" where
  "exit_loop e d = d\<lparr>dm_loop := Exited e\<rparr>"

text \<open>After a delivery the loop goes on with the gap flag, or exits with the give-up error.\<close>

definition after_delivery :: "bool \<Rightarrow> goError ptr \<Rightarrow> demux \<Rightarrow> demux" where
  "after_delivery g e d = (case e of
      None \<Rightarrow> d\<lparr>dm_loop := Reading, dm_gapQueued := g\<rparr>
    | Some err \<Rightarrow> exit_loop (Some err) (d\<lparr>dm_gapQueued := g\<rparr>))"

definition want :: "serverMessage \<Rightarrow> bool \<Rightarrow> goError ptr \<Rightarrow> demux \<Rightarrow> demux" where
  "want m g e d = d\<lparr>dm_loop := Delivering m g e False\<rparr>"

section \<open>The read loop\<close>

definition gap_marker :: "goError \<Rightarrow> serverMessage" where
  "gap_marker e = MsgNotification \<lparr>note_Method = [], note_Params = None, note_DecodeError = Some e\<rparr>"

definition decode_gap :: serverMessage where
  "decode_gap = gap_marker (ErrWrap ''jsonrpc.Demux.readLoop: decode inbound frame'' json_cause)"

definition unclassifiable_gap :: serverMessage where
  "unclassifiable_gap = gap_marker (ErrWrap ''jsonrpc.Demux.classifyAndRoute'' (Sentinel ErrUnclassifiableFrame))"

definition give_up_error :: goError where
  "give_up_error = ErrWrap ''jsonrpc.Demux.readLoop: consecutive decode errors'' (Sentinel ErrParseGiveUp)"

definition recordParseFailure :: "nat \<Rightarrow> demux \<Rightarrow> demux \<times> goError ptr" where
  "recordParseFailure consecutive d =
     (let d1 = log (OnParseError consecutive) d in
      if consecutive < dm_maxParseErrors d then (d1, None)
      else (log (OnUnrecoverable give_up_error) (log (OnParseGiveUp consecutive) d1), Some give_up_error))"

definition handleDecodeFailure :: "nat \<Rightarrow> demux \<Rightarrow> demux" where
  "handleDecodeFailure consecutive d =
     (case recordParseFailure consecutive d of (d1, giveUpErr) \<Rightarrow>
        if \<not> dm_gapQueued d1 then want decode_gap True giveUpErr d1
        else after_delivery True giveUpErr d1)"

definition classifyAndRoute :: "rawFrame \<Rightarrow> demux \<Rightarrow> demux" where
  "classifyAndRoute f d = (case classify f of
      ServerRequestFrame i m p \<Rightarrow> want (MsgRequest i m p) False None d
    | NotificationFrame m p \<Rightarrow>
        want (MsgNotification \<lparr>note_Method = m, note_Params = p, note_DecodeError = None\<rparr>) False None d
    | ResponseFrame r \<Rightarrow>
        (let d1 = d\<lparr>dm_gapQueued := False\<rparr> in
         if resp_ID r \<in> set (dm_pending d) then d1\<lparr>dm_loop := Responding r\<rparr> else d1)
    | Unclassifiable \<Rightarrow>
        (let d1 = log OnUnknownMessage d in
         if dm_gapQueued d1 then d1 else want unclassifiable_gap True None d1))"

definition on_line :: "string \<Rightarrow> demux \<Rightarrow> demux" where
  "on_line line d0 =
     (let d = d0\<lparr>dm_lines := dm_lines d0 @ [line]\<rparr> in
      if line = [] then d
      else (case decode_frame line of
          None \<Rightarrow> handleDecodeFailure (dm_consecutive d + 1) (d\<lparr>dm_consecutive := dm_consecutive d + 1\<rparr>)
        | Some frame \<Rightarrow>
            (let d1 = d\<lparr>dm_consecutive := 0\<rparr>;
                 d2 = (if dm_firstMessage d1 then log OnFirstMessage (d1\<lparr>dm_firstMessage := False\<rparr>) else d1)
             in classifyAndRoute frame d2)))"

section \<open>Requests\<close>

definition set_call :: "nat \<Rightarrow> rpcCall \<Rightarrow> demux \<Rightarrow> demux" where
  "set_call i c d = d\<lparr>dm_calls := put i c (dm_calls d)\<rparr>"

definition call_of :: "demux \<Rightarrow> nat \<Rightarrow> rpcCall option" where
  "call_of d i = map_of (dm_calls d) i"

text \<open>\<open>WriteFrame\<close> on the demux's writer, as one step under its mutex.\<close>

definition write_frame :: "json \<Rightarrow> demux \<Rightarrow> goError ptr \<times> demux" where
  "write_frame frame d = (case dm_writer d of
      Some e \<Rightarrow> (Some (ErrWrap ''jsonrpc.LineWriter.WriteFrame: write'' e), d)
    | None \<Rightarrow> (None, d\<lparr>dm_written := dm_written d @ [frame]\<rparr>))"

text \<open>\<open>Send\<close> up to the registration of its channel: the id is taken first, a closed demux refuses.\<close>

definition send_begin :: "string \<Rightarrow> raw \<Rightarrow> demux \<Rightarrow> demux" where
  "send_begin method params d0 =
     (let i = next_id (dm_next d0); d = d0\<lparr>dm_next := i\<rparr>;
          request = encode_Request \<lparr>req_ID = i, req_Method = method, req_Params = params\<rparr>
      in if dm_closed d
         then set_call i \<lparr>call_request = request, call_sent = False, call_buf = None,
                          call_result = Some (Inl (Sentinel ErrDemuxClosed))\<rparr> d
         else set_call i \<lparr>call_request = request, call_sent = False, call_buf = None, call_result = None\<rparr>
                (d\<lparr>dm_pending := i # dm_pending d\<rparr>))"

text \<open>A return removes the pending entry, in the deferred function.\<close>

definition send_return :: "nat \<Rightarrow> rpcCall \<Rightarrow> goError + rpcResponse \<Rightarrow> rpcResponse option \<Rightarrow> demux \<Rightarrow> demux" where
  "send_return i c result buf d =
     set_call i (c\<lparr>call_buf := buf, call_result := Some result\<rparr>)
       (d\<lparr>dm_pending := removeAll i (dm_pending d)\<rparr>)"

definition send_write :: "nat \<Rightarrow> rpcCall \<Rightarrow> demux \<Rightarrow> demux" where
  "send_write i c d = (case write_frame (call_request c) d of
      (None, d1) \<Rightarrow> set_call i (c\<lparr>call_sent := True\<rparr>) d1
    | (Some e, d1) \<Rightarrow> send_return i c (Inl (ErrWrap ''jsonrpc.Demux.Send: write'' e)) (call_buf c) d1)"

text \<open>The body of \<open>Close\<close>, which \<open>stopOnce\<close> runs once: under the mutex, closing the pipe, closing \<open>stopped\<close>.\<close>

definition close_registry :: "demux \<Rightarrow> demux" where
  "close_registry d = d\<lparr>dm_closed := True, dm_pending := []\<rparr>"

definition close_writer :: "demux \<Rightarrow> demux" where
  "close_writer d = d\<lparr>dm_writer := Some (ErrText ''write |1: file already closed''), dm_writerClosed := True\<rparr>"

definition close_stop :: "demux \<Rightarrow> demux" where
  "close_stop d = d\<lparr>dm_stopped := True\<rparr>"

definition close_demux :: "demux \<Rightarrow> demux" where
  "close_demux d = (if dm_closed d then d else close_stop (close_writer (close_registry d)))"

definition Notify :: "string \<Rightarrow> raw \<Rightarrow> demux \<Rightarrow> goError ptr \<times> demux" where
  "Notify method params d =
     (case write_frame (encode_Notification \<lparr>note_Method = method, note_Params = params, note_DecodeError = None\<rparr>) d of
        (e, d1) \<Rightarrow> (map_option (ErrWrap ''jsonrpc.Demux.Notify: write'') e, d1))"

text \<open>The result is dropped when there is an error.\<close>

definition RespondServerRequest :: "nat \<Rightarrow> raw \<Rightarrow> rpcErrorObj ptr \<Rightarrow> demux \<Rightarrow> goError ptr \<times> demux" where
  "RespondServerRequest i result rpcErr d =
     (case write_frame (encode_Response \<lparr>resp_ID = i, resp_Result = (if rpcErr = None then result else None),
                                         resp_Error = rpcErr\<rparr>) d of
        (e, d1) \<Rightarrow> (map_option (ErrWrap ''jsonrpc.Demux.RespondServerRequest: write'') e, d1))"

section \<open>Steps\<close>

inductive dstep :: "demux \<Rightarrow> demux \<Rightarrow> bool" where
  read_line: "dm_loop d = Reading \<Longrightarrow> dstep d (on_line line d)"
| read_eof: "dm_loop d = Reading \<Longrightarrow> dstep d (exit_loop None d)"
| read_error: "dm_loop d = Reading \<Longrightarrow> e \<noteq> give_up_error \<Longrightarrow> dstep d (exit_loop (Some e) d)"
| deliver: "dm_loop d = Delivering m g e b \<Longrightarrow> room d m \<Longrightarrow> dstep d (after_delivery g e (enqueue m d))"
| backpressure: "dm_loop d = Delivering m g e False \<Longrightarrow> \<not> room d m \<Longrightarrow>
    dstep d (log OnBackpressure (d\<lparr>dm_loop := Delivering m g e True\<rparr>))"
| deliver_stopped: "dm_loop d = Delivering m g e b \<Longrightarrow> dm_stopped d \<or> dm_ctxDone d \<Longrightarrow>
    dstep d (exit_loop None d)"
| respond: "dm_loop d = Responding r \<Longrightarrow> call_of d (resp_ID r) = Some c \<Longrightarrow> call_buf c = None \<Longrightarrow>
    dstep d (set_call (resp_ID r) (c\<lparr>call_buf := Some r\<rparr>) (d\<lparr>dm_loop := Reading\<rparr>))"
| take_message: "dm_serverMessages d = m # ms \<Longrightarrow>
    dstep d (d\<lparr>dm_serverMessages := ms, dm_consumed := dm_consumed d @ [m]\<rparr>)"
| take_notification: "dm_notifications d = m # ms \<Longrightarrow>
    dstep d (d\<lparr>dm_notifications := ms, dm_consumed := dm_consumed d @ [m]\<rparr>)"
| take_request: "dm_serverRequests d = m # ms \<Longrightarrow>
    dstep d (d\<lparr>dm_serverRequests := ms, dm_consumed := dm_consumed d @ [m]\<rparr>)"
| send: "dm_next d + 1 < 2 ^ 64 \<Longrightarrow> dstep d (send_begin method params d)"
| send_writes: "call_of d i = Some c \<Longrightarrow> call_result c = None \<Longrightarrow> \<not> call_sent c \<Longrightarrow> dstep d (send_write i c d)"
| send_response: "call_of d i = Some c \<Longrightarrow> call_result c = None \<Longrightarrow> call_sent c \<Longrightarrow> call_buf c = Some r \<Longrightarrow>
    dstep d (send_return i c (Inr r) None d)"
| send_canceled: "call_of d i = Some c \<Longrightarrow> call_result c = None \<Longrightarrow> call_sent c \<Longrightarrow>
    ctxErr = ErrContextCanceled \<or> ctxErr = ErrContextDeadlineExceeded \<Longrightarrow>
    dstep d (send_return i c (Inl (ErrWrap ''jsonrpc.Demux.Send'' (Sentinel ctxErr))) (call_buf c) d)"
| send_closed: "call_of d i = Some c \<Longrightarrow> call_result c = None \<Longrightarrow> call_sent c \<Longrightarrow> dm_stopped d \<Longrightarrow>
    dstep d (send_return i c (Inl (Sentinel ErrDemuxClosed)) (call_buf c) d)"
| notify: "dstep d (snd (Notify method params d))"
| respond_server: "dstep d (snd (RespondServerRequest i result rpcErr d))"
| writer_changes: "\<not> dm_writerClosed d \<Longrightarrow> dstep d (d\<lparr>dm_writer := e\<rparr>)"
| close_1: "\<not> dm_closed d \<Longrightarrow> dstep d (close_registry d)"
| close_2: "dm_closed d \<Longrightarrow> \<not> dm_writerClosed d \<Longrightarrow> dstep d (close_writer d)"
| close_3: "dm_writerClosed d \<Longrightarrow> \<not> dm_stopped d \<Longrightarrow> dstep d (close_stop d)"
| ctx_done: "dstep d (d\<lparr>dm_ctxDone := True\<rparr>)"

inductive reach :: "demux \<Rightarrow> demux \<Rightarrow> bool" for d0 where
  reach_refl: "reach d0 d0"
| reach_step: "reach d0 d \<Longrightarrow> dstep d d' \<Longrightarrow> reach d0 d'"

inductive_cases dstepE: "dstep d d'"

section \<open>Specification of the ordered stream\<close>

text \<open>The messages a list of lines stands for: requests and notifications in order, responses and
  empty lines nothing, and one gap marker for every run of lines that cannot be decoded or
  classified. The flag says whether the run is still open.\<close>

definition spec_step :: "serverMessage list \<times> bool \<Rightarrow> string \<Rightarrow> serverMessage list \<times> bool" where
  "spec_step s line = (case s of (ms, gap) \<Rightarrow>
     if line = [] then (ms, gap)
     else (case decode_frame line of
         None \<Rightarrow> (if gap then ms else ms @ [decode_gap], True)
       | Some f \<Rightarrow> (case classify f of
           ServerRequestFrame i m p \<Rightarrow> (ms @ [MsgRequest i m p], False)
         | NotificationFrame m p \<Rightarrow>
             (ms @ [MsgNotification \<lparr>note_Method = m, note_Params = p, note_DecodeError = None\<rparr>], False)
         | ResponseFrame r \<Rightarrow> (ms, False)
         | Unclassifiable \<Rightarrow> (if gap then ms else ms @ [unclassifiable_gap], True))))"

definition spec_messages :: "string list \<Rightarrow> serverMessage list \<times> bool" where
  "spec_messages ls = foldl spec_step ([], False) ls"

lemma spec_messages_snoc [simp]: "spec_messages (ls @ [l]) = spec_step (spec_messages ls) l"
  by (simp add: spec_messages_def)

definition count_failure :: "nat \<Rightarrow> string \<Rightarrow> nat" where
  "count_failure n line = (if line = [] then n else if decode_frame line = None then n + 1 else 0)"

text \<open>How many lines in a row, empty ones aside, failed to decode at the end of the stream.\<close>

definition trailing_failures :: "string list \<Rightarrow> nat" where
  "trailing_failures ls = foldl count_failure 0 ls"

lemma trailing_failures_snoc [simp]:
  "trailing_failures (ls @ [l]) = count_failure (trailing_failures ls) l"
  by (simp add: trailing_failures_def)

section \<open>Invariants\<close>

lemmas [step_defs] = log_def enqueue_def exit_loop_def after_delivery_def want_def
  recordParseFailure_def handleDecodeFailure_def classifyAndRoute_def on_line_def set_call_def
  write_frame_def send_begin_def send_return_def send_write_def close_registry_def close_writer_def close_stop_def
  Notify_def RespondServerRequest_def

definition inv_queues :: "demux \<Rightarrow> bool" where
  "inv_queues d = (length (dm_notifications d) \<le> 64 \<and> length (dm_serverRequests d) \<le> 16 \<and>
                   length (dm_serverMessages d) \<le> 64)"

fun inflight :: "loopState \<Rightarrow> serverMessage list" where
  "inflight (Delivering m g e b) = [m]"
| "inflight _ = []"

definition gap_after :: "demux \<Rightarrow> bool" where
  "gap_after d = (case dm_loop d of Delivering m g e b \<Rightarrow> g | _ \<Rightarrow> dm_gapQueued d)"

definition is_exited :: "loopState \<Rightarrow> bool" where
  "is_exited l = (case l of Exited e \<Rightarrow> True | _ \<Rightarrow> False)"

text \<open>In ordered mode, what was consumed, what is queued and what is being delivered is what the
  lines stand for; after an exit a message may have been dropped.\<close>

definition inv_order :: "demux \<Rightarrow> bool" where
  "inv_order d = (dm_ordered d \<longrightarrow>
     (if is_exited (dm_loop d)
      then prefix (dm_consumed d @ dm_serverMessages d) (fst (spec_messages (dm_lines d)))
      else spec_messages (dm_lines d) =
             (dm_consumed d @ dm_serverMessages d @ inflight (dm_loop d), gap_after d))
     \<and> dm_notifications d = [] \<and> dm_serverRequests d = [])"

text \<open>The results a call can have: the response it was given carries its own id.\<close>

definition call_ok :: "nat \<Rightarrow> rpcCall \<Rightarrow> bool" where
  "call_ok i c = (1 \<le> i \<and> (\<forall>r. call_buf c = Some r \<longrightarrow> resp_ID r = i) \<and>
                  (\<forall>r. call_result c = Some (Inr r) \<longrightarrow> resp_ID r = i))"

definition waiting :: "demux \<Rightarrow> nat \<Rightarrow> bool" where
  "waiting d i = (\<exists>c. call_of d i = Some c \<and> call_result c = None)"

definition inv_calls :: "demux \<Rightarrow> bool" where
  "inv_calls d =
     ((\<forall>i c. call_of d i = Some c \<longrightarrow> call_ok i c \<and> i \<le> dm_next d) \<and>
      (\<forall>i \<in> set (dm_pending d). waiting d i) \<and>
      (\<forall>r. dm_loop d = Responding r \<longrightarrow> call_of d (resp_ID r) \<noteq> None) \<and>
      (dm_stopped d \<longrightarrow> dm_writerClosed d) \<and> (dm_writerClosed d \<longrightarrow> dm_closed d \<and> dm_writer d \<noteq> None) \<and>
      (dm_closed d \<longrightarrow> dm_pending d = []) \<and> dm_next d < 2 ^ 64)"

fun is_give_up :: "telemetry \<Rightarrow> bool" where
  "is_give_up (OnUnrecoverable e) = True"
| "is_give_up _ = False"

text \<open>The failure count of each loop state, given the threshold and the give-ups reported.\<close>

fun failures_ok :: "nat \<Rightarrow> nat \<Rightarrow> nat \<Rightarrow> loopState \<Rightarrow> bool" where
  "failures_ok mx n k (Delivering m g (Some e) b) = (e = give_up_error \<and> n = mx \<and> k = 1)"
| "failures_ok mx n k (Exited e) = ((e = Some give_up_error \<longrightarrow> n = mx \<and> k = 1) \<and> k \<le> 1)"
| "failures_ok mx n k l = (n < mx \<and> k = 0)"

definition inv_failures :: "demux \<Rightarrow> bool" where
  "inv_failures d = (dm_consecutive d = trailing_failures (dm_lines d) \<and>
     failures_ok (dm_maxParseErrors d) (dm_consecutive d) (length (filter is_give_up (dm_trace d))) (dm_loop d))"

lemma inv_queues_step: "dstep d d' \<Longrightarrow> inv_queues d \<Longrightarrow> inv_queues d'"
  by (induction rule: dstep.induct)
    (auto simp: inv_queues_def step_defs room_def Let_def
      split: option.splits frameClass.splits prod.splits if_splits)

lemma failures_ok_delivering:
  "failures_ok mx n k (Delivering m g e b) \<longleftrightarrow>
     (case e of None \<Rightarrow> n < mx \<and> k = 0 | Some x \<Rightarrow> x = give_up_error \<and> n = mx \<and> k = 1)"
  by (cases e) auto

lemma inv_failures_step: "dstep d d' \<Longrightarrow> inv_failures d \<Longrightarrow> inv_failures d'"
  by (induction rule: dstep.induct)
    (auto simp: inv_failures_def failures_ok_delivering step_defs count_failure_def Let_def
      split: option.splits frameClass.splits prod.splits if_splits)

lemma inv_order_step: "dstep d d' \<Longrightarrow> inv_order d \<Longrightarrow> inv_order d'"
  by (induction rule: dstep.induct)
    (auto simp: inv_order_def gap_after_def is_exited_def step_defs spec_step_def Let_def
      split: option.splits frameClass.splits prod.splits if_splits loopState.splits)

text \<open>Reading a line touches no call, and starts a response only for a pending id.\<close>

lemma on_line_frame [simp]:
  "dm_calls (on_line l d) = dm_calls d" "dm_pending (on_line l d) = dm_pending d"
  "dm_closed (on_line l d) = dm_closed d" "dm_stopped (on_line l d) = dm_stopped d"
  "dm_next (on_line l d) = dm_next d" "dm_writer (on_line l d) = dm_writer d"
  "dm_writerClosed (on_line l d) = dm_writerClosed d"
  by (auto simp: step_defs Let_def split: option.splits frameClass.splits prod.splits if_splits)

lemma on_line_responding:
  "dm_loop d = Reading \<Longrightarrow> dm_loop (on_line l d) = Responding r \<Longrightarrow> resp_ID r \<in> set (dm_pending d)"
  by (auto simp: step_defs Let_def split: option.splits frameClass.splits prod.splits if_splits)

lemma delivery_frame [simp]:
  "dm_calls (after_delivery g e (enqueue m d)) = dm_calls d"
  "dm_pending (after_delivery g e (enqueue m d)) = dm_pending d"
  "dm_closed (after_delivery g e (enqueue m d)) = dm_closed d"
  "dm_stopped (after_delivery g e (enqueue m d)) = dm_stopped d"
  "dm_next (after_delivery g e (enqueue m d)) = dm_next d"
  "dm_writer (after_delivery g e (enqueue m d)) = dm_writer d"
  "dm_writerClosed (after_delivery g e (enqueue m d)) = dm_writerClosed d"
  "dm_loop (after_delivery g e (enqueue m d)) \<noteq> Responding r"
  by (auto simp: step_defs split: option.splits)

lemma inv_calls_new:
  assumes "inv_calls d" and "dm_next d + 1 < 2 ^ 64" and "call_ok (dm_next d + 1) c"
    and "new \<longrightarrow> call_result c = None \<and> \<not> dm_closed d"
    and d': "dm_calls d' = put (dm_next d + 1) c (dm_calls d)" "dm_next d' = dm_next d + 1"
      "dm_pending d' = (if new then (dm_next d + 1) # dm_pending d else dm_pending d)"
      "dm_loop d' = dm_loop d" "dm_closed d' = dm_closed d" "dm_stopped d' = dm_stopped d" "dm_writer d' = dm_writer d"
      "dm_writerClosed d' = dm_writerClosed d"
  shows "inv_calls d'"
proof -
  let ?n = "dm_next d + 1"
  have calls: "call_of d' i = (if i = ?n then Some c else call_of d i)" for i
    by (simp add: call_of_def d')
  have old: "\<And>i c. call_of d i = Some c \<Longrightarrow> call_ok i c \<and> i \<le> dm_next d"
    using assms(1) by (simp add: inv_calls_def)
  have pend: "waiting d' i" if "i \<in> set (dm_pending d')" for i
  proof (cases "i = ?n")
    case True
    have "?n \<notin> set (dm_pending d)"
    proof
      assume "?n \<in> set (dm_pending d)"
      then obtain x where "call_of d ?n = Some x" using assms(1) by (auto simp: inv_calls_def waiting_def)
      from old [OF this] show False by simp
    qed
    with that True have new by (simp add: d' split: if_splits)
    with True assms(4) calls show ?thesis by (simp add: waiting_def)
  next
    case False
    with that have "i \<in> set (dm_pending d)" by (simp add: d' split: if_splits)
    with False calls assms(1) show ?thesis by (simp add: inv_calls_def waiting_def)
  qed
  have resp: "call_of d' (resp_ID r) \<noteq> None" if "dm_loop d' = Responding r" for r
  proof -
    have "call_of d (resp_ID r) \<noteq> None" using that assms(1) by (simp add: inv_calls_def d')
    then show ?thesis using calls [of "resp_ID r"] by simp
  qed
  have all: "call_ok i x \<and> i \<le> dm_next d'" if "call_of d' i = Some x" for i x
    using that calls [of i] old [of i x] assms(3) by (auto simp: d' split: if_splits)
  have closed: "(dm_stopped d' \<longrightarrow> dm_writerClosed d') \<and> (dm_writerClosed d' \<longrightarrow> dm_closed d' \<and> dm_writer d' \<noteq> None) \<and>
      (dm_closed d' \<longrightarrow> dm_pending d' = []) \<and> dm_next d' < 2 ^ 64"
    using assms(1,2,4) by (auto simp: inv_calls_def d')
  show ?thesis
    unfolding inv_calls_def using pend resp all closed by blast
qed

lemma inv_calls_send:
  assumes "inv_calls d" and "dm_next d + 1 < 2 ^ 64"
  shows "inv_calls (send_begin method params d)"
proof -
  have n: "next_id (dm_next d) = dm_next d + 1" using assms(2) by (simp add: next_id_def)
  let ?c = "\<lambda>x. \<lparr>call_request = encode_Request \<lparr>req_ID = dm_next d + 1, req_Method = method, req_Params = params\<rparr>,
    call_sent = False, call_buf = None, call_result = x\<rparr>"
  show ?thesis
  proof (cases "dm_closed d")
    case True
    then show ?thesis
      by (intro inv_calls_new [OF assms, of "?c (Some (Inl (Sentinel ErrDemuxClosed)))" False])
        (simp_all add: send_begin_def n set_call_def Let_def call_ok_def)
  next
    case False
    then show ?thesis
      by (intro inv_calls_new [OF assms, of "?c None" True])
        (simp_all add: send_begin_def n set_call_def Let_def call_ok_def)
  qed
qed

lemma inv_calls_return:
  assumes "inv_calls d" and "call_of d i = Some c" and "call_ok i (c\<lparr>call_buf := buf, call_result := Some x\<rparr>)"
  shows "inv_calls (send_return i c x buf d)"
  using assms by (auto simp: inv_calls_def waiting_def call_of_def send_return_def set_call_def)

lemma call_ok_buffer: "call_ok i c \<Longrightarrow> resp_ID r = i \<Longrightarrow> call_ok i (c\<lparr>call_buf := Some r\<rparr>)"
  by (auto simp: call_ok_def)

lemma inv_calls_buffer:
  assumes "inv_calls d" and "call_of d i = Some c" and "call_ok i (c\<lparr>call_buf := b\<rparr>)"
  shows "inv_calls (set_call i (c\<lparr>call_buf := b\<rparr>) (d\<lparr>dm_loop := Reading\<rparr>))"
  using assms by (auto simp: inv_calls_def waiting_def call_of_def set_call_def)

lemma inv_calls_unchanged:
  assumes "inv_calls d"
    and "dm_calls d' = dm_calls d" "dm_pending d' = dm_pending d" "dm_next d' = dm_next d"
      "dm_closed d' = dm_closed d" "dm_stopped d' = dm_stopped d"
      "dm_writerClosed d' = dm_writerClosed d" "dm_writerClosed d' \<Longrightarrow> dm_writer d' = dm_writer d"
      "\<And>r. dm_loop d' = Responding r \<Longrightarrow> resp_ID r \<in> set (dm_pending d) \<or> dm_loop d = Responding r"
  shows "inv_calls d'"
  using assms by (fastforce simp: inv_calls_def call_of_def waiting_def)

lemma call_ok_of: "inv_calls d \<Longrightarrow> call_of d i = Some c \<Longrightarrow> call_ok i c"
  by (simp add: inv_calls_def)

lemma inv_calls_write:
  assumes "inv_calls d" and "call_of d i = Some c" and "call_result c = None"
  shows "inv_calls (send_write i c d)"
proof (cases "dm_writer d")
  case None
  with assms call_ok_of [OF assms(1,2)] show ?thesis
    by (auto simp: send_write_def write_frame_def inv_calls_def call_ok_def call_of_def waiting_def set_call_def)
next
  case (Some e)
  have "call_ok i (c\<lparr>call_buf := call_buf c, call_result := Some (Inl (ErrWrap ''jsonrpc.Demux.Send: write''
      (ErrWrap ''jsonrpc.LineWriter.WriteFrame: write'' e)))\<rparr>)"
    using call_ok_of [OF assms(1,2)] by (simp add: call_ok_def)
  from inv_calls_return [OF assms(1,2) this] Some show ?thesis by (simp add: send_write_def write_frame_def)
qed

lemma inv_calls_step: "dstep d d' \<Longrightarrow> inv_calls d \<Longrightarrow> inv_calls d'"
proof (induction rule: dstep.induct)
  case (read_line d line)
  then show ?case
    by (intro inv_calls_unchanged [OF read_line(2)]) (simp_all add: on_line_responding)
next
  case (send d m ps)
  then show ?case by (intro inv_calls_send)
next
  case (send_writes d i c)
  then show ?case by (intro inv_calls_write)
next
  case (send_response d i c r)
  show ?case
    by (rule inv_calls_return [OF send_response(5,1)])
      (use call_ok_of [OF send_response(5,1)] send_response(4) in \<open>simp add: call_ok_def\<close>)
next
  case (send_canceled d i c ctxErr)
  show ?case
    by (rule inv_calls_return [OF send_canceled(5,1)])
      (use call_ok_of [OF send_canceled(5,1)] in \<open>simp add: call_ok_def\<close>)
next
  case (send_closed d i c)
  show ?case
    by (rule inv_calls_return [OF send_closed(5,1)])
      (use call_ok_of [OF send_closed(5,1)] in \<open>simp add: call_ok_def\<close>)
next
  case (respond d r c)
  show ?case
    by (rule inv_calls_buffer [OF respond(4,2) call_ok_buffer [OF call_ok_of [OF respond(4,2)] refl]])
next
  case (close_1 d)
  then show ?case by (auto simp: inv_calls_def waiting_def call_of_def close_registry_def)
next
  case (close_2 d)
  then show ?case by (auto simp: inv_calls_def waiting_def call_of_def close_writer_def)
next
  case (close_3 d)
  then show ?case by (auto simp: inv_calls_def waiting_def call_of_def close_stop_def)
next
  case (deliver d m g e b)
  then show ?case by (intro inv_calls_unchanged [OF deliver(3)]) simp_all
qed (erule inv_calls_unchanged; simp add: exit_loop_def log_def Notify_def RespondServerRequest_def write_frame_def
    split: option.splits)+

section \<open>Reachable states\<close>

lemma reach_invariant:
  assumes "reach d0 d" and "P d0" and "\<And>d d'. dstep d d' \<Longrightarrow> P d \<Longrightarrow> P d'"
  shows "P d"
  using assms(1) by induction (use assms(2,3) in auto)

lemma dstep_config: "dstep d d' \<Longrightarrow> dm_ordered d' = dm_ordered d \<and> dm_maxParseErrors d' = dm_maxParseErrors d"
  by (induction rule: dstep.induct)
    (auto simp: step_defs Let_def split: option.splits frameClass.splits prod.splits if_splits)

lemma reach_config: "reach d0 d \<Longrightarrow> dm_ordered d = dm_ordered d0 \<and> dm_maxParseErrors d = dm_maxParseErrors d0"
  by (induction rule: reach.induct) (use dstep_config in auto)

lemma reach_NewDemux:
  assumes "reach (NewDemux ordered n) d"
  shows "inv_queues d" "inv_order d" "inv_calls d" "inv_failures d"
    "dm_ordered d = ordered" "dm_maxParseErrors d = WithMaxParseErrors n"
proof -
  show "inv_queues d"
    by (rule reach_invariant [OF assms])
      (simp add: NewDemux_def inv_queues_def, erule (1) inv_queues_step)
  show "inv_order d"
    by (rule reach_invariant [OF assms])
      (simp add: NewDemux_def inv_order_def is_exited_def spec_messages_def gap_after_def, erule (1) inv_order_step)
  show "inv_calls d"
    by (rule reach_invariant [OF assms])
      (simp add: NewDemux_def inv_calls_def call_of_def, erule (1) inv_calls_step)
  show "inv_failures d"
    by (rule reach_invariant [OF assms])
      (simp add: NewDemux_def inv_failures_def trailing_failures_def WithMaxParseErrors_def
        DefaultMaxConsecutiveParseErrors_def, erule (1) inv_failures_step)
  show "dm_ordered d = ordered" "dm_maxParseErrors d = WithMaxParseErrors n"
    using reach_config [OF assms] by (simp_all add: NewDemux_def)
qed

lemma reach_close:
  assumes "reach (NewDemux ordered n) d"
  shows "reach d (close_demux d)"
proof (cases "dm_closed d")
  case True
  then show ?thesis by (simp add: close_demux_def reach_refl)
next
  case False
  let ?d1 = "close_registry d" let ?d2 = "close_writer ?d1"
  have "\<not> dm_writerClosed d \<and> \<not> dm_stopped d" using reach_NewDemux(3) [OF assms] False by (auto simp: inv_calls_def)
  then have o: "dm_closed ?d1" "\<not> dm_writerClosed ?d1" "dm_writerClosed ?d2" "\<not> dm_stopped ?d2"
    by (simp_all add: close_registry_def close_writer_def)
  from reach_step [OF reach_step [OF reach_step [OF reach_refl close_1 [OF False]] close_2 [OF o(1,2)]] close_3 [OF o(3,4)]]
  show ?thesis using False by (simp add: close_demux_def)
qed

lemma reach_trans: "reach b c \<Longrightarrow> reach a b \<Longrightarrow> reach a c"
  by (induction rule: reach.induct) (auto intro: reach_step)

section \<open>Sample runs\<close>

definition dup_frame :: string where
  "dup_frame = render (encode_Response \<lparr>resp_ID = 1, resp_Result = None, resp_Error = None\<rparr>)"

lemma dup_frame_decoded:
  "decode_frame dup_frame = Some \<lparr>rf_ID = Some 1, rf_Method = None, rf_Params = None, rf_Result = None, rf_Error = None\<rparr>"
  using to_rawFrame_Response [of "\<lparr>resp_ID = 1, resp_Result = None, resp_Error = None\<rparr>"]
    wf_encode(4) [of "\<lparr>resp_ID = 1, resp_Result = None, resp_Error = None\<rparr>"]
  by (auto simp: dup_frame_def wf_raw_def dest!: decode_frame_render)

lemma dup_frame_nonempty: "dup_frame \<noteq> []"
  by (simp add: dup_frame_def encode_Response_def omit_raw_def)

definition dup_response :: rpcResponse where
  "dup_response = \<lparr>resp_ID = 1, resp_Result = None, resp_Error = None\<rparr>"

lemma on_line_dup:
  "1 \<in> set (dm_pending d) \<Longrightarrow> dm_loop (on_line dup_frame d) = Responding dup_response"
  by (simp add: on_line_def dup_frame_nonempty dup_frame_decoded classifyAndRoute_def classify_def
      dup_response_def log_def Let_def)

text \<open>A run in which the request with id 1 is answered and the answer returned.\<close>

lemma on_line_lines: "dm_lines (on_line l d) = dm_lines d @ [l]"
  by (auto simp: step_defs Let_def split: option.splits frameClass.splits prod.splits if_splits)

definition sample_call :: rpcCall where
  "sample_call = \<lparr>call_request = encode_Request \<lparr>req_ID = 1, req_Method = ''m'', req_Params = None\<rparr>,
     call_sent = True, call_buf = None, call_result = None\<rparr>"

text \<open>A request registered and written.\<close>

lemma sent_run:
  "\<exists>d. reach (NewDemux True 0) d \<and> dm_pending d = [1] \<and> dm_loop d = Reading \<and>
       call_of d 1 = Some sample_call \<and> dm_next d = 1 \<and> dm_lines d = []"
proof -
  define d1 where "d1 = send_begin ''m'' None (NewDemux True 0)"
  define c where "c = sample_call\<lparr>call_sent := False\<rparr>"
  have p: "dm_pending d1 = [1]" "dm_loop d1 = Reading" "call_of d1 1 = Some c" "dm_next d1 = 1"
    "dm_lines d1 = []" "dm_writer d1 = None"
    by (simp_all add: d1_def NewDemux_def send_begin_def next_id_def set_call_def call_of_def c_def sample_call_def)
  have r: "reach (NewDemux True 0) d1" unfolding d1_def
    by (rule reach_step [OF reach_refl send]) (simp add: NewDemux_def)
  have "reach (NewDemux True 0) (send_write 1 c d1)"
    by (rule reach_step [OF r send_writes [OF p(3)]]) (simp_all add: c_def sample_call_def)
  then show ?thesis using p
    by (intro exI [of _ "send_write 1 c d1"])
      (simp add: send_write_def write_frame_def set_call_def call_of_def c_def sample_call_def)
qed

lemma answered_run:
  "\<exists>d. reach (NewDemux True 0) d \<and>
       call_of d 1 = Some (sample_call\<lparr>call_result := Some (Inr dup_response)\<rparr>)"
proof -
  obtain d1 where r1: "reach (NewDemux True 0) d1"
    and p: "dm_pending d1 = [1]" "dm_loop d1 = Reading" "call_of d1 1 = Some sample_call"
    using sent_run by blast
  define c where "c = sample_call\<lparr>call_buf := Some dup_response\<rparr>"
  define d2 where "d2 = on_line dup_frame d1"
  define d3 where "d3 = set_call 1 c (d2\<lparr>dm_loop := Reading\<rparr>)"
  have l2: "dm_loop d2 = Responding dup_response" and c2: "call_of d2 1 = Some sample_call"
    using p by (simp_all add: d2_def on_line_dup call_of_def)
  have "reach (NewDemux True 0) d2" unfolding d2_def by (rule reach_step [OF r1 read_line]) (rule p(2))
  then have r: "reach (NewDemux True 0) d3"
    using reach_step [OF _ respond [OF l2, of sample_call]] c2
    by (simp add: d3_def c_def dup_response_def sample_call_def)
  have c3: "call_of d3 1 = Some c" by (simp add: d3_def set_call_def call_of_def)
  have "reach (NewDemux True 0) (send_return 1 c (Inr dup_response) None d3)"
    by (rule reach_step [OF r send_response [OF c3]]) (simp_all add: c_def sample_call_def)
  then show ?thesis by (auto simp: send_return_def set_call_def call_of_def c_def sample_call_def)
qed

lemma decode_frame_x: "decode_frame ''x'' = None"
  by (simp add: decode_frame_def parse_json_def skip_ws_def json_ws_def p_num_def valid_number_def
      valid_int_def num_char_def is_digit_def dq_def Let_def numeral_3_eq_3)

section \<open>Properties\<close>

text \<open>C5: In the ordered mode the client selects, the consumer sees exactly the requests and
  notifications of the lines read, in the order of the wire, with one gap marker for each run of
  lines that could not be decoded or classified: what it took and what is queued is always a prefix
  of that specification, and all of it whenever the loop is back at reading.\<close>

theorem demux_ordered_delivery:
  assumes "reach (NewDemux True n) d"
  shows "prefix (dm_consumed d @ dm_serverMessages d) (fst (spec_messages (dm_lines d))) \<and>
         (dm_loop d = Reading \<longrightarrow> dm_consumed d @ dm_serverMessages d = fst (spec_messages (dm_lines d)))"
  using reach_NewDemux(2,5) [OF assms]
  by (cases "dm_loop d") (auto simp: inv_order_def is_exited_def)

theorem demux_ordered_delivery_witness:
  "prefix (dm_consumed (on_line ''x'' (NewDemux True 3)) @ dm_serverMessages (on_line ''x'' (NewDemux True 3)))
     (fst (spec_messages [''x'']))"
proof -
  have "reach (NewDemux True 3) (on_line ''x'' (NewDemux True 3))"
    by (intro reach_step [OF reach_refl] read_line) (simp add: NewDemux_def)
  moreover have "dm_lines (on_line ''x'' (NewDemux True 3)) = [''x'']"
    by (auto simp: step_defs NewDemux_def Let_def split: option.splits frameClass.splits prod.splits)
  ultimately show ?thesis using demux_ordered_delivery [of 3 "on_line ''x'' (NewDemux True 3)"] by simp
qed

text \<open>C12: A \<open>Send\<close> that returns a response returns the response to its own request: ids are never
  reused while calls are recorded, and a response reaches only the channel its id registered.\<close>

theorem send_gets_own_response:
  assumes "reach (NewDemux ordered n) d" and "call_of d i = Some c" and "call_result c = Some (Inr r)"
  shows "resp_ID r = i"
  using reach_NewDemux(3) [OF assms(1)] assms(2,3) by (simp add: inv_calls_def call_ok_def)

theorem send_gets_own_response_witness:
  "\<exists>d. reach (NewDemux True 0) d \<and> dm_next (NewDemux True 0) = 0 \<and> resp_ID dup_response = 1"
proof -
  obtain d where d: "reach (NewDemux True 0) d"
    "call_of d 1 = Some (sample_call\<lparr>call_result := Some (Inr dup_response)\<rparr>)"
    using answered_run by blast
  have "resp_ID dup_response = 1"
    by (rule send_gets_own_response [OF d]) simp
  with d(1) show ?thesis by (auto simp: NewDemux_def)
qed

text \<open>The outbound channels never exceed the capacities they were made with.\<close>

theorem demux_channels_bounded:
  assumes "reach (NewDemux ordered n) d"
  shows "length (dm_serverMessages d) \<le> 64 \<and> length (dm_notifications d) \<le> 64 \<and>
         length (dm_serverRequests d) \<le> 16"
  using reach_NewDemux(1) [OF assms] by (simp add: inv_queues_def)

theorem demux_channels_bounded_witness:
  "length (dm_serverMessages (on_line ''x'' (NewDemux True 1))) \<le> 64"
proof -
  have "reach (NewDemux True 1) (on_line ''x'' (NewDemux True 1))"
    by (intro reach_step [OF reach_refl] read_line) (simp add: NewDemux_def)
  from demux_channels_bounded [OF this] show ?thesis by blast
qed

text \<open>C14: The read loop gives up exactly at the threshold: when it has exited with the give-up error
  the stream ends in exactly that many lines in a row that failed to decode and the handler was
  called once; while it reads, fewer have failed and the handler was not called.\<close>

theorem demux_gives_up_at_threshold:
  assumes "reach (NewDemux ordered n) d"
  shows "(dm_loop d = Exited (Some give_up_error) \<longrightarrow>
            trailing_failures (dm_lines d) = WithMaxParseErrors n \<and>
            length (filter is_give_up (dm_trace d)) = 1) \<and>
         (dm_loop d = Reading \<longrightarrow>
            trailing_failures (dm_lines d) < WithMaxParseErrors n \<and> filter is_give_up (dm_trace d) = [])"
  using reach_NewDemux(4,6) [OF assms] by (auto simp: inv_failures_def)

theorem demux_gives_up_at_threshold_witness:
  "\<exists>d :: demux. dm_loop d = Exited (Some give_up_error) \<and> trailing_failures (dm_lines d) = WithMaxParseErrors 1"
proof -
  let ?d1 = "on_line ''x'' (NewDemux True 1)"
  have l: "dm_loop ?d1 = Delivering decode_gap True (Some give_up_error) False" and q: "room ?d1 decode_gap"
    by (simp_all add: on_line_def NewDemux_def decode_frame_x handleDecodeFailure_def recordParseFailure_def
        WithMaxParseErrors_def log_def want_def room_def Let_def)
  let ?d2 = "after_delivery True (Some give_up_error) (enqueue decode_gap ?d1)"
  have "reach (NewDemux True 1) ?d1"
    by (intro reach_step [OF reach_refl] read_line) (simp add: NewDemux_def)
  then have "reach (NewDemux True 1) ?d2" by (rule reach_step [OF _ deliver [OF l q]])
  moreover have "dm_loop ?d2 = Exited (Some give_up_error)"
    by (simp add: after_delivery_def exit_loop_def)
  ultimately have "dm_loop ?d2 = Exited (Some give_up_error) \<and>
      trailing_failures (dm_lines ?d2) = WithMaxParseErrors 1"
    using demux_gives_up_at_threshold [of True 1 ?d2] by simp
  then show ?thesis by (rule exI [of _ ?d2])
qed

text \<open>C13: After \<open>Close\<close> no request stays registered, a new \<open>Send\<close> fails with the closed error, and
  every call still waiting can return an error at once: the closed error when its frame was written,
  else the error of the write it is about to make.\<close>

theorem close_releases_calls:
  assumes "reach (NewDemux ordered n) d" and "dm_stopped d"
  shows "dm_pending d = [] \<and>
         (call_of d i = Some c \<and> call_result c = None \<longrightarrow>
           (\<exists>d' c' e. dstep d d' \<and> call_of d' i = Some c' \<and> call_result c' = Some (Inl e) \<and>
             (if call_sent c then e = Sentinel ErrDemuxClosed
              else \<exists>w. dm_writer d = Some w \<and> e = ErrWrap ''jsonrpc.Demux.Send: write'' (ErrWrap ''jsonrpc.LineWriter.WriteFrame: write'' w)))) \<and>
         (\<exists>c'. call_of (send_begin method params d) (next_id (dm_next d)) = Some c' \<and>
           call_result c' = Some (Inl (Sentinel ErrDemuxClosed)))"
proof (intro conjI impI)
  have s: "dm_stopped d" "dm_closed d" "dm_pending d = []" "dm_writer d \<noteq> None"
    using reach_NewDemux(3) [OF assms(1)] assms(2) by (simp_all add: inv_calls_def)
  then show "dm_pending d = []" by simp
  show "\<exists>d' c' e. dstep d d' \<and> call_of d' i = Some c' \<and> call_result c' = Some (Inl e) \<and>
      (if call_sent c then e = Sentinel ErrDemuxClosed
       else \<exists>w. dm_writer d = Some w \<and> e = ErrWrap ''jsonrpc.Demux.Send: write'' (ErrWrap ''jsonrpc.LineWriter.WriteFrame: write'' w))"
    if "call_of d i = Some c \<and> call_result c = None"
  proof (cases "call_sent c")
    case True
    then show ?thesis using send_closed [of d i c] that s(1)
      by (intro exI conjI) (auto simp: send_return_def set_call_def call_of_def)
  next
    case False
    obtain w where w: "dm_writer d = Some w" using s(4) by blast
    have "dstep d (send_write i c d)" by (rule send_writes) (use that False in simp_all)
    then show ?thesis using w False that
      by (intro exI [of _ "send_write i c d"])
        (auto simp: send_write_def write_frame_def send_return_def set_call_def call_of_def)
  qed
  show "\<exists>c'. call_of (send_begin method params d) (next_id (dm_next d)) = Some c' \<and>
           call_result c' = Some (Inl (Sentinel ErrDemuxClosed))"
    using s(2) by (simp add: send_begin_def set_call_def call_of_def Let_def)
qed

theorem close_releases_calls_witness:
  "dm_pending (close_demux (NewDemux True 1)) = []"
proof -
  have "reach (NewDemux True 1) (close_demux (NewDemux True 1))"
    by (rule reach_close [OF reach_refl])
  moreover have "dm_stopped (close_demux (NewDemux True 1))"
    by (simp add: close_demux_def close_stop_def NewDemux_def)
  ultimately show ?thesis using close_releases_calls by blast
qed

section \<open>A read loop that never leaves a response\<close>

text \<open>A second response to the same id while the first is still buffered, and a caller that gives up
  in between: the loop blocks in \<open>ch <- resp\<close>.\<close>

definition stuck :: "nat \<Rightarrow> demux \<Rightarrow> bool" where
  "stuck i d = (\<exists>r c r' x. dm_loop d = Responding r \<and> resp_ID r = i \<and> call_of d i = Some c \<and>
                 call_buf c = Some r' \<and> call_result c = Some x \<and> i \<le> dm_next d)"

lemma stuck_step: "dstep d d' \<Longrightarrow> stuck i d \<Longrightarrow> stuck i d'"
proof (induction rule: dstep.induct)
  case (send d m ps)
  then have "next_id (dm_next d) = dm_next d + 1" by (simp add: next_id_def)
  with send show ?case
    by (auto simp: stuck_def call_of_def send_begin_def set_call_def Let_def)
qed (auto simp: stuck_def call_of_def exit_loop_def log_def set_call_def send_write_def write_frame_def
      send_return_def close_registry_def close_writer_def close_stop_def Notify_def RespondServerRequest_def split: option.splits)

lemma stuck_reach: "reach d0 d \<Longrightarrow> stuck i d0 \<Longrightarrow> stuck i d"
  by (induction rule: reach.induct) (auto intro: stuck_step)

text \<open>The comment at \<open>ch <- resp\<close> says the send never blocks. It does when a server answers one
  request twice and the caller's context ends in between: such a state is reachable, and from it the
  read loop never leaves the send again, whatever else happens, \<open>Close\<close> included.\<close>

theorem duplicate_response_wedges_read_loop:
  "\<exists>d. reach (NewDemux True 0) d \<and> (\<forall>d'. reach d d' \<longrightarrow> (\<exists>r. dm_loop d' = Responding r)) \<and>
       dm_lines d = [dup_frame, dup_frame]"
proof -
  define d0 where "d0 = NewDemux True 0"
  define c where "c = sample_call"
  obtain d1 where r1: "reach d0 d1"
    and p1: "dm_pending d1 = [1]" "dm_loop d1 = Reading" "call_of d1 1 = Some c" "dm_next d1 = 1" "dm_lines d1 = []"
    using sent_run unfolding c_def d0_def by blast
  define d2 where "d2 = on_line dup_frame d1"
  define d3 where "d3 = set_call 1 (c\<lparr>call_buf := Some dup_response\<rparr>) (d2\<lparr>dm_loop := Reading\<rparr>)"
  define d4 where "d4 = on_line dup_frame d3"
  define d5 where "d5 = send_return 1 (c\<lparr>call_buf := Some dup_response\<rparr>)
    (Inl (ErrWrap ''jsonrpc.Demux.Send'' (Sentinel ErrContextCanceled))) (Some dup_response) d4"
  have l2: "dm_loop d2 = Responding dup_response" using p1 by (simp add: d2_def on_line_dup)
  have p2: "dm_pending d2 = [1]" "call_of d2 1 = Some c" "dm_next d2 = 1"
    using p1 by (simp_all add: d2_def call_of_def)
  have ln: "dm_lines (on_line dup_frame d) = dm_lines d @ [dup_frame]" for d
    by (simp add: on_line_def dup_frame_nonempty dup_frame_decoded classifyAndRoute_def classify_def
      log_def Let_def)
  have p3: "dm_pending d3 = [1]" "dm_loop d3 = Reading" "call_of d3 1 = Some (c\<lparr>call_buf := Some dup_response\<rparr>)" "dm_next d3 = 1"
    using p2 by (simp_all add: d3_def set_call_def call_of_def)
  have l4: "dm_loop d4 = Responding dup_response" using p3 by (simp add: d4_def on_line_dup)
  have p4: "call_of d4 1 = Some (c\<lparr>call_buf := Some dup_response\<rparr>)" "dm_next d4 = 1"
    using p3 by (simp_all add: d4_def call_of_def)
  have i: "resp_ID dup_response = 1" by (simp add: dup_response_def)
  have r2: "reach d0 d2" unfolding d2_def by (rule reach_step [OF r1 read_line]) (rule p1(2))
  have r3: "reach d0 d3"
    using reach_step [OF r2 respond [OF l2]] p2(2) i by (simp add: d3_def c_def sample_call_def)
  have r4: "reach d0 d4" unfolding d4_def by (rule reach_step [OF r3 read_line]) (rule p3(2))
  have r5: "reach d0 d5"
    using reach_step [OF r4 send_canceled [OF p4(1), of ErrContextCanceled]] by (simp add: d5_def c_def sample_call_def)
  have "stuck 1 d5"
    using l4 i p4 by (auto simp: stuck_def d5_def send_return_def set_call_def call_of_def)
  then have "\<exists>r. dm_loop d' = Responding r" if "reach d5 d'" for d'
    using stuck_reach [OF that] by (auto simp: stuck_def)
  moreover have "dm_lines d5 = [dup_frame, dup_frame]"
    using p1 by (simp add: d5_def send_return_def set_call_def d4_def ln d3_def d2_def)
  ultimately show ?thesis using r5 by (auto simp: d0_def)
qed

theorem duplicate_response_wedges_read_loop_witness:
  "\<exists>d. reach (NewDemux True 0) d \<and> (\<exists>r. dm_loop (close_demux d) = Responding r)"
proof -
  obtain d where d: "reach (NewDemux True 0) d" "\<And>d'. reach d d' \<Longrightarrow> \<exists>r. dm_loop d' = Responding r"
    using duplicate_response_wedges_read_loop by blast
  have "reach d (close_demux d)" by (rule reach_close [OF d(1)])
  from d(2) [OF this] d(1) show ?thesis by blast
qed

end
