(* ===== verification/Hook_Frames.thy ===== *)
theory Hook_Frames
  imports Framing
begin

text \<open>
  The frames of the hook bridge: a big-endian 32-bit length and the payload, written by
  \<open>writeFrame\<close> and read by \<open>readFrame\<close> of \<open>internal/hookbridge/listener.go\<close> (the SDK) and of
  \<open>cmd/codex-sdk-hook-shim/main.go\<close> (the shim). The length is \<open>uint32(len(payload))\<close>, which drops
  the high bits; both readers refuse a length above 16 MiB.
\<close>

definition MaxFrameSize :: nat where
  "MaxFrameSize = 16 * 1024 * 1024"

text \<open>\<open>binary.BigEndian.PutUint32\<close> of a value truncated to 32 bits, and \<open>Uint32\<close>.\<close>

definition be32 :: "nat \<Rightarrow> string" where
  "be32 n = [char_of (n div 16777216 mod 256), char_of (n div 65536 mod 256),
             char_of (n div 256 mod 256), char_of (n mod 256)]"

fun be32_val :: "string \<Rightarrow> nat" where
  "be32_val [a, b, c, d] =
     of_char a * 16777216 + of_char b * 65536 + of_char c * 256 + of_char d"
| "be32_val _ = 0"

definition writeFrame :: "string \<Rightarrow> string" where
  "writeFrame payload = be32 (length payload mod 2 ^ 32) @ payload"

text \<open>The shim has its own copy of the function.\<close>

definition shim_writeFrame :: "string \<Rightarrow> string" where
  "shim_writeFrame payload = be32 (length payload mod 2 ^ 32) @ payload"

text \<open>\<open>io.ReadFull\<close>: all \<open>n\<close> bytes, or end of file when there was none, or an unexpected end.\<close>

definition ReadFull :: "nat \<Rightarrow> string \<Rightarrow> goError + (string \<times> string)" where
  "ReadFull n s = (if n \<le> length s then Inr (take n s, drop n s)
                   else if s = [] then Inl (Sentinel ErrEOF)
                   else Inl (Sentinel ErrUnexpectedEOF))"

definition frame_too_large :: goError where
  "frame_too_large = ErrText ''frame too large''"

definition readFrame :: "string \<Rightarrow> string readResult" where
  "readFrame s = (case ReadFull 4 s of
      Inl e \<Rightarrow> if e = Sentinel ErrEOF then ReadEOF else ReadErr e
    | Inr (header, body) \<Rightarrow>
        if MaxFrameSize < be32_val header then ReadErr frame_too_large
        else (case ReadFull (be32_val header) body of
            Inl e \<Rightarrow> ReadErr (if errors_is ErrEOF e then Sentinel ErrUnexpectedEOF else e)
          | Inr (buf, rest) \<Rightarrow> ReadOk buf rest))"

text \<open>The shim's reader wraps its errors and keeps a plain end of file in the body.\<close>

definition shim_readFrame :: "string \<Rightarrow> string readResult" where
  "shim_readFrame s = (case ReadFull 4 s of
      Inl e \<Rightarrow> ReadErr (ErrWrap ''header'' e)
    | Inr (header, body) \<Rightarrow>
        if MaxFrameSize < be32_val header then ReadErr frame_too_large
        else (case ReadFull (be32_val header) body of
            Inl e \<Rightarrow> ReadErr (ErrWrap ''body'' e)
          | Inr (buf, rest) \<Rightarrow> ReadOk buf rest))"

section \<open>Lemmas\<close>

lemma shim_writeFrame_eq [simp]: "shim_writeFrame = writeFrame"
  by (rule ext) (simp add: shim_writeFrame_def writeFrame_def)

lemma be32_length [simp]: "length (be32 n) = 4"
  by (simp add: be32_def)

lemma be32_val_be32 [simp]: "n < 2 ^ 32 \<Longrightarrow> be32_val (be32 n) = n"
proof -
  assume "n < 2 ^ 32"
  then have a: "n div 16777216 mod 256 = n div 16777216"
    by (simp add: div_less_iff_less_mult)
  have "n mod 16777216 = 65536 * (n div 65536 mod 256) + n mod 65536"
    using mod_mult2_eq [of n 65536 256] by simp
  moreover have "n mod 65536 = 256 * (n div 256 mod 256) + n mod 256"
    using mod_mult2_eq [of n 256 256] by simp
  moreover have "16777216 * (n div 16777216) + n mod 16777216 = n" by simp
  ultimately show ?thesis by (simp add: be32_def a)
qed

lemma ReadFull_append [simp]: "n = length x \<Longrightarrow> ReadFull n (x @ r) = Inr (x, r)"
  by (simp add: ReadFull_def)

lemma ReadFull_header: "ReadFull 4 (writeFrame p @ r) = Inr (be32 (length p mod 2 ^ 32), p @ r)"
  by (simp add: writeFrame_def)

lemma max_frame_32: "n \<le> MaxFrameSize \<Longrightarrow> n < 2 ^ 32"
  by (simp add: MaxFrameSize_def)

lemma readFrame_writeFrame:
  "length p \<le> MaxFrameSize \<Longrightarrow> readFrame (writeFrame p @ r) = ReadOk p r"
  using max_frame_32 [of "length p"] by (simp add: readFrame_def ReadFull_header)

lemma shim_readFrame_writeFrame:
  "length p \<le> MaxFrameSize \<Longrightarrow> shim_readFrame (writeFrame p @ r) = ReadOk p r"
  using max_frame_32 [of "length p"] by (simp add: shim_readFrame_def ReadFull_header)

lemma readFrame_empty: "readFrame [] = ReadEOF"
  by (simp add: readFrame_def ReadFull_def)

interpretation frames: frame_codec "\<lambda>p. length p \<le> MaxFrameSize" writeFrame readFrame
  by unfold_locales (simp_all add: readFrame_writeFrame readFrame_empty)

lemma readFrame_too_large:
  "MaxFrameSize < length p \<Longrightarrow> length p < 2 ^ 32 \<Longrightarrow> readFrame (writeFrame p @ r) = ReadErr frame_too_large"
  by (simp add: readFrame_def ReadFull_header)

lemma ReadFull_Inr: "ReadFull n s = Inr (x, y) \<Longrightarrow> length x = n \<and> s = x @ y"
  by (auto simp: ReadFull_def split: if_splits)

lemma readFrame_payload:
  assumes "readFrame (writeFrame p @ r) = ReadOk x y"
  shows "length x = length p mod 2 ^ 32 \<and> length p mod 2 ^ 32 \<le> MaxFrameSize"
proof -
  let ?n = "length p mod 2 ^ 32"
  have v: "be32_val (be32 ?n) = ?n" by (rule be32_val_be32) simp
  have e: "readFrame (writeFrame p @ r) =
      (if MaxFrameSize < ?n then ReadErr frame_too_large
       else (case ReadFull ?n (p @ r) of
            Inl e \<Rightarrow> ReadErr (if errors_is ErrEOF e then Sentinel ErrUnexpectedEOF else e)
          | Inr (buf, rest) \<Rightarrow> ReadOk buf rest))"
    unfolding readFrame_def ReadFull_header by (simp only: sum.case prod.case v)
  have "\<not> MaxFrameSize < ?n" using assms unfolding e by (auto split: if_splits)
  moreover have "ReadFull ?n (p @ r) = Inr (x, y)"
    using assms unfolding e by (auto split: if_splits sum.splits)
  ultimately show ?thesis using ReadFull_Inr [of ?n "p @ r" x y] by simp
qed

section \<open>Properties\<close>

text \<open>The length prefix delimits a payload exactly when it fits: a written frame is read back as
  its payload, whatever follows, if and only if the payload has at most 16 MiB. (A longer one is
  refused, or, from 4 GiB on, its truncated length would delimit something shorter.)\<close>

theorem readFrame_roundtrip_iff:
  "readFrame (writeFrame p @ r) = ReadOk p r \<longleftrightarrow> length p \<le> MaxFrameSize"
proof
  assume a: "readFrame (writeFrame p @ r) = ReadOk p r"
  from readFrame_payload [OF a] have "length p = length p mod 2 ^ 32" "length p mod 2 ^ 32 \<le> MaxFrameSize"
    by simp_all
  then show "length p \<le> MaxFrameSize" by simp
qed (rule readFrame_writeFrame)

text \<open>A stream of frames is read back as the payloads written, in order, and two different
  sequences of payloads never have the same bytes.\<close>

theorem frame_stream_roundtrip:
  assumes "\<forall>p \<in> set ps. length p \<le> MaxFrameSize" and "\<forall>p \<in> set qs. length p \<le> MaxFrameSize"
  shows "read_all readFrame (length ps) (emit_all writeFrame ps) = ps \<and>
         (emit_all writeFrame ps = emit_all writeFrame qs \<longrightarrow> ps = qs)"
  using frames.read_all_exact [of ps "length ps"] frames.emit_all_unambiguous [of ps qs] assms
  by (simp add: list_all_iff)

theorem frame_stream_roundtrip_witness:
  "read_all readFrame (length [''ab'', ''c'']) (emit_all writeFrame [''ab'', ''c'']) = [''ab'', ''c'']"
proof -
  have "\<forall>p \<in> set [''ab'', ''c'']. length p \<le> MaxFrameSize" by (simp add: MaxFrameSize_def)
  from frame_stream_roundtrip [OF this this] show ?thesis by (rule conjunct1)
qed

end
