(* ===== verification/Hook_Output.thy ===== *)
theory Hook_Output
  imports Json_Text Jsonrpc Items
begin

text \<open>
  What the hook bridge writes for codex to read: the outputs of a hook (\<open>internal/hookbridge/protocol.go\<close>)
  and the \<open>hooks.json\<close> that registers the shim (\<open>config.go\<close>), as the structs of the sources with the
  JSON their tags give them. The wire order of the fields is that of the struct.
\<close>

section \<open>Optional fields\<close>

definition omit_str :: "string \<Rightarrow> string \<Rightarrow> (string \<times> json) list" where
  "omit_str k s = (if s = [] then [] else [(k, JStr s)])"

definition omit_bool :: "string \<Rightarrow> bool \<Rightarrow> (string \<times> json) list" where
  "omit_bool k b = (if b then [(k, JBool True)] else [])"

definition omit_flag :: "string \<Rightarrow> bool ptr \<Rightarrow> (string \<times> json) list" where
  "omit_flag k p = (case p of None \<Rightarrow> [] | Some b \<Rightarrow> [(k, JBool b)])"

definition omit_int :: "string \<Rightarrow> int \<Rightarrow> (string \<times> json) list" where
  "omit_int k n = (if n = 0 then [] else [(k, JNum (render_int n))])"

section \<open>Outputs of a hook\<close>

record preToolUseHookSpecific =
  pts_HookEventName :: string
  pts_PermissionDecision :: string
  pts_PermissionDecisionReason :: string
  pts_UpdatedInput :: raw

record preToolUseOutput =
  pto_HookSpecificOutput :: preToolUseHookSpecific
  pto_SystemMessage :: string
  pto_Continue :: "bool ptr"

record postToolUseHookSpecific =
  pos_HookEventName :: string
  pos_AdditionalContext :: string

record postToolUseOutput =
  poo_HookSpecificOutput :: postToolUseHookSpecific
  poo_SystemMessage :: string
  poo_Continue :: "bool ptr"

record sessionStartHookSpecific =
  sss_HookEventName :: string
  sss_AdditionalContext :: string

record sessionStartOutput =
  sso_HookSpecificOutput :: sessionStartHookSpecific
  sso_SystemMessage :: string
  sso_Continue :: "bool ptr"

record userPromptSubmitHookSpecific =
  ups_HookEventName :: string
  ups_AdditionalContext :: string

record userPromptSubmitOutput =
  upo_HookSpecificOutput :: userPromptSubmitHookSpecific
  upo_SystemMessage :: string
  upo_Continue :: "bool ptr"
  upo_StopReason :: string
  upo_SuppressOutput :: bool

record stopOutput =
  sto_Decision :: string
  sto_Reason :: string
  sto_SystemMessage :: string
  sto_Continue :: "bool ptr"
  sto_StopReason :: string
  sto_SuppressOutput :: bool

definition encode_preToolUseHookSpecific :: "preToolUseHookSpecific \<Rightarrow> json" where
  "encode_preToolUseHookSpecific s = JObj ([(''hookEventName'', JStr (pts_HookEventName s)),
       (''permissionDecision'', JStr (pts_PermissionDecision s))]
     @ omit_str ''permissionDecisionReason'' (pts_PermissionDecisionReason s)
     @ omit_raw ''updatedInput'' (pts_UpdatedInput s))"

definition encode_preToolUseOutput :: "preToolUseOutput \<Rightarrow> json" where
  "encode_preToolUseOutput o' = JObj ([(''hookSpecificOutput'', encode_preToolUseHookSpecific (pto_HookSpecificOutput o'))]
     @ omit_str ''systemMessage'' (pto_SystemMessage o') @ omit_flag ''continue'' (pto_Continue o'))"

text \<open>The specific part of the three events that only add context.\<close>

definition encode_context :: "string \<Rightarrow> string \<Rightarrow> json" where
  "encode_context name context =
     JObj ([(''hookEventName'', JStr name)] @ omit_str ''additionalContext'' context)"

definition encode_postToolUseOutput :: "postToolUseOutput \<Rightarrow> json" where
  "encode_postToolUseOutput o' = JObj ([(''hookSpecificOutput'',
       encode_context (pos_HookEventName (poo_HookSpecificOutput o')) (pos_AdditionalContext (poo_HookSpecificOutput o')))]
     @ omit_str ''systemMessage'' (poo_SystemMessage o') @ omit_flag ''continue'' (poo_Continue o'))"

definition encode_sessionStartOutput :: "sessionStartOutput \<Rightarrow> json" where
  "encode_sessionStartOutput o' = JObj ([(''hookSpecificOutput'',
       encode_context (sss_HookEventName (sso_HookSpecificOutput o')) (sss_AdditionalContext (sso_HookSpecificOutput o')))]
     @ omit_str ''systemMessage'' (sso_SystemMessage o') @ omit_flag ''continue'' (sso_Continue o'))"

definition encode_userPromptSubmitOutput :: "userPromptSubmitOutput \<Rightarrow> json" where
  "encode_userPromptSubmitOutput o' = JObj ([(''hookSpecificOutput'',
       encode_context (ups_HookEventName (upo_HookSpecificOutput o')) (ups_AdditionalContext (upo_HookSpecificOutput o')))]
     @ omit_str ''systemMessage'' (upo_SystemMessage o') @ omit_flag ''continue'' (upo_Continue o')
     @ omit_str ''stopReason'' (upo_StopReason o') @ omit_bool ''suppressOutput'' (upo_SuppressOutput o'))"

definition encode_stopOutput :: "stopOutput \<Rightarrow> json" where
  "encode_stopOutput o' = JObj (omit_str ''decision'' (sto_Decision o') @ omit_str ''reason'' (sto_Reason o')
     @ omit_str ''systemMessage'' (sto_SystemMessage o') @ omit_flag ''continue'' (sto_Continue o')
     @ omit_str ''stopReason'' (sto_StopReason o') @ omit_bool ''suppressOutput'' (sto_SuppressOutput o'))"

section \<open>The generated configuration\<close>

record hookHandlerConfig =
  hhc_Type :: string
  hhc_Command :: string
  hhc_Timeout :: int
  hhc_Async :: bool

record hookMatcherGroup =
  hmg_Matcher :: string
  hmg_Hooks :: "hookHandlerConfig list"

text \<open>The only field is a Go map from event names to groups, here the list of its entries.\<close>

record hooksConfig =
  hcf_Hooks :: "(string \<times> hookMatcherGroup list) list"

definition encode_hookHandlerConfig :: "hookHandlerConfig \<Rightarrow> json" where
  "encode_hookHandlerConfig h = JObj ([(''type'', JStr (hhc_Type h))] @ omit_str ''command'' (hhc_Command h)
     @ omit_int ''timeout'' (hhc_Timeout h) @ omit_bool ''async'' (hhc_Async h))"

definition encode_hookMatcherGroup :: "hookMatcherGroup \<Rightarrow> json" where
  "encode_hookMatcherGroup g = JObj [(''matcher'', JStr (hmg_Matcher g)),
     (''hooks'', JArr (map encode_hookHandlerConfig (hmg_Hooks g)))]"

text \<open>\<open>encoding/json\<close> writes the keys of a map in sorted order; the indentation of \<open>MarshalIndent\<close> is not kept.\<close>

definition encode_hooksConfig :: "hooksConfig \<Rightarrow> json" where
  "encode_hooksConfig cfg = JObj [(''hooks'', JObj (map (\<lambda>(k, gs). (k, JArr (map encode_hookMatcherGroup gs)))
     (sort_slice (\<lambda>p q. str_less (fst p) (fst q)) (hcf_Hooks cfg))))]"

definition DefaultTimeoutSeconds :: int where
  "DefaultTimeoutSeconds = 30"

definition GenerateHooksJSON :: "string \<Rightarrow> int \<Rightarrow> goError + json" where
  "GenerateHooksJSON shimPath timeoutSeconds =
     (if shimPath = [] then Inl (ErrText ''hookbridge.GenerateHooksJSON: shimPath must not be empty'')
      else (let t = (if timeoutSeconds \<le> 0 then DefaultTimeoutSeconds else timeoutSeconds);
                handler = \<lparr>hhc_Type = ''command'', hhc_Command = shimPath, hhc_Timeout = t, hhc_Async = False\<rparr>;
                group = \<lparr>hmg_Matcher = ''.*'', hmg_Hooks = [handler]\<rparr>
            in Inr (encode_hooksConfig \<lparr>hcf_Hooks = [(''PreToolUse'', [group]), (''PostToolUse'', [group]),
                 (''SessionStart'', [group]), (''UserPromptSubmit'', [group]), (''Stop'', [group])]\<rparr>)))"

end
