(* ===== verification/Hook_Decision.thy ===== *)
theory Hook_Decision
  imports Hook_Frames Hook_Output
begin

text \<open>
  The hook bridge from end to end: the hook input and decision types of \<open>types/hooks.go\<close>, the
  translation of a decision into what codex expects from a hook subprocess
  (\<open>internal/hookbridge/decision.go\<close>), one connection of
  the SDK's listener (\<open>serve\<close> and \<open>runHandlerWithRecover\<close> in \<open>listener.go\<close>), and the shim process
  (\<open>cmd/codex-sdk-hook-shim/main.go\<close>). The user's handler is a parameter: it decides, panics, or
  does not return within the timeout. The socket is a function from the bytes the shim writes to the
  bytes it can read. The properties compose the two sides.
\<close>

section \<open>Hook inputs\<close>

record hookInput =
  hi_HookEventName :: string
  hi_SessionID :: string
  hi_TranscriptPath :: string
  hi_Cwd :: string
  hi_PermissionMode :: string
  hi_Model :: string
  hi_TurnID :: "string ptr"
  hi_Prompt :: "string ptr"
  hi_LastAssistantMessage :: "string ptr"
  hi_ToolName :: string
  hi_ToolInput :: raw
  hi_ToolResult :: raw
  hi_ToolUseID :: string
  hi_Source :: "string ptr"
  hi_Raw :: string

definition NormalizeHookEventName :: "string \<Rightarrow> string" where
  "NormalizeHookEventName name =
     (if name = ''PreToolUse'' then ''preToolUse''
      else if name = ''PostToolUse'' then ''postToolUse''
      else if name = ''SessionStart'' then ''sessionStart''
      else if name = ''UserPromptSubmit'' then ''userPromptSubmit''
      else if name = ''Stop'' then ''stop''
      else name)"

definition t_hookInput :: gotype where
  "t_hookInput = t_struct
    [(''hook_event_name'', t_str), (''session_id'', t_str), (''transcript_path'', t_str),
     (''cwd'', t_str), (''permission_mode'', t_str), (''model'', t_str), (''turn_id'', t_ptr t_str),
     (''prompt'', t_ptr t_str), (''last_assistant_message'', t_ptr t_str), (''tool_name'', t_str),
     (''tool_input'', t_raw), (''tool_result'', t_raw), (''tool_use_id'', t_str),
     (''source'', t_ptr t_str)]"

text \<open>\<open>HookInput.UnmarshalJSON\<close> and the assignment of \<open>Raw\<close> in \<open>serve\<close>.\<close>

definition to_hookInput :: "string \<Rightarrow> gval \<Rightarrow> hookInput" where
  "to_hookInput rawText g =
     \<lparr>hi_HookEventName = NormalizeHookEventName (f_str g ''hook_event_name''),
      hi_SessionID = f_str g ''session_id'', hi_TranscriptPath = f_str g ''transcript_path'',
      hi_Cwd = f_str g ''cwd'', hi_PermissionMode = f_str g ''permission_mode'', hi_Model = f_str g ''model'',
      hi_TurnID = f_pstr g ''turn_id'', hi_Prompt = f_pstr g ''prompt'',
      hi_LastAssistantMessage = f_pstr g ''last_assistant_message'', hi_ToolName = f_str g ''tool_name'',
      hi_ToolInput = f_raw g ''tool_input'', hi_ToolResult = f_raw g ''tool_result'',
      hi_ToolUseID = f_str g ''tool_use_id'', hi_Source = f_pstr g ''source'', hi_Raw = rawText\<rparr>"

definition decode_hookInput :: "string \<Rightarrow> hookInput option" where
  "decode_hookInput stdin = (case parse_json stdin of
      None \<Rightarrow> None
    | Some j \<Rightarrow> (case unmarshal t_hookInput (Some j) of (g, ok) \<Rightarrow>
        if ok then Some (to_hookInput stdin g) else None))"

section \<open>Decisions\<close>

text \<open>The sealed interface \<open>HookDecision\<close>; \<open>NoDecision\<close> is the nil interface.\<close>

datatype hookDecision =
    HookAllow "string ptr" "string ptr" raw
  | HookDeny string bool "string ptr"
  | HookAsk string
  | NoDecision

definition DefaultAllowHookHandler :: "hookInput \<Rightarrow> hookDecision" where
  "DefaultAllowHookHandler hin = HookAllow None None None"

record hookResponse =
  hr_Stdout :: string
  hr_Stderr :: string
  hr_ExitCode :: int

text \<open>A pointer to a string, empty where it is nil.\<close>

definition text_of :: "string ptr \<Rightarrow> string" where
  "text_of p = (case p of None \<Rightarrow> [] | Some s \<Rightarrow> s)"

definition buildAllowOutput :: "string \<Rightarrow> string ptr \<Rightarrow> string ptr \<Rightarrow> raw \<Rightarrow> string" where
  "buildAllowOutput event systemMessage additionalContext updatedInput =
     (if event = ''preToolUse'' then []
      else if event = ''postToolUse'' then
        render (encode_postToolUseOutput
          \<lparr>poo_HookSpecificOutput = \<lparr>pos_HookEventName = ''PostToolUse'', pos_AdditionalContext = text_of additionalContext\<rparr>,
           poo_SystemMessage = text_of systemMessage, poo_Continue = None\<rparr>)
      else if event = ''sessionStart'' then
        render (encode_sessionStartOutput
          \<lparr>sso_HookSpecificOutput = \<lparr>sss_HookEventName = ''SessionStart'', sss_AdditionalContext = text_of additionalContext\<rparr>,
           sso_SystemMessage = text_of systemMessage, sso_Continue = None\<rparr>)
      else if event = ''userPromptSubmit'' then
        render (encode_userPromptSubmitOutput
          \<lparr>upo_HookSpecificOutput = \<lparr>ups_HookEventName = ''UserPromptSubmit'', ups_AdditionalContext = text_of additionalContext\<rparr>,
           upo_SystemMessage = text_of systemMessage, upo_Continue = Some True, upo_StopReason = [], upo_SuppressOutput = False\<rparr>)
      else if event = ''stop'' then
        render (encode_stopOutput
          \<lparr>sto_Decision = ''approve'', sto_Reason = [], sto_SystemMessage = text_of systemMessage, sto_Continue = Some True,
           sto_StopReason = [], sto_SuppressOutput = False\<rparr>)
      else [])"

definition allowResponse :: "string \<Rightarrow> string ptr \<Rightarrow> string ptr \<Rightarrow> raw \<Rightarrow> hookResponse" where
  "allowResponse event systemMessage additionalContext updatedInput =
     \<lparr>hr_Stdout = buildAllowOutput event systemMessage additionalContext updatedInput,
      hr_Stderr = [], hr_ExitCode = 0\<rparr>"

definition buildDenyOutput :: "string \<Rightarrow> string \<Rightarrow> bool \<Rightarrow> string ptr \<Rightarrow> string" where
  "buildDenyOutput event reason suppress systemMessage =
     (if event = ''preToolUse'' then
        render (encode_preToolUseOutput
          \<lparr>pto_HookSpecificOutput = \<lparr>pts_HookEventName = ''PreToolUse'', pts_PermissionDecision = ''deny'',
             pts_PermissionDecisionReason = reason, pts_UpdatedInput = None\<rparr>,
           pto_SystemMessage = text_of systemMessage, pto_Continue = None\<rparr>)
      else if event = ''userPromptSubmit'' then
        render (encode_userPromptSubmitOutput
          \<lparr>upo_HookSpecificOutput = \<lparr>ups_HookEventName = ''UserPromptSubmit'', ups_AdditionalContext = []\<rparr>,
           upo_SystemMessage = text_of systemMessage, upo_Continue = Some False, upo_StopReason = reason,
           upo_SuppressOutput = suppress\<rparr>)
      else if event = ''stop'' then
        render (encode_stopOutput
          \<lparr>sto_Decision = ''block'', sto_Reason = reason, sto_SystemMessage = text_of systemMessage, sto_Continue = None,
           sto_StopReason = [], sto_SuppressOutput = suppress\<rparr>)
      else [])"

definition denyResponse :: "string \<Rightarrow> string \<Rightarrow> bool \<Rightarrow> string ptr \<Rightarrow> hookResponse" where
  "denyResponse event reason suppress systemMessage =
     \<lparr>hr_Stdout = buildDenyOutput event reason suppress systemMessage, hr_Stderr = reason, hr_ExitCode = 2\<rparr>"

definition askResponse :: "string \<Rightarrow> string \<Rightarrow> hookResponse" where
  "askResponse event reason = \<lparr>hr_Stdout = [], hr_Stderr = [], hr_ExitCode = 0\<rparr>"

fun DecisionToResponse :: "string \<Rightarrow> hookDecision \<Rightarrow> hookResponse" where
  "DecisionToResponse event (HookAllow sm ac ui) = allowResponse event sm ac ui"
| "DecisionToResponse event (HookDeny reason suppress sm) = denyResponse event reason suppress sm"
| "DecisionToResponse event (HookAsk reason) = askResponse event reason"
| "DecisionToResponse event NoDecision = \<lparr>hr_Stdout = [], hr_Stderr = [], hr_ExitCode = 0\<rparr>"

section \<open>The listener\<close>

datatype handlerOutcome = Decided hookDecision | Panicked | TimedOut

definition runHandlerWithRecover :: "handlerOutcome \<Rightarrow> hookDecision" where
  "runHandlerWithRecover r = (case r of
      Decided d \<Rightarrow> d
    | Panicked \<Rightarrow> HookAllow None None None
    | TimedOut \<Rightarrow> HookAllow None None None)"

record hookRequest =
  hreq_ShimVersion :: string
  hreq_Stdin :: string
  hreq_Env :: "(string \<times> string) list"

definition encode_hookRequest :: "hookRequest \<Rightarrow> json" where
  "encode_hookRequest r = JObj ([(''shim_version'', JStr (hreq_ShimVersion r)), (''stdin'', JStr (hreq_Stdin r))]
     @ (if hreq_Env r = [] then [] else [(''env'', JObj (map (\<lambda>p. (fst p, JStr (snd p))) (hreq_Env r)))]))"

definition t_hookRequest :: gotype where
  "t_hookRequest = t_struct [(''shim_version'', t_str), (''stdin'', t_str), (''env'', t_map t_str)]"

definition encode_hookResponse :: "hookResponse \<Rightarrow> json" where
  "encode_hookResponse r = JObj ([(''stdout'', JStr (hr_Stdout r))] @ omit_str ''stderr'' (hr_Stderr r)
     @ [(''exit_code'', JNum (render_int (hr_ExitCode r)))])"

definition t_hookResponse :: gotype where
  "t_hookResponse = t_struct [(''stdout'', t_str), (''stderr'', t_str), (''exit_code'', t_int)]"

definition to_hookResponse :: "gval \<Rightarrow> hookResponse" where
  "to_hookResponse g = \<lparr>hr_Stdout = f_str g ''stdout'', hr_Stderr = f_str g ''stderr'',
                        hr_ExitCode = f_int g ''exit_code''\<rparr>"

text \<open>\<open>serve\<close> up to the call of the handler, and from its decision on.\<close>

definition serve_read :: "string \<Rightarrow> hookInput option" where
  "serve_read bytes =
     (case readFrame bytes of
        ReadOk reqBytes rest \<Rightarrow>
          (case parse_json reqBytes of
             None \<Rightarrow> None
           | Some j \<Rightarrow> (case unmarshal t_hookRequest (Some j) of (req, ok) \<Rightarrow>
               if ok then decode_hookInput (f_str req ''stdin'') else None))
      | _ \<Rightarrow> None)"

definition serve_answer :: "hookInput \<Rightarrow> hookDecision \<Rightarrow> string" where
  "serve_answer hin d = writeFrame (render (encode_hookResponse (DecisionToResponse (hi_HookEventName hin) d)))"

text \<open>What the listener writes back on one connection; nothing when it only logs and closes.\<close>

definition serve :: "(hookInput \<Rightarrow> handlerOutcome) \<Rightarrow> string \<Rightarrow> string" where
  "serve handler conn = (case serve_read conn of
      None \<Rightarrow> []
    | Some hin \<Rightarrow> serve_answer hin (runHandlerWithRecover (handler hin)))"

section \<open>The shim\<close>

definition ShimVersion :: string where
  "ShimVersion = ''0.2.0''"

definition envSubset :: "string list \<Rightarrow> (string \<times> string) list \<Rightarrow> (string \<times> string) list" where
  "envSubset keys env = concat (map (\<lambda>k. case map_of env k of None \<Rightarrow> [] | Some v \<Rightarrow> [(k, v)]) keys)"

definition shim_request :: "(string \<times> string) list \<Rightarrow> string \<Rightarrow> hookRequest" where
  "shim_request env stdin = \<lparr>hreq_ShimVersion = ShimVersion, hreq_Stdin = stdin,
     hreq_Env = envSubset [''CODEX_SDK_HOOK_REQUEST_ID''] env\<rparr>"

text \<open>\<open>conn\<close> is \<^const>\<open>None\<close> when dialling or writing fails, else what can be read after the request.\<close>

definition callSDK :: "(string \<times> string) list \<Rightarrow> (string \<Rightarrow> string option) \<Rightarrow> string \<Rightarrow> goError + hookResponse" where
  "callSDK env conn stdin =
     (case conn (shim_writeFrame (render (encode_hookRequest (shim_request env stdin)))) of
        None \<Rightarrow> Inl (ErrText ''dial'')
      | Some stream \<Rightarrow>
          (case shim_readFrame stream of
             ReadOk respBytes rest \<Rightarrow>
               (case parse_json respBytes of
                  None \<Rightarrow> Inl (ErrWrap ''unmarshal response'' json_cause)
                | Some j \<Rightarrow> (case unmarshal t_hookResponse (Some j) of (g, ok) \<Rightarrow>
                    if ok then Inr (to_hookResponse g)
                    else Inl (ErrWrap ''unmarshal response'' json_cause)))
           | ReadEOF \<Rightarrow> Inl (Sentinel ErrEOF)
           | ReadErr e \<Rightarrow> Inl (ErrWrap ''read frame'' e)))"

text \<open>The process: standard output, standard error, exit code. \<open>stdin\<close> is \<^const>\<open>None\<close> when reading
  it failed. Of a diagnostic only the fixed beginning is kept.\<close>

definition shim_diag :: "string \<Rightarrow> hookResponse" where
  "shim_diag m = \<lparr>hr_Stdout = [], hr_Stderr = ''codex-sdk-hook-shim: '' @ m, hr_ExitCode = 0\<rparr>"

text \<open>\<open>os.Exit\<close>: of the code only the low eight bits reach the parent.\<close>

definition os_exit :: "hookResponse \<Rightarrow> hookResponse" where
  "os_exit r = r\<lparr>hr_ExitCode := hr_ExitCode r mod 256\<rparr>"

definition shim_main :: "(string \<times> string) list \<Rightarrow> (string \<Rightarrow> string option) \<Rightarrow> string option \<Rightarrow> hookResponse" where
  "shim_main env conn stdin =
     (case stdin of
        None \<Rightarrow> shim_diag ''read stdin: ''
      | Some stdinBytes \<Rightarrow>
          (let socket = (case map_of env ''CODEX_SDK_HOOK_SOCKET'' of None \<Rightarrow> [] | Some v \<Rightarrow> v) in
           if socket = [] then \<lparr>hr_Stdout = [], hr_Stderr = [], hr_ExitCode = 0\<rparr>
           else (case callSDK env conn stdinBytes of
               Inl e \<Rightarrow> shim_diag ''bridge call failed: ''
             | Inr resp \<Rightarrow> os_exit resp)))"

section \<open>The bridge in time\<close>

text \<open>In nanoseconds. The handler takes a time, after which it has decided or panicked; \<open>runHandlerWithRecover\<close>
  waits for it up to the listener's timeout.\<close>

definition IOTimeout :: int where "IOTimeout = 30 * 1000000000"

definition DefaultCallbackTimeout :: int where "DefaultCallbackTimeout = 30 * 1000000000"

definition handler_within :: "int \<Rightarrow> hookDecision option \<times> int \<Rightarrow> handlerOutcome \<times> int" where
  "handler_within timeout x = (case x of (r, t) \<Rightarrow>
     if t < timeout then (case r of None \<Rightarrow> Panicked | Some d \<Rightarrow> Decided d, t) else (TimedOut, timeout))"

text \<open>What the shim can read on its connection to the listener before the one deadline it sets on it, where
  everything but the handler takes \<open>lag\<close>. A read that the deadline ends shows here as the end of the
  stream: the two differ only in the text that \<^const>\<open>shim_diag\<close> leaves out.\<close>

definition bridge :: "int \<Rightarrow> int \<Rightarrow> (hookInput \<Rightarrow> hookDecision option \<times> int) \<Rightarrow> string \<Rightarrow> string" where
  "bridge lag timeout h req = (case serve_read req of
      None \<Rightarrow> []
    | Some hin \<Rightarrow> (case handler_within timeout (h hin) of (r, t) \<Rightarrow>
        if lag + t < IOTimeout then serve_answer hin (runHandlerWithRecover r) else []))"

section \<open>Lemmas\<close>

lemma wf_omit [simp]:
  "list_all (\<lambda>m. wf_json (snd m)) (omit_str k s)"
  "list_all (\<lambda>m. wf_json (snd m)) (omit_bool k b)"
  by (auto simp: omit_str_def omit_bool_def split: option.splits)

lemma fold_max_le: "(\<forall>x \<in> set xs. x \<le> (m :: nat)) \<Longrightarrow> a \<le> m \<Longrightarrow> fold max xs a \<le> m"
  by (induction xs arbitrary: a) auto

lemma json_depth_flat:
  "(\<forall>m \<in> set ms. json_depth (snd m) \<le> d) \<Longrightarrow> json_depth (JObj ms) \<le> Suc d"
  using fold_max_le [of "map (\<lambda>m. json_depth (snd m)) ms" d 0] by simp

lemma parse_hookRequest:
  "parse_json (render (encode_hookRequest r)) = Some (encode_hookRequest r)"
proof (rule parse_json_render)
  show "wf_json (encode_hookRequest r)"
    by (auto simp: encode_hookRequest_def list_all_iff)
  have "json_depth (JObj (map (\<lambda>p. (fst p, JStr (snd p))) (hreq_Env r))) \<le> Suc 0"
    by (rule json_depth_flat) auto
  then have "json_depth (encode_hookRequest r) \<le> Suc (Suc 0)"
    unfolding encode_hookRequest_def by (intro json_depth_flat) (auto simp del: json_depth.simps(2) split: if_splits)
  then show "json_depth (encode_hookRequest r) \<le> 10000" by simp
qed

lemma unmarshal_hookRequest:
  "\<exists>g. unmarshal t_hookRequest (Some (encode_hookRequest r)) = (g, True) \<and> f_str g ''stdin'' = hreq_Stdin r"
proof -
  have "list_all (\<lambda>p. snd (snd p)) (map (\<lambda>x. (fst x, GStr (snd x), True)) e)" for e :: "(string \<times> string) list"
    by (simp add: list_all_iff)
  then show ?thesis
    by (simp add: encode_hookRequest_def t_hookRequest_def gotype_defs field_defs unmarshal_def
        values_for_def match_field_def to_lower_def to_lower_char_def o_def)
qed

lemma parse_hookResponse:
  "parse_json (render (encode_hookResponse r)) = Some (encode_hookResponse r)"
proof (rule parse_json_render)
  show "wf_json (encode_hookResponse r)"
    by (simp add: encode_hookResponse_def valid_number_render_int)
  have "json_depth (encode_hookResponse r) \<le> Suc 0"
    unfolding encode_hookResponse_def by (rule json_depth_flat) (auto simp: omit_str_def)
  then show "json_depth (encode_hookResponse r) \<le> 10000" by simp
qed

lemma unmarshal_hookResponse:
  assumes "- (2 ^ 63) \<le> hr_ExitCode r" and "hr_ExitCode r < 2 ^ 63"
  shows "\<exists>g. unmarshal t_hookResponse (Some (encode_hookResponse r)) = (g, True) \<and> to_hookResponse g = r"
  using assms
  by (cases r; cases "hr_Stderr r")
    (simp_all add: encode_hookResponse_def t_hookResponse_def to_hookResponse_def omit_str_def gotype_defs
      field_defs unmarshal_def values_for_def match_field_def to_lower_def to_lower_char_def)

lemma DecisionToResponse_exit:
  "hr_ExitCode (DecisionToResponse ev d) = (case d of HookDeny r s m \<Rightarrow> 2 | _ \<Rightarrow> 0)"
  by (cases d) (simp_all add: allowResponse_def denyResponse_def askResponse_def)

text \<open>The request frame as the listener sees it.\<close>

lemma serve_read_request:
  assumes "length (render (encode_hookRequest r)) \<le> MaxFrameSize"
  shows "serve_read (writeFrame (render (encode_hookRequest r))) = decode_hookInput (hreq_Stdin r)"
proof -
  obtain g where "unmarshal t_hookRequest (Some (encode_hookRequest r)) = (g, True)" "f_str g ''stdin'' = hreq_Stdin r"
    using unmarshal_hookRequest by blast
  then show ?thesis
    using readFrame_writeFrame [OF assms, of "[]"] by (simp add: serve_read_def parse_hookRequest)
qed

lemma callSDK_response:
  assumes "conn (writeFrame (render (encode_hookRequest (shim_request env stdin)))) =
             Some (writeFrame (render (encode_hookResponse r)) @ rest)"
    and "length (render (encode_hookResponse r)) \<le> MaxFrameSize"
    and "- (2 ^ 63) \<le> hr_ExitCode r" and "hr_ExitCode r < 2 ^ 63"
  shows "callSDK env conn stdin = Inr r"
proof -
  obtain g where "unmarshal t_hookResponse (Some (encode_hookResponse r)) = (g, True)" "to_hookResponse g = r"
    using unmarshal_hookResponse [OF assms(3,4)] by blast
  then show ?thesis
    using shim_readFrame_writeFrame [OF assms(2)] assms(1)
    by (simp add: callSDK_def parse_hookResponse)
qed

lemma callSDK_Inr:
  "callSDK env conn s = Inr resp \<Longrightarrow> \<exists>stream p rest j g.
     conn (writeFrame (render (encode_hookRequest (shim_request env s)))) = Some stream \<and>
     shim_readFrame stream = ReadOk p rest \<and> parse_json p = Some j \<and>
     unmarshal t_hookResponse (Some j) = (g, True) \<and> resp = to_hookResponse g"
  by (auto simp: callSDK_def split: option.splits readResult.splits prod.splits if_splits)

text \<open>What the shim has read when it has a response: its standard input, the listener's stream, a complete
  frame at its beginning, and a body that decodes.\<close>

definition response_read :: "(string \<times> string) list \<Rightarrow> (string \<Rightarrow> string option) \<Rightarrow> string option \<Rightarrow> gval \<Rightarrow> bool" where
  "response_read env conn stdin g = (\<exists>s v stream p rest j.
     stdin = Some s \<and> map_of env ''CODEX_SDK_HOOK_SOCKET'' = Some v \<and> v \<noteq> [] \<and>
     conn (writeFrame (render (encode_hookRequest (shim_request env s)))) = Some stream \<and>
     shim_readFrame stream = ReadOk p rest \<and> parse_json p = Some j \<and> unmarshal t_hookResponse (Some j) = (g, True))"

lemma response_read_Inr:
  "stdin = Some s \<Longrightarrow> map_of env ''CODEX_SDK_HOOK_SOCKET'' = Some v \<Longrightarrow> v \<noteq> [] \<Longrightarrow> callSDK env conn s = Inr resp \<Longrightarrow>
     \<exists>g. response_read env conn stdin g"
  by (drule callSDK_Inr) (auto simp: response_read_def)

lemma response_read_call:
  assumes "response_read env conn stdin g"
  shows "\<exists>s v. stdin = Some s \<and> map_of env ''CODEX_SDK_HOOK_SOCKET'' = Some v \<and> v \<noteq> [] \<and>
    callSDK env conn s = Inr (to_hookResponse g)"
  using assms by (auto simp: response_read_def callSDK_def)

lemma response_read_main:
  assumes "response_read env conn stdin g"
  shows "shim_main env conn stdin = (to_hookResponse g)\<lparr>hr_ExitCode := f_int g ''exit_code'' mod 256\<rparr>"
  using response_read_call [OF assms] by (auto simp: shim_main_def os_exit_def to_hookResponse_def)

lemma shim_readFrame_empty: "shim_readFrame [] = ReadErr (ErrWrap ''header'' (Sentinel ErrEOF))"
  by (simp add: shim_readFrame_def ReadFull_def)

section \<open>Properties\<close>



text \<open>With the default timeout of the listener, which is the shim's own, a handler that does not return is
  never answered in time: the allow that the listener then writes reaches nobody.\<close>

lemma default_timeout_never_answers:
  assumes "0 \<le> lag" and "DefaultCallbackTimeout \<le> snd (h hin)" and "serve_read req = Some hin"
  shows "bridge lag DefaultCallbackTimeout h req = []"
  using assms by (cases "h hin") (simp add: bridge_def handler_within_def DefaultCallbackTimeout_def IOTimeout_def)

text \<open>C31: The shim fails open: what it prints and its exit code are those of the response it read, the low
  eight bits of the code, when its standard input could be read, a socket is configured, and the
  listener's stream begins with a complete frame that decodes to a response; in every other case, a
  frame with a body that does not decode included, it prints nothing on its standard output and
  exits 0.\<close>

theorem shim_fails_open:
  "(\<forall>g. response_read env conn stdin g \<longrightarrow>
      shim_main env conn stdin = (to_hookResponse g)\<lparr>hr_ExitCode := f_int g ''exit_code'' mod 256\<rparr>) \<and>
   ((\<nexists>g. response_read env conn stdin g) \<longrightarrow>
      hr_Stdout (shim_main env conn stdin) = [] \<and> hr_ExitCode (shim_main env conn stdin) = 0)"
proof (cases "\<exists>s v resp. stdin = Some s \<and> map_of env ''CODEX_SDK_HOOK_SOCKET'' = Some v \<and> v \<noteq> [] \<and>
    callSDK env conn s = Inr resp")
  case True
  then show ?thesis using response_read_main response_read_Inr by blast
next
  case False
  then have "hr_Stdout (shim_main env conn stdin) = [] \<and> hr_ExitCode (shim_main env conn stdin) = 0"
    by (auto simp: shim_main_def shim_diag_def Let_def split: option.splits sum.splits)
  moreover have "\<nexists>g. response_read env conn stdin g" using False response_read_call by blast
  ultimately show ?thesis by blast
qed

text \<open>A frame whose body is no JSON.\<close>

theorem shim_fails_open_witness:
  "hr_Stdout (shim_main [(''CODEX_SDK_HOOK_SOCKET'', ''/s'')] (\<lambda>req. Some (writeFrame ''x'')) (Some [])) = [] \<and>
   hr_ExitCode (shim_main [(''CODEX_SDK_HOOK_SOCKET'', ''/s'')] (\<lambda>req. Some (writeFrame ''x'')) (Some [])) = 0"
proof -
  have "shim_readFrame (writeFrame ''x'') = ReadOk ''x'' []"
    using shim_readFrame_writeFrame [of "''x''" "[]"] by (simp add: MaxFrameSize_def)
  moreover have "parse_json ''x'' = None"
    by (simp add: parse_json_def skip_ws_def json_ws_def p_num_def valid_number_def
      valid_int_def num_char_def is_digit_def dq_def Let_def numeral_3_eq_3)
  ultimately have "\<nexists>g. response_read [(''CODEX_SDK_HOOK_SOCKET'', ''/s'')] (\<lambda>req. Some (writeFrame ''x'')) (Some []) g"
    by (simp add: response_read_def)
  then show ?thesis using shim_fails_open by blast
qed

text \<open>A hook call whose request does not fit a frame bypasses the handler: whatever it would decide,
  a denial included, the listener drops the connection and the shim exits 0, which codex reads as
  allow.\<close>

theorem oversized_hook_request_bypasses_handler:
  assumes "MaxFrameSize < length (render (encode_hookRequest (shim_request env stdin)))"
    and "length (render (encode_hookRequest (shim_request env stdin))) < 2 ^ 32"
  shows "hr_ExitCode (shim_main env (\<lambda>req. Some (serve h req)) (Some stdin)) = 0 \<and>
         hr_Stdout (shim_main env (\<lambda>req. Some (serve h req)) (Some stdin)) = []"
proof -
  have "serve h (writeFrame (render (encode_hookRequest (shim_request env stdin)))) = []"
    using readFrame_too_large [OF assms, of "[]"] by (simp add: serve_def serve_read_def)
  then show ?thesis
    by (simp add: shim_main_def callSDK_def shim_readFrame_empty shim_diag_def Let_def split: option.splits)
qed

theorem oversized_hook_request_bypasses_handler_witness:
  "\<exists>stdin. hr_ExitCode (shim_main [] (\<lambda>req. Some (serve (\<lambda>hin. Decided (HookDeny [] False None)) req)) (Some stdin)) = 0 \<and>
      length stdin = MaxFrameSize"
proof -
  let ?s = "replicate MaxFrameSize (CHR ''x'')"
  have plain: "escape (replicate n (CHR ''x'')) = replicate n (CHR ''x'')" for n
    by (induction n) (simp_all add: line_sep_def escape_char_def dq_def bsl_def take_Cons')
  have "length (render (encode_hookRequest (shim_request [] ?s))) = MaxFrameSize + 35"
    by (simp add: encode_hookRequest_def shim_request_def ShimVersion_def envSubset_def render_str_def plain
        escape_char_def line_sep_def dq_def bsl_def)
  then have "MaxFrameSize < length (render (encode_hookRequest (shim_request [] ?s)))"
    "length (render (encode_hookRequest (shim_request [] ?s))) < 2 ^ 32"
    by (simp_all add: MaxFrameSize_def)
  from oversized_hook_request_bypasses_handler [OF this] show ?thesis
    by (intro exI [of _ ?s]) simp
qed

end
