(* ===== verification/Transitions.thy ===== *)
theory Transitions
  imports Main
begin

text \<open>
  Components that run concurrently are step relations. The contract of such a component is a start, a
  step and an invariant that the start has and each step keeps; what follows for every reachable state
  is proved here once. The subprocess, the client's life and the search for the CLI interpret it.
\<close>

locale step_invariant =
  fixes start :: 's and step :: "'s \<Rightarrow> 's \<Rightarrow> bool" and ok :: "'s \<Rightarrow> bool"
  assumes start_ok: "ok start" and step_ok: "step s s' \<Longrightarrow> ok s \<Longrightarrow> ok s'"
begin

lemma steps_ok: "step\<^sup>*\<^sup>* s s' \<Longrightarrow> ok s \<Longrightarrow> ok s'"
  by (induction rule: rtranclp_induct) (auto intro: step_ok)

lemma reach_ok: "step\<^sup>*\<^sup>* start s \<Longrightarrow> ok s"
  by (rule steps_ok [OF _ start_ok])

end

text \<open>A value that no step changes once it is set keeps it for ever.\<close>

locale stable_value =
  fixes step :: "'s \<Rightarrow> 's \<Rightarrow> bool" and value_of :: "'s \<Rightarrow> 'v option"
  assumes step_keeps: "step s s' \<Longrightarrow> value_of s = Some v \<Longrightarrow> value_of s' = Some v"
begin

lemma steps_keep: "step\<^sup>*\<^sup>* s s' \<Longrightarrow> value_of s = Some v \<Longrightarrow> value_of s' = Some v"
  by (induction rule: rtranclp_induct) (auto intro: step_keeps)

end

end
