(* ===== verification/Hook_Listener.thy ===== *)
theory Hook_Listener
  imports Hook_Decision Transitions
begin

text \<open>
  The life of the hook listener (\<open>internal/hookbridge/listener.go\<close>): \<open>New\<close> with its checks and the
  order of its effects, the accept loop with its backoff, one goroutine per connection, and \<open>Close\<close>.
  What a connection answers is \<^const>\<open>serve\<close> of Hook\_Decision, cut here into the phases between which
  other goroutines run.

  One rule of \<open>lstep\<close> is one action, labelled with who takes it: the SDK's goroutines, a timer, the
  user's handler, the peer on the socket. The handler is a parameter: \<^const>\<open>None\<close> is a panic. A
  handler that outlives its context keeps running; \<open>cn_running\<close> says so. \<open>cn_expired\<close> is the deadline
  of the phase a connection is in; \<open>cn_decision\<close> and \<open>cn_late\<close> record which branch of the \<open>select\<close> was
  taken and whether the deadline had passed then. Closing the Go listener unlinks its socket file.
\<close>

section \<open>Starting\<close>

record listenConfig =
  lc_SocketPath :: string
  lc_HandlerSet :: bool
  lc_Timeout :: int

datatype socketEffect = RemoveSocket string | ListenOn string | ChmodOwnerOnly string | CloseListener string

datatype acceptLoop = Accepting | BackingOff | Stopped

datatype connPhase = Reading | Calling hookInput | Answering string | Finished

record connection =
  cn_bytes :: string
  cn_phase :: connPhase
  cn_expired :: bool
  cn_running :: bool
  cn_decision :: "handlerOutcome option"
  cn_late :: bool
  cn_output :: string

text \<open>Where the one call of \<open>Close\<close> that found the listener open is.\<close>

datatype closePhase = NotClosed | Marked | Cancelled | Shut | Waited | Returned

record listener =
  ls_socketPath :: string
  ls_timeout :: int
  ls_cancelled :: bool
  ls_listening :: bool
  ls_closed :: bool
  ls_socketFile :: bool
  ls_loop :: acceptLoop
  ls_conns :: "connection list"
  ls_close :: closePhase

definition startListener :: "string \<Rightarrow> int \<Rightarrow> listener" where
  "startListener path timeout = \<lparr>ls_socketPath = path, ls_timeout = timeout, ls_cancelled = False,
     ls_listening = True, ls_closed = False, ls_socketFile = True, ls_loop = Accepting, ls_conns = [],
     ls_close = NotClosed\<rparr>"

text \<open>\<open>listen\<close> and \<open>chmod\<close> are what the two system calls return.\<close>

definition hookbridgeNew :: "listenConfig \<Rightarrow> goError ptr \<Rightarrow> goError ptr \<Rightarrow> socketEffect list \<times> (goError + listener)" where
  "hookbridgeNew cfg listen chmod =
     (let path = lc_SocketPath cfg;
          timeout = (if lc_Timeout cfg \<le> 0 then DefaultCallbackTimeout else lc_Timeout cfg) in
      if path = [] then ([], Inl (ErrText ''hookbridge.New: SocketPath required''))
      else if \<not> lc_HandlerSet cfg then ([], Inl (ErrText ''hookbridge.New: Handler required''))
      else (case listen of
          Some e \<Rightarrow> ([RemoveSocket path, ListenOn path], Inl (ErrWrap ''hookbridge.New: listen'' e))
        | None \<Rightarrow> (case chmod of
            Some e \<Rightarrow> ([RemoveSocket path, ListenOn path, ChmodOwnerOnly path, CloseListener path],
                       Inl (ErrWrap ''hookbridge.New: chmod socket'' e))
          | None \<Rightarrow> ([RemoveSocket path, ListenOn path, ChmodOwnerOnly path],
                     Inr (startListener path timeout)))))"

definition SocketPath :: "listener \<Rightarrow> string" where
  "SocketPath l = ls_socketPath l"

section \<open>One connection\<close>

definition acceptedConn :: "string \<Rightarrow> connection" where
  "acceptedConn bytes = \<lparr>cn_bytes = bytes, cn_phase = Reading, cn_expired = False, cn_running = False,
     cn_decision = None, cn_late = False, cn_output = []\<rparr>"

definition afterRead :: "connection \<Rightarrow> connection" where
  "afterRead c = (case serve_read (cn_bytes c) of
      None \<Rightarrow> c\<lparr>cn_phase := Finished\<rparr>
    | Some hin \<Rightarrow> c\<lparr>cn_phase := Calling hin, cn_expired := False, cn_running := True\<rparr>)"

definition handlerResult :: "(hookInput \<Rightarrow> hookDecision option) \<Rightarrow> hookInput \<Rightarrow> handlerOutcome" where
  "handlerResult handler hin = (case handler hin of None \<Rightarrow> Panicked | Some d \<Rightarrow> Decided d)"

text \<open>The \<open>select\<close> of \<open>runHandlerWithRecover\<close> takes an outcome; the answer is ready to be written
  under a new deadline.\<close>

definition decide :: "hookInput \<Rightarrow> handlerOutcome \<Rightarrow> bool \<Rightarrow> connection \<Rightarrow> connection" where
  "decide hin r running c = c\<lparr>cn_phase := Answering (serve_answer hin (runHandlerWithRecover r)),
     cn_late := cn_expired c,
     cn_expired := False, cn_running := running, cn_decision := Some r\<rparr>"

definition written :: "string \<Rightarrow> connection \<Rightarrow> connection" where
  "written out c = c\<lparr>cn_phase := Finished, cn_output := out\<rparr>"

section \<open>Steps\<close>

datatype actor = Sdk | Timer | Handler | Peer

definition set_conn :: "nat \<Rightarrow> connection \<Rightarrow> listener \<Rightarrow> listener" where
  "set_conn i c l = l\<lparr>ls_conns := (ls_conns l)[i := c]\<rparr>"

definition conn_at :: "listener \<Rightarrow> nat \<Rightarrow> connection option" where
  "conn_at l i = (if i < length (ls_conns l) then Some (ls_conns l ! i) else None)"

text \<open>\<open>l.wg.Wait\<close> can return.\<close>

definition all_done :: "listener \<Rightarrow> bool" where
  "all_done l = (ls_loop l = Stopped \<and> list_all (\<lambda>c. cn_phase c = Finished) (ls_conns l))"

inductive lstep :: "(hookInput \<Rightarrow> hookDecision option) \<Rightarrow> actor \<Rightarrow> listener \<Rightarrow> listener \<Rightarrow> bool"
  for h :: "hookInput \<Rightarrow> hookDecision option" where
  accept_conn: "ls_loop l = Accepting \<Longrightarrow> ls_listening l \<Longrightarrow>
    lstep h Peer l (l\<lparr>ls_conns := ls_conns l @ [acceptedConn bytes]\<rparr>)"
| accept_error: "ls_loop l = Accepting \<Longrightarrow>
    lstep h Sdk l (l\<lparr>ls_loop := (if ls_cancelled l then Stopped else BackingOff)\<rparr>)"
| backoff_over: "ls_loop l = BackingOff \<Longrightarrow> lstep h Timer l (l\<lparr>ls_loop := Accepting\<rparr>)"
| backoff_done: "ls_loop l = BackingOff \<Longrightarrow> ls_cancelled l \<Longrightarrow> lstep h Sdk l (l\<lparr>ls_loop := Stopped\<rparr>)"
| deadline: "conn_at l i = Some c \<Longrightarrow> cn_phase c \<noteq> Finished \<Longrightarrow> \<not> cn_expired c \<Longrightarrow>
    lstep h Timer l (set_conn i (c\<lparr>cn_expired := True\<rparr>) l)"
| read_request: "conn_at l i = Some c \<Longrightarrow> cn_phase c = Reading \<Longrightarrow> lstep h Peer l (set_conn i (afterRead c) l)"
| read_expired: "conn_at l i = Some c \<Longrightarrow> cn_phase c = Reading \<Longrightarrow> cn_expired c \<Longrightarrow>
    lstep h Sdk l (set_conn i (c\<lparr>cn_phase := Finished\<rparr>) l)"
| handler_returns: "conn_at l i = Some c \<Longrightarrow> cn_phase c = Calling hin \<Longrightarrow>
    lstep h Handler l (set_conn i (decide hin (handlerResult h hin) False c) l)"
| handler_abandoned: "conn_at l i = Some c \<Longrightarrow> cn_phase c = Calling hin \<Longrightarrow> cn_expired c \<or> ls_cancelled l \<Longrightarrow>
    lstep h Sdk l (set_conn i (decide hin TimedOut True c) l)"
| handler_late: "conn_at l i = Some c \<Longrightarrow> cn_running c \<Longrightarrow> (\<forall>hin. cn_phase c \<noteq> Calling hin) \<Longrightarrow>
    lstep h Handler l (set_conn i (c\<lparr>cn_running := False\<rparr>) l)"
| write_done: "conn_at l i = Some c \<Longrightarrow> cn_phase c = Answering out \<Longrightarrow> lstep h Peer l (set_conn i (written out c) l)"
| write_broken: "conn_at l i = Some c \<Longrightarrow> cn_phase c = Answering out \<Longrightarrow>
    lstep h Peer l (set_conn i (written (take n out) c) l)"
| write_expired: "conn_at l i = Some c \<Longrightarrow> cn_phase c = Answering out \<Longrightarrow> cn_expired c \<Longrightarrow>
    lstep h Sdk l (set_conn i (written (take n out) c) l)"
| close_again: "ls_closed l \<Longrightarrow> lstep h Sdk l l"
| close_mark: "\<not> ls_closed l \<Longrightarrow> lstep h Sdk l (l\<lparr>ls_closed := True, ls_close := Marked\<rparr>)"
| close_cancel: "ls_close l = Marked \<Longrightarrow> lstep h Sdk l (l\<lparr>ls_cancelled := True, ls_close := Cancelled\<rparr>)"
| close_shut: "ls_close l = Cancelled \<Longrightarrow> lstep h Sdk l (l\<lparr>ls_listening := False, ls_socketFile := False, ls_close := Shut\<rparr>)"
| close_waited: "ls_close l = Shut \<Longrightarrow> all_done l \<Longrightarrow> lstep h Sdk l (l\<lparr>ls_close := Waited\<rparr>)"
| close_remove: "ls_close l = Waited \<Longrightarrow> lstep h Sdk l (l\<lparr>ls_socketFile := False, ls_close := Returned\<rparr>)"

definition lmove :: "(hookInput \<Rightarrow> hookDecision option) \<Rightarrow> listener \<Rightarrow> listener \<Rightarrow> bool" where
  "lmove h l l' = (\<exists>a. lstep h a l l')"

lemmas lstep_defs = set_conn_def acceptedConn_def afterRead_def decide_def written_def

section \<open>Invariant\<close>

fun phase_ok :: "(hookInput \<Rightarrow> hookDecision option) \<Rightarrow> bool \<Rightarrow> connection \<Rightarrow> connPhase \<Rightarrow> bool" where
  "phase_ok h cancelled c Reading = (cn_decision c = None \<and> cn_output c = [] \<and> \<not> cn_running c)"
| "phase_ok h cancelled c (Calling hin) =
     (cn_decision c = None \<and> cn_output c = [] \<and> cn_running c \<and> serve_read (cn_bytes c) = Some hin)"
| "phase_ok h cancelled c (Answering out) = (cn_output c = [] \<and>
     (\<exists>r. cn_decision c = Some r \<and> out = serve (\<lambda>hin. r) (cn_bytes c)))"
| "phase_ok h cancelled c Finished = (case cn_decision c of
      None \<Rightarrow> cn_output c = []
    | Some r \<Rightarrow> prefix (cn_output c) (serve (\<lambda>hin. r) (cn_bytes c)))"

text \<open>The recorded outcome is the handler's own unless the deadline had passed or the listener was
  being closed.\<close>

definition decision_ok :: "(hookInput \<Rightarrow> hookDecision option) \<Rightarrow> bool \<Rightarrow> connection \<Rightarrow> bool" where
  "decision_ok h cancelled c = (case cn_decision c of
      None \<Rightarrow> True
    | Some r \<Rightarrow> (\<exists>hin. serve_read (cn_bytes c) = Some hin \<and>
        (r = handlerResult h hin \<or> r = TimedOut \<and> (cn_late c \<or> cancelled))))"

definition conn_ok :: "(hookInput \<Rightarrow> hookDecision option) \<Rightarrow> bool \<Rightarrow> connection \<Rightarrow> bool" where
  "conn_ok h cancelled c = (phase_ok h cancelled c (cn_phase c) \<and> decision_ok h cancelled c)"

fun close_ok :: "closePhase \<Rightarrow> listener \<Rightarrow> bool" where
  "close_ok NotClosed l = (\<not> ls_closed l \<and> \<not> ls_cancelled l \<and> ls_listening l)"
| "close_ok Marked l = (ls_closed l \<and> \<not> ls_cancelled l \<and> ls_listening l)"
| "close_ok Cancelled l = (ls_closed l \<and> ls_cancelled l \<and> ls_listening l)"
| "close_ok Shut l = (ls_closed l \<and> ls_cancelled l \<and> \<not> ls_listening l)"
| "close_ok Waited l = (ls_closed l \<and> ls_cancelled l \<and> \<not> ls_listening l \<and> all_done l)"
| "close_ok Returned l = (ls_closed l \<and> ls_cancelled l \<and> \<not> ls_listening l \<and> all_done l)"

definition listener_ok :: "(hookInput \<Rightarrow> hookDecision option) \<Rightarrow> listener \<Rightarrow> bool" where
  "listener_ok h l = (close_ok (ls_close l) l \<and> ls_socketFile l = ls_listening l \<and>
     (ls_loop l = Stopped \<longrightarrow> ls_cancelled l) \<and> list_all (conn_ok h (ls_cancelled l)) (ls_conns l))"

lemma conn_ok_afterRead:
  assumes "conn_ok h b c" and "cn_phase c = Reading"
  shows "conn_ok h b (afterRead c)"
  using assms by (auto simp: conn_ok_def decision_ok_def afterRead_def split: option.splits)

lemma conn_ok_decide:
  assumes "conn_ok h b c" and "cn_phase c = Calling hin"
    and "r = handlerResult h hin \<or> r = TimedOut \<and> (cn_expired c \<or> b)"
  shows "conn_ok h b (decide hin r running c)"
  using assms by (auto simp: conn_ok_def decision_ok_def decide_def serve_def)

lemma conn_ok_written:
  assumes "conn_ok h b c" and "cn_phase c = Answering out" and "prefix p out"
  shows "conn_ok h b (written p c)"
  using assms by (auto simp: conn_ok_def decision_ok_def written_def)

lemma conn_ok_finish: "conn_ok h b c \<Longrightarrow> cn_phase c = Reading \<Longrightarrow> conn_ok h b (c\<lparr>cn_phase := Finished\<rparr>)"
  by (auto simp: conn_ok_def decision_ok_def)

lemma conn_ok_expired: "conn_ok h b c \<Longrightarrow> conn_ok h b (c\<lparr>cn_expired := True\<rparr>)"
  by (cases "cn_phase c") (auto simp: conn_ok_def decision_ok_def split: option.splits)

lemma conn_ok_late:
  "conn_ok h b c \<Longrightarrow> (\<forall>hin. cn_phase c \<noteq> Calling hin) \<Longrightarrow> conn_ok h b (c\<lparr>cn_running := False\<rparr>)"
  by (cases "cn_phase c") (auto simp: conn_ok_def decision_ok_def split: option.splits)

lemma conn_ok_cancel: "conn_ok h b c \<Longrightarrow> conn_ok h True c"
  by (cases "cn_phase c") (auto simp: conn_ok_def decision_ok_def split: option.splits)

lemma conn_ok_accepted: "conn_ok h b (acceptedConn bytes)"
  by (simp add: conn_ok_def decision_ok_def acceptedConn_def)

lemma conn_at_ok: "listener_ok h l \<Longrightarrow> conn_at l i = Some c \<Longrightarrow> conn_ok h (ls_cancelled l) c"
  by (auto simp: listener_ok_def conn_at_def list_all_length split: if_splits)

lemma conn_at_done: "all_done l \<Longrightarrow> conn_at l i = Some c \<Longrightarrow> cn_phase c = Finished"
  by (auto simp: all_done_def conn_at_def list_all_length split: if_splits)

lemma list_all_update: "list_all P xs \<Longrightarrow> P x \<Longrightarrow> list_all P (xs[i := x])"
  using set_update_subset_insert [of xs i x] by (auto simp: list_all_iff)

lemma set_conn_done: "all_done l \<Longrightarrow> cn_phase c = Finished \<Longrightarrow> all_done (set_conn i c l)"
  by (simp add: all_done_def set_conn_def list_all_update)

lemma close_ok_set_conn:
  assumes "close_ok p l" and "all_done l \<Longrightarrow> cn_phase c = Finished"
  shows "close_ok p (set_conn i c l)"
proof (cases p)
  case Waited
  with assms set_conn_done [of l c i] show ?thesis by (simp add: set_conn_def)
next
  case Returned
  with assms set_conn_done [of l c i] show ?thesis by (simp add: set_conn_def)
qed (use assms in \<open>simp_all add: set_conn_def\<close>)

lemma listener_ok_set_conn:
  assumes "listener_ok h l" and "conn_ok h (ls_cancelled l) c" and "all_done l \<Longrightarrow> cn_phase c = Finished"
  shows "listener_ok h (set_conn i c l)"
proof -
  have "ls_close (set_conn i c l) = ls_close l" by (simp add: set_conn_def)
  moreover have "close_ok (ls_close l) (set_conn i c l)"
    using assms(1,3) by (intro close_ok_set_conn) (auto simp: listener_ok_def)
  moreover have "list_all (conn_ok h (ls_cancelled l)) ((ls_conns l)[i := c])"
    using assms(1,2) by (simp add: listener_ok_def list_all_update)
  ultimately show ?thesis using assms(1) by (simp add: listener_ok_def set_conn_def)
qed

lemma lstep_ok: "lstep h a l l' \<Longrightarrow> listener_ok h l \<Longrightarrow> listener_ok h l'"
proof (induction rule: lstep.induct)
  case (accept_conn l bytes)
  then have "\<not> all_done l" by (auto simp: all_done_def)
  with accept_conn show ?case
    by (cases "ls_close l") (auto simp: listener_ok_def conn_ok_accepted)
next
  case (accept_error l)
  then show ?case
    by (cases "ls_close l") (auto simp: listener_ok_def all_done_def)
next
  case (backoff_over l)
  then show ?case by (cases "ls_close l") (auto simp: listener_ok_def all_done_def)
next
  case (backoff_done l)
  then show ?case by (cases "ls_close l") (auto simp: listener_ok_def all_done_def)
next
  case (deadline l i c)
  then show ?case
    using conn_at_done [of l i c] by (intro listener_ok_set_conn conn_ok_expired conn_at_ok) auto
next
  case (read_request l i c)
  then show ?case
    using conn_at_done [of l i c] by (intro listener_ok_set_conn conn_ok_afterRead conn_at_ok) auto
next
  case (read_expired l i c)
  then show ?case
    by (intro listener_ok_set_conn conn_ok_finish conn_at_ok) auto
next
  case (handler_returns l i c hin)
  then show ?case
    using conn_at_done [of l i c] by (intro listener_ok_set_conn conn_ok_decide conn_at_ok) auto
next
  case (handler_abandoned l i c hin)
  then show ?case
    using conn_at_done [of l i c] by (intro listener_ok_set_conn conn_ok_decide conn_at_ok) auto
next
  case (handler_late l i c)
  then show ?case
    using conn_at_done [of l i c] by (intro listener_ok_set_conn conn_ok_late conn_at_ok) auto
next
  case (write_done l i c out)
  then show ?case
    by (intro listener_ok_set_conn conn_ok_written conn_at_ok) (auto simp: written_def)
next
  case (write_broken l i c out n)
  then show ?case
    by (intro listener_ok_set_conn conn_ok_written conn_at_ok) (auto simp: written_def take_is_prefix)
next
  case (write_expired l i c out n)
  then show ?case
    by (intro listener_ok_set_conn conn_ok_written conn_at_ok) (auto simp: written_def take_is_prefix)
next
  case (close_mark l)
  then show ?case by (cases "ls_close l") (auto simp: listener_ok_def all_done_def)
next
  case (close_cancel l)
  then show ?case by (auto simp: listener_ok_def all_done_def list_all_iff intro: conn_ok_cancel)
next
  case (close_shut l)
  then show ?case by (auto simp: listener_ok_def all_done_def)
next
  case (close_waited l)
  then show ?case by (auto simp: listener_ok_def all_done_def)
next
  case (close_remove l)
  then show ?case by (auto simp: listener_ok_def all_done_def)
qed auto

lemma startListener_ok: "listener_ok h (startListener path timeout)"
  by (simp add: listener_ok_def startListener_def)

interpretation hook_listener: step_invariant "startListener path timeout" "lmove h" "listener_ok h"
  by unfold_locales (auto simp: startListener_ok lmove_def intro: lstep_ok)

section \<open>Closing ends\<close>

fun loop_weight :: "acceptLoop \<Rightarrow> nat" where
  "loop_weight Stopped = 0"
| "loop_weight Accepting = 1"
| "loop_weight BackingOff = 2"

fun phase_weight :: "connPhase \<Rightarrow> nat" where
  "phase_weight Reading = 8"
| "phase_weight (Calling hin) = 5"
| "phase_weight (Answering out) = 2"
| "phase_weight Finished = 0"

fun close_weight :: "closePhase \<Rightarrow> nat" where
  "close_weight Waited = 1"
| "close_weight Returned = 0"
| "close_weight _ = 2"

definition conn_weight :: "connection \<Rightarrow> nat" where
  "conn_weight c = phase_weight (cn_phase c)
     + (if cn_phase c \<noteq> Finished \<and> \<not> cn_expired c then 1 else 0) + (if cn_running c then 1 else 0)"

definition weight :: "listener \<Rightarrow> nat" where
  "weight l = loop_weight (ls_loop l) + sum_list (map conn_weight (ls_conns l)) + close_weight (ls_close l)"

definition shutting :: "listener \<Rightarrow> bool" where
  "shutting l = (ls_close l \<in> {Shut, Waited, Returned})"

lemma weight_set_conn:
  assumes "conn_at l i = Some c" and "conn_weight c' < conn_weight c"
  shows "weight (set_conn i c' l) < weight l"
proof -
  have i: "i < length (ls_conns l)" "ls_conns l ! i = c"
    using assms(1) by (auto simp: conn_at_def split: if_splits)
  then have "c \<in> set (ls_conns l)" by auto
  then have "conn_weight c \<le> sum_list (map conn_weight (ls_conns l))"
    by (simp add: member_le_sum_list)
  with i assms(2) show ?thesis
    by (simp add: weight_def set_conn_def map_update sum_list_update)
qed

lemma lstep_weight:
  assumes "lstep h a l l'" and "listener_ok h l" and "shutting l"
  shows "l' = l \<or> weight l' < weight l"
  using assms
proof (induction rule: lstep.induct)
  case (read_request l i c)
  then have "phase_ok h (ls_cancelled l) c Reading"
    using conn_at_ok [of h l i c] by (simp add: conn_ok_def)
  with read_request show ?case
    by (intro disjI2 weight_set_conn [of l i c]) (auto simp: conn_weight_def afterRead_def split: option.splits)
qed (auto simp: shutting_def listener_ok_def weight_def conn_weight_def decide_def written_def
    intro!: weight_set_conn [simplified weight_def])

text \<open>The steps the listener takes without its peer and without the user's handler.\<close>

definition own_move :: "(hookInput \<Rightarrow> hookDecision option) \<Rightarrow> listener \<Rightarrow> listener \<Rightarrow> bool" where
  "own_move h l l' = ((\<exists>a \<in> {Sdk, Timer}. lstep h a l l') \<and> l' \<noteq> l)"

lemma own_moveI: "lstep h a l l' \<Longrightarrow> a \<in> {Sdk, Timer} \<Longrightarrow> l' \<noteq> l \<Longrightarrow> own_move h l l'"
  by (auto simp: own_move_def)

lemma own_move_lmove: "own_move h l l' \<Longrightarrow> lmove h l l'"
  by (auto simp: own_move_def lmove_def)

lemma set_conn_neq: "conn_at l i = Some c \<Longrightarrow> c' \<noteq> c \<Longrightarrow> set_conn i c' l \<noteq> l"
  by (metis conn_at_def length_list_update nth_list_update_eq set_conn_def listener.select_convs(8)
      listener.surjective listener.update_convs(8) option.inject option.distinct(1))

lemma conn_progress:
  assumes "conn_at l i = Some c" and "cn_phase c \<noteq> Finished" and "ls_cancelled l"
  shows "\<exists>l'. own_move h l l'"
proof (cases "cn_expired c")
  case False
  with assms(1,2) have "lstep h Timer l (set_conn i (c\<lparr>cn_expired := True\<rparr>) l)" by (rule deadline)
  moreover have "set_conn i (c\<lparr>cn_expired := True\<rparr>) l \<noteq> l"
    using False by (intro set_conn_neq [OF assms(1)]) (metis connection.select_convs(3) connection.surjective connection.update_convs(3))
  ultimately show ?thesis using own_moveI by blast
next
  case True
  have neq: "cn_phase c' \<noteq> cn_phase c \<Longrightarrow> set_conn i c' l \<noteq> l" for c'
    by (rule set_conn_neq [OF assms(1)]) auto
  show ?thesis
  proof (cases "cn_phase c")
    case Reading
    with True neq [of "c\<lparr>cn_phase := Finished\<rparr>"] read_expired [OF assms(1), of h] show ?thesis
      by (auto intro: own_moveI)
  next
    case (Calling hin)
    with True neq [of "decide hin TimedOut True c"] handler_abandoned [OF assms(1), of hin h] show ?thesis
      by (auto simp: decide_def intro: own_moveI)
  next
    case (Answering out)
    with True neq [of "written (take 0 out) c"] write_expired [OF assms(1), of out h 0] show ?thesis
      by (auto simp: written_def intro: own_moveI)
  qed (use assms(2) in simp)
qed

lemma close_progress:
  assumes "listener_ok h l" and "ls_closed l" and "ls_close l \<noteq> Returned"
  shows "\<exists>l'. own_move h l l' \<and> (shutting l \<longrightarrow> shutting l')"
proof (cases "ls_close l")
  case NotClosed
  with assms show ?thesis by (simp add: listener_ok_def)
next
  case Marked
  then have "own_move h l (l\<lparr>ls_cancelled := True, ls_close := Cancelled\<rparr>)"
    by (intro own_moveI [OF close_cancel]) (auto dest: arg_cong [where f = ls_close])
  with Marked show ?thesis by (auto simp: shutting_def)
next
  case Cancelled
  then have "own_move h l (l\<lparr>ls_listening := False, ls_socketFile := False, ls_close := Shut\<rparr>)"
    by (intro own_moveI [OF close_shut]) (auto dest: arg_cong [where f = ls_close])
  with Cancelled show ?thesis by (auto simp: shutting_def)
next
  case Waited
  then have "own_move h l (l\<lparr>ls_socketFile := False, ls_close := Returned\<rparr>)"
    by (intro own_moveI [OF close_remove]) (auto dest: arg_cong [where f = ls_close])
  then show ?thesis by (auto simp: shutting_def)
next
  case Shut
  with assms(1) have canc: "ls_cancelled l" by (simp add: listener_ok_def)
  have "\<exists>l'. own_move h l l'"
  proof (cases "all_done l")
    case True
    with Shut have "own_move h l (l\<lparr>ls_close := Waited\<rparr>)"
      by (intro own_moveI [OF close_waited]) (auto dest: arg_cong [where f = ls_close])
    then show ?thesis by blast
  next
    case False
    show ?thesis
    proof (cases "ls_loop l")
      case Accepting
      with canc have "own_move h l (l\<lparr>ls_loop := (if ls_cancelled l then Stopped else BackingOff)\<rparr>)"
        by (intro own_moveI [OF accept_error]) (auto dest: arg_cong [where f = ls_loop])
      then show ?thesis by blast
    next
      case BackingOff
      with canc have "own_move h l (l\<lparr>ls_loop := Stopped\<rparr>)"
        by (intro own_moveI [OF backoff_done]) (auto dest: arg_cong [where f = ls_loop])
      then show ?thesis by blast
    next
      case Stopped
      with False obtain c where "c \<in> set (ls_conns l)" "cn_phase c \<noteq> Finished"
        by (auto simp: all_done_def list_all_iff)
      then obtain i where "i < length (ls_conns l)" "ls_conns l ! i = c" by (auto simp: in_set_conv_nth)
      then have "conn_at l i = Some c" by (simp add: conn_at_def)
      then show ?thesis by (rule conn_progress) fact+
    qed
  qed
  then obtain l' where l': "own_move h l l'" by blast
  then obtain a where "lstep h a l l'" by (auto simp: own_move_def)
  then have "shutting l'" using Shut assms(2)
    by (cases rule: lstep.cases) (auto simp: shutting_def set_conn_def)
  with l' show ?thesis by blast
qed (use assms in simp)

lemma shut_returns:
  "listener_ok h l \<Longrightarrow> shutting l \<Longrightarrow> \<exists>l'. (own_move h)\<^sup>*\<^sup>* l l' \<and> ls_close l' = Returned"
proof (induction "weight l" arbitrary: l rule: less_induct)
  case less
  show ?case
  proof (cases "ls_close l = Returned")
    case False
    have "ls_closed l" using less.prems by (auto simp: shutting_def listener_ok_def)
    then obtain l' where l': "own_move h l l'" "shutting l'"
      using close_progress [OF less.prems(1) _ False] less.prems(2) by blast
    then obtain a where a: "lstep h a l l'" "l' \<noteq> l" by (auto simp: own_move_def)
    with less.prems have "weight l' < weight l" "listener_ok h l'"
      using lstep_weight lstep_ok by blast+
    from less.hyps [OF this l'(2)] l'(1) show ?thesis
      by (meson converse_rtranclp_into_rtranclp)
  qed blast
qed

lemma shut_run_finite:
  assumes "listener_ok h (f 0)" and "shutting (f 0)" and "\<forall>i. lmove h (f i) (f (Suc i)) \<and> f (Suc i) \<noteq> f i"
  shows False
proof -
  have ok: "listener_ok h (f i) \<and> shutting (f i)" for i
  proof (induction i)
    case (Suc i)
    from assms(3) obtain a where a: "lstep h a (f i) (f (Suc i))" by (auto simp: lmove_def)
    then have "shutting (f (Suc i))" using Suc
      by (cases rule: lstep.cases) (auto simp: shutting_def set_conn_def listener_ok_def)
    with lstep_ok [OF a] Suc show ?case by blast
  qed (use assms in simp)
  have "weight (f (Suc i)) < weight (f i)" for i
    using assms(3) ok [of i] lstep_weight by (fastforce simp: lmove_def)
  then have "wf (measure weight) \<and> (\<forall>i. (f (Suc i), f i) \<in> measure weight)" by simp
  then show False unfolding wf_iff_no_infinite_down_chain by blast
qed

lemma returned_step:
  assumes "lstep h a l l'" and "listener_ok h l" and "ls_close l = Returned"
  shows "ls_close l' = Returned \<and> map cn_output (ls_conns l') = map cn_output (ls_conns l)"
proof -
  have d: "all_done l" "\<not> ls_listening l" "ls_closed l"
    using assms(2,3) by (simp_all add: listener_ok_def)
  have same: "map cn_output (ls_conns (set_conn i (c\<lparr>cn_running := False\<rparr>) l)) = map cn_output (ls_conns l)"
    if "conn_at l i = Some c" for i c
  proof -
    from that have "cn_output c = map cn_output (ls_conns l) ! i" "i < length (ls_conns l)"
      by (auto simp: conn_at_def split: if_splits)
    then show ?thesis by (simp add: set_conn_def map_update) (metis list_update_id nth_map)
  qed
  show ?thesis
    using assms(1) assms(3) d
    by (cases rule: lstep.cases) (auto simp: all_done_def dest: conn_at_done [OF d(1)] intro: same, simp_all add: set_conn_def)
qed

section \<open>Properties\<close>

text \<open>C21: \<open>Close\<close> leaves nothing behind: in every state in which it has returned the accept loop has
  ended, no connection is being served, the socket is closed and its file is gone; and whatever
  happens afterwards, no connection is accepted and no answer changes.\<close>

theorem listener_close_quiesces:
  assumes "(lmove h)\<^sup>*\<^sup>* (startListener path timeout) l" and "ls_close l = Returned"
  shows "ls_loop l = Stopped \<and> \<not> ls_listening l \<and> \<not> ls_socketFile l \<and>
         list_all (\<lambda>c. cn_phase c = Finished) (ls_conns l) \<and>
         ((lmove h)\<^sup>*\<^sup>* l l' \<longrightarrow> map cn_output (ls_conns l') = map cn_output (ls_conns l))"
proof -
  have ok: "listener_ok h l" by (rule hook_listener.reach_ok [OF assms(1)])
  have "listener_ok h l' \<and> ls_close l' = Returned \<and> map cn_output (ls_conns l') = map cn_output (ls_conns l)"
    if "(lmove h)\<^sup>*\<^sup>* l l'"
    using that
    by (induction rule: rtranclp_induct)
      (use ok assms(2) in \<open>auto simp: lmove_def dest: returned_step lstep_ok\<close>)
  then show ?thesis using ok assms(2) by (auto simp: listener_ok_def all_done_def)
qed

text \<open>C22: \<open>Close\<close> returns: once it was called, the SDK's goroutines and the timers alone can bring it to
  its end, whatever the peers and the user's handler do; and after the socket is shut there is no
  infinite run that keeps it from it.\<close>

theorem listener_close_returns:
  assumes "(lmove h)\<^sup>*\<^sup>* (startListener path timeout) l" and "ls_closed l"
  shows "(\<exists>l'. (own_move h)\<^sup>*\<^sup>* l l' \<and> ls_close l' = Returned) \<and>
         (ls_close l \<in> {Shut, Waited, Returned} \<longrightarrow>
           \<not> (\<exists>f. f 0 = l \<and> (\<forall>i. lmove h (f i) (f (Suc i)) \<and> f (Suc i) \<noteq> f i)))"
proof
  have ok: "listener_ok h l" by (rule hook_listener.reach_ok [OF assms(1)])
  have 1: "\<exists>l'. (own_move h)\<^sup>*\<^sup>* l l' \<and> ls_close l' = Returned"
    if "listener_ok h l" "ls_close l = Cancelled" for l
  proof -
    have "own_move h l (l\<lparr>ls_listening := False, ls_socketFile := False, ls_close := Shut\<rparr>)" (is "own_move h l ?m")
      using that(2) by (intro own_moveI [OF close_shut]) (auto dest: arg_cong [where f = ls_close])
    moreover have "\<exists>l'. (own_move h)\<^sup>*\<^sup>* ?m l' \<and> ls_close l' = Returned"
      using lstep_ok [OF close_shut [OF that(2)] that(1)] by (intro shut_returns) (simp_all add: shutting_def)
    ultimately show ?thesis by (meson converse_rtranclp_into_rtranclp)
  qed
  show "\<exists>l'. (own_move h)\<^sup>*\<^sup>* l l' \<and> ls_close l' = Returned"
  proof (cases "ls_close l")
    case NotClosed
    with ok assms(2) show ?thesis by (simp add: listener_ok_def)
  next
    case Marked
    then have "own_move h l (l\<lparr>ls_cancelled := True, ls_close := Cancelled\<rparr>)" (is "own_move h l ?m")
      by (intro own_moveI [OF close_cancel]) (auto dest: arg_cong [where f = ls_close])
    moreover have "\<exists>l'. (own_move h)\<^sup>*\<^sup>* ?m l' \<and> ls_close l' = Returned"
      using lstep_ok [OF close_cancel [OF Marked] ok] by (intro 1) simp_all
    ultimately show ?thesis by (meson converse_rtranclp_into_rtranclp)
  qed (use ok 1 shut_returns [of h l] in \<open>auto simp: shutting_def\<close>)
  show "ls_close l \<in> {Shut, Waited, Returned} \<longrightarrow>
      \<not> (\<exists>f. f 0 = l \<and> (\<forall>i. lmove h (f i) (f (Suc i)) \<and> f (Suc i) \<noteq> f i))"
    using ok shut_run_finite by (auto simp: shutting_def)
qed

text \<open>C23: Every answer on the socket is a decision: what a connection was sent is nothing, or the
  beginning of the response frame for the hook input it carried, and the decision in it is the
  user's handler's, allow when it panicked; it can be allow in the handler's place only where the
  handler's deadline had passed or the listener was being closed, and it is never anything else.\<close>

theorem listener_answers_decisions:
  assumes "(lmove h)\<^sup>*\<^sup>* (startListener path timeout) l" and "c \<in> set (ls_conns l)" and "cn_output c \<noteq> []"
  shows "\<exists>hin d. serve_read (cn_bytes c) = Some hin \<and> prefix (cn_output c) (serve_answer hin d) \<and>
           (d = (case h hin of None \<Rightarrow> HookAllow None None None | Some d' \<Rightarrow> d') \<or>
            d = HookAllow None None None \<and> (cn_late c \<or> ls_cancelled l))"
proof -
  have "conn_ok h (ls_cancelled l) c"
    using hook_listener.reach_ok [OF assms(1)] assms(2) by (auto simp: listener_ok_def list_all_iff)
  then obtain hin r where r: "serve_read (cn_bytes c) = Some hin" "prefix (cn_output c) (serve (\<lambda>hin. r) (cn_bytes c))"
      "r = handlerResult h hin \<or> r = TimedOut \<and> (cn_late c \<or> ls_cancelled l)"
    using assms(3) by (cases "cn_phase c") (auto simp: conn_ok_def decision_ok_def split: option.splits)
  have "runHandlerWithRecover (handlerResult h hin) = (case h hin of None \<Rightarrow> HookAllow None None None | Some d' \<Rightarrow> d')"
    by (simp add: runHandlerWithRecover_def handlerResult_def split: option.split)
  moreover have "runHandlerWithRecover TimedOut = HookAllow None None None"
    by (simp add: runHandlerWithRecover_def)
  ultimately show ?thesis using r by (auto simp: serve_def)
qed

text \<open>\<open>Close\<close> does not wait for the user's callback. It cancels the context the callback runs under
  before it waits, so a call in flight is answered with allow at once, whatever the handler would
  have decided and although its deadline has not passed, and \<open>Close\<close> returns with the callback still
  running.\<close>

theorem listener_close_abandons_callback:
  assumes "serve_read bytes = Some hin"
  shows "\<exists>l c. (lmove h)\<^sup>*\<^sup>* (startListener path timeout) l \<and> ls_close l = Returned \<and> ls_conns l = [c] \<and>
           cn_bytes c = bytes \<and> cn_running c \<and> \<not> cn_late c \<and>
           cn_output c = serve_answer hin (HookAllow None None None)"
proof -
  let ?out = "serve_answer hin (HookAllow None None None)"
  define L where "L loop file' listening cancelled p cs = \<lparr>ls_socketPath = path, ls_timeout = timeout,
     ls_cancelled = cancelled, ls_listening = listening, ls_closed = p \<noteq> NotClosed, ls_socketFile = file',
     ls_loop = loop, ls_conns = cs, ls_close = p\<rparr>" for loop file' listening cancelled p cs
  define C where "C ph run dec out = \<lparr>cn_bytes = bytes, cn_phase = ph, cn_expired = False, cn_running = run,
     cn_decision = dec, cn_late = False, cn_output = out\<rparr>" for ph run dec out
  let ?c = "C Finished True (Some TimedOut) ?out"
  have m: "lstep h a l l' \<Longrightarrow> l' = l2 \<Longrightarrow> (lmove h)\<^sup>*\<^sup>* s l \<Longrightarrow> (lmove h)\<^sup>*\<^sup>* s l2" for a l l' l2 s
    unfolding lmove_def by (metis (mono_tags, lifting) rtranclp.rtrancl_into_rtrancl)
  have "(lmove h)\<^sup>*\<^sup>* (startListener path timeout) (L Accepting True True False NotClosed [])"
    by (simp add: L_def startListener_def)
  then have "(lmove h)\<^sup>*\<^sup>* (startListener path timeout) (L Accepting True True False NotClosed [C Reading False None []])"
    by (rule m [OF accept_conn [where bytes = bytes], rotated 3]) (simp_all add: L_def C_def acceptedConn_def)
  then have "(lmove h)\<^sup>*\<^sup>* (startListener path timeout) (L Accepting True True False NotClosed [C (Calling hin) True None []])"
    by (rule m [OF read_request [where i = 0 and c = "C Reading False None []"], rotated 3])
      (simp_all add: L_def C_def conn_at_def set_conn_def afterRead_def assms)
  then have "(lmove h)\<^sup>*\<^sup>* (startListener path timeout) (L Accepting True True False Marked [C (Calling hin) True None []])"
    by (rule m [OF close_mark, rotated 2]) (simp_all add: L_def)
  then have "(lmove h)\<^sup>*\<^sup>* (startListener path timeout) (L Accepting True True True Cancelled [C (Calling hin) True None []])"
    by (rule m [OF close_cancel, rotated 2]) (simp_all add: L_def)
  then have "(lmove h)\<^sup>*\<^sup>* (startListener path timeout) (L Accepting False False True Shut [C (Calling hin) True None []])"
    by (rule m [OF close_shut, rotated 2]) (simp_all add: L_def)
  then have "(lmove h)\<^sup>*\<^sup>* (startListener path timeout) (L Accepting False False True Shut [C (Answering ?out) True (Some TimedOut) []])"
    by (rule m [OF handler_abandoned [where i = 0 and hin = hin and c = "C (Calling hin) True None []"], rotated 4])
      (simp_all add: L_def C_def conn_at_def set_conn_def decide_def runHandlerWithRecover_def)
  then have "(lmove h)\<^sup>*\<^sup>* (startListener path timeout) (L Accepting False False True Shut [?c])"
    by (rule m [OF write_done [where i = 0 and out = ?out and c = "C (Answering ?out) True (Some TimedOut) []"], rotated 3])
      (simp_all add: L_def C_def conn_at_def set_conn_def written_def)
  then have "(lmove h)\<^sup>*\<^sup>* (startListener path timeout) (L Stopped False False True Shut [?c])"
    by (rule m [OF accept_error, rotated 2]) (simp_all add: L_def)
  then have "(lmove h)\<^sup>*\<^sup>* (startListener path timeout) (L Stopped False False True Waited [?c])"
    by (rule m [OF close_waited, rotated 3]) (simp_all add: L_def C_def all_done_def)
  then have "(lmove h)\<^sup>*\<^sup>* (startListener path timeout) (L Stopped False False True Returned [?c])"
    by (rule m [OF close_remove, rotated 2]) (simp_all add: L_def)
  then show ?thesis
    by (intro exI [of _ "L Stopped False False True Returned [?c]"] exI [of _ ?c])
      (simp add: L_def, simp add: C_def)
qed

section \<open>Witnesses\<close>

text \<open>A request frame with the hook input of a \<open>PreToolUse\<close> event.\<close>

definition sample_hook_stdin :: string where
  "sample_hook_stdin = render (JObj [(''hook_event_name'', JStr ''PreToolUse'')])"

definition sample_hook_request :: string where
  "sample_hook_request = writeFrame (render (encode_hookRequest (shim_request [] sample_hook_stdin)))"

lemma decode_sample_hook: "\<exists>hin. decode_hookInput sample_hook_stdin = Some hin \<and> hi_HookEventName hin = ''preToolUse''"
proof -
  let ?j = "JObj [(''hook_event_name'', JStr ''PreToolUse'')]"
  have "\<exists>g. unmarshal t_hookInput (Some ?j) = (g, True) \<and> f_str g ''hook_event_name'' = ''PreToolUse''"
    by (simp add: t_hookInput_def json_eval)
  then obtain g where g: "unmarshal t_hookInput (Some ?j) = (g, True)" "f_str g ''hook_event_name'' = ''PreToolUse''"
    by blast
  have "parse_json sample_hook_stdin = Some ?j"
    unfolding sample_hook_stdin_def by (rule parse_json_render) simp_all
  with g show ?thesis
    by (auto simp: decode_hookInput_def to_hookInput_def NormalizeHookEventName_def)
qed

lemma serve_read_sample: "\<exists>hin. serve_read sample_hook_request = Some hin \<and> hi_HookEventName hin = ''preToolUse''"
proof -
  let ?r = "shim_request [] sample_hook_stdin"
  obtain g where g: "unmarshal t_hookRequest (Some (encode_hookRequest ?r)) = (g, True)" "f_str g ''stdin'' = sample_hook_stdin"
    using unmarshal_hookRequest [of ?r] by (auto simp: shim_request_def)
  have "length (render (encode_hookRequest ?r)) \<le> MaxFrameSize"
    by (rule order_trans [of _ 300]) (code_simp, simp add: MaxFrameSize_def)
  from readFrame_writeFrame [OF this, of "[]"] g decode_sample_hook show ?thesis
    by (simp add: serve_read_def sample_hook_request_def parse_hookRequest)
qed

theorem listener_close_abandons_callback_witness:
  "\<exists>l c. (lmove (\<lambda>hin. Some (HookDeny ''no'' False None)))\<^sup>*\<^sup>* (startListener ''/s'' 1) l \<and>
      ls_close l = Returned \<and> ls_conns l = [c] \<and> cn_running c"
proof -
  obtain hin where "serve_read sample_hook_request = Some hin" using serve_read_sample by blast
  from listener_close_abandons_callback [OF this, of "\<lambda>hin. Some (HookDeny ''no'' False None)" "''/s''" 1]
  show ?thesis by blast
qed

text \<open>A listener that is closed while it serves nobody.\<close>

definition closed_listener :: "acceptLoop \<Rightarrow> closePhase \<Rightarrow> listener" where
  "closed_listener loop p = (startListener ''/s'' 1)\<lparr>ls_cancelled := True, ls_listening := False,
     ls_closed := True, ls_socketFile := False, ls_loop := loop, ls_close := p\<rparr>"

lemma reach_closed_listener:
  "(lmove h)\<^sup>*\<^sup>* (startListener ''/s'' 1) (closed_listener Accepting Shut)"
  "(lmove h)\<^sup>*\<^sup>* (closed_listener Accepting Shut) (closed_listener Stopped Returned)"
proof -
  let ?m = "(startListener ''/s'' 1)\<lparr>ls_closed := True, ls_close := Marked\<rparr>"
  have "lmove h (startListener ''/s'' 1) ?m"
    using close_mark [of "startListener ''/s'' 1" h] by (auto simp: lmove_def startListener_def)
  moreover have "lmove h ?m (?m\<lparr>ls_cancelled := True, ls_close := Cancelled\<rparr>)"
    using close_cancel [of ?m h] by (auto simp: lmove_def)
  moreover have "lmove h (?m\<lparr>ls_cancelled := True, ls_close := Cancelled\<rparr>) (closed_listener Accepting Shut)"
    using close_shut [of "?m\<lparr>ls_cancelled := True, ls_close := Cancelled\<rparr>" h]
    by (auto simp: lmove_def closed_listener_def startListener_def)
  ultimately show "(lmove h)\<^sup>*\<^sup>* (startListener ''/s'' 1) (closed_listener Accepting Shut)"
    by (meson converse_rtranclp_into_rtranclp rtranclp.rtrancl_refl)
  have "lmove h (closed_listener Accepting Shut) (closed_listener Stopped Shut)"
    using accept_error [of "closed_listener Accepting Shut" h]
    by (auto simp: lmove_def closed_listener_def startListener_def)
  moreover have "lmove h (closed_listener Stopped Shut) (closed_listener Stopped Waited)"
    using close_waited [of "closed_listener Stopped Shut" h]
    by (auto simp: lmove_def closed_listener_def startListener_def all_done_def)
  moreover have "lmove h (closed_listener Stopped Waited) (closed_listener Stopped Returned)"
    using close_remove [of "closed_listener Stopped Waited" h]
    by (auto simp: lmove_def closed_listener_def startListener_def)
  ultimately show "(lmove h)\<^sup>*\<^sup>* (closed_listener Accepting Shut) (closed_listener Stopped Returned)"
    by (meson converse_rtranclp_into_rtranclp rtranclp.rtrancl_refl)
qed

theorem listener_close_quiesces_witness:
  "ls_loop (closed_listener Stopped Returned) = Stopped \<and> \<not> ls_socketFile (closed_listener Stopped Returned)"
  using listener_close_quiesces [OF rtranclp_trans [OF reach_closed_listener]]
  by (simp add: closed_listener_def)

theorem listener_close_returns_witness:
  "\<exists>l'. (own_move (\<lambda>hin. None))\<^sup>*\<^sup>* (closed_listener Accepting Shut) l' \<and> ls_close l' = Returned"
  using listener_close_returns [OF reach_closed_listener(1), of "\<lambda>hin. None"]
  by (simp add: closed_listener_def)

theorem listener_answers_decisions_witness:
  "\<exists>(l :: listener) (c :: connection). c \<in> set (ls_conns l) \<and> cn_output c \<noteq> [] \<and>
      prefix (cn_output c) (serve (\<lambda>hin. Decided (HookAsk [])) (cn_bytes c))"
proof -
  let ?h = "\<lambda>hin :: hookInput. Some (HookAsk [])"
  obtain hin where hin: "serve_read sample_hook_request = Some hin" using serve_read_sample by blast
  let ?s0 = "startListener ''/s'' 1" and ?c0 = "acceptedConn sample_hook_request"
  let ?c1 = "afterRead ?c0" let ?c2 = "decide hin (Decided (HookAsk [])) False ?c1"
  let ?out = "serve_answer hin (HookAsk [])"
  let ?c3 = "written ?out ?c2"
  have "lmove ?h ?s0 (?s0\<lparr>ls_conns := [?c0]\<rparr>)"
    using accept_conn [of ?s0 ?h sample_hook_request] by (auto simp: lmove_def startListener_def)
  moreover have "lmove ?h (?s0\<lparr>ls_conns := [?c0]\<rparr>) (?s0\<lparr>ls_conns := [?c1]\<rparr>)"
    using read_request [of "?s0\<lparr>ls_conns := [?c0]\<rparr>" 0 ?c0 ?h]
    by (auto simp: lmove_def conn_at_def set_conn_def acceptedConn_def)
  moreover have "lmove ?h (?s0\<lparr>ls_conns := [?c1]\<rparr>) (?s0\<lparr>ls_conns := [?c2]\<rparr>)"
    using handler_returns [of "?s0\<lparr>ls_conns := [?c1]\<rparr>" 0 ?c1 hin ?h] hin
    by (auto simp: lmove_def conn_at_def set_conn_def acceptedConn_def afterRead_def handlerResult_def)
  moreover have "lmove ?h (?s0\<lparr>ls_conns := [?c2]\<rparr>) (?s0\<lparr>ls_conns := [?c3]\<rparr>)"
    using write_done [of "?s0\<lparr>ls_conns := [?c2]\<rparr>" 0 ?c2 ?out ?h]
    by (auto simp: lmove_def conn_at_def set_conn_def decide_def runHandlerWithRecover_def)
  ultimately have r: "(lmove ?h)\<^sup>*\<^sup>* ?s0 (?s0\<lparr>ls_conns := [?c3]\<rparr>)"
    by (meson converse_rtranclp_into_rtranclp rtranclp.rtrancl_refl)
  have o: "cn_output ?c3 \<noteq> []" by (simp add: written_def serve_answer_def writeFrame_def be32_def)
  have late: "\<not> cn_late ?c3"
    by (simp add: written_def decide_def afterRead_def acceptedConn_def hin)
  have m: "?c3 \<in> set (ls_conns (?s0\<lparr>ls_conns := [?c3]\<rparr>))" by simp
  obtain hina d where d: "serve_read (cn_bytes ?c3) = Some hina" "prefix (cn_output ?c3) (serve_answer hina d)"
    "d = (case ?h hina of None \<Rightarrow> HookAllow None None None | Some d' \<Rightarrow> d') \<or>
       d = HookAllow None None None \<and> (cn_late ?c3 \<or> ls_cancelled (?s0\<lparr>ls_conns := [?c3]\<rparr>))"
    using listener_answers_decisions [OF r m o] by blast
  have "\<not> ls_cancelled (?s0\<lparr>ls_conns := [?c3]\<rparr>)" by (simp add: startListener_def)
  with d(3) late have "d = HookAsk []" by simp
  with d(1,2) have "prefix (cn_output ?c3) (serve (\<lambda>hin. Decided (HookAsk [])) (cn_bytes ?c3))"
    by (simp add: serve_def runHandlerWithRecover_def)
  with m o show ?thesis
    by (intro exI [of _ "?s0\<lparr>ls_conns := [?c3]\<rparr>"] exI [of _ ?c3]) (simp only: simp_thms)
qed

end
