(* ===== verification/Semver.thy ===== *)
theory Semver
  imports Errors
begin

text \<open>
  CLI versions (\<open>internal/transport/cli_version.go\<close>): \<open>SemVer\<close> with \<open>AtLeast\<close>, which is the order of an
  instance of \<open>linorder\<close>, \<open>String\<close>, and \<open>ParseSemVer\<close>, whose regular expression
  \<open>(\d+)\.(\d+)\.(\d+)\<close> is matched leftmost and greedily. Running \<open>codex --version\<close> itself is a
  parameter of the theories that use the version.
\<close>

datatype semVer = SemVer (sv_Major: int) (sv_Minor: int) (sv_Patch: int)

definition AtLeast :: "semVer \<Rightarrow> semVer \<Rightarrow> bool" where
  "AtLeast v r =
     (if sv_Major v \<noteq> sv_Major r then sv_Major r < sv_Major v
      else if sv_Minor v \<noteq> sv_Minor r then sv_Minor r < sv_Minor v
      else sv_Patch r \<le> sv_Patch v)"

instantiation semVer :: linorder
begin

definition less_eq_semVer :: "semVer \<Rightarrow> semVer \<Rightarrow> bool" where
  "less_eq_semVer r v = AtLeast v r"

definition less_semVer :: "semVer \<Rightarrow> semVer \<Rightarrow> bool" where
  "less_semVer r v = (AtLeast v r \<and> \<not> AtLeast r v)"

instance
  by standard (auto simp: less_eq_semVer_def less_semVer_def AtLeast_def semVer.expand split: if_splits)

end

section \<open>Parsing\<close>

definition sv_String :: "semVer \<Rightarrow> string" where
  "sv_String v = itoa (nat (sv_Major v)) @ ''.'' @ itoa (nat (sv_Minor v)) @ ''.'' @ itoa (nat (sv_Patch v))"

definition digit_run :: "string \<Rightarrow> string \<times> string" where
  "digit_run s = (takeWhile is_digit s, dropWhile is_digit s)"

text \<open>The match that starts at the head of the string: a run of digits is followed by something else, so
  a greedy run never has to give a digit back.\<close>

definition match_semver :: "string \<Rightarrow> (string \<times> string \<times> string) option" where
  "match_semver s =
     (case digit_run s of (a, r1) \<Rightarrow>
        (case r1 of
          [] \<Rightarrow> None
        | c1 # s1 \<Rightarrow> (case digit_run s1 of (b, r2) \<Rightarrow>
            (case r2 of
              [] \<Rightarrow> None
            | c2 # s2 \<Rightarrow> (case digit_run s2 of (c, r3) \<Rightarrow>
                if a \<noteq> [] \<and> c1 = CHR ''.'' \<and> b \<noteq> [] \<and> c2 = CHR ''.'' \<and> c \<noteq> []
                then Some (a, b, c) else None)))))"

fun find_semver :: "string \<Rightarrow> (string \<times> string \<times> string) option" where
  "find_semver [] = None"
| "find_semver (x # xs) = (case match_semver (x # xs) of Some m \<Rightarrow> Some m | None \<Rightarrow> find_semver xs)"

definition ParseSemVer :: "string \<Rightarrow> goError + semVer" where
  "ParseSemVer s = (case find_semver (trim_space s) of
      None \<Rightarrow> Inl (ErrText ''transport.ParseSemVer: no semver found'')
    | Some (a, b, c) \<Rightarrow> (case atoi a of
        None \<Rightarrow> Inl (ErrText ''transport.ParseSemVer: major'')
      | Some major \<Rightarrow> (case atoi b of
          None \<Rightarrow> Inl (ErrText ''transport.ParseSemVer: minor'')
        | Some minor \<Rightarrow> (case atoi c of
            None \<Rightarrow> Inl (ErrText ''transport.ParseSemVer: patch'')
          | Some patch \<Rightarrow> Inr (SemVer major minor patch)))))"

definition RecommendedCLIVersion :: string where
  "RecommendedCLIVersion = ''0.144.1''"

section \<open>Lemmas\<close>

lemma semVer_le: "(r \<le> v) = AtLeast v r"
  by (simp add: less_eq_semVer_def)

lemma digit_run_digits:
  "list_all is_digit a \<Longrightarrow> (case s of [] \<Rightarrow> True | c # t \<Rightarrow> \<not> is_digit c) \<Longrightarrow> digit_run (a @ s) = (a, s)"
  by (induction a) (auto simp: digit_run_def split: list.splits)

lemma dot_no_digit [simp]: "\<not> is_digit CHR ''.''"
  by (simp add: is_digit_def)

lemma itoa_list_all [simp]: "list_all is_digit (itoa n)" and itoa_nonempty [simp]: "itoa n \<noteq> []"
  using itoa_digits [of n] by simp_all

lemma match_semver_String:
  assumes "case suf of [] \<Rightarrow> True | c # t \<Rightarrow> \<not> is_digit c"
  shows "match_semver (itoa i @ ''.'' @ itoa j @ ''.'' @ itoa k @ suf) = Some (itoa i, itoa j, itoa k)"
  using assms by (simp add: match_semver_def digit_run_digits)

lemma match_semver_no_digit: "\<not> is_digit c \<Longrightarrow> match_semver (c # s) = None"
  by (auto simp: match_semver_def digit_run_def split: list.splits)

lemma find_semver_prefix:
  "list_all (\<lambda>c. \<not> is_digit c) pre \<Longrightarrow> find_semver (pre @ s) = find_semver s"
  by (induction pre) (auto simp: match_semver_no_digit)

lemma find_semver_match: "match_semver s = Some m \<Longrightarrow> find_semver s = Some m"
  by (cases s) (simp_all add: match_semver_def digit_run_def)

lemma digit_not_space: "is_digit c \<Longrightarrow> \<not> is_space c"
  by (auto simp: is_digit_def is_space_def)

text \<open>Trimming takes white space off what surrounds a version, never a digit.\<close>

lemma dropWhile_space_append:
  "dropWhile is_space (pre @ s) = dropWhile is_space pre @ s" if "s \<noteq> []" and "is_digit (hd s)"
  using that by (induction pre) (auto simp: digit_not_space neq_Nil_conv)

lemma trim_space_around:
  assumes "s \<noteq> []" and "is_digit (hd s)" and "is_digit (last s)"
  shows "trim_space (pre @ s @ suf) = dropWhile is_space pre @ s @ rev (dropWhile is_space (rev suf))"
proof -
  have "dropWhile is_space (pre @ s @ suf) = dropWhile is_space pre @ s @ suf"
    using dropWhile_space_append [of "s @ suf" pre] assms by simp
  moreover have "dropWhile is_space (rev suf @ rev s @ x) = dropWhile is_space (rev suf) @ rev s @ x" for x
    using dropWhile_space_append [of "rev s @ x" "rev suf"] assms by (simp add: hd_rev)
  ultimately show ?thesis by (simp add: trim_space_def)
qed

lemma hd_last_String:
  "sv_String v \<noteq> [] \<and> is_digit (hd (sv_String v)) \<and> is_digit (last (sv_String v))"
  using itoa_list_all [of "nat (sv_Major v)"] itoa_list_all [of "nat (sv_Patch v)"]
  by (auto simp: sv_String_def list_all_iff)

section \<open>Properties\<close>

text \<open>The version the CLI prints is the version the SDK reads, whatever text without digits stands
  before it and whatever text that does not continue its last number stands after it.\<close>

theorem ParseSemVer_String:
  assumes "0 \<le> sv_Major v" "sv_Major v < 2 ^ 63" "0 \<le> sv_Minor v" "sv_Minor v < 2 ^ 63"
    "0 \<le> sv_Patch v" "sv_Patch v < 2 ^ 63"
    and "list_all (\<lambda>c. \<not> is_digit c) pre" and "case suf of [] \<Rightarrow> True | c # t \<Rightarrow> \<not> is_digit c"
  shows "ParseSemVer (pre @ sv_String v @ suf) = Inr v"
proof -
  let ?pre = "dropWhile is_space pre" and ?suf = "rev (dropWhile is_space (rev suf))"
  obtain t where t: "suf = ?suf @ t"
    by (metis rev_append rev_rev_ident takeWhile_dropWhile_id)
  have suf: "case ?suf of [] \<Rightarrow> True | c # t \<Rightarrow> \<not> is_digit c"
  proof (cases ?suf)
    case (Cons c x)
    with t have "suf = c # x @ t" by (metis append_Cons)
    with assms(8) Cons show ?thesis by simp
  qed (simp only: list.case)
  have pre: "list_all (\<lambda>c. \<not> is_digit c) ?pre"
    using assms(7) by (auto simp: list_all_iff dest: set_dropWhileD)
  let ?body = "itoa (nat (sv_Major v)) @ ''.'' @ itoa (nat (sv_Minor v)) @ ''.'' @ itoa (nat (sv_Patch v)) @ ?suf"
  have "trim_space (pre @ sv_String v @ suf) = ?pre @ ?body"
    using trim_space_around [of "sv_String v" pre suf] hd_last_String [of v] by (simp add: sv_String_def)
  moreover have "find_semver ?body = Some (itoa (nat (sv_Major v)), itoa (nat (sv_Minor v)), itoa (nat (sv_Patch v)))"
    using match_semver_String [OF suf] by (intro find_semver_match) simp
  ultimately have f: "find_semver (trim_space (pre @ sv_String v @ suf)) =
      Some (itoa (nat (sv_Major v)), itoa (nat (sv_Minor v)), itoa (nat (sv_Patch v)))"
    by (simp add: find_semver_prefix [OF pre])
  have "atoi (itoa (nat x)) = Some x" if "0 \<le> x" "x < 2 ^ 63" for x
    using that by simp
  with f assms show ?thesis by (cases v) (simp add: ParseSemVer_def)
qed

theorem ParseSemVer_String_witness:
  "ParseSemVer (''codex-cli '' @ sv_String (SemVer 0 144 1) @ ''-beta.2'') = Inr (SemVer 0 144 1)"
  by (rule ParseSemVer_String) (simp_all add: is_digit_def)

end
