(* ===== verification/Channels.thy ===== *)
theory Channels
  imports Prelude
begin

text \<open>
  Go's buffered channels, as the sources use them, and the contract of a bounded queue. A channel is
  its buffer, its capacity and whether it was closed. \<open>chan_send\<close> is the plain send statement: it
  has no result where the program would block (the buffer is full) or panic (the channel is closed).
  \<open>chan_try_send\<close> is the send inside a \<open>select\<close> with a \<open>default\<close> branch. A receive drains the
  buffer before it reports that the channel is closed.

  The locale \<open>bounded_stream\<close> is the interface between a producer that must never block and a consumer
  that reads in order: whatever one operation appends, the consumer sees all of it, in order, and the
  buffer stays within its bound.
\<close>

section \<open>Channels\<close>

record 'a gochan =
  ch_buf :: "'a list"
  ch_cap :: nat
  ch_closed :: bool

definition make_chan :: "nat \<Rightarrow> 'a gochan" where
  "make_chan n = \<lparr>ch_buf = [], ch_cap = n, ch_closed = False\<rparr>"

definition chan_send :: "'a \<Rightarrow> 'a gochan \<Rightarrow> 'a gochan option" where
  "chan_send x c = (if ch_closed c \<or> ch_cap c \<le> length (ch_buf c) then None
                    else Some (c\<lparr>ch_buf := ch_buf c @ [x]\<rparr>))"

definition chan_try_send :: "'a \<Rightarrow> 'a gochan \<Rightarrow> 'a gochan option" where
  "chan_try_send x c = (if ch_closed c then None
                        else if ch_cap c \<le> length (ch_buf c) then Some c
                        else Some (c\<lparr>ch_buf := ch_buf c @ [x]\<rparr>))"

datatype 'a received = Received 'a | ChanClosed | WouldBlock

definition chan_recv :: "'a gochan \<Rightarrow> 'a received \<times> 'a gochan" where
  "chan_recv c = (case ch_buf c of
      x # xs \<Rightarrow> (Received x, c\<lparr>ch_buf := xs\<rparr>)
    | [] \<Rightarrow> (if ch_closed c then ChanClosed else WouldBlock, c))"

definition chan_close :: "'a gochan \<Rightarrow> 'a gochan" where
  "chan_close c = c\<lparr>ch_closed := True\<rparr>"

definition chan_ok :: "'a gochan \<Rightarrow> bool" where
  "chan_ok c = (length (ch_buf c) \<le> ch_cap c)"

lemmas chan_defs = chan_send_def chan_try_send_def chan_recv_def chan_close_def chan_ok_def

lemma make_chan_simps [simp]:
  "ch_buf (make_chan n) = []" "ch_cap (make_chan n) = n" "\<not> ch_closed (make_chan n)"
  by (simp_all add: make_chan_def)

lemma chan_close_simps [simp]:
  "ch_buf (chan_close c) = ch_buf c" "ch_cap (chan_close c) = ch_cap c" "ch_closed (chan_close c)"
  by (simp_all add: chan_close_def)

lemma chan_recv_Received:
  "chan_recv c = (Received x, c') \<Longrightarrow>
     ch_buf c = x # ch_buf c' \<and> ch_cap c' = ch_cap c \<and> ch_closed c' = ch_closed c"
  by (auto simp: chan_recv_def split: list.splits if_splits)

section \<open>The contract of a bounded stream\<close>

datatype 'a qop = Offer 'a | Take

text \<open>\<open>offer\<close> is the producer's operation, \<open>added\<close> what it appends in the given state, \<open>recv\<close> the
  consumer's, \<open>ok\<close> the representation invariant and \<open>cap\<close> the bound.\<close>

locale bounded_stream =
  fixes offer :: "'a \<Rightarrow> 's \<Rightarrow> 's"
    and added :: "'a \<Rightarrow> 's \<Rightarrow> 'b list"
    and recv :: "'s \<Rightarrow> ('b \<times> 's) option"
    and items :: "'s \<Rightarrow> 'b list"
    and ok :: "'s \<Rightarrow> bool"
    and cap :: "'s \<Rightarrow> nat"
  assumes offer_items: "ok s \<Longrightarrow> items (offer x s) = items s @ added x s"
    and offer_ok: "ok s \<Longrightarrow> ok (offer x s)"
    and offer_cap: "cap (offer x s) = cap s"
    and recv_items: "recv s = Some (b, s') \<Longrightarrow> items s = b # items s'"
    and recv_ok: "ok s \<Longrightarrow> recv s = Some (b, s') \<Longrightarrow> ok s'"
    and recv_cap: "recv s = Some (b, s') \<Longrightarrow> cap s' = cap s"
    and recv_None: "recv s = None \<Longrightarrow> items s = []"
    and ok_bound: "ok s \<Longrightarrow> length (items s) \<le> cap s"
begin

text \<open>A schedule of producer and consumer operations: the final state, what was appended, what was
  received.\<close>

fun run :: "'a qop list \<Rightarrow> 's \<Rightarrow> 's \<times> 'b list \<times> 'b list" where
  "run [] s = (s, [], [])"
| "run (Offer x # ops) s =
     (case run ops (offer x s) of (s', app, got) \<Rightarrow> (s', added x s @ app, got))"
| "run (Take # ops) s = (case recv s of
      None \<Rightarrow> run ops s
    | Some (b, s1) \<Rightarrow> (case run ops s1 of (s', app, got) \<Rightarrow> (s', app, b # got)))"

lemma run_OfferE:
  assumes "run (Offer x # ops) s = (s', app, got)"
  obtains app1 where "run ops (offer x s) = (s', app1, got)" and "app = added x s @ app1"
  using assms by (auto split: prod.splits)

lemma run_TakeE:
  assumes "run (Take # ops) s = (s', app, got)"
  obtains "recv s = None" and "run ops s = (s', app, got)"
  | b s1 got1 where "recv s = Some (b, s1)" and "run ops s1 = (s', app, got1)" and "got = b # got1"
  using assms by (auto split: prod.splits option.splits)

lemma run_ok: "ok s \<Longrightarrow> run ops s = (s', app, got) \<Longrightarrow> ok s' \<and> cap s' = cap s"
proof (induction ops arbitrary: s app got)
  case (Cons op ops)
  show ?case
  proof (cases op)
    case (Offer x)
    with Cons.prems obtain app1 where "run ops (offer x s) = (s', app1, got)"
      by (metis run_OfferE)
    with Cons.IH Cons.prems(1) show ?thesis by (metis offer_ok offer_cap)
  next
    case Take
    with Cons.prems(2) have "run (Take # ops) s = (s', app, got)" by simp
    then show ?thesis
      by (cases rule: run_TakeE) (metis Cons.IH Cons.prems(1) recv_ok recv_cap)+
  qed
qed simp

text \<open>FIFO: nothing appended is lost, duplicated or reordered.\<close>

lemma run_fifo: "ok s \<Longrightarrow> run ops s = (s', app, got) \<Longrightarrow> got @ items s' = items s @ app"
proof (induction ops arbitrary: s app got)
  case (Cons op ops)
  show ?case
  proof (cases op)
    case (Offer x)
    with Cons.prems obtain app1 where "run ops (offer x s) = (s', app1, got)" "app = added x s @ app1"
      by (metis run_OfferE)
    with Cons.IH Cons.prems(1) show ?thesis by (metis append.assoc offer_items offer_ok)
  next
    case Take
    with Cons.prems(2) have "run (Take # ops) s = (s', app, got)" by simp
    then show ?thesis
    proof (cases rule: run_TakeE)
      case 1
      with Cons show ?thesis by blast
    next
      case (2 b s1 got1)
      with Cons.IH [of s1 app got1] Cons.prems(1) show ?thesis
        using recv_ok recv_items by (metis append_Cons)
    qed
  qed
qed simp

lemma run_bounded: "ok s \<Longrightarrow> run ops s = (s', app, got) \<Longrightarrow> length (items s') \<le> cap s"
  using run_ok ok_bound by metis

text \<open>A consumer that goes on receiving gets everything.\<close>

lemma run_drain:
  "ok s \<Longrightarrow> run (replicate (length (items s)) Take) s = (s', app, got) \<Longrightarrow> got = items s \<and> app = []"
proof (induction "length (items s)" arbitrary: s s' app got)
  case (Suc n)
  then obtain b s1 where r: "recv s = Some (b, s1)" using recv_None by (cases "recv s") force+
  with recv_items have i: "items s = b # items s1" by blast
  with Suc.hyps have n: "n = length (items s1)" by simp
  obtain s2 app2 got2 where r2: "run (replicate n Take) s1 = (s2, app2, got2)" by (metis prod_cases3)
  with Suc.hyps(1) [OF n] n r Suc.prems(1) recv_ok have "got2 = items s1 \<and> app2 = []" by blast
  with Suc.prems(2) r r2 i n show ?case by auto
qed simp

end

end
