(* ===== verification/Thread_Events.thy ===== *)
theory Thread_Events
  imports Channels Events
begin

text \<open>
  Client-wide event subscriptions (\<open>client_thread_events.go\<close>): the envelope and the gap errors, one
  subscriber with its buffered channel and the slot reserved for a terminal record, and the client's
  table of subscribers with subscribe, publish, fail, close and remove.

  A subscriber lives in a store under its id, which stands for its address: the counter never gives
  an id twice, so the pointer comparison in \<open>removeThreadEventSubscriber\<close> is a comparison of ids.
  The table is the set of ids that are registered; a nil map is \<^const>\<open>None\<close>. An operation whose
  plain channel send would block or panic has no result.
\<close>

section \<open>Envelopes and gaps\<close>

datatype gapError =
    ThreadEventStreamGapError string nat
  | ThreadEventParseGapError string string goError
  | ThreadEventFrameGapError "goError ptr"
  | ThreadEventSourceGapError "goError ptr"

fun gap_Unwrap :: "gapError \<Rightarrow> goError list" where
  "gap_Unwrap (ThreadEventStreamGapError t n) = [Sentinel ErrThreadEventStreamGap]"
| "gap_Unwrap (ThreadEventParseGapError t m cause) = [Sentinel ErrThreadEventStreamGap, cause]"
| "gap_Unwrap (ThreadEventFrameGapError None) = [Sentinel ErrThreadEventStreamGap]"
| "gap_Unwrap (ThreadEventFrameGapError (Some cause)) = [Sentinel ErrThreadEventStreamGap, cause]"
| "gap_Unwrap (ThreadEventSourceGapError None) = [Sentinel ErrThreadEventStreamGap]"
| "gap_Unwrap (ThreadEventSourceGapError (Some cause)) = [Sentinel ErrThreadEventStreamGap, cause]"

record envelope =
  te_ThreadID :: string
  te_Event :: "threadEvent option"
  te_Err :: "gapError option"

definition event_envelope :: "string \<Rightarrow> threadEvent \<Rightarrow> envelope" where
  "event_envelope t e = \<lparr>te_ThreadID = t, te_Event = Some e, te_Err = None\<rparr>"

definition gap_envelope :: "string \<Rightarrow> gapError \<Rightarrow> envelope" where
  "gap_envelope t g = \<lparr>te_ThreadID = t, te_Event = None, te_Err = Some g\<rparr>"

lemma envelope_simps [simp]:
  "te_Err (event_envelope t e) = None" "te_Err (gap_envelope t g) = Some g"
  "te_Event (event_envelope t e) = Some e" "te_ThreadID (event_envelope t e) = t"
  by (simp_all add: event_envelope_def gap_envelope_def)

section \<open>One subscriber\<close>

record subscriber =
  s_events :: "envelope gochan"
  s_done :: bool
  s_eventCapacity :: nat
  s_closed :: bool

definition newThreadEventSubscriber :: "nat \<Rightarrow> subscriber" where
  "newThreadEventSubscriber buffer = \<lparr>s_events = make_chan (buffer + 1), s_done = False,
     s_eventCapacity = buffer, s_closed = False\<rparr>"

definition shut :: "envelope gochan \<Rightarrow> subscriber \<Rightarrow> subscriber" where
  "shut c s = s\<lparr>s_closed := True, s_events := chan_close c, s_done := True\<rparr>"

definition overflow_gap :: "nat \<Rightarrow> envelope \<Rightarrow> envelope" where
  "overflow_gap n event = gap_envelope (te_ThreadID event) (ThreadEventStreamGapError (te_ThreadID event) n)"

definition deliver :: "envelope \<Rightarrow> subscriber \<Rightarrow> (subscriber \<times> bool) option" where
  "deliver event s =
     (if s_closed s then Some (s, False)
      else if s_eventCapacity s \<le> length (ch_buf (s_events s)) then
        (case chan_send (overflow_gap (s_eventCapacity s) event) (s_events s) of
           None \<Rightarrow> None | Some c \<Rightarrow> Some (shut c s, False))
      else (case chan_send event (s_events s) of
           None \<Rightarrow> None | Some c \<Rightarrow> Some (s\<lparr>s_events := c\<rparr>, True)))"

definition close_subscriber :: "subscriber \<Rightarrow> subscriber" where
  "close_subscriber s = (if s_closed s then s else shut (s_events s) s)"

definition fail_subscriber :: "envelope \<Rightarrow> subscriber \<Rightarrow> (subscriber \<times> bool) option" where
  "fail_subscriber event s =
     (if s_closed s then Some (s, False)
      else (case chan_send event (s_events s) of None \<Rightarrow> None | Some c \<Rightarrow> Some (shut c s, True)))"

text \<open>The invariant of a subscriber: while it is open, the reserved slot is free.\<close>

definition sub_ok :: "subscriber \<Rightarrow> bool" where
  "sub_ok s = (ch_cap (s_events s) = s_eventCapacity s + 1 \<and> ch_closed (s_events s) = s_closed s \<and>
     s_done s = s_closed s \<and>
     length (ch_buf (s_events s)) \<le> s_eventCapacity s + (if s_closed s then 1 else 0))"

lemma sub_ok_new [simp]: "sub_ok (newThreadEventSubscriber n)"
  by (simp add: sub_ok_def newThreadEventSubscriber_def)

lemmas sub_defs = deliver_def fail_subscriber_def close_subscriber_def shut_def sub_ok_def chan_send_def

lemma deliver_ok: "sub_ok s \<Longrightarrow> \<exists>s' b. deliver e s = Some (s', b) \<and> sub_ok s' \<and> b = (\<not> s_closed s')"
  by (auto simp: sub_defs)

lemma fail_ok: "sub_ok s \<Longrightarrow> \<exists>s' b. fail_subscriber e s = Some (s', b) \<and> sub_ok s' \<and> s_closed s' \<and> b = (\<not> s_closed s)"
  by (auto simp: sub_defs)

lemma close_ok: "sub_ok s \<Longrightarrow> sub_ok (close_subscriber s) \<and> s_closed (close_subscriber s)"
  by (auto simp: sub_defs)

section \<open>The stream of one subscriber\<close>

datatype subOp = Deliver envelope | Fail envelope | CloseSub

fun sub_offer :: "subOp \<Rightarrow> subscriber \<Rightarrow> subscriber" where
  "sub_offer (Deliver e) s = (case deliver e s of None \<Rightarrow> s | Some (s', b) \<Rightarrow> s')"
| "sub_offer (Fail e) s = (case fail_subscriber e s of None \<Rightarrow> s | Some (s', b) \<Rightarrow> s')"
| "sub_offer CloseSub s = close_subscriber s"

fun sub_added :: "subOp \<Rightarrow> subscriber \<Rightarrow> envelope list" where
  "sub_added (Deliver e) s =
     (if s_closed s then []
      else if s_eventCapacity s \<le> length (ch_buf (s_events s)) then [overflow_gap (s_eventCapacity s) e]
      else [e])"
| "sub_added (Fail e) s = (if s_closed s then [] else [e])"
| "sub_added CloseSub s = []"

lemma sub_offer_ok: "sub_ok s \<Longrightarrow> sub_ok (sub_offer x s)"
proof (cases x)
  case (Deliver e)
  then show "sub_ok s \<Longrightarrow> ?thesis" using deliver_ok [of s e] by auto
next
  case (Fail e)
  then show "sub_ok s \<Longrightarrow> ?thesis" using fail_ok [of s e] by auto
qed (simp add: close_ok)

definition sub_recv :: "subscriber \<Rightarrow> (envelope \<times> subscriber) option" where
  "sub_recv s = (case chan_recv (s_events s) of
      (Received e, c) \<Rightarrow> Some (e, s\<lparr>s_events := c\<rparr>) | _ \<Rightarrow> None)"

lemma sub_recv_Some:
  "sub_recv s = Some (e, s') \<Longrightarrow> \<exists>xs. ch_buf (s_events s) = e # xs \<and>
     s' = s\<lparr>s_events := (s_events s)\<lparr>ch_buf := xs\<rparr>\<rparr>"
  by (auto simp: sub_recv_def chan_recv_def split: list.splits prod.splits received.splits if_splits)

interpretation sub: bounded_stream sub_offer sub_added sub_recv "\<lambda>s. ch_buf (s_events s)" sub_ok
  "\<lambda>s. s_eventCapacity s + 1"
proof unfold_locales
  fix s x
  show "sub_ok s \<Longrightarrow> ch_buf (s_events (sub_offer x s)) = ch_buf (s_events s) @ sub_added x s"
    by (cases x) (auto simp: sub_defs)
  show "sub_ok s \<Longrightarrow> sub_ok (sub_offer x s)"
    by (rule sub_offer_ok)
  show "s_eventCapacity (sub_offer x s) + 1 = s_eventCapacity s + 1"
    by (cases x) (auto simp: sub_defs)
next
  fix s b s'
  assume r: "sub_recv s = Some (b, s')"
  then show "ch_buf (s_events s) = b # ch_buf (s_events s')" "s_eventCapacity s' + 1 = s_eventCapacity s + 1"
    using sub_recv_Some by fastforce+
  show "sub_ok s \<Longrightarrow> sub_ok s'" using sub_recv_Some [OF r] by (auto simp: sub_ok_def)
next
  show "sub_recv s = None \<Longrightarrow> ch_buf (s_events s) = []" for s
    by (auto simp: sub_recv_def chan_recv_def split: list.splits if_splits)
  show "sub_ok s \<Longrightarrow> length (ch_buf (s_events s)) \<le> s_eventCapacity s + 1" for s
    by (auto simp: sub_ok_def)
qed

text \<open>The producer's operations of a schedule, in order.\<close>

definition offers :: "'a qop list \<Rightarrow> 'a list" where
  "offers ops = concat (map (\<lambda>q. case q of Offer x \<Rightarrow> [x] | Take \<Rightarrow> []) ops)"

lemma offers_simps [simp]:
  "offers [] = []" "offers (Offer x # ops) = x # offers ops" "offers (Take # ops) = offers ops"
  by (simp_all add: offers_def)

text \<open>What a stream may hold: the events offered, in order, without a hole; then, if it was closed
  by a failure or by overflow, one gap record; then nothing.\<close>

definition complete_or_gap :: "nat \<Rightarrow> subOp list \<Rightarrow> envelope list \<Rightarrow> bool" where
  "complete_or_gap n xs out = (\<exists>p g rest. xs = map Deliver p @ rest \<and> out = p @ g \<and>
     (case rest of
        [] \<Rightarrow> g = []
      | CloseSub # r \<Rightarrow> g = []
      | Fail e # r \<Rightarrow> g = [e]
      | Deliver e # r \<Rightarrow> g = [overflow_gap n e]))"

lemma complete_or_gap_Deliver: "complete_or_gap n xs out \<Longrightarrow> complete_or_gap n (Deliver e # xs) (e # out)"
  unfolding complete_or_gap_def by (metis append_Cons list.simps(9))

lemma sub_closed_stays: "s_closed s \<Longrightarrow> s_closed (sub_offer x s) \<and> sub_added x s = []"
  by (cases x) (auto simp: sub_defs)

lemma offer_still_open:
  "sub_ok s \<Longrightarrow> \<not> s_closed s \<Longrightarrow> \<not> s_closed (sub_offer x s) \<Longrightarrow> \<exists>e. x = Deliver e \<and> sub_added x s = [e]"
  by (cases x) (auto simp: sub_defs split: if_splits)

lemma sub_recv_closed: "sub_recv s = Some (e, s') \<Longrightarrow> s_closed s' = s_closed s"
  using sub_recv_Some by fastforce

lemma run_closed: "s_closed s \<Longrightarrow> sub.run ops s = (s', app, got) \<Longrightarrow> app = []"
proof (induction ops arbitrary: s app got)
  case (Cons op ops)
  show ?case
  proof (cases op)
    case (Offer x)
    with Cons.prems obtain app1 where "sub.run ops (sub_offer x s) = (s', app1, got)" "app = sub_added x s @ app1"
      by (metis sub.run_OfferE)
    with Cons.IH sub_closed_stays [OF Cons.prems(1)] show ?thesis by auto
  next
    case Take
    with Cons.prems(2) have "sub.run (Take # ops) s = (s', app, got)" by simp
    then show ?thesis
      by (cases rule: sub.run_TakeE) (use Cons.IH Cons.prems(1) sub_recv_closed in blast)+
  qed
qed simp

lemma complete_or_gap_stop:
  "complete_or_gap n (CloseSub # r) []" "complete_or_gap n (Fail e # r) [e]"
  "complete_or_gap n (Deliver e # r) [overflow_gap n e]" "complete_or_gap n [] []"
  unfolding complete_or_gap_def by (rule exI [of _ "[]"], simp)+

lemma run_complete_or_gap:
  "sub_ok s \<Longrightarrow> \<not> s_closed s \<Longrightarrow> s_eventCapacity s = n \<Longrightarrow> sub.run ops s = (s', app, got) \<Longrightarrow>
     complete_or_gap n (offers ops) app"
proof (induction ops arbitrary: s app got)
  case Nil
  then show ?case by (simp add: complete_or_gap_stop)
next
  case (Cons op ops)
  show ?case
  proof (cases op)
    case (Offer x)
    with Cons.prems obtain app1 where r: "sub.run ops (sub_offer x s) = (s', app1, got)"
      and app: "app = sub_added x s @ app1" by (metis sub.run_OfferE)
    show ?thesis
    proof (cases "s_closed (sub_offer x s)")
      case True
      with r have "app1 = []" using run_closed by blast
      with True app Cons.prems(1-3) Offer show ?thesis
        by (cases x) (auto simp: sub_defs complete_or_gap_stop split: if_splits)
    next
      case False
      then obtain e where x: "x = Deliver e" and a: "sub_added x s = [e]"
        using Cons.prems(1,2) offer_still_open by blast
      have "complete_or_gap n (offers ops) app1"
        by (rule Cons.IH [OF sub.offer_ok [OF Cons.prems(1)] False _ r])
          (use sub.offer_cap [of x s] Cons.prems(3) in simp)
      with x a app Offer show ?thesis by (simp add: complete_or_gap_Deliver)
    qed
  next
    case Take
    with Cons.prems(4) have "sub.run (Take # ops) s = (s', app, got)" by simp
    then show ?thesis
    proof (cases rule: sub.run_TakeE)
      case 1
      with Cons Take show ?thesis by simp
    next
      case (2 b s1 got1)
      with Cons.IH [of s1 app got1] Cons.prems Take show ?thesis
        using sub.recv_ok sub.recv_cap sub_recv_closed by fastforce
    qed
  qed
qed

section \<open>The client's table\<close>

record subscriptions =
  st_table :: "nat list option"
  st_next :: nat
  st_store :: "(nat \<times> subscriber) list"

definition no_subscriptions :: subscriptions where
  "no_subscriptions = \<lparr>st_table = None, st_next = 0, st_store = []\<rparr>"

definition registered :: "subscriptions \<Rightarrow> nat list" where
  "registered st = (case st_table st of None \<Rightarrow> [] | Some ids \<Rightarrow> ids)"

definition sub_of :: "subscriptions \<Rightarrow> nat \<Rightarrow> subscriber option" where
  "sub_of st i = map_of (st_store st) i"

definition set_sub :: "nat \<Rightarrow> subscriber \<Rightarrow> subscriptions \<Rightarrow> subscriptions" where
  "set_sub i s st = st\<lparr>st_store := put i s (st_store st)\<rparr>"

definition maxThreadEventSubscriptionBuffer :: int where
  "maxThreadEventSubscriptionBuffer = 4096"

text \<open>\<open>closed\<close> and \<open>connected\<close> are read twice, before and under the lock; the second pair is what the
  second reads see.\<close>

definition SubscribeThreadEvents ::
  "bool \<Rightarrow> int \<Rightarrow> bool \<times> bool \<Rightarrow> bool \<times> bool \<Rightarrow> subscriptions \<Rightarrow> (goError + nat) \<times> subscriptions" where
  "SubscribeThreadEvents ctx_nil buffer flags1 flags2 st =
     (let unavailable = (\<lambda>closed. ErrWrap ''codex.Client.SubscribeThreadEvents''
                (Sentinel (if closed then ErrClientClosed else ErrClientNotConnected)))
      in if ctx_nil then (Inl (ErrText ''codex.Client.SubscribeThreadEvents: context is required''), st)
         else if buffer < 1 \<or> maxThreadEventSubscriptionBuffer < buffer then
           (Inl (ErrText ''codex.Client.SubscribeThreadEvents: buffer must be between 1 and 4096''), st)
         else if fst flags1 then (Inl (unavailable True), st)
         else if \<not> snd flags1 then (Inl (unavailable False), st)
         else if fst flags2 \<or> \<not> snd flags2 then (Inl (unavailable (fst flags2)), st)
         else (let i = st_next st + 1 in
               (Inr i, set_sub i (newThreadEventSubscriber (nat buffer))
                         (st\<lparr>st_table := Some (i # registered st), st_next := i\<rparr>))))"

definition removeThreadEventSubscriber :: "nat \<Rightarrow> subscriptions \<Rightarrow> subscriptions" where
  "removeThreadEventSubscriber i st =
     (let st1 = st\<lparr>st_table := map_option (removeAll i) (st_table st)\<rparr> in
      case sub_of st1 i of None \<Rightarrow> st1 | Some s \<Rightarrow> set_sub i (close_subscriber s) st1)"

text \<open>The loops of \<open>publishThreadEvent\<close> and \<open>failThreadEventSubscriptions\<close> over a snapshot of the table.\<close>

fun publish_loop :: "nat list \<Rightarrow> envelope \<Rightarrow> subscriptions \<Rightarrow> subscriptions option" where
  "publish_loop [] event st = Some st"
| "publish_loop (i # ids) event st = (case sub_of st i of
      None \<Rightarrow> publish_loop ids event st
    | Some s \<Rightarrow> (case deliver event s of
        None \<Rightarrow> None
      | Some (s', accepted) \<Rightarrow> publish_loop ids event
          (if accepted then set_sub i s' st else removeThreadEventSubscriber i (set_sub i s' st))))"

definition publishThreadEvent :: "envelope \<Rightarrow> subscriptions \<Rightarrow> subscriptions option" where
  "publishThreadEvent event st = publish_loop (registered st) event st"

fun fail_loop :: "nat list \<Rightarrow> envelope \<Rightarrow> subscriptions \<Rightarrow> subscriptions option" where
  "fail_loop [] event st = Some st"
| "fail_loop (i # ids) event st = (case sub_of st i of
      None \<Rightarrow> fail_loop ids event st
    | Some s \<Rightarrow> (case fail_subscriber event s of
        None \<Rightarrow> None
      | Some (s', failed) \<Rightarrow> fail_loop ids event
          (if failed then removeThreadEventSubscriber i (set_sub i s' st) else set_sub i s' st)))"

definition failThreadEventSubscriptions :: "envelope \<Rightarrow> subscriptions \<Rightarrow> subscriptions option" where
  "failThreadEventSubscriptions event st = fail_loop (registered st) event st"

fun close_loop :: "nat list \<Rightarrow> subscriptions \<Rightarrow> subscriptions" where
  "close_loop [] st = st"
| "close_loop (i # ids) st = (case sub_of st i of
      None \<Rightarrow> close_loop ids st
    | Some s \<Rightarrow> close_loop ids (set_sub i (close_subscriber s) st))"

definition closeThreadEventSubscriptions :: "subscriptions \<Rightarrow> subscriptions" where
  "closeThreadEventSubscriptions st = close_loop (registered st) (st\<lparr>st_table := None\<rparr>)"

section \<open>Lemmas on the table\<close>

text \<open>The invariant of the table: the registered subscribers are exactly the open ones.\<close>

definition subs_ok :: "subscriptions \<Rightarrow> bool" where
  "subs_ok st = (distinct (registered st) \<and>
     (\<forall>i s. sub_of st i = Some s \<longrightarrow> sub_ok s \<and> i \<le> st_next st \<and> (s_closed s \<longleftrightarrow> i \<notin> set (registered st))) \<and>
     (\<forall>i \<in> set (registered st). sub_of st i \<noteq> None))"

lemma sub_of_set_sub [simp]: "sub_of (set_sub i s st) j = (if j = i then Some s else sub_of st j)"
  by (simp add: sub_of_def set_sub_def)

lemma registered_set_sub [simp]: "registered (set_sub i s st) = registered st"
  by (simp add: registered_def set_sub_def)

lemma st_next_set_sub [simp]: "st_next (set_sub i s st) = st_next st"
  by (simp add: set_sub_def)

lemma registered_remove [simp]: "registered (removeThreadEventSubscriber i st) = removeAll i (registered st)"
  by (simp add: registered_def removeThreadEventSubscriber_def set_sub_def Let_def split: option.splits)

lemma sub_of_remove [simp]:
  "sub_of (removeThreadEventSubscriber i st) j =
     (if j = i then map_option close_subscriber (sub_of st i) else sub_of st j)"
  by (auto simp: removeThreadEventSubscriber_def Let_def sub_of_def set_sub_def split: option.splits)

lemma st_next_remove [simp]: "st_next (removeThreadEventSubscriber i st) = st_next st"
  by (simp add: removeThreadEventSubscriber_def Let_def split: option.splits)

lemma close_subscriber_closed [simp]: "s_closed s \<Longrightarrow> close_subscriber s = s"
  by (simp add: close_subscriber_def)

lemma offer_eq:
  "sub_ok s \<Longrightarrow> deliver e s = Some (sub_offer (Deliver e) s, \<not> s_closed (sub_offer (Deliver e) s))"
  "sub_ok s \<Longrightarrow> fail_subscriber e s = Some (sub_offer (Fail e) s, \<not> s_closed s)"
  using deliver_ok [of s e] fail_ok [of s e] by auto

lemma close_after [simp]:
  "s_closed (sub_offer x s) \<Longrightarrow> close_subscriber (sub_offer x s) = sub_offer x s"
  by simp

definition all_ok :: "subscriptions \<Rightarrow> bool" where
  "all_ok st = (\<forall>i s. sub_of st i = Some s \<longrightarrow> sub_ok s)"

lemma all_okD: "all_ok st \<Longrightarrow> sub_of st i = Some s \<Longrightarrow> sub_ok s"
  by (simp add: all_ok_def)

lemma all_ok_set_sub: "all_ok st \<Longrightarrow> sub_ok s \<Longrightarrow> all_ok (set_sub i s st)"
  by (auto simp: all_ok_def)

lemma all_ok_remove: "all_ok st \<Longrightarrow> all_ok (removeThreadEventSubscriber i st)"
  by (auto simp: all_ok_def close_ok)

text \<open>What one round over the ids of a snapshot does: every subscriber of the snapshot gets its own
  operation, whatever the order, and the ones it closed leave the table.\<close>

definition stays :: "subOp \<Rightarrow> subscriptions \<Rightarrow> nat \<Rightarrow> bool" where
  "stays x st j = (case sub_of st j of None \<Rightarrow> True | Some s \<Rightarrow> \<not> s_closed (sub_offer x s))"

definition round_result :: "nat list \<Rightarrow> subOp \<Rightarrow> subscriptions \<Rightarrow> subscriptions \<Rightarrow> bool" where
  "round_result ids x st st' =
     ((\<forall>j. sub_of st' j = (if j \<in> set ids then map_option (sub_offer x) (sub_of st j) else sub_of st j)) \<and>
      registered st' = filter (\<lambda>j. j \<in> set ids \<longrightarrow> stays x st j) (registered st) \<and>
      st_next st' = st_next st)"

definition one_sub :: "subOp \<Rightarrow> nat \<Rightarrow> subscriber \<Rightarrow> subscriptions \<Rightarrow> subscriptions" where
  "one_sub x i s st = (if s_closed (sub_offer x s)
     then removeThreadEventSubscriber i (set_sub i (sub_offer x s) st)
     else set_sub i (sub_offer x s) st)"

lemma one_sub_simps [simp]:
  "sub_of (one_sub x i s st) j = (if j = i then Some (sub_offer x s) else sub_of st j)"
  "registered (one_sub x i s st) =
     (if s_closed (sub_offer x s) then removeAll i (registered st) else registered st)"
  "st_next (one_sub x i s st) = st_next st"
  by (simp_all add: one_sub_def)

lemma all_ok_one_sub: "all_ok st \<Longrightarrow> sub_ok s \<Longrightarrow> all_ok (one_sub x i s st)"
  by (simp add: one_sub_def all_ok_remove all_ok_set_sub sub_offer_ok)

lemma round_result_Nil: "round_result [] x st st"
  by (simp add: round_result_def)

lemma round_result_skip:
  assumes "sub_of st i = None" and "round_result ids x st st'"
  shows "round_result (i # ids) x st st'"
proof -
  have "(j \<in> set (i # ids) \<longrightarrow> stays x st j) = (j \<in> set ids \<longrightarrow> stays x st j)" for j
    using assms(1) by (auto simp: stays_def)
  with assms show ?thesis by (simp add: round_result_def)
qed

lemma round_result_step:
  assumes s: "sub_of st i = Some s" and i: "i \<notin> set ids"
    and r: "round_result ids x (one_sub x i s st) st'"
  shows "round_result (i # ids) x st st'"
proof -
  have st: "stays x (one_sub x i s st) j = stays x st j" if "j \<in> set ids" for j
    using that i by (auto simp: stays_def)
  have "filter (\<lambda>j. j \<in> set ids \<longrightarrow> stays x (one_sub x i s st) j) (registered (one_sub x i s st)) =
        filter (\<lambda>j. j \<in> set (i # ids) \<longrightarrow> stays x st j) (registered st)"
    using s i st by (auto simp: stays_def removeAll_filter_not_eq intro!: filter_cong)
  with r s i show ?thesis by (auto simp: round_result_def)
qed

lemma publish_loop_round:
  "distinct ids \<Longrightarrow> all_ok st \<Longrightarrow>
     \<exists>st'. publish_loop ids e st = Some st' \<and> round_result ids (Deliver e) st st' \<and> all_ok st'"
proof (induction ids arbitrary: st)
  case (Cons i ids)
  show ?case
  proof (cases "sub_of st i")
    case None
    with Cons show ?thesis using round_result_skip by fastforce
  next
    case (Some s)
    then have ok: "sub_ok s" using Cons.prems(2) by (rule all_okD [rotated])
    with Cons.prems obtain st' where "publish_loop ids e (one_sub (Deliver e) i s st) = Some st'"
        "round_result ids (Deliver e) (one_sub (Deliver e) i s st) st'" "all_ok st'"
      using Cons.IH [OF _ all_ok_one_sub] by fastforce
    then show ?thesis
      using Some ok Cons.prems(1) round_result_step [OF Some]
      by (auto simp: offer_eq one_sub_def simp del: sub_offer.simps)
  qed
qed (simp add: round_result_Nil)

definition all_open :: "nat list \<Rightarrow> subscriptions \<Rightarrow> bool" where
  "all_open ids st = (\<forall>i \<in> set ids. \<forall>s. sub_of st i = Some s \<longrightarrow> \<not> s_closed s)"

lemma Fail_closes: "sub_ok s \<Longrightarrow> s_closed (sub_offer (Fail e) s)"
  using fail_ok [of s e] by auto

lemma fail_loop_round:
  "distinct ids \<Longrightarrow> all_ok st \<Longrightarrow> all_open ids st \<Longrightarrow>
     \<exists>st'. fail_loop ids e st = Some st' \<and> round_result ids (Fail e) st st' \<and> all_ok st'"
proof (induction ids arbitrary: st)
  case (Cons i ids)
  show ?case
  proof (cases "sub_of st i")
    case None
    with Cons show ?thesis using round_result_skip by (fastforce simp: all_open_def)
  next
    case (Some s)
    then have ok: "sub_ok s" and op: "\<not> s_closed s" using Cons.prems(2,3) by (auto simp: all_okD all_open_def)
    have "all_open ids (one_sub (Fail e) i s st)"
      using Cons.prems(1,3) by (auto simp: all_open_def)
    with ok Cons.prems obtain st' where "fail_loop ids e (one_sub (Fail e) i s st) = Some st'"
        "round_result ids (Fail e) (one_sub (Fail e) i s st) st'" "all_ok st'"
      using Cons.IH [OF _ all_ok_one_sub] by fastforce
    then show ?thesis
      using Some ok op Cons.prems(1) round_result_step [OF Some] Fail_closes [OF ok]
      by (auto simp: offer_eq one_sub_def simp del: sub_offer.simps)
  qed
qed (simp add: round_result_Nil)

lemma close_loop_round:
  "distinct ids \<Longrightarrow>
     (\<forall>j. sub_of (close_loop ids st) j =
        (if j \<in> set ids then map_option close_subscriber (sub_of st j) else sub_of st j)) \<and>
     registered (close_loop ids st) = registered st \<and> st_next (close_loop ids st) = st_next st"
  by (induction ids arbitrary: st) (auto split: option.splits)

section \<open>Reachable tables\<close>

text \<open>The operations of the client on its subscriptions and the receives of their consumers.\<close>

inductive tes_reach :: "subscriptions \<Rightarrow> bool" where
  tes_init: "tes_reach no_subscriptions"
| tes_subscribe: "tes_reach st \<Longrightarrow> tes_reach (snd (SubscribeThreadEvents c n f1 f2 st))"
| tes_publish: "tes_reach st \<Longrightarrow> publishThreadEvent e st = Some st' \<Longrightarrow> tes_reach st'"
| tes_fail: "tes_reach st \<Longrightarrow> failThreadEventSubscriptions e st = Some st' \<Longrightarrow> tes_reach st'"
| tes_close: "tes_reach st \<Longrightarrow> tes_reach (closeThreadEventSubscriptions st)"
| tes_remove: "tes_reach st \<Longrightarrow> tes_reach (removeThreadEventSubscriber i st)"
| tes_recv: "tes_reach st \<Longrightarrow> sub_of st i = Some s \<Longrightarrow> sub_recv s = Some (e, s') \<Longrightarrow> tes_reach (set_sub i s' st)"

lemma subs_ok_all_ok: "subs_ok st \<Longrightarrow> all_ok st"
  by (simp add: subs_ok_def all_ok_def)

lemma subs_ok_all_open: "subs_ok st \<Longrightarrow> all_open (registered st) st"
  by (auto simp: subs_ok_def all_open_def)

lemma publish_round:
  "subs_ok st \<Longrightarrow> \<exists>st'. publishThreadEvent e st = Some st' \<and> round_result (registered st) (Deliver e) st st'"
  using publish_loop_round [of "registered st" st e] subs_ok_all_ok
  by (auto simp: publishThreadEvent_def subs_ok_def)

lemma fail_round:
  "subs_ok st \<Longrightarrow> \<exists>st'. failThreadEventSubscriptions e st = Some st' \<and> round_result (registered st) (Fail e) st st'"
  using fail_loop_round [of "registered st" st e] subs_ok_all_ok subs_ok_all_open
  by (auto simp: failThreadEventSubscriptions_def subs_ok_def)

lemma subs_ok_round:
  assumes "subs_ok st" and "round_result (registered st) x st st'"
  shows "subs_ok st'"
  using assms by (auto simp: subs_ok_def round_result_def stays_def sub_offer_ok split: if_splits)

lemma subs_ok_new:
  assumes "subs_ok st"
  shows "subs_ok (set_sub (Suc (st_next st)) (newThreadEventSubscriber n)
           (st\<lparr>st_table := Some (Suc (st_next st) # registered st), st_next := Suc (st_next st)\<rparr>))"
proof -
  have fresh: "Suc (st_next st) \<notin> set (registered st)"
    using assms by (force simp: subs_ok_def)
  have sub: "sub_of (st\<lparr>st_table := t, st_next := n\<rparr>) = sub_of st"
    "registered (st\<lparr>st_table := Some ids, st_next := n\<rparr>) = ids" for t n ids
    by (simp_all add: sub_of_def registered_def fun_eq_iff)
  show ?thesis
    using assms fresh by (auto simp: subs_ok_def sub le_SucI) (simp add: newThreadEventSubscriber_def)
qed

lemma subs_ok_subscribe: "subs_ok st \<Longrightarrow> subs_ok (snd (SubscribeThreadEvents c n f1 f2 st))"
  by (auto simp: SubscribeThreadEvents_def Let_def subs_ok_new)

lemma subs_ok_remove: "subs_ok st \<Longrightarrow> subs_ok (removeThreadEventSubscriber i st)"
  by (auto simp: subs_ok_def close_ok distinct_removeAll split: if_splits)

lemma subs_ok_close: "subs_ok st \<Longrightarrow> subs_ok (closeThreadEventSubscriptions st)"
  using close_loop_round [of "registered st" "st\<lparr>st_table := None\<rparr>"]
  by (auto simp: subs_ok_def closeThreadEventSubscriptions_def registered_def sub_of_def close_ok
      split: if_splits)

lemma subs_ok_recv: "subs_ok st \<Longrightarrow> sub_of st i = Some s \<Longrightarrow> sub_recv s = Some (e, s') \<Longrightarrow> subs_ok (set_sub i s' st)"
  using sub_recv_closed [of s e s'] sub.recv_ok [of s e s'] by (auto simp: subs_ok_def)

lemma tes_reach_ok: "tes_reach st \<Longrightarrow> subs_ok st"
proof (induction rule: tes_reach.induct)
  case tes_init
  show ?case by (simp add: subs_ok_def no_subscriptions_def registered_def sub_of_def)
next
  case (tes_publish st e st')
  then show ?case using publish_round [of st e] subs_ok_round by auto
next
  case (tes_fail st e st')
  then show ?case using fail_round [of st e] subs_ok_round by auto
qed (simp_all only: subs_ok_subscribe subs_ok_remove subs_ok_close subs_ok_recv)

section \<open>Properties\<close>

text \<open>The stream of one subscription is complete or says that it is not: whatever way deliveries,
  failures, closing and receives are interleaved, what the consumer has received and will receive is
  the events offered, in order and without a hole, followed by at most one gap record, after which
  nothing comes; and at most the buffer and the reserved slot are in use.\<close>

theorem subscription_stream_complete_or_gap:
  assumes "sub.run ops (newThreadEventSubscriber n) = (s', app, got)"
  shows "got @ ch_buf (s_events s') = app \<and> complete_or_gap n (offers ops) app \<and>
         length (ch_buf (s_events s')) \<le> n + 1"
proof (intro conjI)
  show "got @ ch_buf (s_events s') = app"
    using sub.run_fifo [OF sub_ok_new assms] by (simp add: newThreadEventSubscriber_def)
  show "complete_or_gap n (offers ops) app"
    by (rule run_complete_or_gap [OF sub_ok_new _ _ assms]) (simp_all add: newThreadEventSubscriber_def)
  show "length (ch_buf (s_events s')) \<le> n + 1"
    using sub.run_bounded [OF sub_ok_new assms] by (simp add: newThreadEventSubscriber_def)
qed

theorem subscription_stream_complete_or_gap_witness:
  "complete_or_gap 1
     [Deliver (event_envelope ''t'' (EvSystem EvSkillsChanged)), Deliver (event_envelope ''u'' (EvSystem EvSkillsChanged)),
      Deliver (event_envelope ''v'' (EvSystem EvSkillsChanged))]
     [event_envelope ''t'' (EvSystem EvSkillsChanged), gap_envelope ''u'' (ThreadEventStreamGapError ''u'' 1)]"
proof -
  let ?e = "\<lambda>t. event_envelope t (EvSystem EvSkillsChanged)"
  let ?ops = "[Offer (Deliver (?e ''t'')), Offer (Deliver (?e ''u'')), Take, Offer (Deliver (?e ''v''))]"
  obtain s' got where r: "sub.run ?ops (newThreadEventSubscriber 1) =
      (s', [?e ''t'', gap_envelope ''u'' (ThreadEventStreamGapError ''u'' 1)], got)"
    by (simp add: newThreadEventSubscriber_def make_chan_def deliver_def chan_send_def shut_def
        sub_recv_def chan_recv_def chan_close_def overflow_gap_def)
  from subscription_stream_complete_or_gap [OF r] show ?thesis by simp
qed

text \<open>Publishing never blocks and never panics, and every registered subscriber is served on its own:
  each gets its own delivery whatever the iteration order and the state of the others, those that
  overflow are closed and leave the table, and subscribers that are not registered are not touched.
  Failing all subscriptions never blocks either and leaves none registered.\<close>

theorem publish_isolated:
  assumes "tes_reach st"
  shows "(\<exists>st'. publishThreadEvent e st = Some st' \<and>
       (\<forall>j. sub_of st' j = (if j \<in> set (registered st)
              then map_option (sub_offer (Deliver e)) (sub_of st j) else sub_of st j)) \<and>
       registered st' = filter (\<lambda>j. stays (Deliver e) st j) (registered st)) \<and>
     (\<exists>st'. failThreadEventSubscriptions e st = Some st' \<and> registered st' = [] \<and>
       (\<forall>j. sub_of st' j = (if j \<in> set (registered st)
              then map_option (sub_offer (Fail e)) (sub_of st j) else sub_of st j)))"
proof
  have ok: "subs_ok st" using assms by (rule tes_reach_ok)
  obtain st' where p: "publishThreadEvent e st = Some st'" "round_result (registered st) (Deliver e) st st'"
    using publish_round [OF ok] by blast
  then have "registered st' = filter (\<lambda>j. stays (Deliver e) st j) (registered st)"
    by (auto simp: round_result_def intro: filter_cong)
  with p show "\<exists>st'. publishThreadEvent e st = Some st' \<and>
       (\<forall>j. sub_of st' j = (if j \<in> set (registered st)
              then map_option (sub_offer (Deliver e)) (sub_of st j) else sub_of st j)) \<and>
       registered st' = filter (\<lambda>j. stays (Deliver e) st j) (registered st)"
    unfolding round_result_def by blast
  obtain st2 where f: "failThreadEventSubscriptions e st = Some st2" "round_result (registered st) (Fail e) st st2"
    using fail_round [OF ok] by blast
  have "\<not> stays (Fail e) st j" if "j \<in> set (registered st)" for j
    using ok that Fail_closes by (fastforce simp: subs_ok_def stays_def)
  then have "registered st2 = []"
    using f(2) by (auto simp: round_result_def filter_empty_conv)
  with f show "\<exists>st'. failThreadEventSubscriptions e st = Some st' \<and> registered st' = [] \<and>
       (\<forall>j. sub_of st' j = (if j \<in> set (registered st)
              then map_option (sub_offer (Fail e)) (sub_of st j) else sub_of st j))"
    unfolding round_result_def by blast
qed

theorem publish_isolated_witness:
  "\<exists>st'. publishThreadEvent (event_envelope ''t'' (EvSystem EvSkillsChanged))
     (snd (SubscribeThreadEvents False 2 (False, True) (False, True) no_subscriptions)) = Some st'"
  using publish_isolated [OF tes_subscribe [OF tes_init]] by blast

text \<open>In every reachable table the registered subscribers are exactly the open ones, a subscriber is
  closed exactly when its channel is (so a consumer that drains it sees the end), ids are never
  reused, and no buffer grows beyond its size and the reserved slot.\<close>

theorem registered_iff_open:
  assumes "tes_reach st" and "sub_of st i = Some s"
  shows "(i \<in> set (registered st) \<longleftrightarrow> \<not> s_closed s) \<and> ch_closed (s_events s) = s_closed s \<and>
         i \<le> st_next st \<and> length (ch_buf (s_events s)) \<le> s_eventCapacity s + 1"
proof -
  have "sub_ok s" and "i \<le> st_next st" and "s_closed s \<longleftrightarrow> i \<notin> set (registered st)"
    using tes_reach_ok [OF assms(1)] assms(2) by (simp_all add: subs_ok_def)
  then show ?thesis by (auto simp: sub_ok_def split: if_splits)
qed

theorem registered_iff_open_witness:
  "1 \<in> set (registered (snd (SubscribeThreadEvents False 2 (False, True) (False, True) no_subscriptions)))"
proof -
  let ?st = "snd (SubscribeThreadEvents False 2 (False, True) (False, True) no_subscriptions)"
  have "sub_of ?st 1 = Some (newThreadEventSubscriber 2)"
    by (simp add: SubscribeThreadEvents_def Let_def maxThreadEventSubscriptionBuffer_def no_subscriptions_def
        registered_def numeral_2_eq_2)
  from registered_iff_open [OF tes_subscribe [OF tes_init] this] show ?thesis
    by (simp add: newThreadEventSubscriber_def)
qed

end
