(* ===== verification/Approvals.thy ===== *)
theory Approvals
  imports Items_Parser
begin

text \<open>
  Approval requests and decisions: the structs of \<open>types/approvals.go\<close>, the parser
  \<open>ParseApprovalRequest\<close> and the encoder \<open>EncodeApprovalDecision\<close> of
  \<open>internal/events/approvals.go\<close>, and the callback used when the caller configured none. A callback
  is a function from requests to decisions. The decision interface has value receivers, so a
  pointer to a decision struct, and the nil interface, are decisions too; they are the last
  constructors of \<open>approvalDecision\<close>. The object \<open>EncodeApprovalDecision\<close> builds is modelled as
  the JSON it is marshalled to, with map keys in the sorted order \<open>encoding/json\<close> writes.
\<close>

section \<open>Requests\<close>

record commandExecutionApprovalRequest =
  cear_Command :: string
  cear_Cwd :: string
  cear_Reason :: string
  cear_ThreadID :: string
  cear_TurnID :: string
  cear_ItemID :: string
  cear_StartedAtMS :: int

record fileChangeApprovalRequest =
  fcar_Changes :: "fileChangePart slice"
  fcar_GrantRoot :: "string ptr"
  fcar_Path :: string
  fcar_Operation :: string
  fcar_Diff :: string
  fcar_Reason :: string
  fcar_ThreadID :: string
  fcar_TurnID :: string
  fcar_ItemID :: string
  fcar_StartedAtMS :: int

record permissionsApprovalRequest =
  par_Cwd :: string
  par_Permissions :: raw
  par_EnvironmentID :: string
  par_Reason :: string
  par_ThreadID :: string
  par_TurnID :: string
  par_ItemID :: string
  par_StartedAtMS :: int
  par_Permission :: string
  par_Scope :: string

record elicitationRequest =
  er_ServerName :: string
  er_Prompt :: string
  er_Schema :: raw

record userInputOption =
  uio_Description :: string
  uio_Label :: string

record userInputQuestion =
  uiq_Header :: string
  uiq_ID :: string
  uiq_IsOther :: bool
  uiq_IsSecret :: bool
  uiq_Options :: "userInputOption slice"
  uiq_Question :: string

record userInputRequest =
  uir_ItemID :: string
  uir_Questions :: "userInputQuestion slice"
  uir_ThreadID :: string
  uir_TurnID :: string

record unknownApprovalRequest =
  uar_Method :: string
  uar_Params :: raw

datatype approvalRequest =
    ReqCommandExecution commandExecutionApprovalRequest
  | ReqFileChange fileChangeApprovalRequest
  | ReqPermissions permissionsApprovalRequest
  | ReqElicitation elicitationRequest
  | ReqUserInput userInputRequest
  | ReqUnknown unknownApprovalRequest

fun approvalMethod :: "approvalRequest \<Rightarrow> string" where
  "approvalMethod (ReqCommandExecution r) = ''item/commandExecution/requestApproval''"
| "approvalMethod (ReqFileChange r) = ''item/fileChange/requestApproval''"
| "approvalMethod (ReqPermissions r) = ''item/permissions/requestApproval''"
| "approvalMethod (ReqElicitation r) = ''mcpServer/elicitation/request''"
| "approvalMethod (ReqUserInput r) = ''item/tool/requestUserInput''"
| "approvalMethod (ReqUnknown r) = uar_Method r"

section \<open>Requests on the wire\<close>

definition t_commandExecutionApproval :: gotype where
  "t_commandExecutionApproval = t_struct
    [(''command'', t_str), (''cwd'', t_str), (''reason'', t_str), (''threadId'', t_str),
     (''turnId'', t_str), (''itemId'', t_str), (''startedAtMs'', t_int)]"

definition to_commandExecutionApproval :: "gval \<Rightarrow> commandExecutionApprovalRequest" where
  "to_commandExecutionApproval g = \<lparr>cear_Command = f_str g ''command'', cear_Cwd = f_str g ''cwd'',
     cear_Reason = f_str g ''reason'', cear_ThreadID = f_str g ''threadId'',
     cear_TurnID = f_str g ''turnId'', cear_ItemID = f_str g ''itemId'',
     cear_StartedAtMS = f_int g ''startedAtMs''\<rparr>"

definition t_fileChangeApproval :: gotype where
  "t_fileChangeApproval = t_struct
    [(''changes'', t_slice t_fileChangePart), (''grantRoot'', t_ptr t_str), (''path'', t_str),
     (''operation'', t_str), (''diff'', t_str), (''reason'', t_str), (''threadId'', t_str),
     (''turnId'', t_str), (''itemId'', t_str), (''startedAtMs'', t_int)]"

definition to_fileChangeApproval :: "gval \<Rightarrow> fileChangeApprovalRequest" where
  "to_fileChangeApproval g =
     \<lparr>fcar_Changes = map_option (map to_fileChangePart) (f_slice g ''changes''),
      fcar_GrantRoot = f_pstr g ''grantRoot'', fcar_Path = f_str g ''path'',
      fcar_Operation = f_str g ''operation'', fcar_Diff = f_str g ''diff'',
      fcar_Reason = f_str g ''reason'', fcar_ThreadID = f_str g ''threadId'',
      fcar_TurnID = f_str g ''turnId'', fcar_ItemID = f_str g ''itemId'',
      fcar_StartedAtMS = f_int g ''startedAtMs''\<rparr>"

definition t_permissionsApproval :: gotype where
  "t_permissionsApproval = t_struct
    [(''cwd'', t_str), (''permissions'', t_raw), (''environmentId'', t_str), (''reason'', t_str),
     (''threadId'', t_str), (''turnId'', t_str), (''itemId'', t_str), (''startedAtMs'', t_int),
     (''permission'', t_str), (''scope'', t_str)]"

definition to_permissionsApproval :: "gval \<Rightarrow> permissionsApprovalRequest" where
  "to_permissionsApproval g = \<lparr>par_Cwd = f_str g ''cwd'', par_Permissions = f_raw g ''permissions'',
     par_EnvironmentID = f_str g ''environmentId'', par_Reason = f_str g ''reason'',
     par_ThreadID = f_str g ''threadId'', par_TurnID = f_str g ''turnId'',
     par_ItemID = f_str g ''itemId'', par_StartedAtMS = f_int g ''startedAtMs'',
     par_Permission = f_str g ''permission'', par_Scope = f_str g ''scope''\<rparr>"

definition t_elicitation :: gotype where
  "t_elicitation = t_struct [(''server_name'', t_str), (''prompt'', t_str), (''schema'', t_raw)]"

definition to_elicitation :: "gval \<Rightarrow> elicitationRequest" where
  "to_elicitation g = \<lparr>er_ServerName = f_str g ''server_name'', er_Prompt = f_str g ''prompt'',
                       er_Schema = f_raw g ''schema''\<rparr>"

definition t_userInputOption :: gotype where
  "t_userInputOption = t_struct [(''description'', t_str), (''label'', t_str)]"

definition to_userInputOption :: "gval \<Rightarrow> userInputOption" where
  "to_userInputOption g = \<lparr>uio_Description = f_str g ''description'', uio_Label = f_str g ''label''\<rparr>"

definition t_userInputQuestion :: gotype where
  "t_userInputQuestion = t_struct
    [(''header'', t_str), (''id'', t_str), (''isOther'', t_bool), (''isSecret'', t_bool),
     (''options'', t_slice t_userInputOption), (''question'', t_str)]"

definition to_userInputQuestion :: "gval \<Rightarrow> userInputQuestion" where
  "to_userInputQuestion g = \<lparr>uiq_Header = f_str g ''header'', uiq_ID = f_str g ''id'',
     uiq_IsOther = f_bool g ''isOther'', uiq_IsSecret = f_bool g ''isSecret'',
     uiq_Options = map_option (map to_userInputOption) (f_slice g ''options''),
     uiq_Question = f_str g ''question''\<rparr>"

definition t_userInputRequest :: gotype where
  "t_userInputRequest = t_struct
    [(''itemId'', t_str), (''questions'', t_slice t_userInputQuestion), (''threadId'', t_str),
     (''turnId'', t_str)]"

definition to_userInputRequest :: "gval \<Rightarrow> userInputRequest" where
  "to_userInputRequest g = \<lparr>uir_ItemID = f_str g ''itemId'',
     uir_Questions = map_option (map to_userInputQuestion) (f_slice g ''questions''),
     uir_ThreadID = f_str g ''threadId'', uir_TurnID = f_str g ''turnId''\<rparr>"

section \<open>ParseApprovalRequest\<close>

text \<open>Every case of the switch is the same body over its own struct.\<close>

definition decodeApproval ::
  "gotype \<Rightarrow> (gval \<Rightarrow> approvalRequest) \<Rightarrow> string \<Rightarrow> raw \<Rightarrow> goError + approvalRequest" where
  "decodeApproval t rd kind r =
     (case unmarshal t r of (g, ok) \<Rightarrow>
        if \<not> ok then Inl (wrapParseErr kind r) else Inr (rd g))"

definition ParseApprovalRequest :: "string \<Rightarrow> raw \<Rightarrow> goError + approvalRequest" where
  "ParseApprovalRequest m r =
     (if m = ''item/commandExecution/requestApproval'' then
        decodeApproval t_commandExecutionApproval (\<lambda>g. ReqCommandExecution (to_commandExecutionApproval g)) m r
      else if m = ''item/fileChange/requestApproval'' then
        decodeApproval t_fileChangeApproval (\<lambda>g. ReqFileChange (to_fileChangeApproval g)) m r
      else if m = ''item/permissions/requestApproval'' then
        decodeApproval t_permissionsApproval (\<lambda>g. ReqPermissions (to_permissionsApproval g)) m r
      else if m = ''mcpServer/elicitation/request'' then
        decodeApproval t_elicitation (\<lambda>g. ReqElicitation (to_elicitation g)) m r
      else if m = ''item/tool/requestUserInput'' then
        decodeApproval t_userInputRequest (\<lambda>g. ReqUserInput (to_userInputRequest g)) m r
      else Inr (ReqUnknown \<lparr>uar_Method = m, uar_Params = r\<rparr>))"

section \<open>Decisions\<close>

type_synonym answers = "(string \<times> string slice) list ptr"

datatype approvalDecision =
    ApprovalAccept
  | ApprovalAcceptForSession
  | ApprovalDeny string
  | ApprovalCancel string
  | UserInputResponse answers
  | UserInputResponsePtr "answers ptr"
  | PtrApprovalAccept
  | PtrApprovalAcceptForSession
  | PtrApprovalDeny string
  | PtrApprovalCancel string
  | NilDecision

definition normalizeUserInputAnswers :: "answers \<Rightarrow> (string \<times> string list) list" where
  "normalizeUserInputAnswers a =
     (case a of None \<Rightarrow> [] | Some m \<Rightarrow> map (\<lambda>p. (fst p, slice_list (snd p))) m)"

definition encode_answers :: "(string \<times> string list) list \<Rightarrow> json" where
  "encode_answers m = JObj (map (\<lambda>p. (fst p, JObj [(''answers'', JArr (map JStr (snd p)))]))
     (sort_slice (\<lambda>p q. str_less (fst p) (fst q)) m))"

definition with_reason :: "string \<Rightarrow> string \<Rightarrow> json" where
  "with_reason d reason = JObj ((''decision'', JStr d) # omit_empty ''reason'' reason)"

fun EncodeApprovalDecision :: "approvalDecision \<Rightarrow> json" where
  "EncodeApprovalDecision ApprovalAccept = JObj [(''decision'', JStr ''accept'')]"
| "EncodeApprovalDecision ApprovalAcceptForSession = JObj [(''decision'', JStr ''acceptForSession'')]"
| "EncodeApprovalDecision (ApprovalDeny reason) = with_reason ''decline'' reason"
| "EncodeApprovalDecision (ApprovalCancel reason) = with_reason ''cancel'' reason"
| "EncodeApprovalDecision (UserInputResponse a) =
     JObj [(''answers'', encode_answers (normalizeUserInputAnswers a))]"
| "EncodeApprovalDecision (UserInputResponsePtr None) = JObj [(''answers'', encode_answers [])]"
| "EncodeApprovalDecision (UserInputResponsePtr (Some a)) =
     JObj [(''answers'', encode_answers (normalizeUserInputAnswers a))]"
| "EncodeApprovalDecision _ = with_reason ''decline'' ''unknown decision type''"

type_synonym approvalCallback = "approvalRequest \<Rightarrow> approvalDecision"

text \<open>A later question with the same id overwrites the entry, which is empty anyway.\<close>

fun DefaultDenyApprovalCallback :: approvalCallback where
  "DefaultDenyApprovalCallback (ReqUserInput r) = UserInputResponse (Some
     (foldl (\<lambda>m q. put (uiq_ID q) (Some []) m) [] (slice_list (uir_Questions r))))"
| "DefaultDenyApprovalCallback r = ApprovalDeny ''no approval callback configured''"

section \<open>Lemmas\<close>

lemmas approval_eval = item_eval t_commandExecutionApproval_def to_commandExecutionApproval_def
  t_fileChangeApproval_def to_fileChangeApproval_def t_permissionsApproval_def
  to_permissionsApproval_def t_elicitation_def to_elicitation_def t_userInputOption_def
  to_userInputOption_def t_userInputQuestion_def to_userInputQuestion_def t_userInputRequest_def
  to_userInputRequest_def decodeApproval_def ParseApprovalRequest_def

text \<open>What a reply means to the server: an \<open>accept\<close> decision, and only that, lets it go on.\<close>

fun decision_of :: "json \<Rightarrow> string option" where
  "decision_of (JObj kvs) = (case map_of kvs ''decision'' of Some (JStr d) \<Rightarrow> Some d | _ \<Rightarrow> None)"
| "decision_of _ = None"

definition grants :: "json \<Rightarrow> bool" where
  "grants j = (decision_of j \<in> {Some ''accept'', Some ''acceptForSession''})"

lemma decision_of_with_reason [simp]: "decision_of (with_reason d r) = Some d"
  by (simp add: with_reason_def)

lemma grants_iff:
  "grants (EncodeApprovalDecision d) \<longleftrightarrow> d = ApprovalAccept \<or> d = ApprovalAcceptForSession"
  by (cases d rule: EncodeApprovalDecision.cases) (simp_all add: grants_def)

lemma default_callback_denies: "\<not> grants (EncodeApprovalDecision (DefaultDenyApprovalCallback r))"
  by (cases r; simp only: DefaultDenyApprovalCallback.simps grants_iff; simp)

lemma decodeApproval_cases:
  "decodeApproval t rd k r = Inl e \<Longrightarrow> e = wrapParseErr k r"
  "decodeApproval t rd k r = Inr q \<Longrightarrow> \<exists>g. q = rd g"
  by (auto simp: decodeApproval_def split: prod.splits if_splits)

definition approval_methods :: "string list" where
  "approval_methods = [''item/commandExecution/requestApproval'', ''item/fileChange/requestApproval'',
     ''item/permissions/requestApproval'', ''mcpServer/elicitation/request'',
     ''item/tool/requestUserInput'']"

lemma ParseApprovalRequest_Inl:
  "ParseApprovalRequest m r = Inl e \<Longrightarrow> m \<in> set approval_methods \<and> e = wrapParseErr m r"
  by (auto simp: ParseApprovalRequest_def approval_methods_def dest: decodeApproval_cases split: if_splits)

lemma ParseApprovalRequest_Inr: "ParseApprovalRequest m r = Inr q \<Longrightarrow> approvalMethod q = m"
  by (auto simp: ParseApprovalRequest_def dest!: decodeApproval_cases(2) split: if_splits)

lemma map_of_foldl_put_keys:
  "map_of (foldl (\<lambda>m q. put (f q) v m) m qs) k = (if k \<in> f ` set qs then Some v else map_of m k)"
  by (induction qs arbitrary: m) auto

lemma map_of_map_snd: "map_of (map (\<lambda>p. (fst p, h (snd p))) m) k = map_option h (map_of m k)"
  by (induction m) auto

section \<open>Properties\<close>

text \<open>A server request is parsed into the request type of its method; parsing fails only for the
  five known methods, with a parse error that keeps the payload, and any other method is kept whole.\<close>

theorem ParseApprovalRequest_method:
  "(case ParseApprovalRequest m r of
      Inr q \<Rightarrow> approvalMethod q = m
    | Inl e \<Rightarrow> m \<in> set approval_methods \<and> e = wrapParseErr m r) \<and>
   (m \<in> set approval_methods \<or> ParseApprovalRequest m r = Inr (ReqUnknown \<lparr>uar_Method = m, uar_Params = r\<rparr>))"
proof
  show "case ParseApprovalRequest m r of
      Inr q \<Rightarrow> approvalMethod q = m
    | Inl e \<Rightarrow> m \<in> set approval_methods \<and> e = wrapParseErr m r"
    by (cases "ParseApprovalRequest m r") (simp_all add: ParseApprovalRequest_Inl ParseApprovalRequest_Inr)
  show "m \<in> set approval_methods \<or> ParseApprovalRequest m r = Inr (ReqUnknown \<lparr>uar_Method = m, uar_Params = r\<rparr>)"
    by (simp add: ParseApprovalRequest_def approval_methods_def)
qed

text \<open>Of all decisions a callback can return, pointers and nil included, only the two accepting
  values are encoded as a reply that lets the server go on; every other reply that carries a
  decision declines or cancels.\<close>

theorem only_accept_grants:
  "grants (EncodeApprovalDecision d) = (d \<in> {ApprovalAccept, ApprovalAcceptForSession}) \<and>
   decision_of (EncodeApprovalDecision d) \<in>
     {None, Some ''accept'', Some ''acceptForSession'', Some ''decline'', Some ''cancel''}"
  by (cases d rule: EncodeApprovalDecision.cases) (simp_all add: grants_def)

text \<open>The default callback never lets anything through, and it answers every question of a user
  input request with an empty list of answers.\<close>

theorem default_callback_safe:
  "\<not> grants (EncodeApprovalDecision (DefaultDenyApprovalCallback q)) \<and>
   (case q of
      ReqUserInput r \<Rightarrow> (\<exists>m. DefaultDenyApprovalCallback q = UserInputResponse (Some m) \<and>
         (\<forall>k. map_of (normalizeUserInputAnswers (Some m)) k =
                (if k \<in> uiq_ID ` set (slice_list (uir_Questions r)) then Some [] else None)))
    | _ \<Rightarrow> decision_of (EncodeApprovalDecision (DefaultDenyApprovalCallback q)) = Some ''decline'')"
proof
  show "\<not> grants (EncodeApprovalDecision (DefaultDenyApprovalCallback q))"
    by (rule default_callback_denies)
qed (cases q; simp add: normalizeUserInputAnswers_def map_of_map_snd map_of_foldl_put_keys)

end
