(* ===== verification/Thread_Ids.thy ===== *)
theory Thread_Ids
  imports Events "HOL-Library.Multiset"
begin

text \<open>
  Routing identities of events (\<open>client_thread_ids.go\<close>): the six category extractors, the loop of
  \<open>threadIdentityFromEvent\<close> that asks them in order, and \<open>threadIdentityRequired\<close>. An extractor
  returns the id and whether it recognised the event's type, as in the source.
\<close>

section \<open>Extractors\<close>

type_synonym extractor = "threadEvent \<Rightarrow> string \<times> bool"

definition deref :: "string ptr \<Rightarrow> string" where
  "deref p = (case p of None \<Rightarrow> [] | Some s \<Rightarrow> s)"

lemma deref_simps [simp]: "deref None = []" "deref (Some s) = s"
  by (simp_all add: deref_def)

fun threadIDFromThreadLifecycleEvent :: extractor where
  "threadIDFromThreadLifecycleEvent (EvThreadStarted e) = (threadStarted_ThreadID e, True)"
| "threadIDFromThreadLifecycleEvent (EvThread (EvThreadArchived e)) = (threadArchived_ThreadID e, True)"
| "threadIDFromThreadLifecycleEvent (EvThread (EvThreadUnarchived e)) = (threadUnarchived_ThreadID e, True)"
| "threadIDFromThreadLifecycleEvent (EvThread (EvThreadClosed e)) = (threadClosed_ThreadID e, True)"
| "threadIDFromThreadLifecycleEvent (EvThread (EvThreadDeleted e)) = (threadDeleted_ThreadID e, True)"
| "threadIDFromThreadLifecycleEvent (EvThread (EvThreadNameUpdated e)) = (threadNameUpdated_ThreadID e, True)"
| "threadIDFromThreadLifecycleEvent (EvThread (EvThreadStatusChanged e)) = (threadStatusChanged_ThreadID e, True)"
| "threadIDFromThreadLifecycleEvent (EvThread (EvThreadSettingsUpdated e)) = (threadSettingsUpdated_ThreadID e, True)"
| "threadIDFromThreadLifecycleEvent (EvThread (EvThreadGoalUpdated e)) = (threadGoalUpdated_ThreadID e, True)"
| "threadIDFromThreadLifecycleEvent (EvThread (EvThreadGoalCleared e)) = (threadGoalCleared_ThreadID e, True)"
| "threadIDFromThreadLifecycleEvent (EvThread (EvContextCompacted e)) = (contextCompacted_ThreadID e, True)"
| "threadIDFromThreadLifecycleEvent _ = ([], False)"

fun threadIDFromTurnEvent :: extractor where
  "threadIDFromTurnEvent (EvTurnStarted e) = (turnStarted_ThreadID e, True)"
| "threadIDFromTurnEvent (EvTurnCompleted e) = (turnCompleted_ThreadID e, True)"
| "threadIDFromTurnEvent (EvTurnFailed e) = (turnFailed_ThreadID e, True)"
| "threadIDFromTurnEvent (EvThread (EvTurnDiffUpdated e)) = (turnDiffUpdated_ThreadID e, True)"
| "threadIDFromTurnEvent (EvThread (EvTurnPlanUpdated e)) = (turnPlanUpdated_ThreadID e, True)"
| "threadIDFromTurnEvent (EvThread (EvTurnModerationMetadata e)) = (turnModerationMetadata_ThreadID e, True)"
| "threadIDFromTurnEvent _ = ([], False)"

fun threadIDFromItemEvent :: extractor where
  "threadIDFromItemEvent (EvItemStarted e) = (itemStarted_ThreadID e, True)"
| "threadIDFromItemEvent (EvItemUpdated e) = (itemUpdated_ThreadID e, True)"
| "threadIDFromItemEvent (EvItemCompleted e) = (itemCompleted_ThreadID e, True)"
| "threadIDFromItemEvent (EvThread (EvFileChangePatchUpdated e)) = (fileChangePatchUpdated_ThreadID e, True)"
| "threadIDFromItemEvent (EvThread (EvItemGuardianApprovalReviewStarted e)) =
     (itemGuardianApprovalReviewStarted_ThreadID e, True)"
| "threadIDFromItemEvent (EvThread (EvItemGuardianApprovalReviewCompleted e)) =
     (itemGuardianApprovalReviewCompleted_ThreadID e, True)"
| "threadIDFromItemEvent _ = ([], False)"

fun threadIDFromRealtimeEvent :: extractor where
  "threadIDFromRealtimeEvent (EvThread (EvThreadRealtimeStarted e)) = (threadRealtimeStarted_ThreadID e, True)"
| "threadIDFromRealtimeEvent (EvThread (EvThreadRealtimeClosed e)) = (threadRealtimeClosed_ThreadID e, True)"
| "threadIDFromRealtimeEvent (EvThread (EvThreadRealtimeError e)) = (threadRealtimeError_ThreadID e, True)"
| "threadIDFromRealtimeEvent (EvThread (EvThreadRealtimeItemAdded e)) = (threadRealtimeItemAdded_ThreadID e, True)"
| "threadIDFromRealtimeEvent (EvThread (EvThreadRealtimeOutputAudioDelta e)) =
     (threadRealtimeOutputAudioDelta_ThreadID e, True)"
| "threadIDFromRealtimeEvent (EvThread (EvThreadRealtimeSdp e)) = (threadRealtimeSdp_ThreadID e, True)"
| "threadIDFromRealtimeEvent (EvThread (EvThreadRealtimeTranscriptDelta e)) =
     (threadRealtimeTranscriptDelta_ThreadID e, True)"
| "threadIDFromRealtimeEvent (EvThread (EvThreadRealtimeTranscriptDone e)) =
     (threadRealtimeTranscriptDone_ThreadID e, True)"
| "threadIDFromRealtimeEvent _ = ([], False)"

fun threadIDFromMCPEvent :: extractor where
  "threadIDFromMCPEvent (EvSystem (EvMCPServerStartupStatusUpdated e)) =
     (deref (mCPServerStartupStatusUpdated_ThreadID e), True)"
| "threadIDFromMCPEvent (EvSystem (EvMCPServerOAuthLoginCompleted e)) =
     (deref (mCPServerOAuthLoginCompleted_ThreadID e), True)"
| "threadIDFromMCPEvent _ = ([], False)"

fun threadIDFromMiscEvent :: extractor where
  "threadIDFromMiscEvent (EvTokenUsageUpdated e) = (tokenUsageUpdated_ThreadID e, True)"
| "threadIDFromMiscEvent (EvErrorEvent e) = (errorEvent_ThreadID e, True)"
| "threadIDFromMiscEvent (EvSystem (EvHookStarted e)) = (hookStarted_ThreadID e, True)"
| "threadIDFromMiscEvent (EvSystem (EvHookCompleted e)) = (hookCompleted_ThreadID e, True)"
| "threadIDFromMiscEvent (EvSystem (EvModelRerouted e)) = (modelRerouted_ThreadID e, True)"
| "threadIDFromMiscEvent (EvSystem (EvModelVerification e)) = (modelVerification_ThreadID e, True)"
| "threadIDFromMiscEvent (EvSystem (EvModelSafetyBufferingUpdated e)) =
     (modelSafetyBufferingUpdated_ThreadID e, True)"
| "threadIDFromMiscEvent (EvSystem (EvWarning e)) = (deref (warning_ThreadID e), True)"
| "threadIDFromMiscEvent (EvSystem (EvGuardianWarning e)) = (guardianWarning_ThreadID e, True)"
| "threadIDFromMiscEvent (EvSystem (EvServerRequestResolved e)) = (serverRequestResolved_ThreadID e, True)"
| "threadIDFromMiscEvent (EvUnknownEvent e) = (unknownEvent_ThreadID e, True)"
| "threadIDFromMiscEvent _ = ([], False)"

definition threadIDExtractors :: "extractor list" where
  "threadIDExtractors = [threadIDFromThreadLifecycleEvent, threadIDFromTurnEvent, threadIDFromItemEvent,
     threadIDFromRealtimeEvent, threadIDFromMCPEvent, threadIDFromMiscEvent]"

section \<open>Identity of an event\<close>

fun threadIdentityRequired :: "threadEvent \<Rightarrow> bool" where
  "threadIdentityRequired (EvErrorEvent e) = False"
| "threadIdentityRequired (EvSystem (EvMCPServerOAuthLoginCompleted e)) = False"
| "threadIdentityRequired (EvSystem (EvMCPServerStartupStatusUpdated e)) = False"
| "threadIdentityRequired (EvUnknownEvent e) = False"
| "threadIdentityRequired (EvSystem (EvWarning e)) = False"
| "threadIdentityRequired _ = True"

text \<open>The loop over the extractors: the first that recognises the event wins.\<close>

fun identity_loop :: "extractor list \<Rightarrow> threadEvent \<Rightarrow> string \<times> bool" where
  "identity_loop [] ev = ([], False)"
| "identity_loop (x # xs) ev =
     (case x ev of (i, ok) \<Rightarrow> if ok then (i, threadIdentityRequired ev) else identity_loop xs ev)"

definition threadIdentityFromEvent :: "threadEvent \<Rightarrow> string \<times> bool" where
  "threadIdentityFromEvent ev = identity_loop threadIDExtractors ev"

definition extractThreadIDFromEvent :: "threadEvent \<Rightarrow> string" where
  "extractThreadIDFromEvent ev = fst (threadIdentityFromEvent ev)"

section \<open>The end of a turn\<close>

text \<open>\<open>isTurnTerminus\<close> and \<open>turnIDFromTerminus\<close> of \<open>threads.go\<close>.\<close>

fun isTurnTerminus :: "threadEvent \<Rightarrow> string \<Rightarrow> bool" where
  "isTurnTerminus (EvTurnCompleted e) expected = (expected = [] \<or> turnCompleted_TurnID e = expected)"
| "isTurnTerminus (EvTurnFailed e) expected = (expected = [] \<or> turnFailed_TurnID e = expected)"
| "isTurnTerminus _ expected = False"

fun turnIDFromTerminus :: "threadEvent \<Rightarrow> string" where
  "turnIDFromTerminus (EvTurnCompleted e) = turnCompleted_TurnID e"
| "turnIDFromTerminus (EvTurnFailed e) = turnFailed_TurnID e"
| "turnIDFromTerminus _ = []"

lemma isTurnTerminus_iff:
  "isTurnTerminus ev x \<longleftrightarrow> isTurnTerminus ev [] \<and> (x = [] \<or> turnIDFromTerminus ev = x)"
  by (cases ev) auto

section \<open>Lemmas\<close>

text \<open>An event is recognised by at most one extractor, so that their order does not matter.\<close>

definition recognisers :: "threadEvent \<Rightarrow> extractor list" where
  "recognisers ev = filter (\<lambda>x. snd (x ev)) threadIDExtractors"

lemma recognisers_at_most_one: "length (recognisers ev) \<le> 1"
proof (cases ev)
  case (EvThread e)
  then show ?thesis by (cases e) (simp_all add: recognisers_def threadIDExtractors_def)
next
  case (EvSystem e)
  then show ?thesis by (cases e) (simp_all add: recognisers_def threadIDExtractors_def)
qed (simp_all add: recognisers_def threadIDExtractors_def)

lemma identity_loop_filter:
  "identity_loop xs ev = (case filter (\<lambda>x. snd (x ev)) xs of
      [] \<Rightarrow> ([], False) | x # _ \<Rightarrow> (fst (x ev), threadIdentityRequired ev))"
  by (induction xs) (auto split: prod.splits)

text \<open>The events that are global by nature: no extractor knows them.\<close>

fun is_global :: "threadEvent \<Rightarrow> bool" where
  "is_global (EvSystem (EvAccountLoginCompleted e)) = True"
| "is_global (EvSystem (EvAccountRateLimitsUpdated e)) = True"
| "is_global (EvSystem (EvAccountUpdated e)) = True"
| "is_global (EvSystem (EvConfigWarning e)) = True"
| "is_global (EvSystem (EvDeprecationNotice e)) = True"
| "is_global (EvSystem (EvFsChanged e)) = True"
| "is_global (EvSystem EvSkillsChanged) = True"
| "is_global (EvSystem (EvAppListUpdated e)) = True"
| "is_global (EvSystem (EvProcessOutputDelta e)) = True"
| "is_global (EvSystem (EvProcessExited e)) = True"
| "is_global (EvSystem (EvCommandExecOutputDelta e)) = True"
| "is_global (EvSystem (EvRemoteControlStatusChanged e)) = True"
| "is_global (EvSystem (EvExternalAgentConfigImportCompleted e)) = True"
| "is_global (EvSystem (EvExternalAgentConfigImportProgress e)) = True"
| "is_global (EvSystem (EvWindowsWorldWritableWarning e)) = True"
| "is_global (EvSystem (EvWindowsSandboxSetupCompleted e)) = True"
| "is_global (EvSystem (EvFuzzyFileSearchSessionUpdated e)) = True"
| "is_global (EvSystem (EvFuzzyFileSearchSessionCompleted e)) = True"
| "is_global _ = False"

lemma recognisers_global: "recognisers ev = [] \<longleftrightarrow> is_global ev"
proof (cases ev)
  case (EvThread e)
  then show ?thesis by (cases e) (simp_all add: recognisers_def threadIDExtractors_def)
next
  case (EvSystem e)
  then show ?thesis by (cases e) (simp_all add: recognisers_def threadIDExtractors_def)
qed (simp_all add: recognisers_def threadIDExtractors_def)

lemma identity_required:
  "snd (threadIdentityFromEvent ev) \<longleftrightarrow> \<not> is_global ev \<and> threadIdentityRequired ev"
  unfolding threadIdentityFromEvent_def identity_loop_filter
  using recognisers_global [of ev] 
  by (cases "filter (\<lambda>x. snd (x ev)) threadIDExtractors") (auto simp: recognisers_def)

lemma filter_at_most_one_perm:
  assumes "length (filter P xs) \<le> 1" and "mset ys = mset xs"
  shows "filter P ys = filter P xs"
proof -
  have "mset (filter P ys) = mset (filter P xs)" using assms(2) by simp
  then show ?thesis using assms(1)
    by (cases "filter P xs") (auto simp del: mset_filter)
qed

section \<open>Properties\<close>

text \<open>Each event type is handled by exactly one extractor, or by none when it is global by nature;
  so the order in which the extractors are asked does not matter.\<close>

theorem thread_identity_order_irrelevant:
  assumes "mset xs = mset threadIDExtractors"
  shows "identity_loop xs ev = threadIdentityFromEvent ev \<and>
         length (recognisers ev) = (if is_global ev then 0 else 1)"
proof
  have "filter (\<lambda>x. snd (x ev)) xs = filter (\<lambda>x. snd (x ev)) threadIDExtractors"
    using recognisers_at_most_one [of ev] assms
    by (intro filter_at_most_one_perm) (simp_all add: recognisers_def)
  then show "identity_loop xs ev = threadIdentityFromEvent ev"
    by (simp add: threadIdentityFromEvent_def identity_loop_filter)
  show "length (recognisers ev) = (if is_global ev then 0 else 1)"
    using recognisers_at_most_one [of ev] recognisers_global [of ev]
    by (cases "recognisers ev") auto
qed

theorem thread_identity_order_irrelevant_witness:
  "identity_loop (rev threadIDExtractors)
     (EvErrorEvent \<lparr>errorEvent_ThreadID = ''t'', errorEvent_TurnID = [], errorEvent_WillRetry = False,
        errorEvent_Code = [], errorEvent_Message = [], errorEvent_AdditionalDetails = None,
        errorEvent_CodexErrorInfo = None, errorEvent_Context = None\<rparr>) = (''t'', False)"
  using thread_identity_order_irrelevant [of "rev threadIDExtractors"
     "EvErrorEvent \<lparr>errorEvent_ThreadID = ''t'', errorEvent_TurnID = [], errorEvent_WillRetry = False,
        errorEvent_Code = [], errorEvent_Message = [], errorEvent_AdditionalDetails = None,
        errorEvent_CodexErrorInfo = None, errorEvent_Context = None\<rparr>"]
  by (simp add: threadIdentityFromEvent_def threadIDExtractors_def)

end
