(* ===== verification/File_Approval.thy ===== *)
theory File_Approval
  imports Approvals Thread_Ids
begin

text \<open>
  The file approval contexts of the client (\<open>client_file_approval.go\<close>): what each active file change
  item is about to write, remembered from the event stream, and \<open>resolveFileApproval\<close>, which decides
  whether a file approval request can be shown to the callback at all. The map is an association
  list; a nil map reads like an empty one. \<open>cloneFileChanges\<close> copies what the values here share
  anyway.
\<close>

section \<open>State\<close>

type_synonym approvalKey = "string \<times> string \<times> string"

record approvalContext =
  ctx_changes :: "fileChangePart slice"
  ctx_invalid :: bool

type_synonym fileApprovals = "(approvalKey \<times> approvalContext) list"

section \<open>Remembering\<close>

definition updateFileApproval :: "fileChangePatchUpdated \<Rightarrow> fileApprovals \<Rightarrow> fileApprovals" where
  "updateFileApproval e m =
     (if fileChangePatchUpdated_TurnID e = [] \<or> fileChangePatchUpdated_ItemID e = [] then []
      else (let key = (fileChangePatchUpdated_ThreadID e, fileChangePatchUpdated_TurnID e,
                       fileChangePatchUpdated_ItemID e)
            in if map_of m key = None then m
               else (case unmarshal (t_slice t_fileChangePart) (fileChangePatchUpdated_Changes e) of
                 (g, ok) \<Rightarrow>
                   let changes = map_option (map to_fileChangePart) (as_slice g)
                   in put key \<lparr>ctx_changes = changes, ctx_invalid = (\<not> ok \<or> changes = None)\<rparr> m)))"

definition startFileApproval :: "itemStarted \<Rightarrow> fileApprovals \<Rightarrow> fileApprovals" where
  "startFileApproval e m = (case itemStarted_Item e of
      ItemFileChange file \<Rightarrow>
        (if itemStarted_ThreadID e = [] \<or> itemStarted_TurnID e = [] \<or> itemStarted_ItemID e = [] then m
         else put (itemStarted_ThreadID e, itemStarted_TurnID e, itemStarted_ItemID e)
                \<lparr>ctx_changes = fc_Changes file, ctx_invalid = False\<rparr> m)
    | _ \<Rightarrow> m)"

definition rememberFileApproval :: "threadEvent \<Rightarrow> fileApprovals \<Rightarrow> fileApprovals" where
  "rememberFileApproval ev m = (case ev of
      EvItemStarted e \<Rightarrow> startFileApproval e m
    | EvItemCompleted e \<Rightarrow>
        drop_key (itemCompleted_ThreadID e, itemCompleted_TurnID e, itemCompleted_ItemID e) m
    | EvThread (EvFileChangePatchUpdated e) \<Rightarrow> updateFileApproval e m
    | _ \<Rightarrow>
        (if \<not> isTurnTerminus ev [] then m
         else (let thread = fst (threadIdentityFromEvent ev); turn = turnIDFromTerminus ev
               in filter (\<lambda>p. \<not> (fst (fst p) = thread \<and> fst (snd (fst p)) = turn)) m)))"

section \<open>Resolving\<close>

definition valid_change :: "fileChangePart \<Rightarrow> bool" where
  "valid_change c = (trim_space (fcp_Path c) \<noteq> [] \<and> fcp_Operation c \<in> {''create'', ''modify'', ''delete''})"

definition resolveFileApproval ::
  "fileApprovals \<Rightarrow> fileChangeApprovalRequest \<Rightarrow> bool \<times> fileChangeApprovalRequest" where
  "resolveFileApproval m r0 =
     (let r = r0\<lparr>fcar_Changes := None\<rparr>;
          found = map_of m (fcar_ThreadID r, fcar_TurnID r, fcar_ItemID r);
          cached = (case found of None \<Rightarrow> \<lparr>ctx_changes = None, ctx_invalid = False\<rparr> | Some c \<Rightarrow> c)
      in if ctx_invalid cached \<or>
            (case fcar_GrantRoot r of None \<Rightarrow> False
             | Some root \<Rightarrow> trim_space root = [] \<or> fcar_ThreadID r = [] \<or> fcar_TurnID r = [] \<or> fcar_ItemID r = [])
         then (False, r)
         else (let changes =
                 (if found = None \<and> fcar_Path r \<noteq> []
                  then Some [\<lparr>fcp_Path = fcar_Path r, fcp_Kind = None, fcp_Operation = fcar_Operation r,
                              fcp_Diff = fcar_Diff r\<rparr>]
                  else ctx_changes cached)
               in if slice_list changes = [] then (fcar_GrantRoot r \<noteq> None, r)
                  else if \<not> list_all valid_change (slice_list changes) then (False, r)
                  else (True, (case slice_list changes of
                      [c] \<Rightarrow> r\<lparr>fcar_Changes := changes, fcar_Path := fcp_Path c,
                               fcar_Operation := fcp_Operation c, fcar_Diff := fcp_Diff c\<rparr>
                    | _ \<Rightarrow> r\<lparr>fcar_Changes := changes\<rparr>))))"

section \<open>Specification\<close>

text \<open>What one event does to the context of one item, stated for that item alone.\<close>

definition event_key :: "threadEvent \<Rightarrow> approvalKey" where
  "event_key ev = (case ev of
      EvItemStarted e \<Rightarrow> (itemStarted_ThreadID e, itemStarted_TurnID e, itemStarted_ItemID e)
    | EvItemCompleted e \<Rightarrow> (itemCompleted_ThreadID e, itemCompleted_TurnID e, itemCompleted_ItemID e)
    | EvThread (EvFileChangePatchUpdated e) \<Rightarrow>
        (fileChangePatchUpdated_ThreadID e, fileChangePatchUpdated_TurnID e, fileChangePatchUpdated_ItemID e)
    | _ \<Rightarrow> ([], [], []))"

definition patch_context :: "raw \<Rightarrow> approvalContext" where
  "patch_context changes = (case unmarshal (t_slice t_fileChangePart) changes of
      (g, ok) \<Rightarrow> \<lparr>ctx_changes = map_option (map to_fileChangePart) (as_slice g),
                  ctx_invalid = (\<not> ok \<or> as_slice g = None)\<rparr>)"

definition context_step :: "approvalKey \<Rightarrow> approvalContext option \<Rightarrow> threadEvent \<Rightarrow> approvalContext option" where
  "context_step k c ev = (case ev of
      EvItemStarted e \<Rightarrow> (case itemStarted_Item e of
          ItemFileChange f \<Rightarrow>
            (if event_key ev = k \<and> fst k \<noteq> [] \<and> fst (snd k) \<noteq> [] \<and> snd (snd k) \<noteq> []
             then Some \<lparr>ctx_changes = fc_Changes f, ctx_invalid = False\<rparr> else c)
        | _ \<Rightarrow> c)
    | EvItemCompleted e \<Rightarrow> (if event_key ev = k then None else c)
    | EvThread (EvFileChangePatchUpdated e) \<Rightarrow>
        (if fileChangePatchUpdated_TurnID e = [] \<or> fileChangePatchUpdated_ItemID e = [] then None
         else if event_key ev = k \<and> c \<noteq> None then Some (patch_context (fileChangePatchUpdated_Changes e))
         else c)
    | EvTurnCompleted e \<Rightarrow>
        (if fst k = turnCompleted_ThreadID e \<and> fst (snd k) = turnCompleted_TurnID e then None else c)
    | EvTurnFailed e \<Rightarrow>
        (if fst k = turnFailed_ThreadID e \<and> fst (snd k) = turnFailed_TurnID e then None else c)
    | _ \<Rightarrow> c)"

text \<open>The context the history of events gives the item of a request, and the changes it shows.\<close>

definition history_context :: "threadEvent list \<Rightarrow> fileChangeApprovalRequest \<Rightarrow> approvalContext option" where
  "history_context evs r =
     foldl (context_step (fcar_ThreadID r, fcar_TurnID r, fcar_ItemID r)) None evs"

definition inline_change :: "fileChangeApprovalRequest \<Rightarrow> fileChangePart" where
  "inline_change r = \<lparr>fcp_Path = fcar_Path r, fcp_Kind = None, fcp_Operation = fcar_Operation r,
                      fcp_Diff = fcar_Diff r\<rparr>"

definition history_changes :: "threadEvent list \<Rightarrow> fileChangeApprovalRequest \<Rightarrow> fileChangePart list" where
  "history_changes evs r = (case history_context evs r of
      Some c \<Rightarrow> slice_list (ctx_changes c)
    | None \<Rightarrow> (if fcar_Path r \<noteq> [] then [inline_change r] else []))"

section \<open>Lemmas\<close>

lemma identity_terminus [simp]:
  "threadIdentityFromEvent (EvTurnCompleted e) = (turnCompleted_ThreadID e, True)"
  "threadIdentityFromEvent (EvTurnFailed f) = (turnFailed_ThreadID f, True)"
  by (simp_all add: threadIdentityFromEvent_def threadIDExtractors_def)

lemma map_of_filter_turn [simp]:
  "map_of (filter (\<lambda>p. fst (fst p) = t \<longrightarrow> fst (snd (fst p)) \<noteq> u) m) k =
     (if fst k = t \<and> fst (snd k) = u then None else map_of m k)"
  using map_of_filter_key [of "\<lambda>k. fst k = t \<longrightarrow> fst (snd k) \<noteq> u" m k] by simp

lemma remember_step: "map_of (rememberFileApproval ev m) k = context_step k (map_of m k) ev"
proof (cases ev)
  case (EvItemStarted e)
  then show ?thesis
    by (cases k) (auto simp: rememberFileApproval_def startFileApproval_def context_step_def event_key_def
        split: threadItem.splits)
next
  case (EvThread t)
  then show ?thesis
    by (cases t; cases k) (auto simp: rememberFileApproval_def updateFileApproval_def context_step_def
        event_key_def patch_context_def Let_def split: prod.splits)
next
  case (EvItemCompleted e)
  then show ?thesis
    by (cases k) (auto simp: rememberFileApproval_def context_step_def event_key_def)
qed (simp_all add: rememberFileApproval_def context_step_def Let_def)

definition remember_all :: "threadEvent list \<Rightarrow> fileApprovals" where
  "remember_all evs = foldl (\<lambda>m ev. rememberFileApproval ev m) [] evs"

lemma remember_all_context: "map_of (remember_all evs) k = foldl (context_step k) None evs"
  by (induction evs rule: rev_induct) (simp_all add: remember_all_def remember_step)

text \<open>The context a request is resolved against, and the changes it stands for.\<close>

definition request_context :: "fileApprovals \<Rightarrow> fileChangeApprovalRequest \<Rightarrow> approvalContext option" where
  "request_context m r = map_of m (fcar_ThreadID r, fcar_TurnID r, fcar_ItemID r)"

definition shown_changes :: "fileApprovals \<Rightarrow> fileChangeApprovalRequest \<Rightarrow> fileChangePart list" where
  "shown_changes m r = (case request_context m r of
      Some c \<Rightarrow> slice_list (ctx_changes c)
    | None \<Rightarrow> (if fcar_Path r \<noteq> [] then [inline_change r] else []))"

definition root_ok :: "fileChangeApprovalRequest \<Rightarrow> bool" where
  "root_ok r = (case fcar_GrantRoot r of None \<Rightarrow> True
     | Some root \<Rightarrow> trim_space root \<noteq> [] \<and> fcar_ThreadID r \<noteq> [] \<and> fcar_TurnID r \<noteq> [] \<and> fcar_ItemID r \<noteq> [])"

lemma resolve_iff:
  "fst (resolveFileApproval m r) \<longleftrightarrow>
     (\<forall>c. request_context m r = Some c \<longrightarrow> \<not> ctx_invalid c) \<and> root_ok r \<and>
     list_all valid_change (shown_changes m r) \<and> (shown_changes m r \<noteq> [] \<or> fcar_GrantRoot r \<noteq> None)"
  by (auto simp: resolveFileApproval_def Let_def request_context_def shown_changes_def inline_change_def
      root_ok_def split: option.splits list.splits)

lemma resolve_request:
  "fst (resolveFileApproval m r) \<Longrightarrow> slice_list (fcar_Changes (snd (resolveFileApproval m r))) = shown_changes m r"
  by (auto simp: resolveFileApproval_def Let_def request_context_def shown_changes_def inline_change_def
      split: option.splits list.splits if_splits)

lemma resolve_rejected:
  "\<not> fst (resolveFileApproval m r) \<Longrightarrow> slice_list (fcar_Changes (snd (resolveFileApproval m r))) = []"
  by (auto simp: resolveFileApproval_def Let_def split: option.splits list.splits if_splits)

text \<open>Only the start of a file change item opens a context.\<close>

definition starts_file :: "approvalKey \<Rightarrow> threadEvent \<Rightarrow> bool" where
  "starts_file k ev = (case ev of
      EvItemStarted e \<Rightarrow> (\<exists>f. itemStarted_Item e = ItemFileChange f) \<and> event_key ev = k
    | _ \<Rightarrow> False)"

lemma context_step_None: "\<not> starts_file k ev \<Longrightarrow> context_step k None ev = None"
  by (auto simp: context_step_def starts_file_def split: threadEvent.splits threadItem.splits eventOfThread.splits)

lemma context_stays_None:
  "list_all (\<lambda>ev. \<not> starts_file k ev) evs \<Longrightarrow> foldl (context_step k) None evs = None"
  by (induction evs) (auto simp: context_step_None)

definition ends_turn :: "string \<Rightarrow> string \<Rightarrow> threadEvent \<Rightarrow> bool" where
  "ends_turn t u ev = (isTurnTerminus ev [] \<and> fst (threadIdentityFromEvent ev) = t \<and> turnIDFromTerminus ev = u)"

lemma context_step_ends_turn: "ends_turn (fst k) (fst (snd k)) ev \<Longrightarrow> context_step k c ev = None"
  by (cases ev) (auto simp: ends_turn_def context_step_def)

lemma resolve_history:
  "(fst (resolveFileApproval (remember_all evs) r) \<longleftrightarrow>
      history_context evs r \<notin> Some ` {x. ctx_invalid x} \<and> root_ok r \<and>
      list_all valid_change (history_changes evs r) \<and>
      (history_changes evs r \<noteq> [] \<or> fcar_GrantRoot r \<noteq> None)) \<and>
    slice_list (fcar_Changes (snd (resolveFileApproval (remember_all evs) r))) =
      (if fst (resolveFileApproval (remember_all evs) r) then history_changes evs r else [])"
proof
  have c: "request_context (remember_all evs) r = history_context evs r"
    by (simp add: request_context_def remember_all_context history_context_def)
  then have ch: "shown_changes (remember_all evs) r = history_changes evs r"
    by (simp add: shown_changes_def history_changes_def)
  show "fst (resolveFileApproval (remember_all evs) r) \<longleftrightarrow>
      history_context evs r \<notin> Some ` {x. ctx_invalid x} \<and> root_ok r \<and>
      list_all valid_change (history_changes evs r) \<and>
      (history_changes evs r \<noteq> [] \<or> fcar_GrantRoot r \<noteq> None)"
    unfolding resolve_iff c ch by (cases "history_context evs r") auto
  show "slice_list (fcar_Changes (snd (resolveFileApproval (remember_all evs) r))) =
      (if fst (resolveFileApproval (remember_all evs) r) then history_changes evs r else [])"
    using resolve_request [of "remember_all evs" r] resolve_rejected [of "remember_all evs" r] ch by auto
qed

section \<open>Sample inputs\<close>

definition sample_request :: fileChangeApprovalRequest where
  "sample_request = \<lparr>fcar_Changes = None, fcar_GrantRoot = None, fcar_Path = [], fcar_Operation = [],
     fcar_Diff = [], fcar_Reason = [], fcar_ThreadID = ''t'', fcar_TurnID = ''u'', fcar_ItemID = ''i'',
     fcar_StartedAtMS = 0\<rparr>"

definition sample_start :: threadEvent where
  "sample_start = EvItemStarted \<lparr>itemStarted_ThreadID = ''t'', itemStarted_TurnID = ''u'', itemStarted_ItemID = ''i'',
     itemStarted_Item = ItemFileChange \<lparr>fc_ID = ''i'', fc_Status = [],
       fc_Changes = Some [\<lparr>fcp_Path = ''a.go'', fcp_Kind = None, fcp_Operation = ''modify'', fcp_Diff = []\<rparr>]\<rparr>\<rparr>"

definition sample_end :: threadEvent where
  "sample_end = EvTurnFailed \<lparr>turnFailed_ThreadID = ''t'', turnFailed_TurnID = ''u'', turnFailed_Code = [],
     turnFailed_Message = []\<rparr>"

lemma sample_shown: "fst (resolveFileApproval (remember_all [sample_start]) sample_request)"
  by (simp add: resolveFileApproval_def remember_all_def rememberFileApproval_def startFileApproval_def
      sample_start_def sample_request_def valid_change_def trim_space_def is_space_def Let_def)

section \<open>Properties\<close>

text \<open>C10: What the client remembers for an item depends on that item's own history only: after any
  stream of events the map holds for each (thread, turn, item) the context that item's start, patches,
  completion and the end of its turn give, whatever happened to other items and in whatever order.\<close>

theorem remembered_context_refines_history:
  "map_of (foldl (\<lambda>m ev. rememberFileApproval ev m) [] evs) k = foldl (context_step k) None evs"
  using remember_all_context [of evs k] by (simp add: remember_all_def)

text \<open>A file approval request reaches the callback only with a usable context: after any stream of
  events it is let through exactly when its item's context was not invalidated, a proposed root is
  not blank and names its item, every change shown has a path and a known operation, and there is a
  change to show or a root to grant; and the callback is shown exactly those changes.\<close>

theorem file_approval_shown_iff:
  "(fst (resolveFileApproval (remember_all evs) r) \<longleftrightarrow>
      history_context evs r \<notin> Some ` {x. ctx_invalid x} \<and> root_ok r \<and>
      list_all valid_change (history_changes evs r) \<and>
      (history_changes evs r \<noteq> [] \<or> fcar_GrantRoot r \<noteq> None)) \<and>
    slice_list (fcar_Changes (snd (resolveFileApproval (remember_all evs) r))) =
      (if fst (resolveFileApproval (remember_all evs) r) then history_changes evs r else [])"
  by (rule resolve_history)

theorem file_approval_shown_iff_witness:
  "list_all valid_change (history_changes [sample_start] sample_request) \<and>
   slice_list (fcar_Changes (snd (resolveFileApproval (remember_all [sample_start]) sample_request))) =
     history_changes [sample_start] sample_request"
  using file_approval_shown_iff [of "[sample_start]" sample_request] sample_shown by simp

text \<open>C11: When a turn has ended, nothing of its file changes is remembered: whatever events follow, until the
  item is started again, a request for one of its items is resolved as by a client that has seen no
  event at all. So one that brings no inline path and no root is denied, and one that is let through
  shows the callback no change but the one the request itself describes.\<close>

theorem no_approval_after_turn_end:
  assumes "ends_turn (fcar_ThreadID r) (fcar_TurnID r) ev"
    and "list_all (\<lambda>ev'. \<not> starts_file (fcar_ThreadID r, fcar_TurnID r, fcar_ItemID r) ev') later"
  shows "resolveFileApproval (remember_all (evs @ [ev] @ later)) r = resolveFileApproval [] r \<and>
     (fcar_Path r = [] \<and> fcar_GrantRoot r = None \<longrightarrow>
        \<not> fst (resolveFileApproval (remember_all (evs @ [ev] @ later)) r)) \<and>
     set (slice_list (fcar_Changes (snd (resolveFileApproval (remember_all (evs @ [ev] @ later)) r))))
       \<subseteq> (if fcar_Path r = [] then {} else {inline_change r})"
proof -
  have n: "request_context (remember_all (evs @ [ev] @ later)) r = None"
    using assms by (simp add: request_context_def remember_all_context context_step_ends_turn context_stays_None)
  then have eq: "resolveFileApproval (remember_all (evs @ [ev] @ later)) r = resolveFileApproval [] r"
    by (simp add: resolveFileApproval_def request_context_def Let_def)
  have s: "shown_changes [] r = (if fcar_Path r \<noteq> [] then [inline_change r] else [])"
    by (simp add: shown_changes_def request_context_def)
  show ?thesis
    unfolding eq using s resolve_iff [of "[]" r] resolve_request [of "[]" r] resolve_rejected [of "[]" r]
    by (cases "fst (resolveFileApproval [] r)") auto
qed

theorem no_approval_after_turn_end_witness:
  "fst (resolveFileApproval (remember_all [sample_start]) sample_request) \<and>
   \<not> fst (resolveFileApproval (remember_all ([sample_start] @ [sample_end] @ [])) sample_request)"
proof -
  have ends: "ends_turn (fcar_ThreadID sample_request) (fcar_TurnID sample_request) sample_end"
    by (simp add: ends_turn_def sample_end_def sample_request_def)
  have path: "fcar_Path sample_request = [] \<and> fcar_GrantRoot sample_request = None"
    by (simp add: sample_request_def)
  have "list_all (\<lambda>ev'. \<not> starts_file (fcar_ThreadID sample_request, fcar_TurnID sample_request,
      fcar_ItemID sample_request) ev') []" by simp
  from no_approval_after_turn_end [OF ends this, of "[sample_start]"] path
  have "\<not> fst (resolveFileApproval (remember_all ([sample_start] @ [sample_end] @ [])) sample_request)" by blast
  with sample_shown show ?thesis by blast
qed

end
