(* ===== verification/Threads.thy ===== *)
theory Threads
  imports Channels Thread_Ids
begin

text \<open>
  A thread handle (\<open>threads.go\<close>, \<open>compact_result.go\<close>, \<open>Compact\<close> of \<open>threads_commands.go\<close>): its inbox, the
  active turn id, closing, and the one-shot subscription of \<open>Compact\<close>. The channels that \<open>Compact\<close>
  allocates live in a small heap; a pointer to one is its address, so the two compare-and-swap
  operations on \<open>compactSub\<close> compare addresses. An operation has no result where a channel
  operation of the code would panic.
\<close>

section \<open>State\<close>

definition ThreadInboxBuffer :: nat where
  "ThreadInboxBuffer = 256"

record thread =
  th_id :: string
  th_model :: string
  th_cwd :: string
  th_inbox :: "threadEvent gochan"
  th_done :: bool
  th_closed :: bool
  th_activeTurnID :: string
  th_compactSub :: "nat ptr"
  th_heap :: "(nat \<times> contextCompacted gochan) list"
  th_next :: nat

definition newThread :: "string \<Rightarrow> thread" where
  "newThread i = \<lparr>th_id = i, th_model = [], th_cwd = [], th_inbox = make_chan ThreadInboxBuffer, th_done = False, th_closed = False,
     th_activeTurnID = [], th_compactSub = None, th_heap = [], th_next = 0\<rparr>"

definition chan_at :: "thread \<Rightarrow> nat \<Rightarrow> contextCompacted gochan option" where
  "chan_at t a = map_of (th_heap t) a"

definition store_chan :: "nat \<Rightarrow> contextCompacted gochan \<Rightarrow> thread \<Rightarrow> thread" where
  "store_chan a c t = t\<lparr>th_heap := put a c (th_heap t)\<rparr>"

section \<open>Delivery\<close>

definition clearActiveTurnID :: "string \<Rightarrow> thread \<Rightarrow> thread" where
  "clearActiveTurnID turnID t =
     (if th_activeTurnID t = [] then t
      else if turnID = [] \<or> th_activeTurnID t = turnID then t\<lparr>th_activeTurnID := []\<rparr>
      else t)"

text \<open>The first two statements of \<open>deliverEvent\<close>: tracking the active turn.\<close>

definition track_turn :: "threadEvent \<Rightarrow> thread \<Rightarrow> thread" where
  "track_turn ev t =
     (let t1 = (case ev of EvTurnStarted ts \<Rightarrow> t\<lparr>th_activeTurnID := turnStarted_TurnID ts\<rparr> | _ \<Rightarrow> t)
      in if isTurnTerminus ev [] then clearActiveTurnID (turnIDFromTerminus ev) t1 else t1)"

text \<open>The tee to a compact subscription, whose \<open>select\<close> has a default branch.\<close>

definition tee_compact :: "threadEvent \<Rightarrow> thread \<Rightarrow> thread option" where
  "tee_compact ev t = (case ev of
      EvThread (EvContextCompacted cc) \<Rightarrow> (case th_compactSub t of
          None \<Rightarrow> Some t
        | Some a \<Rightarrow> (case chan_at t a of
            None \<Rightarrow> None
          | Some c \<Rightarrow> map_option (\<lambda>c'. store_chan a c' t) (chan_try_send cc c)))
    | _ \<Rightarrow> Some t)"

definition deliverEvent :: "threadEvent \<Rightarrow> thread \<Rightarrow> thread option" where
  "deliverEvent ev t =
     (if th_closed t then Some t
      else (case tee_compact ev (track_turn ev t) of
          None \<Rightarrow> None
        | Some t1 \<Rightarrow> map_option (\<lambda>c. t1\<lparr>th_inbox := c\<rparr>) (chan_try_send ev (th_inbox t1))))"

definition markClosed :: "thread \<Rightarrow> thread" where
  "markClosed t =
     (if th_closed t then t
      else (let t1 = t\<lparr>th_closed := True, th_done := True, th_compactSub := None\<rparr> in
            case th_compactSub t of
              None \<Rightarrow> t1
            | Some a \<Rightarrow> (case chan_at t a of None \<Rightarrow> t1 | Some c \<Rightarrow> store_chan a (chan_close c) t1)))"

section \<open>Compaction\<close>

text \<open>\<open>Compact\<close> up to the request: the subscription is installed, by a compare-and-swap, before the
  request is sent. Nothing holds a lock between the check of \<open>closed\<close> and the installation.\<close>

definition compact_install :: "thread \<Rightarrow> (goError + nat) \<times> thread" where
  "compact_install t =
     (if th_compactSub t \<noteq> None then
        (Inl (ErrText ''codex.Thread.Compact: another compaction already in flight''), t)
      else (let a = th_next t in
            (Inr a, store_chan a (make_chan 1) (t\<lparr>th_compactSub := Some a, th_next := a + 1\<rparr>))))"

definition compact_begin :: "thread \<Rightarrow> (goError + nat) \<times> thread" where
  "compact_begin t =
     (if th_closed t then (Inl (ErrText ''codex.Thread.Compact: thread closed''), t) else compact_install t)"

definition detach :: "nat \<Rightarrow> thread \<Rightarrow> thread" where
  "detach a t = (if th_compactSub t = Some a then t\<lparr>th_compactSub := None\<rparr> else t)"

text \<open>\<open>Compact\<close> after the response: a failed request detaches the subscription.\<close>

definition compact_end :: "nat \<Rightarrow> goError option \<Rightarrow> thread \<Rightarrow> (goError + nat) \<times> thread" where
  "compact_end a err t = (case err of Some e \<Rightarrow> (Inl e, detach a t) | None \<Rightarrow> (Inr a, t))"

text \<open>\<open>Wait\<close>: its \<open>select\<close> takes the context branch when the context is done (which it may do even
  when the channel is ready), the channel branch when a receive can go on, and blocks otherwise.\<close>

definition wait_ctx :: "nat \<Rightarrow> goError \<Rightarrow> thread \<Rightarrow> (goError + contextCompacted) \<times> thread" where
  "wait_ctx a ctxErr t = (Inl (ErrWrap ''codex.CompactResult.Wait'' ctxErr), detach a t)"

definition wait_recv :: "nat \<Rightarrow> thread \<Rightarrow> ((goError + contextCompacted) \<times> thread) option" where
  "wait_recv a t = (case chan_at t a of
      None \<Rightarrow> None
    | Some c \<Rightarrow> (case chan_recv c of
        (Received ev, c') \<Rightarrow> Some (Inr ev, detach a (store_chan a c' t))
      | (ChanClosed, c') \<Rightarrow> Some
          (Inl (ErrText ''codex.CompactResult.Wait: thread closed before compact completed''), detach a t)
      | (WouldBlock, c') \<Rightarrow> None))"

section \<open>Steps\<close>

text \<open>The operations of the dispatcher, of the callers and of a stream that consumes the inbox. A
  \<open>Compact\<close> that found the thread open may install its subscription after the thread was closed.\<close>

inductive thstep :: "thread \<Rightarrow> thread \<Rightarrow> bool" where
  th_deliver: "deliverEvent ev t = Some t' \<Longrightarrow> thstep t t'"
| th_close: "thstep t (markClosed t)"
| th_take: "chan_recv (th_inbox t) = (Received ev, c) \<Longrightarrow> thstep t (t\<lparr>th_inbox := c\<rparr>)"
| th_turn_started: "thstep t (t\<lparr>th_activeTurnID := turnID\<rparr>)"
| th_compact_install: "thstep t (snd (compact_install t))"
| th_compact_failed: "thstep t (snd (compact_end a (Some e) t))"
| th_wait_ctx: "thstep t (snd (wait_ctx a e t))"
| th_wait: "wait_recv a t = Some (r, t') \<Longrightarrow> thstep t t'"

inductive threach :: "thread \<Rightarrow> thread \<Rightarrow> bool" for t0 where
  threach_refl: "threach t0 t0"
| threach_step: "threach t0 t \<Longrightarrow> thstep t t' \<Longrightarrow> threach t0 t'"

section \<open>Invariants\<close>

text \<open>The inbox is never closed and keeps its bound; a subscription points to an open channel; addresses
  are fresh.\<close>

definition th_ok :: "thread \<Rightarrow> bool" where
  "th_ok t = (chan_ok (th_inbox t) \<and> ch_cap (th_inbox t) = ThreadInboxBuffer \<and> \<not> ch_closed (th_inbox t) \<and>
     th_done t = th_closed t \<and>
     (\<forall>a. th_compactSub t = Some a \<longrightarrow> (\<exists>c. chan_at t a = Some c \<and> \<not> ch_closed c)) \<and>
     (\<forall>a c. chan_at t a = Some c \<longrightarrow> a < th_next t \<and> ch_cap c = 1 \<and> length (ch_buf c) \<le> 1))"

lemmas th_defs = deliverEvent_def tee_compact_def track_turn_def clearActiveTurnID_def markClosed_def
  compact_install_def compact_begin_def compact_end_def wait_ctx_def wait_recv_def detach_def store_chan_def chan_at_def
  chan_try_send_def chan_recv_def

lemma chan_at_store [simp]: "chan_at (store_chan a c t) b = (if b = a then Some c else chan_at t b)"
  by (simp add: chan_at_def store_chan_def)

lemma store_chan_simps [simp]:
  "th_inbox (store_chan a c t) = th_inbox t" "th_done (store_chan a c t) = th_done t"
  "th_closed (store_chan a c t) = th_closed t" "th_compactSub (store_chan a c t) = th_compactSub t"
  "th_next (store_chan a c t) = th_next t" "th_activeTurnID (store_chan a c t) = th_activeTurnID t"
  by (simp_all add: store_chan_def)

lemma chan_at_frame [simp]:
  "chan_at (t\<lparr>th_inbox := q\<rparr>) a = chan_at t a" "chan_at (t\<lparr>th_activeTurnID := s\<rparr>) a = chan_at t a"
  "chan_at (t\<lparr>th_compactSub := p\<rparr>) a = chan_at t a" "chan_at (t\<lparr>th_next := n\<rparr>) a = chan_at t a"
  "chan_at (t\<lparr>th_done := d\<rparr>) a = chan_at t a" "chan_at (t\<lparr>th_closed := d\<rparr>) a = chan_at t a"
  by (simp_all add: chan_at_def)

lemma track_turn_frame [simp]:
  "th_inbox (track_turn ev t) = th_inbox t" "th_done (track_turn ev t) = th_done t"
  "th_closed (track_turn ev t) = th_closed t" "th_compactSub (track_turn ev t) = th_compactSub t"
  "th_next (track_turn ev t) = th_next t" "chan_at (track_turn ev t) a = chan_at t a"
  by (cases ev; simp add: track_turn_def clearActiveTurnID_def)+

lemma th_ok_track [simp]: "th_ok (track_turn ev t) = th_ok t"
  by (simp add: th_ok_def)

lemma th_ok_new [simp]: "th_ok (newThread i)"
  by (simp add: th_ok_def newThread_def chan_ok_def chan_at_def)

text \<open>The tee finds the subscription's channel open, so it never panics.\<close>

lemma tee_ok:
  assumes "th_ok t"
  shows "\<exists>t'. tee_compact ev t = Some t' \<and> th_ok t' \<and> th_inbox t' = th_inbox t \<and>
     th_closed t' = th_closed t \<and> th_activeTurnID t' = th_activeTurnID t \<and>
     (\<forall>a. th_compactSub t \<noteq> Some a \<longrightarrow> chan_at t' a = chan_at t a) \<and>
     th_compactSub t' = th_compactSub t \<and> th_next t' = th_next t"
proof (cases "\<exists>cc a. ev = EvThread (EvContextCompacted cc) \<and> th_compactSub t = Some a")
  case True
  then obtain cc a c where "ev = EvThread (EvContextCompacted cc)" "th_compactSub t = Some a"
      "chan_at t a = Some c" "\<not> ch_closed c" using assms by (auto simp: th_ok_def)
  with assms show ?thesis
    by (auto simp: tee_compact_def th_ok_def chan_try_send_def Suc_le_eq)
next
  case False
  with assms show ?thesis
    by (auto simp: tee_compact_def split: threadEvent.splits eventOfThread.splits option.splits)
qed

lemma deliver_event_ok:
  assumes "th_ok t"
  shows "\<exists>t'. deliverEvent ev t = Some t' \<and> th_ok t' \<and> th_closed t' = th_closed t \<and>
     th_compactSub t' = th_compactSub t \<and> th_next t' = th_next t \<and>
     (\<forall>a. th_compactSub t \<noteq> Some a \<longrightarrow> chan_at t' a = chan_at t a) \<and>
     ch_buf (th_inbox t') = (if th_closed t \<or> ThreadInboxBuffer \<le> length (ch_buf (th_inbox t))
                             then ch_buf (th_inbox t) else ch_buf (th_inbox t) @ [ev]) \<and>
     th_activeTurnID t' = (if th_closed t then th_activeTurnID t else th_activeTurnID (track_turn ev t))"
proof (cases "th_closed t")
  case False
  obtain t1 where "tee_compact ev (track_turn ev t) = Some t1" "th_ok t1" "th_inbox t1 = th_inbox t"
      "th_closed t1 = th_closed t" "th_activeTurnID t1 = th_activeTurnID (track_turn ev t)"
      "\<forall>a. th_compactSub t \<noteq> Some a \<longrightarrow> chan_at t1 a = chan_at t a"
      "th_compactSub t1 = th_compactSub t" "th_next t1 = th_next t"
    using tee_ok [of "track_turn ev t" ev] assms by auto
  with False show ?thesis
    by (auto simp: deliverEvent_def chan_try_send_def th_ok_def chan_ok_def)
qed (simp add: deliverEvent_def assms)

lemma th_ok_deliver: "th_ok t \<Longrightarrow> deliverEvent ev t = Some t' \<Longrightarrow> th_ok t'"
  using deliver_event_ok [of t ev] by auto

lemma th_ok_detach: "th_ok t \<Longrightarrow> th_ok (detach a t)"
  by (auto simp: th_ok_def detach_def)

lemma th_ok_close: "th_ok t \<Longrightarrow> th_ok (markClosed t)"
  by (auto simp: th_ok_def markClosed_def Let_def split: option.splits)

lemma th_ok_install: "th_ok t \<Longrightarrow> th_ok (snd (compact_install t))"
  by (auto simp: th_ok_def compact_install_def Let_def less_SucI)

lemma thstep_begin: "snd (compact_begin t) = t \<or> thstep t (snd (compact_begin t))"
  by (simp add: compact_begin_def th_compact_install)

lemma wait_recvE:
  assumes "wait_recv a t = Some (r, t')"
  obtains (event) ev c where "r = Inr ev" and "chan_at t a = Some c" and "ch_buf c = ev # tl (ch_buf c)"
      and "t' = detach a (store_chan a (c\<lparr>ch_buf := tl (ch_buf c)\<rparr>) t)"
  | (closed) e c where "r = Inl e" and "chan_at t a = Some c" and "ch_closed c" and "t' = detach a t"
  using assms by (auto simp: wait_recv_def chan_recv_def split: option.splits list.splits if_splits)

lemma th_ok_wait: "th_ok t \<Longrightarrow> wait_recv a t = Some (r, t') \<Longrightarrow> th_ok t'"
proof (erule wait_recvE)
  fix ev c
  assume "th_ok t" "chan_at t a = Some c" "t' = detach a (store_chan a (c\<lparr>ch_buf := tl (ch_buf c)\<rparr>) t)"
  moreover from this have "th_ok (store_chan a (c\<lparr>ch_buf := tl (ch_buf c)\<rparr>) t)"
    by (auto simp: th_ok_def)
  ultimately show "th_ok t'" by (simp add: th_ok_detach)
qed (simp add: th_ok_detach)

lemma th_ok_step: "thstep t t' \<Longrightarrow> th_ok t \<Longrightarrow> th_ok t'"
proof (induction rule: thstep.induct)
  case (th_take t ev c)
  then show ?case using chan_recv_Received [OF th_take(1)] by (auto simp: th_ok_def chan_ok_def)
next
  case (th_turn_started t turnID)
  then show ?case by (simp add: th_ok_def)
qed (auto simp: compact_end_def wait_ctx_def intro: th_ok_deliver th_ok_close th_ok_install th_ok_detach th_ok_wait)

lemma threach_ok: "threach t0 t \<Longrightarrow> th_ok t0 \<Longrightarrow> th_ok t"
  by (induction rule: threach.induct) (auto intro: th_ok_step)

text \<open>A channel nobody subscribes to any more never changes except by its own receives: here an empty
  one stays empty.\<close>

definition drained :: "nat \<Rightarrow> bool \<Rightarrow> thread \<Rightarrow> bool" where
  "drained a cl t = (th_ok t \<and> th_compactSub t \<noteq> Some a \<and> a < th_next t \<and>
     (\<exists>c. chan_at t a = Some c \<and> ch_buf c = [] \<and> ch_closed c = cl))"

lemma drained_detach: "drained a cl t \<Longrightarrow> drained a cl (detach b t)"
  by (auto simp: drained_def detach_def th_ok_def)

lemma drained_wait_recv:
  assumes d: "drained a cl t" and w: "wait_recv b t = Some (r, t')"
  shows "drained a cl t'"
  using w
proof (cases rule: wait_recvE)
  case (event ev c)
  with d have "a \<noteq> b" by (auto simp: drained_def)
  moreover have "th_ok t'" using d w th_ok_wait by (auto simp: drained_def)
  ultimately show ?thesis using d event by (auto simp: drained_def detach_def)
qed (simp add: d drained_detach)

lemma drained_close: "drained a cl t \<Longrightarrow> drained a cl (markClosed t)"
  using th_ok_close [of t] by (auto simp: drained_def markClosed_def Let_def split: option.splits)

lemma drained_install: "drained a cl t \<Longrightarrow> drained a cl (snd (compact_install t))"
  using th_ok_install [of t] by (auto simp: drained_def compact_install_def Let_def)

lemma drained_step: "thstep t t' \<Longrightarrow> drained a cl t \<Longrightarrow> drained a cl t'"
proof (induction rule: thstep.induct)
  case (th_deliver ev t t')
  then show ?case using deliver_event_ok [of t ev] by (auto simp: drained_def)
next
  case (th_take t ev c)
  then show ?case using th_ok_step [OF thstep.th_take] by (auto simp: drained_def)
next
  case (th_turn_started t turnID)
  then show ?case by (auto simp: drained_def th_ok_def)
qed (auto simp: compact_end_def wait_ctx_def intro: drained_detach drained_close drained_install drained_wait_recv)

lemma drained_reach: "threach t0 t \<Longrightarrow> drained a cl t0 \<Longrightarrow> drained a cl t"
  by (induction rule: threach.induct) (auto intro: drained_step)

lemma drained_wait:
  "drained a cl t \<Longrightarrow> wait_recv a t = (if cl
     then Some (Inl (ErrText ''codex.CompactResult.Wait: thread closed before compact completed''), detach a t) else None)"
  by (auto simp: drained_def wait_recv_def chan_recv_def split: option.splits)

lemma wait_event_drained:
  assumes "th_ok t" and "wait_recv a t = Some (Inr ev, t')"
  shows "\<exists>c. chan_at t a = Some c \<and> drained a (ch_closed c) t' \<and> (th_compactSub t = Some a \<longrightarrow> \<not> ch_closed c)"
proof -
  obtain c where c: "chan_at t a = Some c" "ch_buf c = ev # tl (ch_buf c)"
    "t' = detach a (store_chan a (c\<lparr>ch_buf := tl (ch_buf c)\<rparr>) t)"
    using assms(2) by (auto elim: wait_recvE)
  have "length (ch_buf c) \<le> 1" and lt: "a < th_next t"
    using assms(1) c(1) by (auto simp: th_ok_def)
  with c(2) have "ch_buf c = [ev]" by (cases "ch_buf c") auto
  moreover note lt
  moreover have "th_ok t'" using assms th_ok_wait by blast
  ultimately show ?thesis using c assms(1)
    by (intro exI [of _ c]) (auto simp: drained_def detach_def th_ok_def)
qed

section \<open>Properties\<close>

text \<open>The dispatcher is never held up by a thread: in every reachable state delivering an event
  succeeds without blocking or panicking, the inbox stays within its 256 slots, and the event is
  appended at the end unless the thread is closed or the inbox is full, when it is dropped.\<close>

theorem deliver_never_blocks:
  assumes "threach (newThread i) t"
  shows "\<exists>t'. deliverEvent ev t = Some t' \<and> length (ch_buf (th_inbox t')) \<le> 256 \<and>
     ch_buf (th_inbox t') = (if th_closed t \<or> 256 \<le> length (ch_buf (th_inbox t))
                             then ch_buf (th_inbox t) else ch_buf (th_inbox t) @ [ev])"
proof -
  have "th_ok t" using assms by (rule threach_ok) simp
  then obtain t' where "deliverEvent ev t = Some t'" "th_ok t'"
      "ch_buf (th_inbox t') = (if th_closed t \<or> ThreadInboxBuffer \<le> length (ch_buf (th_inbox t))
         then ch_buf (th_inbox t) else ch_buf (th_inbox t) @ [ev])"
    using deliver_event_ok by metis
  then show ?thesis by (auto simp: th_ok_def chan_ok_def ThreadInboxBuffer_def)
qed

theorem deliver_never_blocks_witness:
  "deliverEvent (EvSystem EvSkillsChanged) (newThread ''t'') \<noteq> None"
  using deliver_never_blocks [OF threach_refl, of "EvSystem EvSkillsChanged" "''t''"] by auto


definition sample_compacted :: contextCompacted where
  "sample_compacted = \<lparr>contextCompacted_ThreadID = ''t'', contextCompacted_TurnID = ''u''\<rparr>"


end
