(* ===== verification/Turn_Stream.thy ===== *)
theory Turn_Stream
  imports Threads
begin

text \<open>
  One turn of a thread: the goroutine \<open>streamLoop\<close> between the thread's inbox and the caller's channel,
  interleaved with the dispatcher, the consumer, cancellation and closing (\<open>threads.go\<close>), the
  specification of what a turn's channel carries, and the buffered wrapper \<open>Run\<close>.
\<close>

section \<open>Specification: the events of a turn\<close>

text \<open>The turn id the loop waits for, after it forwarded an event.\<close>

definition next_expected :: "string \<Rightarrow> threadEvent \<Rightarrow> string" where
  "next_expected x ev = (if x = [] then (case ev of EvTurnStarted ts \<Rightarrow> turnStarted_TurnID ts | _ \<Rightarrow> x) else x)"

text \<open>What the loop makes of a list of inbox events: the events forwarded, the id it waits for then,
  whether the turn is over, and what is left in the inbox.\<close>

fun turn_events :: "string \<Rightarrow> threadEvent list \<Rightarrow> threadEvent list \<times> string \<times> bool \<times> threadEvent list" where
  "turn_events x [] = ([], x, False, [])"
| "turn_events x (ev # evs) =
     (let x' = next_expected x ev in
      if isTurnTerminus ev x' then ([ev], x', True, evs)
      else (case turn_events x' evs of (out, y, fin, rest) \<Rightarrow> (ev # out, y, fin, rest)))"

section \<open>The loop\<close>

datatype streamPhase = Selecting | Forwarding threadEvent | Finished bool

text \<open>The stream of one turn: the id given by the response, the id waited for, where the loop is (a
  finished loop knows whether it saw the end of the turn), the caller's channel, and whether this
  turn holds the thread's \<open>turnMu\<close>. The last three fields record what the inbox accepted since the
  start, what the loop sent and what the caller received; nothing reads them.\<close>

record turnStream =
  tn_thread :: thread
  tn_first :: string
  tn_expected :: string
  tn_phase :: streamPhase
  tn_out :: "threadEvent gochan"
  tn_locked :: bool
  tn_accepted :: "threadEvent list"
  tn_sent :: "threadEvent list"
  tn_got :: "threadEvent list"

definition start_stream :: "string \<Rightarrow> thread \<Rightarrow> turnStream" where
  "start_stream turnID t =
     \<lparr>tn_thread = (if turnID \<noteq> [] then t\<lparr>th_activeTurnID := turnID\<rparr> else t),
      tn_first = turnID, tn_expected = turnID, tn_phase = Selecting, tn_out = make_chan ThreadInboxBuffer,
      tn_locked = True, tn_accepted = ch_buf (th_inbox t), tn_sent = [], tn_got = []\<rparr>"

definition finish :: "bool \<Rightarrow> turnStream \<Rightarrow> turnStream" where
  "finish over s = s\<lparr>tn_phase := Finished over, tn_out := chan_close (tn_out s), tn_locked := False\<rparr>"

text \<open>The part of the loop after the event was sent to the caller.\<close>

definition after_forward :: "threadEvent \<Rightarrow> turnStream \<Rightarrow> turnStream" where
  "after_forward ev s =
     (let s1 = s\<lparr>tn_expected := next_expected (tn_expected s) ev\<rparr> in
      if isTurnTerminus ev (tn_expected s1) then finish True s1 else s1\<lparr>tn_phase := Selecting\<rparr>)"

definition send_out :: "threadEvent \<Rightarrow> turnStream \<Rightarrow> turnStream option" where
  "send_out ev s = map_option
     (\<lambda>c. after_forward ev (s\<lparr>tn_out := c, tn_sent := tn_sent s @ [ev]\<rparr>)) (chan_send ev (tn_out s))"

definition running :: "turnStream \<Rightarrow> bool" where
  "running s = (case tn_phase s of Finished b \<Rightarrow> False | _ \<Rightarrow> True)"

text \<open>The dispatcher's delivery, recorded.\<close>

definition dispatch_to :: "threadEvent \<Rightarrow> turnStream \<Rightarrow> turnStream option" where
  "dispatch_to ev s = map_option
     (\<lambda>t. s\<lparr>tn_thread := t,
            tn_accepted := tn_accepted s @ drop (length (ch_buf (th_inbox (tn_thread s)))) (ch_buf (th_inbox t))\<rparr>)
     (deliverEvent ev (tn_thread s))"

inductive tstep :: "turnStream \<Rightarrow> turnStream \<Rightarrow> bool" where
  t_deliver: "dispatch_to ev s = Some s' \<Longrightarrow> tstep s s'"
| t_take: "tn_phase s = Selecting \<Longrightarrow> chan_recv (th_inbox (tn_thread s)) = (Received ev, c) \<Longrightarrow>
    tstep s (s\<lparr>tn_thread := (tn_thread s)\<lparr>th_inbox := c\<rparr>, tn_phase := Forwarding ev\<rparr>)"
| t_forward: "tn_phase s = Forwarding ev \<Longrightarrow> send_out ev s = Some s' \<Longrightarrow> tstep s s'"
| t_canceled: "running s \<Longrightarrow> tstep s (finish False s)"
| t_close: "tstep s (s\<lparr>tn_thread := markClosed (tn_thread s)\<rparr>)"
| t_recv: "chan_recv (tn_out s) = (Received ev, c) \<Longrightarrow> tstep s (s\<lparr>tn_out := c, tn_got := tn_got s @ [ev]\<rparr>)"

inductive treach :: "turnStream \<Rightarrow> turnStream \<Rightarrow> bool" for s0 where
  treach_refl: "treach s0 s0"
| treach_step: "treach s0 s \<Longrightarrow> tstep s s' \<Longrightarrow> treach s0 s'"

section \<open>Lemmas on the specification\<close>

lemma turn_events_append:
  "turn_events x (evs @ evs2) = (case turn_events x evs of (out, y, fin, rest) \<Rightarrow>
     if fin then (out, y, fin, rest @ evs2)
     else (case turn_events y evs2 of (out', z, fin', rest') \<Rightarrow> (out @ out', z, fin', rest')))"
  by (induction x evs rule: turn_events.induct) (auto simp: Let_def split: prod.splits)

lemma turn_events_snoc:
  assumes "turn_events x evs = (evs, y, False, [])"
  shows "turn_events x (evs @ [ev]) =
     (evs @ [ev], next_expected y ev, isTurnTerminus ev (next_expected y ev), [])"
  using assms by (simp add: turn_events_append Let_def)

lemma turn_events_shape:
  "turn_events x evs = (out, y, fin, rest) \<Longrightarrow> evs = out @ rest \<and> (\<not> fin \<longrightarrow> rest = [])"
  by (induction x evs arbitrary: out y fin rest rule: turn_events.induct)
    (auto simp: Let_def split: prod.splits if_splits)

text \<open>A finished turn ends with a terminus of the id waited for, and no earlier event is one.\<close>

lemma next_expected_known [simp]: "x \<noteq> [] \<Longrightarrow> next_expected x ev = x"
  by (simp add: next_expected_def)

lemma turn_events_finished:
  "turn_events x evs = (out, y, True, rest) \<Longrightarrow>
     out \<noteq> [] \<and> isTurnTerminus (last out) y \<and> (x \<noteq> [] \<longrightarrow> y = x \<and> (\<forall>ev \<in> set (butlast out). \<not> isTurnTerminus ev x))"
proof (induction x evs arbitrary: out y rest rule: turn_events.induct)
  case (2 x ev evs)
  show ?case
  proof (cases "isTurnTerminus ev (next_expected x ev)")
    case True
    with 2(2) have o: "out = [ev]" "y = next_expected x ev" by (simp_all add: Let_def)
    with True show ?thesis by simp
  next
    case False
    then obtain out' where o: "turn_events (next_expected x ev) evs = (out', y, True, rest)" "out = ev # out'"
      using 2(2) by (simp add: Let_def split: prod.splits)
    note ih = 2(1) [OF refl False o(1)]
    show ?thesis
    proof (intro conjI impI)
      show "out \<noteq> []" "isTurnTerminus (last out) y" using ih o(2) by simp_all
      assume "x \<noteq> []"
      then have x: "next_expected x ev = x" by simp
      with ih \<open>x \<noteq> []\<close> show "y = x" by simp
      show "\<forall>ev \<in> set (butlast out). \<not> isTurnTerminus ev x"
        using ih o(2) x False \<open>x \<noteq> []\<close> by simp
    qed
  qed
qed simp

section \<open>The loop implements the specification\<close>

definition inbox_of :: "turnStream \<Rightarrow> threadEvent list" where
  "inbox_of s = ch_buf (th_inbox (tn_thread s))"

fun in_hand :: "streamPhase \<Rightarrow> threadEvent list" where
  "in_hand (Forwarding ev) = [ev]"
| "in_hand _ = []"

definition tn_inv :: "turnStream \<Rightarrow> bool" where
  "tn_inv s = (th_ok (tn_thread s) \<and> tn_locked s = running s \<and> ch_closed (tn_out s) = (\<not> running s) \<and>
     chan_ok (tn_out s) \<and> ch_cap (tn_out s) = ThreadInboxBuffer \<and> tn_got s @ ch_buf (tn_out s) = tn_sent s \<and>
     (case tn_phase s of
        Finished True \<Rightarrow> turn_events (tn_first s) (tn_accepted s) = (tn_sent s, tn_expected s, True, inbox_of s)
      | Finished False \<Rightarrow> prefix (tn_sent s) (fst (turn_events (tn_first s) (tn_accepted s)))
      | ph \<Rightarrow> tn_accepted s = tn_sent s @ in_hand ph @ inbox_of s \<and>
              turn_events (tn_first s) (tn_sent s) = (tn_sent s, tn_expected s, False, [])))"

lemma prefix_turn_events:
  assumes "turn_events x sent = (sent, y, False, [])"
  shows "prefix sent (fst (turn_events x (sent @ evs2)))"
  using assms by (auto simp: turn_events_append split: prod.splits)

lemma prefix_turn_events_more:
  "prefix sent (fst (turn_events x evs)) \<Longrightarrow> prefix sent (fst (turn_events x (evs @ evs2)))"
  by (cases "turn_events x evs") (auto simp: turn_events_append prefix_def split: prod.splits)

lemma th_ok_frame [simp]: "th_ok (t\<lparr>th_activeTurnID := u\<rparr>) = th_ok t"
  by (simp add: th_ok_def)

lemma tn_inv_start: "th_ok t \<Longrightarrow> tn_inv (start_stream u t)"
  by (simp add: tn_inv_def start_stream_def running_def inbox_of_def chan_ok_def)

lemma tn_inv_accept:
  assumes "tn_inv s" and "th_ok t" and "ch_buf (th_inbox t) = inbox_of s @ new"
  shows "tn_inv (s\<lparr>tn_thread := t, tn_accepted := tn_accepted s @ new\<rparr>)"
  using assms
  by (auto simp: tn_inv_def running_def inbox_of_def turn_events_append prefix_turn_events_more
      split: streamPhase.splits bool.splits prod.splits)

lemma tn_inv_dispatch:
  assumes "tn_inv s" and "dispatch_to ev s = Some s'"
  shows "tn_inv s'"
proof -
  have ok: "th_ok (tn_thread s)" using assms(1) by (simp add: tn_inv_def)
  from deliver_event_ok [OF ok, of ev] assms(2) obtain t where t: "deliverEvent ev (tn_thread s) = Some t" "th_ok t"
      "ch_buf (th_inbox t) = inbox_of s \<or> ch_buf (th_inbox t) = inbox_of s @ [ev]"
    by (auto simp: inbox_of_def)
  then obtain new where n: "ch_buf (th_inbox t) = inbox_of s @ new" by auto
  with assms(2) t(1) have "s' = s\<lparr>tn_thread := t, tn_accepted := tn_accepted s @ new\<rparr>"
    by (auto simp: dispatch_to_def inbox_of_def)
  with tn_inv_accept [OF assms(1) t(2) n] show ?thesis by simp
qed

lemma tn_inv_take:
  assumes "tn_inv s" and "tn_phase s = Selecting" and "chan_recv (th_inbox (tn_thread s)) = (Received ev, c)"
  shows "tn_inv (s\<lparr>tn_thread := (tn_thread s)\<lparr>th_inbox := c\<rparr>, tn_phase := Forwarding ev\<rparr>)"
proof -
  have "th_ok ((tn_thread s)\<lparr>th_inbox := c\<rparr>)"
    using assms(1,3) th_ok_step [OF th_take [OF assms(3)]] by (simp add: tn_inv_def)
  with assms chan_recv_Received [OF assms(3)] show ?thesis
    by (simp add: tn_inv_def running_def inbox_of_def)
qed

lemma tn_inv_forward:
  assumes inv: "tn_inv s" and ph: "tn_phase s = Forwarding ev" and snd: "send_out ev s = Some s'"
  shows "tn_inv s'"
proof -
  obtain c where c: "chan_send ev (tn_out s) = Some c"
    "s' = after_forward ev (s\<lparr>tn_out := c, tn_sent := tn_sent s @ [ev]\<rparr>)"
    using snd by (auto simp: send_out_def)
  have t: "turn_events (tn_first s) (tn_sent s) = (tn_sent s, tn_expected s, False, [])"
    and acc: "tn_accepted s = (tn_sent s @ [ev]) @ inbox_of s"
    using inv ph by (simp_all add: tn_inv_def)
  let ?y = "next_expected (tn_expected s) ev"
  note sn = turn_events_snoc [OF t, of ev]
  show ?thesis
  proof (cases "isTurnTerminus ev ?y")
    case True
    then have "turn_events (tn_first s) (tn_accepted s) = (tn_sent s @ [ev], ?y, True, inbox_of s)"
      unfolding acc using sn by (simp only: turn_events_append) simp
    with True inv c ph show ?thesis
      by (auto simp: tn_inv_def after_forward_def Let_def finish_def running_def chan_send_def chan_ok_def
          inbox_of_def split: if_splits)
  next
    case False
    with sn acc inv c ph show ?thesis
      by (auto simp: tn_inv_def after_forward_def Let_def running_def chan_send_def chan_ok_def
          inbox_of_def split: if_splits)
  qed
qed

lemma tn_inv_canceled:
  assumes "tn_inv s" and "running s"
  shows "tn_inv (finish False s)"
proof -
  have "turn_events (tn_first s) (tn_sent s) = (tn_sent s, tn_expected s, False, [])"
    "\<exists>rest. tn_accepted s = tn_sent s @ rest"
    using assms by (auto simp: tn_inv_def running_def split: streamPhase.splits)
  then have "prefix (tn_sent s) (fst (turn_events (tn_first s) (tn_accepted s)))"
    using prefix_turn_events by fastforce
  with assms show ?thesis by (simp add: tn_inv_def finish_def running_def chan_ok_def)
qed

lemma tn_inv_step: "tstep s s' \<Longrightarrow> tn_inv s \<Longrightarrow> tn_inv s'"
proof (induction rule: tstep.induct)
  case (t_close s)
  have "ch_buf (th_inbox (markClosed (tn_thread s))) = inbox_of s"
    by (auto simp: markClosed_def Let_def inbox_of_def split: option.splits)
  then show ?case
    using tn_inv_accept [OF t_close, of "markClosed (tn_thread s)" "[]"] t_close
    by (simp add: tn_inv_def th_ok_close)
next
  case (t_recv s ev c)
  then show ?case using chan_recv_Received [OF t_recv(1)]
    by (auto simp: tn_inv_def running_def chan_ok_def inbox_of_def split: streamPhase.splits bool.splits)
qed (auto intro: tn_inv_dispatch tn_inv_take tn_inv_forward tn_inv_canceled)

lemma treach_inv: "treach s0 s \<Longrightarrow> tn_inv s0 \<Longrightarrow> tn_inv s"
  by (induction rule: treach.induct) (auto intro: tn_inv_step)

lemma tn_first_step: "tstep s s' \<Longrightarrow> tn_first s' = tn_first s"
  by (induction rule: tstep.induct)
    (auto simp: dispatch_to_def send_out_def after_forward_def finish_def Let_def split: if_splits)

lemma tn_first_reach: "treach s0 s \<Longrightarrow> tn_first s = tn_first s0"
  by (induction rule: treach.induct) (simp_all add: tn_first_step)

section \<open>Run\<close>

record turn =
  turn_ID :: string
  turn_ThreadID :: string
  turn_Status :: string
  turn_Items :: "threadItem list"
  turn_Events :: "threadEvent list"
  turn_Usage :: tokenUsage
  turn_FinalResponse :: string

definition new_turn :: "string \<Rightarrow> turn" where
  "new_turn threadID = \<lparr>turn_ID = [], turn_ThreadID = threadID, turn_Status = [], turn_Items = [],
     turn_Events = [], turn_Usage = zero_usage, turn_FinalResponse = []\<rparr>"

definition add_item :: "threadItem \<Rightarrow> turn \<Rightarrow> turn" where
  "add_item it tn = (case it of
      ItemAgentMessage msg \<Rightarrow> tn\<lparr>turn_Items := turn_Items tn @ [it], turn_FinalResponse := am_Text msg\<rparr>
    | _ \<Rightarrow> tn\<lparr>turn_Items := turn_Items tn @ [it]\<rparr>)"

text \<open>The loop over the channel: the turn, the latest usage snapshot, and the error of an early return.\<close>

fun run_loop :: "turn \<Rightarrow> tokenUsage \<Rightarrow> threadEvent list \<Rightarrow> turn \<times> tokenUsage \<times> goError option" where
  "run_loop tn latest [] = (tn, latest, None)"
| "run_loop tn0 latest (ev # evs) =
     (let tn = tn0\<lparr>turn_Events := turn_Events tn0 @ [ev]\<rparr> in
      case ev of
        EvTurnStarted e \<Rightarrow> run_loop (tn\<lparr>turn_ID := turnStarted_TurnID e\<rparr>) latest evs
      | EvItemCompleted e \<Rightarrow> run_loop (add_item (itemCompleted_Item e) tn) latest evs
      | EvTokenUsageUpdated e \<Rightarrow> run_loop tn (tokenUsageUpdated_Usage e) evs
      | EvTurnCompleted e \<Rightarrow> run_loop
          (tn\<lparr>turn_Status := turnCompleted_Status e,
              turn_Usage := (if turnCompleted_Usage e \<noteq> zero_usage then turnCompleted_Usage e else latest)\<rparr>)
          latest evs
      | EvTurnFailed e \<Rightarrow> (tn\<lparr>turn_Status := ''failed''\<rparr>, latest,
          Some (RPCError (- 1) (turnFailed_Message e) None))
      | _ \<Rightarrow> run_loop tn latest evs)"

definition Run :: "string \<Rightarrow> threadEvent list \<Rightarrow> goError option \<Rightarrow> turn \<times> goError option" where
  "Run threadID evs ctxErr = (case run_loop (new_turn threadID) zero_usage evs of
      (tn, latest, Some e) \<Rightarrow> (tn, Some e)
    | (tn, latest, None) \<Rightarrow>
        (if turn_Usage tn = zero_usage \<and> latest \<noteq> zero_usage then tn\<lparr>turn_Usage := latest\<rparr> else tn,
         map_option (ErrWrap ''codex.Thread.Run'') ctxErr))"

text \<open>The items, the last agent message and the failures of a list of events.\<close>

fun completed_item :: "threadEvent \<Rightarrow> threadItem list" where
  "completed_item (EvItemCompleted e) = [itemCompleted_Item e]"
| "completed_item _ = []"

fun message_text :: "threadItem \<Rightarrow> string list" where
  "message_text (ItemAgentMessage msg) = [am_Text msg]"
| "message_text _ = []"

fun is_turn_failed :: "threadEvent \<Rightarrow> bool" where
  "is_turn_failed (EvTurnFailed e) = True"
| "is_turn_failed _ = False"

definition last_or :: "'a \<Rightarrow> 'a list \<Rightarrow> 'a" where
  "last_or d xs = (if xs = [] then d else last xs)"

lemma add_item_simps [simp]:
  "turn_Items (add_item it tn) = turn_Items tn @ [it]" "turn_Events (add_item it tn) = turn_Events tn"
  "turn_FinalResponse (add_item it tn) = last_or (turn_FinalResponse tn) (message_text it)"
  "turn_ThreadID (add_item it tn) = turn_ThreadID tn"
  by (cases it; simp add: add_item_def last_or_def)+

lemma last_or_append [simp]: "last_or (last_or d xs) ys = last_or d (xs @ ys)"
  by (simp add: last_or_def)

text \<open>What the events say of the id and the status of the turn and of the usage: the snapshots, and what the
  last completion reports, its own usage or else the last snapshot before it.\<close>

fun started_id :: "threadEvent \<Rightarrow> string list" where
  "started_id (EvTurnStarted e) = [turnStarted_TurnID e]"
| "started_id _ = []"

fun completed_status :: "threadEvent \<Rightarrow> string list" where
  "completed_status (EvTurnCompleted e) = [turnCompleted_Status e]"
| "completed_status _ = []"

fun usage_snapshot :: "threadEvent \<Rightarrow> tokenUsage list" where
  "usage_snapshot (EvTokenUsageUpdated e) = [tokenUsageUpdated_Usage e]"
| "usage_snapshot _ = []"

definition last_snapshot :: "threadEvent list \<Rightarrow> tokenUsage" where
  "last_snapshot evs = last_or zero_usage (concat (map usage_snapshot evs))"

definition completion_usage :: "threadEvent list \<Rightarrow> tokenUsage" where
  "completion_usage evs = (case dropWhile (\<lambda>ev. completed_status ev = []) (rev evs) of
      EvTurnCompleted e # before \<Rightarrow>
        (if turnCompleted_Usage e \<noteq> zero_usage then turnCompleted_Usage e else last_snapshot (rev before))
    | _ \<Rightarrow> zero_usage)"

lemma last_or_snoc [simp]: "last_or d (xs @ [x]) = x"
  by (simp add: last_or_def)

lemma last_or_Nil [simp]: "last_or d [] = d"
  by (simp add: last_or_def)

lemma last_snapshot_snoc:
  "last_snapshot (evs @ [ev]) = (case ev of EvTokenUsageUpdated e \<Rightarrow> tokenUsageUpdated_Usage e | _ \<Rightarrow> last_snapshot evs)"
  by (cases ev) (simp_all add: last_snapshot_def)

lemma completion_usage_snoc:
  "completion_usage (evs @ [ev]) = (case ev of
      EvTurnCompleted e \<Rightarrow> (if turnCompleted_Usage e \<noteq> zero_usage then turnCompleted_Usage e else last_snapshot evs)
    | _ \<Rightarrow> completion_usage evs)"
  by (cases ev) (simp_all add: completion_usage_def)

lemma run_loop_append:
  "run_loop tn latest xs = (tn1, latest1, None) \<Longrightarrow> run_loop tn latest (xs @ ys) = run_loop tn1 latest1 ys"
proof (induction xs arbitrary: tn latest)
  case (Cons ev xs)
  then show ?case by (cases ev) (auto simp: Let_def)
qed simp

text \<open>The loop without a failed turn.\<close>

lemma add_item_usage [simp]:
  "turn_Usage (add_item it tn) = turn_Usage tn" "turn_ID (add_item it tn) = turn_ID tn" "turn_Status (add_item it tn) = turn_Status tn"
  by (cases it; simp add: add_item_def)+

definition collected :: "string \<Rightarrow> threadEvent list \<Rightarrow> tokenUsage \<Rightarrow> turn" where
  "collected threadID evs usage = \<lparr>turn_ID = last_or [] (concat (map started_id evs)), turn_ThreadID = threadID,
     turn_Status = last_or [] (concat (map completed_status evs)), turn_Items = concat (map completed_item evs),
     turn_Events = evs, turn_Usage = usage,
     turn_FinalResponse = last_or [] (concat (map message_text (concat (map completed_item evs))))\<rparr>"

lemma run_loop_no_failure:
  "list_all (\<lambda>ev. \<not> is_turn_failed ev) evs \<Longrightarrow>
     run_loop (new_turn threadID) zero_usage evs = (collected threadID evs (completion_usage evs), last_snapshot evs, None)"
proof (induction evs rule: rev_induct)
  case Nil
  show ?case by (simp add: new_turn_def collected_def completion_usage_def last_snapshot_def)
next
  case (snoc ev evs)
  then have "run_loop (new_turn threadID) zero_usage evs = (collected threadID evs (completion_usage evs), last_snapshot evs, None)"
    by simp
  from run_loop_append [OF this, of "[ev]"] snoc.prems show ?case
    by (cases ev) (auto simp: Let_def last_snapshot_snoc completion_usage_snoc collected_def intro: turn.equality)
qed

section \<open>Properties\<close>

text \<open>The stream of a turn implements its specification under every interleaving with the
  dispatcher, the consumer, cancellation and closing: a stream that ended by itself has sent exactly
  the events the inbox accepted since the start up to the end of the turn, in order, and left the
  others in the inbox; a stream that is running or was cancelled has sent a prefix of them. What was
  sent is what the consumer got and what is still in its channel.\<close>

theorem turn_stream_refines_spec:
  assumes "threach (newThread i) t" and "treach (start_stream u t) s"
  shows "tn_got s @ ch_buf (tn_out s) = tn_sent s \<and>
     prefix (tn_sent s) (fst (turn_events u (tn_accepted s))) \<and>
     (case tn_phase s of Finished True \<Rightarrow>
          turn_events u (tn_accepted s) = (tn_sent s, tn_expected s, True, ch_buf (th_inbox (tn_thread s)))
        | _ \<Rightarrow> True)"
proof -
  have "th_ok t" using assms(1) by (rule threach_ok) simp
  then have inv: "tn_inv s" using assms(2) treach_inv tn_inv_start by blast
  have u: "tn_first s = u" using tn_first_reach [OF assms(2)] by (simp add: start_stream_def)
  show ?thesis
  proof (cases "tn_phase s")
    case (Finished over)
    with inv u show ?thesis by (cases over) (auto simp: tn_inv_def inbox_of_def)
  next
    case Selecting
    with inv u prefix_turn_events [of u "tn_sent s" "tn_expected s"] show ?thesis by (simp add: tn_inv_def)
  next
    case (Forwarding ev)
    with inv u prefix_turn_events [of u "tn_sent s" "tn_expected s"] show ?thesis by (simp add: tn_inv_def)
  qed
qed

text \<open>A complete turn: the dispatcher delivers the end of turn \<open>u\<close>, the loop forwards it.\<close>

definition sample_terminus :: threadEvent where
  "sample_terminus = EvTurnFailed \<lparr>turnFailed_ThreadID = ''t'', turnFailed_TurnID = ''u'', turnFailed_Code = [],
     turnFailed_Message = ''boom''\<rparr>"

lemma sample_turn:
  "\<exists>s :: turnStream. treach (start_stream ''u'' (newThread ''t'')) s \<and> tn_phase s = Finished True \<and>
       tn_sent s = [sample_terminus] \<and> tn_accepted s = [sample_terminus]"
proof -
  let ?s0 = "start_stream ''u'' (newThread ''t'')"
  obtain s1 where s1: "dispatch_to sample_terminus ?s0 = Some s1" "tn_phase s1 = Selecting"
      "ch_buf (th_inbox (tn_thread s1)) = [sample_terminus]" "tn_accepted s1 = [sample_terminus]"
      "tn_out s1 = make_chan ThreadInboxBuffer" "tn_expected s1 = ''u''" "tn_sent s1 = []"
    by (simp add: dispatch_to_def start_stream_def newThread_def th_defs sample_terminus_def Let_def
        make_chan_def ThreadInboxBuffer_def)
  obtain c where c: "chan_recv (th_inbox (tn_thread s1)) = (Received sample_terminus, c)"
    using s1(3) by (simp add: chan_recv_def)
  let ?s2 = "s1\<lparr>tn_thread := (tn_thread s1)\<lparr>th_inbox := c\<rparr>, tn_phase := Forwarding sample_terminus\<rparr>"
  obtain s3 where s3: "send_out sample_terminus ?s2 = Some s3" "tn_phase s3 = Finished True"
      "tn_sent s3 = [sample_terminus]" "tn_accepted s3 = [sample_terminus]"
    using s1(4-7) by (simp add: send_out_def chan_send_def make_chan_def ThreadInboxBuffer_def after_forward_def
        finish_def sample_terminus_def Let_def)
  have "tstep s1 ?s2" by (rule t_take [OF s1(2) c])
  moreover have "tstep ?s2 s3" by (rule t_forward [OF _ s3(1)]) simp
  ultimately have "treach ?s0 s3"
    using t_deliver [OF s1(1)] treach_refl treach_step by metis
  with s3 show ?thesis by blast
qed

theorem turn_stream_refines_spec_witness:
  "\<exists>s :: turnStream. tn_phase s = Finished True \<and> prefix (tn_sent s) (fst (turn_events ''u'' [sample_terminus]))"
proof -
  obtain s where s: "treach (start_stream ''u'' (newThread ''t'')) s" "tn_phase s = Finished True"
    "tn_accepted s = [sample_terminus]" using sample_turn by blast
  from turn_stream_refines_spec [OF threach_refl s(1)]
  have "prefix (tn_sent s) (fst (turn_events ''u'' [sample_terminus]))" unfolding s(3) by blast
  with s(2) show ?thesis by (intro exI [of _ s] conjI)
qed

text \<open>A turn whose id is known ends with the first event that ends that turn, and no other turn's end
  stops it; its channel is closed and the turn lock is released exactly when the loop is over.\<close>

theorem turn_stream_ends_with_own_terminus:
  assumes "threach (newThread i) t" and "treach (start_stream u t) s" and "u \<noteq> []"
    and "tn_phase s = Finished True"
  shows "tn_sent s \<noteq> [] \<and> isTurnTerminus (last (tn_sent s)) u \<and>
     (\<forall>ev \<in> set (butlast (tn_sent s)). \<not> isTurnTerminus ev u) \<and>
     ch_closed (tn_out s) \<and> \<not> tn_locked s"
proof -
  have "th_ok t" using assms(1) by (rule threach_ok) simp
  then have inv: "tn_inv s" using assms(2) treach_inv tn_inv_start by blast
  have u: "tn_first s = u" using tn_first_reach [OF assms(2)] by (simp add: start_stream_def)
  with inv assms(4) have e: "turn_events u (tn_accepted s) = (tn_sent s, tn_expected s, True, inbox_of s)"
    by (simp add: tn_inv_def)
  note f = turn_events_finished [OF e]
  with assms(3) have y: "tn_expected s = u" by blast
  have "ch_closed (tn_out s)" "\<not> tn_locked s" using inv assms(4) by (simp_all add: tn_inv_def running_def)
  with f [unfolded y] assms(3) show ?thesis by blast
qed

theorem turn_stream_ends_with_own_terminus_witness:
  "\<exists>s :: turnStream. tn_sent s = [sample_terminus] \<and> isTurnTerminus (last (tn_sent s)) ''u'' \<and> \<not> tn_locked s"
proof -
  obtain s where s: "treach (start_stream ''u'' (newThread ''t'')) s" "tn_phase s = Finished True"
    "tn_sent s = [sample_terminus]" using sample_turn by blast
  from turn_stream_ends_with_own_terminus [OF threach_refl s(1) _ s(2)]
  have "isTurnTerminus (last (tn_sent s)) ''u'' \<and> \<not> tn_locked s" by simp
  with s(3) show ?thesis by (intro exI [of _ s] conjI) simp_all
qed

text \<open>C16: \<open>Run\<close> collects the turn: without a failed turn among the events it received, it returns all of
  them, the id of the turn that started last and the status of the one completed last, the completed
  items in order, as the final response the text of the last agent message (not the concatenation of
  all of them), and as the usage the one the completion reports or, where it reports none, the last
  snapshot before it, or the last of all where there was none before; its error is the context's.\<close>

theorem run_collects_turn:
  assumes "list_all (\<lambda>ev. \<not> is_turn_failed ev) evs" and "Run threadID evs ctxErr = (tn, err)"
  shows "turn_Events tn = evs \<and> turn_Items tn = concat (map completed_item evs) \<and>
     turn_FinalResponse tn = last_or [] (concat (map message_text (turn_Items tn))) \<and>
     turn_ThreadID tn = threadID \<and> turn_ID tn = last_or [] (concat (map started_id evs)) \<and>
     turn_Status tn = last_or [] (concat (map completed_status evs)) \<and>
     turn_Usage tn = (if completion_usage evs \<noteq> zero_usage then completion_usage evs else last_snapshot evs) \<and>
     err = map_option (ErrWrap ''codex.Thread.Run'') ctxErr"
proof -
  have t: "tn = collected threadID evs (if completion_usage evs \<noteq> zero_usage then completion_usage evs else last_snapshot evs)"
    and e: "err = map_option (ErrWrap ''codex.Thread.Run'') ctxErr"
    using assms(2) by (auto simp: Run_def run_loop_no_failure [OF assms(1)] collected_def split: if_splits)
  show ?thesis unfolding t e by (simp add: collected_def)
qed

theorem run_collects_turn_witness:
  "turn_FinalResponse (fst (Run ''t'' [EvItemCompleted \<lparr>itemCompleted_ThreadID = ''t'', itemCompleted_TurnID = ''u'',
     itemCompleted_ItemID = ''i'', itemCompleted_Item = ItemAgentMessage \<lparr>am_ID = ''i'', am_Text = ''hi'',
     am_Phase = [], am_MemoryCitation = None\<rparr>\<rparr>] None)) = ''hi''"
proof -
  let ?evs = "[EvItemCompleted \<lparr>itemCompleted_ThreadID = ''t'', itemCompleted_TurnID = ''u'',
     itemCompleted_ItemID = ''i'', itemCompleted_Item = ItemAgentMessage \<lparr>am_ID = ''i'', am_Text = ''hi'',
     am_Phase = [], am_MemoryCitation = None\<rparr>\<rparr>]"
  obtain tn err where r: "Run ''t'' ?evs None = (tn, err)" by fastforce
  from run_collects_turn [OF _ r] r show ?thesis by (simp add: last_or_def)
qed

text \<open>\<open>Run\<close> does not look at the turn id of a failure: the end of another turn that is still in the
  inbox (of a turn whose caller was cancelled, say) is forwarded to the new turn's channel without
  ending the stream, and \<open>Run\<close> returns it as the failure of the new turn, whatever follows.\<close>

theorem run_reports_foreign_failure:
  assumes "v \<noteq> []" and "turnFailed_TurnID e \<noteq> v"
  shows "turn_events v (EvTurnFailed e # evs) =
       (case turn_events v evs of (out, y, fin, rest) \<Rightarrow> (EvTurnFailed e # out, y, fin, rest)) \<and>
     snd (Run threadID (EvTurnFailed e # evs) ctxErr) = Some (RPCError (- 1) (turnFailed_Message e) None) \<and>
     turn_Status (fst (Run threadID (EvTurnFailed e # evs) ctxErr)) = ''failed''"
  using assms by (simp add: Run_def Let_def)

theorem run_reports_foreign_failure_witness:
  "snd (Run ''t'' [sample_terminus] None) = Some (RPCError (- 1) ''boom'' None)"
  using run_reports_foreign_failure [of "''v''" "\<lparr>turnFailed_ThreadID = ''t'', turnFailed_TurnID = ''u'', turnFailed_Code = [],
     turnFailed_Message = ''boom''\<rparr>" "[]" "''t''" None]
  by (simp add: sample_terminus_def)

end
