(* ===== verification/Options.thy ===== *)
theory Options
  imports Semver Items
begin

text \<open>
  The options of a client and of a thread (\<open>types/options.go\<close>, \<open>types/sandbox.go\<close>, \<open>types/mcp.go\<close>,
  \<open>types/capabilities.go\<close>), the encoding of approval policies (\<open>approval_policy.go\<close>) and what depends
  on the version of the installed CLI (\<open>client_cli_compatibility.go\<close>). Of the callbacks, the logger
  and the observer only whether one is set matters here. A map whose keys reach the wire is an
  association list; \<open>marshal_map\<close> writes it with sorted keys, as \<open>encoding/json\<close> does.
\<close>

section \<open>Writing values\<close>

definition marshal_map :: "(string \<times> json) list \<Rightarrow> json" where
  "marshal_map m = JObj (sort_slice (\<lambda>p q. str_less (fst p) (fst q)) m)"

definition omit_zero :: "string \<Rightarrow> int \<Rightarrow> (string \<times> json) list" where
  "omit_zero k i = (if i = 0 then [] else [(k, JNum (render_int i))])"

definition omit_strs :: "string \<Rightarrow> string list \<Rightarrow> (string \<times> json) list" where
  "omit_strs k xs = (if xs = [] then [] else [(k, JArr (map JStr xs))])"

definition omit_str_map :: "string \<Rightarrow> (string \<times> string) list \<Rightarrow> (string \<times> json) list" where
  "omit_str_map k m = (if m = [] then [] else [(k, marshal_map (map (\<lambda>p. (fst p, JStr (snd p))) m))])"

section \<open>MCP servers\<close>

record mcpStdioConfig =
  mso_Command :: string
  mso_Args :: "string list"
  mso_EnvironmentVariables :: "(string \<times> string) list"
  mso_StartupTimeoutMs :: int
  mso_ToolTimeoutMs :: int
  mso_DefaultApprovalMode :: string

record mcpStreamableHTTPConfig =
  mht_URL :: string
  mht_AuthType :: string
  mht_BearerToken :: string
  mht_OAuthCallbackURI :: string
  mht_Headers :: "(string \<times> string) list"
  mht_StartupTimeoutMs :: int
  mht_ToolTimeoutMs :: int
  mht_DefaultApprovalMode :: string

datatype mcpServerConfig = McpStdio mcpStdioConfig | McpStreamableHTTP mcpStreamableHTTPConfig

fun mcpKind :: "mcpServerConfig \<Rightarrow> string" where
  "mcpKind (McpStdio c) = ''stdio''"
| "mcpKind (McpStreamableHTTP c) = ''http''"

fun encode_mcpServer :: "mcpServerConfig \<Rightarrow> json" where
  "encode_mcpServer (McpStdio c) = JObj ([(''command'', JStr (mso_Command c))]
     @ omit_strs ''args'' (mso_Args c)
     @ omit_str_map ''environment_variables'' (mso_EnvironmentVariables c)
     @ omit_zero ''startup_timeout_ms'' (mso_StartupTimeoutMs c)
     @ omit_zero ''tool_timeout_ms'' (mso_ToolTimeoutMs c)
     @ omit_empty ''default_tools_approval_mode'' (mso_DefaultApprovalMode c))"
| "encode_mcpServer (McpStreamableHTTP c) = JObj ([(''url'', JStr (mht_URL c))]
     @ omit_empty ''auth_type'' (mht_AuthType c)
     @ omit_empty ''bearer_token'' (mht_BearerToken c)
     @ omit_empty ''oauth_callback_uri'' (mht_OAuthCallbackURI c)
     @ omit_str_map ''headers'' (mht_Headers c)
     @ omit_zero ''startup_timeout_ms'' (mht_StartupTimeoutMs c)
     @ omit_zero ''tool_timeout_ms'' (mht_ToolTimeoutMs c)
     @ omit_empty ''default_tools_approval_mode'' (mht_DefaultApprovalMode c))"

section \<open>Client options\<close>

record codexOptions =
  co_CLIPath :: string
  co_ExtraArgs :: "string list"
  co_Env :: "string list"
  co_ReadBufferSize :: int
  co_Verbose :: bool
  co_ClientName :: string
  co_ClientVersion :: string
  co_ClientTitle :: string
  co_DefaultModel :: string
  co_DefaultCwd :: string
  co_DefaultSandbox :: string
  co_DefaultApprovalPolicy :: string
  co_DefaultMCPServers :: "(string \<times> mcpServerConfig) list"
  co_HookCallback :: bool
  co_HooksEnabled :: bool
  co_ShimPath :: string
  co_HookTimeout :: int
  co_HookConfigMode :: string
  co_ExperimentalAPI :: bool
  co_OptOutNotificationMethods :: "string list"
  co_MaxConsecutiveParseErrors :: "nat ptr"

definition SandboxReadOnly :: string where "SandboxReadOnly = ''read-only''"
definition ApprovalOnRequest :: string where "ApprovalOnRequest = ''on-request''"
definition ApprovalGranular :: string where "ApprovalGranular = ''granular''"
definition ApprovalOnFailure :: string where "ApprovalOnFailure = ''on-failure''"

definition NewCodexOptions :: codexOptions where
  "NewCodexOptions = \<lparr>co_CLIPath = [], co_ExtraArgs = [], co_Env = [], co_ReadBufferSize = 0,
     co_Verbose = False, co_ClientName = ''codex-agent-sdk-go'', co_ClientVersion = ''0.1.0'',
     co_ClientTitle = [], co_DefaultModel = [], co_DefaultCwd = [], co_DefaultSandbox = SandboxReadOnly,
     co_DefaultApprovalPolicy = ApprovalOnRequest, co_DefaultMCPServers = [], co_HookCallback = False,
     co_HooksEnabled = False, co_ShimPath = [], co_HookTimeout = 0, co_HookConfigMode = [],
     co_ExperimentalAPI = False, co_OptOutNotificationMethods = [], co_MaxConsecutiveParseErrors = None\<rparr>"

definition WithExtraArgs :: "string list \<Rightarrow> codexOptions \<Rightarrow> codexOptions" where
  "WithExtraArgs args o' = o'\<lparr>co_ExtraArgs := co_ExtraArgs o' @ args\<rparr>"

definition WithEnv :: "string list \<Rightarrow> codexOptions \<Rightarrow> codexOptions" where
  "WithEnv entries o' = o'\<lparr>co_Env := co_Env o' @ entries\<rparr>"

definition WithFeatureEnabled :: "string list \<Rightarrow> codexOptions \<Rightarrow> codexOptions" where
  "WithFeatureEnabled names o' = foldl
     (\<lambda>x n. if n = [] then x else x\<lparr>co_ExtraArgs := co_ExtraArgs x @ [''--enable'', n]\<rparr>) o' names"

definition WithHooks :: "bool \<Rightarrow> codexOptions \<Rightarrow> codexOptions" where
  "WithHooks enabled o' = (if enabled then o'\<lparr>co_HooksEnabled := True\<rparr> else o')"

definition WithHookCallback :: "bool \<Rightarrow> codexOptions \<Rightarrow> codexOptions" where
  "WithHookCallback is_set o' = WithHooks True (o'\<lparr>co_HookCallback := is_set\<rparr>)"

definition WithMaxConsecutiveParseErrors :: "nat \<Rightarrow> codexOptions \<Rightarrow> codexOptions" where
  "WithMaxConsecutiveParseErrors n o' = o'\<lparr>co_MaxConsecutiveParseErrors := Some n\<rparr>"

text \<open>The builder methods that set one field; a later call replaces what an earlier one set.\<close>

definition WithCLIPath :: "string \<Rightarrow> codexOptions \<Rightarrow> codexOptions" where
  "WithCLIPath path o' = o'\<lparr>co_CLIPath := path\<rparr>"

definition WithReadBufferSize :: "int \<Rightarrow> codexOptions \<Rightarrow> codexOptions" where
  "WithReadBufferSize n o' = o'\<lparr>co_ReadBufferSize := n\<rparr>"

definition WithVerbose :: "bool \<Rightarrow> codexOptions \<Rightarrow> codexOptions" where
  "WithVerbose v o' = o'\<lparr>co_Verbose := v\<rparr>"

definition WithClientInfo :: "string \<Rightarrow> string \<Rightarrow> string \<Rightarrow> codexOptions \<Rightarrow> codexOptions" where
  "WithClientInfo n v t o' = o'\<lparr>co_ClientName := n, co_ClientVersion := v, co_ClientTitle := t\<rparr>"

definition WithModel :: "string \<Rightarrow> codexOptions \<Rightarrow> codexOptions" where
  "WithModel m o' = o'\<lparr>co_DefaultModel := m\<rparr>"

definition WithCwd :: "string \<Rightarrow> codexOptions \<Rightarrow> codexOptions" where
  "WithCwd cwd o' = o'\<lparr>co_DefaultCwd := cwd\<rparr>"

definition WithSandbox :: "string \<Rightarrow> codexOptions \<Rightarrow> codexOptions" where
  "WithSandbox s o' = o'\<lparr>co_DefaultSandbox := s\<rparr>"

definition WithApprovalPolicy :: "string \<Rightarrow> codexOptions \<Rightarrow> codexOptions" where
  "WithApprovalPolicy p o' = o'\<lparr>co_DefaultApprovalPolicy := p\<rparr>"

definition WithMCPServers :: "(string \<times> mcpServerConfig) list \<Rightarrow> codexOptions \<Rightarrow> codexOptions" where
  "WithMCPServers servers o' = o'\<lparr>co_DefaultMCPServers := servers\<rparr>"

definition WithHookConfigMode :: "string \<Rightarrow> codexOptions \<Rightarrow> codexOptions" where
  "WithHookConfigMode mode o' = o'\<lparr>co_HookConfigMode := mode\<rparr>"

definition WithShimPath :: "string \<Rightarrow> codexOptions \<Rightarrow> codexOptions" where
  "WithShimPath path o' = o'\<lparr>co_ShimPath := path\<rparr>"

definition WithHookTimeout :: "int \<Rightarrow> codexOptions \<Rightarrow> codexOptions" where
  "WithHookTimeout d o' = o'\<lparr>co_HookTimeout := d\<rparr>"

definition WithExperimentalAPI :: "bool \<Rightarrow> codexOptions \<Rightarrow> codexOptions" where
  "WithExperimentalAPI enabled o' = o'\<lparr>co_ExperimentalAPI := enabled\<rparr>"

definition WithOptOutNotificationMethods :: "string list \<Rightarrow> codexOptions \<Rightarrow> codexOptions" where
  "WithOptOutNotificationMethods methods o' = o'\<lparr>co_OptOutNotificationMethods := methods\<rparr>"

text \<open>Enabling features is passing the flags as extra arguments, the empty names left out.\<close>

lemma feature_flags_are_args:
  "WithFeatureEnabled names o' = WithExtraArgs (concat (map (\<lambda>n. [''--enable'', n]) (filter (\<lambda>n. n \<noteq> []) names))) o'"
  by (induction names arbitrary: o') (simp_all add: WithFeatureEnabled_def WithExtraArgs_def)

section \<open>Thread and turn options\<close>

record threadOptions =
  to_Model :: string
  to_Cwd :: string
  to_Sandbox :: string
  to_ApprovalPolicy :: string
  to_MCPServers :: "(string \<times> mcpServerConfig) list"

record skillInput =
  sk_Name :: string
  sk_Path :: string

text \<open>The output schema and the collaboration mode are passed through: only their encoding is kept.\<close>

record runOptions =
  ro_OutputSchema :: "json option"
  ro_CollaborationMode :: "json option"
  ro_Skills :: "skillInput list"
  ro_Images :: "string list"

section \<open>Approval policies\<close>

record granularApprovalSettings =
  ga_MCPElicitations :: bool
  ga_Rules :: bool
  ga_SandboxApproval :: bool
  ga_SkillApproval :: bool
  ga_RequestPermissions :: bool

definition DefaultGranularApprovalSettings :: granularApprovalSettings where
  "DefaultGranularApprovalSettings = \<lparr>ga_MCPElicitations = True, ga_Rules = True, ga_SandboxApproval = True,
     ga_SkillApproval = False, ga_RequestPermissions = False\<rparr>"

definition omit_false :: "string \<Rightarrow> bool \<Rightarrow> (string \<times> json) list" where
  "omit_false k b = (if b then [(k, JBool True)] else [])"

definition encode_granular :: "granularApprovalSettings \<Rightarrow> json" where
  "encode_granular g = JObj ([(''mcp_elicitations'', JBool (ga_MCPElicitations g)),
     (''rules'', JBool (ga_Rules g)), (''sandbox_approval'', JBool (ga_SandboxApproval g))]
     @ omit_false ''skill_approval'' (ga_SkillApproval g)
     @ omit_false ''request_permissions'' (ga_RequestPermissions g))"

definition encodeApprovalPolicy :: "string \<Rightarrow> json" where
  "encodeApprovalPolicy policy =
     (if policy = ApprovalGranular then JObj [(''granular'', encode_granular DefaultGranularApprovalSettings)]
      else JStr policy)"

section \<open>CLI compatibility\<close>

definition hookTrustBypassMinVersion :: semVer where "hookTrustBypassMinVersion = SemVer 0 131 0"
definition canonicalHooksMinVersion :: semVer where "canonicalHooksMinVersion = SemVer 0 144 0"
definition approvalOnFailureEndVersion :: semVer where "approvalOnFailureEndVersion = SemVer 0 143 0"

definition cliCompatibilityArgs :: "codexOptions \<Rightarrow> semVer \<Rightarrow> bool \<Rightarrow> string list \<times> string list" where
  "cliCompatibilityArgs opts version versionKnown =
     (let hooksEnabled = co_HooksEnabled opts \<or> co_HookCallback opts;
          feature = (if versionKnown \<and> AtLeast version canonicalHooksMinVersion then ''hooks'' else ''codex_hooks'');
          extraArgs = co_ExtraArgs opts @ (if hooksEnabled then [''--enable'', feature] else []);
          globalArgs = (if co_HookCallback opts \<and> versionKnown \<and> AtLeast version hookTrustBypassMinVersion
                        then [''--dangerously-bypass-hook-trust''] else [])
      in (globalArgs, extraArgs))"

definition validateApprovalPolicyCompatibility :: "string \<Rightarrow> semVer \<Rightarrow> bool \<Rightarrow> goError option" where
  "validateApprovalPolicyCompatibility policy version versionKnown =
     (if policy \<noteq> ApprovalOnFailure \<or> \<not> versionKnown \<or> \<not> AtLeast version approvalOnFailureEndVersion
      then None
      else Some (UnsupportedApprovalPolicyError policy (sv_String version)))"

text \<open>\<open>Client.validateApprovalPolicy\<close>: the state is nil until the client has probed the CLI.\<close>

type_synonym cliCompatibilityState = "(semVer \<times> bool) option"

definition validateApprovalPolicy :: "cliCompatibilityState \<Rightarrow> string \<Rightarrow> goError option" where
  "validateApprovalPolicy state policy = (case state of
      None \<Rightarrow> None
    | Some (version, known) \<Rightarrow> validateApprovalPolicyCompatibility policy version known)"

definition validateThreadApprovalPolicy ::
  "cliCompatibilityState \<Rightarrow> codexOptions \<Rightarrow> threadOptions option \<Rightarrow> goError option" where
  "validateThreadApprovalPolicy state copts opts =
     validateApprovalPolicy state (case opts of
        Some t \<Rightarrow> (if to_ApprovalPolicy t \<noteq> [] then to_ApprovalPolicy t else co_DefaultApprovalPolicy copts)
      | None \<Rightarrow> co_DefaultApprovalPolicy copts)"

section \<open>Properties\<close>

text \<open>Hook trust is bypassed only for hooks the SDK wrote itself and only where the CLI knows the
  flag: the dangerous flag is passed exactly when a hook callback is set and the CLI is known to be
  0.131.0 or later, never because hooks were merely enabled; and the feature is always enabled
  under the name the CLI knows.\<close>

theorem hook_trust_bypass_iff:
  "(''--dangerously-bypass-hook-trust'' \<in> set (fst (cliCompatibilityArgs opts v known)) \<longleftrightarrow>
      co_HookCallback opts \<and> known \<and> SemVer 0 131 0 \<le> v) \<and>
   snd (cliCompatibilityArgs opts v known) = co_ExtraArgs opts @
      (if co_HooksEnabled opts \<or> co_HookCallback opts
       then [''--enable'', if known \<and> SemVer 0 144 0 \<le> v then ''hooks'' else ''codex_hooks''] else [])"
  by (auto simp: cliCompatibilityArgs_def Let_def semVer_le hookTrustBypassMinVersion_def
      canonicalHooksMinVersion_def)

end
