(* ===== verification/Thread_Start.thy ===== *)
theory Thread_Start
  imports Options
begin

text \<open>
  Requests and responses of the thread operations (\<open>threads.go\<close>): the parameters of \<open>turn/start\<close> and
  \<open>thread/start\<close>, how client defaults and per-call options combine, and reading the thread's id and
  model from a response.
\<close>

section \<open>turn/start\<close>

definition skill_input :: "skillInput \<Rightarrow> json" where
  "skill_input s = marshal_map [(''type'', JStr ''skill''), (''name'', JStr (sk_Name s)), (''path'', JStr (sk_Path s))]"

definition image_input :: "string \<Rightarrow> json" where
  "image_input p = marshal_map [(''type'', JStr ''localImage''), (''path'', JStr p)]"

text \<open>The two loops of \<open>buildTurnInput\<close>, each of which stops at its first malformed element.\<close>

fun add_skills :: "skillInput list \<Rightarrow> json list \<Rightarrow> goError + json list" where
  "add_skills [] out = Inr out"
| "add_skills (s # ss) out =
     (if sk_Name s = [] then Inl (ErrText ''codex.buildTurnInput: skill name is empty'')
      else if sk_Path s = [] then Inl (ErrText ''codex.buildTurnInput: skill path is empty'')
      else add_skills ss (out @ [skill_input s]))"

fun add_images :: "string list \<Rightarrow> json list \<Rightarrow> goError + json list" where
  "add_images [] out = Inr out"
| "add_images (p # ps) out =
     (if p = [] then Inl (ErrText ''codex.buildTurnInput: image path is empty'')
      else add_images ps (out @ [image_input p]))"

definition buildTurnInput :: "string \<Rightarrow> runOptions option \<Rightarrow> goError + json list" where
  "buildTurnInput prompt opts =
     (let out = [marshal_map [(''type'', JStr ''text''), (''text'', JStr prompt)]] in
      case opts of
        None \<Rightarrow> Inr out
      | Some r \<Rightarrow> (case add_skills (ro_Skills r) out of
            Inl e \<Rightarrow> Inl e
          | Inr out1 \<Rightarrow> add_images (ro_Images r) out1))"

definition put_opt :: "string \<Rightarrow> json option \<Rightarrow> (string \<times> json) list \<Rightarrow> (string \<times> json) list" where
  "put_opt k v m = (case v of None \<Rightarrow> m | Some j \<Rightarrow> put k j m)"

definition buildTurnStartParams :: "string \<Rightarrow> json list \<Rightarrow> runOptions option \<Rightarrow> (string \<times> json) list" where
  "buildTurnStartParams threadID input opts =
     (let p = put ''input'' (JArr input) (put ''threadId'' (JStr threadID) []) in
      case opts of
        None \<Rightarrow> p
      | Some r \<Rightarrow> put_opt ''collaborationMode'' (ro_CollaborationMode r)
                   (put_opt ''outputSchema'' (ro_OutputSchema r) p))"

section \<open>thread/start\<close>

definition resolveMCPServers ::
  "codexOptions option \<Rightarrow> threadOptions option \<Rightarrow> (string \<times> mcpServerConfig) list" where
  "resolveMCPServers clientOpts opts = (case opts of
      Some t \<Rightarrow> (if to_MCPServers t \<noteq> [] then to_MCPServers t
                 else case clientOpts of Some c \<Rightarrow> co_DefaultMCPServers c | None \<Rightarrow> [])
    | None \<Rightarrow> (case clientOpts of Some c \<Rightarrow> co_DefaultMCPServers c | None \<Rightarrow> []))"

definition put_str :: "string \<Rightarrow> string \<Rightarrow> (string \<times> json) list \<Rightarrow> (string \<times> json) list" where
  "put_str k v m = (if v = [] then m else put k (JStr v) m)"

definition put_policy :: "string \<Rightarrow> (string \<times> json) list \<Rightarrow> (string \<times> json) list" where
  "put_policy v m = (if v = [] then m else put ''approvalPolicy'' (encodeApprovalPolicy v) m)"

definition encode_mcpServers :: "(string \<times> mcpServerConfig) list \<Rightarrow> json" where
  "encode_mcpServers servers =
     marshal_map [(''mcp_servers'', marshal_map (map (\<lambda>p. (fst p, encode_mcpServer (snd p))) servers))]"

definition put_servers :: "(string \<times> mcpServerConfig) list \<Rightarrow> (string \<times> json) list \<Rightarrow> (string \<times> json) list" where
  "put_servers servers m = (if servers \<noteq> [] then put ''config'' (encode_mcpServers servers) m else m)"

definition buildThreadStartParams :: "codexOptions option \<Rightarrow> threadOptions option \<Rightarrow> (string \<times> json) list" where
  "buildThreadStartParams clientOpts opts =
     (let p1 = (case clientOpts of None \<Rightarrow> []
               | Some c \<Rightarrow> put_policy (co_DefaultApprovalPolicy c)
                   (put_str ''sandbox'' (co_DefaultSandbox c)
                     (put_str ''cwd'' (co_DefaultCwd c) (put_str ''model'' (co_DefaultModel c) []))));
          servers = resolveMCPServers clientOpts opts;
          p2 = put_servers servers p1
      in case opts of None \<Rightarrow> p2
         | Some t \<Rightarrow> put_policy (to_ApprovalPolicy t)
             (put_str ''sandbox'' (to_Sandbox t) (put_str ''cwd'' (to_Cwd t) (put_str ''model'' (to_Model t) p2))))"

definition resolveCwd :: "codexOptions \<Rightarrow> threadOptions option \<Rightarrow> string" where
  "resolveCwd c opts = (case opts of
      Some t \<Rightarrow> (if to_Cwd t \<noteq> [] then to_Cwd t else co_DefaultCwd c)
    | None \<Rightarrow> co_DefaultCwd c)"

section \<open>Responses\<close>

definition t_threadShape :: gotype where
  "t_threadShape = t_struct [(''threadId'', t_str), (''thread'', t_ptr (t_struct [(''id'', t_str)]))]"

definition extractThreadID :: "raw \<Rightarrow> goError + string" where
  "extractThreadID result = (case unmarshal t_threadShape result of (shape, ok) \<Rightarrow>
      if \<not> ok then Inl (JSONDecodeError result json_cause)
      else if f_str shape ''threadId'' \<noteq> [] then Inr (f_str shape ''threadId'')
      else (case f_ptr shape ''thread'' of
          Some t \<Rightarrow> (if f_str t ''id'' \<noteq> [] then Inr (f_str t ''id'')
                     else Inl (MessageParseError ''thread response missing thread id'' result))
        | None \<Rightarrow> Inl (MessageParseError ''thread response missing thread id'' result)))"

definition extractThreadModel :: "raw \<Rightarrow> string" where
  "extractThreadModel result = (case unmarshal (t_struct [(''model'', t_str)]) result of (shape, ok) \<Rightarrow>
      if ok then f_str shape ''model'' else [])"

text \<open>The id of the turn in a \<open>turn/start\<close> response; a response of another shape gives no id.\<close>

definition turn_id_of_response :: "raw \<Rightarrow> string" where
  "turn_id_of_response result =
     (case unmarshal (t_struct [(''turn'', t_struct [(''id'', t_str)])]) result of (shape, ok) \<Rightarrow>
        f_str (gfield shape ''turn'') ''id'')"

section \<open>Lemmas\<close>

lemma map_of_put_str [simp]:
  "map_of (put_str k v m) x = (if x = k \<and> v \<noteq> [] then Some (JStr v) else map_of m x)"
  by (simp add: put_str_def)

lemma map_of_put_policy [simp]:
  "map_of (put_policy v m) x =
     (if x = ''approvalPolicy'' \<and> v \<noteq> [] then Some (encodeApprovalPolicy v) else map_of m x)"
  by (simp add: put_policy_def)

lemma map_of_put_servers [simp]:
  "map_of (put_servers servers m) x =
     (if x = ''config'' \<and> servers \<noteq> [] then Some (encode_mcpServers servers) else map_of m x)"
  by (simp add: put_servers_def)

lemma buildThreadStartParams_both:
  "buildThreadStartParams (Some c) (Some t) =
     put_policy (to_ApprovalPolicy t) (put_str ''sandbox'' (to_Sandbox t) (put_str ''cwd'' (to_Cwd t)
       (put_str ''model'' (to_Model t)
         (put_servers (if to_MCPServers t \<noteq> [] then to_MCPServers t else co_DefaultMCPServers c)
           (put_policy (co_DefaultApprovalPolicy c) (put_str ''sandbox'' (co_DefaultSandbox c)
             (put_str ''cwd'' (co_DefaultCwd c) (put_str ''model'' (co_DefaultModel c) []))))))))"
  by (simp add: buildThreadStartParams_def resolveMCPServers_def Let_def)

lemma add_skills_Inl: "add_skills ss out = Inl e \<Longrightarrow> \<exists>s \<in> set ss. sk_Name s = [] \<or> sk_Path s = []"
  by (induction ss arbitrary: out) (auto split: if_splits)

lemma add_images_Inl: "add_images ps out = Inl e \<Longrightarrow> [] \<in> set ps"
  by (induction ps arbitrary: out) (auto split: if_splits)

lemma add_skills_Inr:
  "add_skills ss out = Inr out' \<Longrightarrow> out' = out @ map skill_input ss \<and> list_all (\<lambda>s. sk_Name s \<noteq> [] \<and> sk_Path s \<noteq> []) ss"
  by (induction ss arbitrary: out) (fastforce split: if_splits)+

lemma add_images_Inr:
  "add_images ps out = Inr out' \<Longrightarrow> out' = out @ map image_input ps \<and> [] \<notin> set ps"
  by (induction ps arbitrary: out) (fastforce split: if_splits)+

text \<open>A turn whose skills have a name and a path and whose images have a path.\<close>

definition wf_run :: "runOptions \<Rightarrow> bool" where
  "wf_run r = (list_all (\<lambda>s. sk_Name s \<noteq> [] \<and> sk_Path s \<noteq> []) (ro_Skills r) \<and> [] \<notin> set (ro_Images r))"

text \<open>A setting: the per-call value where one is given, else the client's default, else nothing.\<close>

definition override :: "string \<Rightarrow> string \<Rightarrow> string option" where
  "override d v = (if v \<noteq> [] then Some v else if d \<noteq> [] then Some d else None)"

section \<open>Properties\<close>

text \<open>Per-call options win over client defaults, field by field: each parameter of \<open>thread/start\<close> is
  the thread option where it is set, else the client default where that is set, else absent; the MCP
  servers of one level replace those of the other as a whole; nothing else is sent.\<close>

theorem thread_start_params_override:
  "map_of (buildThreadStartParams (Some c) (Some t)) ''model'' =
     map_option JStr (override (co_DefaultModel c) (to_Model t)) \<and>
   map_of (buildThreadStartParams (Some c) (Some t)) ''cwd'' =
     map_option JStr (override (co_DefaultCwd c) (to_Cwd t)) \<and>
   map_of (buildThreadStartParams (Some c) (Some t)) ''sandbox'' =
     map_option JStr (override (co_DefaultSandbox c) (to_Sandbox t)) \<and>
   map_of (buildThreadStartParams (Some c) (Some t)) ''approvalPolicy'' =
     map_option encodeApprovalPolicy (override (co_DefaultApprovalPolicy c) (to_ApprovalPolicy t)) \<and>
   map_of (buildThreadStartParams (Some c) (Some t)) ''config'' =
     (let servers = (if to_MCPServers t \<noteq> [] then to_MCPServers t else co_DefaultMCPServers c)
      in if servers = [] then None else Some (encode_mcpServers servers)) \<and>
   dom (map_of (buildThreadStartParams (Some c) (Some t))) \<subseteq>
     {''model'', ''cwd'', ''sandbox'', ''approvalPolicy'', ''config''}"
  unfolding buildThreadStartParams_both override_def Let_def
proof (intro conjI subsetI)
  fix x
  assume "x \<in> dom (map_of (put_policy (to_ApprovalPolicy t) (put_str ''sandbox'' (to_Sandbox t)
    (put_str ''cwd'' (to_Cwd t) (put_str ''model'' (to_Model t)
      (put_servers (if to_MCPServers t \<noteq> [] then to_MCPServers t else co_DefaultMCPServers c)
        (put_policy (co_DefaultApprovalPolicy c) (put_str ''sandbox'' (co_DefaultSandbox c)
          (put_str ''cwd'' (co_DefaultCwd c) (put_str ''model'' (co_DefaultModel c) []))))))))))"
  then show "x \<in> {''model'', ''cwd'', ''sandbox'', ''approvalPolicy'', ''config''}"
    by (simp add: domIff split: if_split_asm)
qed simp_all

text \<open>The input of a turn is the prompt followed by one element per skill and per image, in order, and
  it is refused exactly when a skill lacks its name or path or an image its path.\<close>

theorem turn_input_complete:
  "(case buildTurnInput prompt opts of
      Inr input \<Rightarrow> input = marshal_map [(''type'', JStr ''text''), (''text'', JStr prompt)] #
           (case opts of None \<Rightarrow> [] | Some r \<Rightarrow> map skill_input (ro_Skills r) @ map image_input (ro_Images r)) \<and>
         (case opts of None \<Rightarrow> True | Some r \<Rightarrow> wf_run r)
    | Inl e \<Rightarrow> (case opts of None \<Rightarrow> False | Some r \<Rightarrow> \<not> wf_run r))"
proof -
  let ?text = "marshal_map [(''type'', JStr ''text''), (''text'', JStr prompt)]"
  show ?thesis
  proof (cases opts)
    case None
    then show ?thesis by (simp add: buildTurnInput_def)
  next
    case (Some r)
    show ?thesis
    proof (cases "add_skills (ro_Skills r) [?text]")
      case (Inl e)
      with Some add_skills_Inl [OF Inl] show ?thesis
        by (auto simp: buildTurnInput_def wf_run_def list_all_iff)
    next
      case (Inr out)
      with Some add_skills_Inr [OF Inr] add_images_Inl add_images_Inr show ?thesis
        by (cases "add_images (ro_Images r) out") (fastforce simp: buildTurnInput_def wf_run_def)+
    qed
  qed
qed

end
