(* ===== verification/Dispatch.thy ===== *)
theory Dispatch
  imports Demux Events_Parser Thread_Events File_Approval Turn_Stream Thread_Start
begin

text \<open>
  The client's dispatcher (\<open>client_dispatch.go\<close>): what it does with each message of the demultiplexer,
  in the order it takes them. The state is the part of \<open>Client\<close> the dispatcher reads or writes: the
  routing table of threads, the file approval contexts, the subscriptions and the two flags. The
  approval callback, a function from requests to decisions, and the text of an error are parameters.
  An operation has no result where a channel operation would block or panic.
\<close>

section \<open>State\<close>

record client =
  cl_threads :: "(string \<times> thread) list option"
  cl_latest :: string
  cl_files :: fileApprovals
  cl_subs :: subscriptions
  cl_connected :: bool
  cl_closed :: bool
  cl_unknown :: "string list"

definition thread_of :: "client \<Rightarrow> string \<Rightarrow> thread option" where
  "thread_of c t = (case cl_threads c of None \<Rightarrow> None | Some ts \<Rightarrow> map_of ts t)"

definition registerThread :: "thread \<Rightarrow> client \<Rightarrow> client" where
  "registerThread t c = (case cl_threads c of
      None \<Rightarrow> c
    | Some ts \<Rightarrow> c\<lparr>cl_threads := Some (put (th_id t) t ts), cl_latest := th_id t\<rparr>)"

definition unregisterThread :: "string \<Rightarrow> client \<Rightarrow> client" where
  "unregisterThread i c =
     (let c1 = c\<lparr>cl_threads := map_option (drop_key i) (cl_threads c)\<rparr>
      in if cl_latest c1 = i then c1\<lparr>cl_latest := []\<rparr> else c1)"

definition clearFileApprovals :: "client \<Rightarrow> client" where
  "clearFileApprovals c = c\<lparr>cl_files := []\<rparr>"

definition fail_subscriptions :: "envelope \<Rightarrow> client \<Rightarrow> client option" where
  "fail_subscriptions e c = map_option (\<lambda>s. c\<lparr>cl_subs := s\<rparr>) (failThreadEventSubscriptions e (cl_subs c))"

definition publish :: "envelope \<Rightarrow> client \<Rightarrow> client option" where
  "publish e c = map_option (\<lambda>s. c\<lparr>cl_subs := s\<rparr>) (publishThreadEvent e (cl_subs c))"

section \<open>Notifications\<close>

text \<open>The three ways a notification makes the streams incomplete.\<close>

definition frame_gap :: "goError \<Rightarrow> envelope" where
  "frame_gap e = gap_envelope [] (ThreadEventFrameGapError (Some e))"

definition parse_gap :: "string \<Rightarrow> raw \<Rightarrow> goError \<Rightarrow> envelope" where
  "parse_gap m p e = (let t = (case extractThreadID p of Inr t \<Rightarrow> t | Inl _ \<Rightarrow> []) in
     gap_envelope t (ThreadEventParseGapError t m e))"

definition identity_gap :: "string \<Rightarrow> envelope" where
  "identity_gap m = gap_envelope [] (ThreadEventParseGapError [] m (Sentinel ErrThreadEventIdentityMissing))"

definition note_unknown :: "string \<Rightarrow> threadEvent \<Rightarrow> client \<Rightarrow> client" where
  "note_unknown m ev c = (case ev of EvUnknownEvent u \<Rightarrow> c\<lparr>cl_unknown := cl_unknown c @ [m]\<rparr> | _ \<Rightarrow> c)"

text \<open>The registered thread's state is updated before the subscribers are woken.\<close>

definition deliver_to_thread :: "string \<Rightarrow> threadEvent \<Rightarrow> client \<Rightarrow> client option" where
  "deliver_to_thread i ev c = (case thread_of c i of
      None \<Rightarrow> Some c
    | Some t \<Rightarrow> map_option (\<lambda>t'. c\<lparr>cl_threads := map_option (put i t') (cl_threads c)\<rparr>) (deliverEvent ev t))"

definition handleNotification :: "rpcNotification \<Rightarrow> client \<Rightarrow> client option" where
  "handleNotification n c = (case note_DecodeError n of
      Some e \<Rightarrow> fail_subscriptions (frame_gap e) (clearFileApprovals c)
    | None \<Rightarrow> (case ParseEvent (note_Method n) (note_Params n) of
        Inl e \<Rightarrow> fail_subscriptions (parse_gap (note_Method n) (note_Params n) e) (clearFileApprovals c)
      | Inr ev \<Rightarrow>
          (let c1 = note_unknown (note_Method n) ev c;
               (threadID, identityRequired) = threadIdentityFromEvent ev
           in if threadID = [] then
                (if identityRequired
                 then fail_subscriptions (identity_gap (note_Method n)) (clearFileApprovals c1)
                 else Some c1)
              else (case deliver_to_thread threadID ev
                       (c1\<lparr>cl_files := rememberFileApproval ev (cl_files c1)\<rparr>) of
                  None \<Rightarrow> None
                | Some c2 \<Rightarrow> publish (event_envelope threadID ev) c2))))"

section \<open>Server requests\<close>

text \<open>The callback the dispatcher calls, and the request it shows it.\<close>

definition chosen_callback ::
  "approvalCallback option \<Rightarrow> approvalRequest \<Rightarrow> client \<Rightarrow> approvalCallback \<times> approvalRequest" where
  "chosen_callback cb q c = (case q of
      ReqFileChange r \<Rightarrow> (case resolveFileApproval (cl_files c) r of
          (ok, r') \<Rightarrow> (if ok then (case cb of None \<Rightarrow> DefaultDenyApprovalCallback | Some f \<Rightarrow> f)
                       else DefaultDenyApprovalCallback, ReqFileChange r'))
    | _ \<Rightarrow> (case cb of None \<Rightarrow> DefaultDenyApprovalCallback | Some f \<Rightarrow> f, q))"

definition server_reply ::
  "(goError \<Rightarrow> string) \<Rightarrow> approvalCallback option \<Rightarrow> string \<Rightarrow> raw \<Rightarrow> client \<Rightarrow> raw \<times> rpcErrorObj ptr" where
  "server_reply error_text cb m p c = (case ParseApprovalRequest m p of
      Inl e \<Rightarrow> (None, Some \<lparr>rpc_Code = - 32000, rpc_Message = ''client parse error: '' @ error_text e,
                           rpc_Data = None\<rparr>)
    | Inr q \<Rightarrow> (case chosen_callback cb q c of (f, q') \<Rightarrow> (Some (EncodeApprovalDecision (f q')), None)))"

text \<open>A failed write of the reply is only logged.\<close>

definition handleServerRequest ::
  "(goError \<Rightarrow> string) \<Rightarrow> approvalCallback option \<Rightarrow> nat \<Rightarrow> string \<Rightarrow> raw \<Rightarrow> client \<Rightarrow> demux \<Rightarrow> demux" where
  "handleServerRequest error_text cb i m p c d = (case server_reply error_text cb m p c of
      (result, rpcErr) \<Rightarrow> snd (RespondServerRequest i result rpcErr d))"

section \<open>The dispatcher\<close>

definition handleServerMessage ::
  "(goError \<Rightarrow> string) \<Rightarrow> approvalCallback option \<Rightarrow> serverMessage \<Rightarrow> client \<times> demux \<Rightarrow> (client \<times> demux) option" where
  "handleServerMessage error_text cb msg cd = (case cd of (c, d) \<Rightarrow> (case msg of
      MsgNotification n \<Rightarrow> map_option (\<lambda>c'. (c', d)) (handleNotification n c)
    | MsgRequest i m p \<Rightarrow> Some (c, handleServerRequest error_text cb i m p c d)))"

fun dispatch_loop ::
  "(goError \<Rightarrow> string) \<Rightarrow> approvalCallback option \<Rightarrow> serverMessage list \<Rightarrow> client \<times> demux \<Rightarrow> (client \<times> demux) option" where
  "dispatch_loop et cb [] cd = Some cd"
| "dispatch_loop et cb (msg # msgs) cd = (case handleServerMessage et cb msg cd of
      None \<Rightarrow> None | Some cd' \<Rightarrow> dispatch_loop et cb msgs cd')"

text \<open>The end of \<open>dispatch\<close>: \<open>canceled\<close> says whether its context is done, \<open>cause\<close> is what the demux
  published as the loop's error. The deferred function runs last.\<close>

definition dispatch_end :: "bool \<Rightarrow> goError ptr \<Rightarrow> client \<Rightarrow> client option" where
  "dispatch_end canceled cause c = map_option
     (\<lambda>c1. clearFileApprovals (c1\<lparr>cl_connected := False,
                                  cl_subs := closeThreadEventSubscriptions (cl_subs c1)\<rparr>))
     (if \<not> canceled \<and> \<not> cl_closed c
      then fail_subscriptions (gap_envelope [] (ThreadEventSourceGapError cause)) (c\<lparr>cl_connected := False\<rparr>)
      else Some c)"

section \<open>Invariant\<close>

definition client_ok :: "client \<Rightarrow> bool" where
  "client_ok c = (subs_ok (cl_subs c) \<and> (\<forall>i t. thread_of c i = Some t \<longrightarrow> th_ok t))"

lemma client_ok_frame [simp]:
  "client_ok (clearFileApprovals c) = client_ok c" "client_ok (note_unknown m ev c) = client_ok c"
  "client_ok (c\<lparr>cl_files := f\<rparr>) = client_ok c"
  by (auto simp: client_ok_def clearFileApprovals_def note_unknown_def thread_of_def split: threadEvent.splits)

lemma frame_simps [simp]:
  "cl_subs (clearFileApprovals c) = cl_subs c" "cl_files (clearFileApprovals c) = []"
  "cl_threads (clearFileApprovals c) = cl_threads c"
  "cl_subs (note_unknown m ev c) = cl_subs c" "cl_files (note_unknown m ev c) = cl_files c"
  "cl_threads (note_unknown m ev c) = cl_threads c"
  by (auto simp: clearFileApprovals_def note_unknown_def split: threadEvent.splits)

lemma client_ok_subs: "client_ok c \<Longrightarrow> subs_ok s \<Longrightarrow> client_ok (c\<lparr>cl_subs := s\<rparr>)"
  by (simp add: client_ok_def thread_of_def)

text \<open>Publishing and failing act on every subscriber through \<open>sub_offer\<close>; the ones that are not
  registered are closed, which an offer does not change.\<close>

lemma sub_offer_closed: "s_closed s \<Longrightarrow> sub_offer x s = s"
  by (cases x) (simp_all add: deliver_def fail_subscriber_def)

lemma round_all:
  assumes "subs_ok st" and "round_result (registered st) x st st'"
  shows "sub_of st' i = map_option (sub_offer x) (sub_of st i)"
proof (cases "i \<in> set (registered st)")
  case False
  with assms show ?thesis
    by (cases "sub_of st i") (auto simp: round_result_def subs_ok_def sub_offer_closed)
qed (use assms in \<open>simp add: round_result_def\<close>)

lemma publish_ok:
  assumes "client_ok c"
  shows "\<exists>c'. publish e c = Some c' \<and> client_ok c' \<and> cl_threads c' = cl_threads c \<and> cl_files c' = cl_files c \<and>
     (\<forall>i. sub_of (cl_subs c') i = map_option (sub_offer (Deliver e)) (sub_of (cl_subs c) i))"
proof -
  have s: "subs_ok (cl_subs c)" using assms by (simp add: client_ok_def)
  from publish_round [OF this] obtain st where st: "publishThreadEvent e (cl_subs c) = Some st"
    "round_result (registered (cl_subs c)) (Deliver e) (cl_subs c) st" by blast
  with assms s show ?thesis
    by (simp add: publish_def client_ok_subs subs_ok_round [OF s st(2)] round_all [OF s st(2)])
qed

lemma fail_ok_client:
  assumes "client_ok c"
  shows "\<exists>c'. fail_subscriptions e c = Some c' \<and> client_ok c' \<and> cl_threads c' = cl_threads c \<and>
     cl_files c' = cl_files c \<and> registered (cl_subs c') = [] \<and>
     (\<forall>i. sub_of (cl_subs c') i = map_option (sub_offer (Fail e)) (sub_of (cl_subs c) i))"
proof -
  have s: "subs_ok (cl_subs c)" using assms by (simp add: client_ok_def)
  from fail_round [OF this] obtain st where st: "failThreadEventSubscriptions e (cl_subs c) = Some st"
    "round_result (registered (cl_subs c)) (Fail e) (cl_subs c) st" by blast
  have "\<not> stays (Fail e) (cl_subs c) j" if "j \<in> set (registered (cl_subs c))" for j
    using s that Fail_closes by (fastforce simp: subs_ok_def stays_def)
  then have "registered st = []" using st(2) by (auto simp: round_result_def filter_empty_conv)
  with assms s st show ?thesis
    by (simp add: fail_subscriptions_def client_ok_subs subs_ok_round [OF s st(2)] round_all [OF s st(2)])
qed

lemma thread_of_put [simp]:
  "thread_of (c\<lparr>cl_threads := map_option (put i t) (cl_threads c)\<rparr>) j =
     (if j = i \<and> cl_threads c \<noteq> None then Some t else thread_of c j)"
  by (auto simp: thread_of_def split: option.splits)

lemma deliver_to_thread_ok:
  assumes "client_ok c"
  shows "\<exists>c'. deliver_to_thread i ev c = Some c' \<and> client_ok c' \<and> cl_subs c' = cl_subs c \<and> cl_files c' = cl_files c \<and>
     (\<forall>j. j \<noteq> i \<longrightarrow> thread_of c' j = thread_of c j) \<and>
     (\<forall>t. thread_of c i = Some t \<longrightarrow> (\<exists>t'. deliverEvent ev t = Some t' \<and> thread_of c' i = Some t'))"
proof (cases "thread_of c i")
  case None
  with assms show ?thesis by (simp add: deliver_to_thread_def)
next
  case (Some t)
  with assms have "th_ok t" by (simp add: client_ok_def)
  then obtain t' where t': "deliverEvent ev t = Some t'" "th_ok t'" using deliver_event_ok [of t ev] by blast
  let ?c' = "c\<lparr>cl_threads := map_option (put i t') (cl_threads c)\<rparr>"
  have "cl_threads c \<noteq> None" using Some by (cases "cl_threads c") (auto simp: thread_of_def)
  with t' Some assms have "client_ok ?c'" "thread_of ?c' i = Some t'"
    by (auto simp: client_ok_def split: if_splits)
  with t' Some show ?thesis by (simp add: deliver_to_thread_def)
qed

section \<open>What a notification does\<close>

text \<open>The specification of one notification: it breaks the streams, it is global, or it belongs to a
  thread.\<close>

datatype noteEffect = Gap envelope | Global | Routed string threadEvent

definition note_effect :: "rpcNotification \<Rightarrow> noteEffect" where
  "note_effect n = (case note_DecodeError n of
      Some e \<Rightarrow> Gap (frame_gap e)
    | None \<Rightarrow> (case ParseEvent (note_Method n) (note_Params n) of
        Inl e \<Rightarrow> Gap (parse_gap (note_Method n) (note_Params n) e)
      | Inr ev \<Rightarrow> (if fst (threadIdentityFromEvent ev) \<noteq> [] then Routed (fst (threadIdentityFromEvent ev)) ev
                   else if snd (threadIdentityFromEvent ev) then Gap (identity_gap (note_Method n))
                   else Global)))"

definition effect_ok :: "noteEffect \<Rightarrow> client \<Rightarrow> client \<Rightarrow> bool" where
  "effect_ok eff c c' = (case eff of
      Gap e \<Rightarrow> te_Err e \<noteq> None \<and> cl_files c' = [] \<and> cl_threads c' = cl_threads c \<and> registered (cl_subs c') = [] \<and>
        (\<forall>i. sub_of (cl_subs c') i = map_option (sub_offer (Fail e)) (sub_of (cl_subs c) i))
    | Global \<Rightarrow> cl_files c' = cl_files c \<and> cl_threads c' = cl_threads c \<and> cl_subs c' = cl_subs c
    | Routed t ev \<Rightarrow> cl_files c' = rememberFileApproval ev (cl_files c) \<and>
        (\<forall>j. j \<noteq> t \<longrightarrow> thread_of c' j = thread_of c j) \<and>
        (\<forall>h. thread_of c t = Some h \<longrightarrow> (\<exists>h'. deliverEvent ev h = Some h' \<and> thread_of c' t = Some h')) \<and>
        (\<forall>i. sub_of (cl_subs c') i =
               map_option (sub_offer (Deliver (event_envelope t ev))) (sub_of (cl_subs c) i)))"

lemma gap_envelopes [simp]:
  "te_Err (frame_gap e) \<noteq> None" "te_Err (parse_gap m p e) \<noteq> None" "te_Err (identity_gap m) \<noteq> None"
  by (simp_all add: frame_gap_def parse_gap_def identity_gap_def Let_def)

lemma fail_effect:
  assumes "client_ok c" and "te_Err e \<noteq> None" and "cl_files c1 = []" and "cl_subs c1 = cl_subs c"
    and "cl_threads c1 = cl_threads c" and "client_ok c1"
  shows "\<exists>c'. fail_subscriptions e c1 = Some c' \<and> client_ok c' \<and> effect_ok (Gap e) c c'"
  using fail_ok_client [OF assms(6), of e] assms by (auto simp: effect_ok_def)

lemma thread_of_frame [simp]:
  "thread_of (c\<lparr>cl_files := f\<rparr>) = thread_of c" "thread_of (note_unknown m ev c) = thread_of c"
  by (simp_all add: thread_of_def fun_eq_iff)

lemma routed_effect:
  assumes "client_ok c"
  shows "\<exists>c2 c'. deliver_to_thread t ev
       (note_unknown m ev c\<lparr>cl_files := rememberFileApproval ev (cl_files (note_unknown m ev c))\<rparr>) = Some c2 \<and>
     publish (event_envelope t ev) c2 = Some c' \<and> client_ok c' \<and> effect_ok (Routed t ev) c c'"
proof -
  let ?c1 = "note_unknown m ev c\<lparr>cl_files := rememberFileApproval ev (cl_files (note_unknown m ev c))\<rparr>"
  have "client_ok ?c1" using assms by simp
  from deliver_to_thread_ok [OF this, of t ev] obtain c2 where c2: "deliver_to_thread t ev ?c1 = Some c2"
      "client_ok c2" "cl_subs c2 = cl_subs c" "cl_files c2 = rememberFileApproval ev (cl_files c)"
      "\<forall>j. j \<noteq> t \<longrightarrow> thread_of c2 j = thread_of c j"
      "\<forall>h. thread_of c t = Some h \<longrightarrow> (\<exists>h'. deliverEvent ev h = Some h' \<and> thread_of c2 t = Some h')"
    by auto
  from publish_ok [OF c2(2), of "event_envelope t ev"] obtain c' where c': "publish (event_envelope t ev) c2 = Some c'"
      "client_ok c'" "cl_threads c' = cl_threads c2" "cl_files c' = cl_files c2"
      "\<forall>i. sub_of (cl_subs c') i = map_option (sub_offer (Deliver (event_envelope t ev))) (sub_of (cl_subs c2) i)"
    by blast
  have "thread_of c' = thread_of c2" using c'(3) by (simp add: thread_of_def fun_eq_iff)
  with c2 c' have "effect_ok (Routed t ev) c c'" by (simp add: effect_ok_def)
  with c2(1) c'(1,2) show ?thesis by blast
qed

lemma handleNotification_effect:
  assumes "client_ok c"
  shows "\<exists>c'. handleNotification n c = Some c' \<and> client_ok c' \<and> effect_ok (note_effect n) c c'"
proof (cases "note_DecodeError n")
  case (Some e)
  with fail_effect [OF assms, of "frame_gap e" "clearFileApprovals c"] assms show ?thesis
    by (simp add: handleNotification_def note_effect_def)
next
  case None
  show ?thesis
  proof (cases "ParseEvent (note_Method n) (note_Params n)")
    case (Inl e)
    with None assms fail_effect [OF assms, of "parse_gap (note_Method n) (note_Params n) e" "clearFileApprovals c"]
    show ?thesis by (simp add: handleNotification_def note_effect_def)
  next
    case (Inr ev)
    obtain t req where t: "threadIdentityFromEvent ev = (t, req)" by fastforce
    let ?c1 = "note_unknown (note_Method n) ev c"
    consider (routed) "t \<noteq> []" | (gap) "t = []" "req" | (global) "t = []" "\<not> req" by blast
    then show ?thesis
    proof cases
      case routed
      with None Inr t routed_effect [OF assms, of t ev "note_Method n"] show ?thesis
        by (auto simp: handleNotification_def note_effect_def Let_def)
    next
      case gap
      with None Inr t assms fail_effect [OF assms, of "identity_gap (note_Method n)" "clearFileApprovals ?c1"]
      show ?thesis by (simp add: handleNotification_def note_effect_def Let_def)
    next
      case global
      with None Inr t assms show ?thesis
        by (simp add: handleNotification_def note_effect_def Let_def effect_ok_def)
    qed
  qed
qed

section \<open>What the dispatcher does with a stream of messages\<close>

text \<open>The operations a subscriber and a thread see of a list of server messages.\<close>

fun msg_effect :: "serverMessage \<Rightarrow> noteEffect" where
  "msg_effect (MsgNotification n) = note_effect n"
| "msg_effect (MsgRequest i m p) = Global"

fun effect_ops :: "noteEffect \<Rightarrow> subOp list" where
  "effect_ops (Gap e) = [Fail e]"
| "effect_ops Global = []"
| "effect_ops (Routed t ev) = [Deliver (event_envelope t ev)]"

definition stream_ops :: "serverMessage list \<Rightarrow> subOp list" where
  "stream_ops msgs = concat (map (\<lambda>m. effect_ops (msg_effect m)) msgs)"

lemma effect_subs:
  "effect_ok eff c c' \<Longrightarrow>
     sub_of (cl_subs c') i = map_option (\<lambda>s. foldl (\<lambda>s x. sub_offer x s) s (effect_ops eff)) (sub_of (cl_subs c) i)"
  by (cases eff) (simp_all add: effect_ok_def option.map_ident del: sub_offer.simps)

lemma handleServerMessage_effect:
  assumes "client_ok c"
  shows "\<exists>c' d'. handleServerMessage et cb msg (c, d) = Some (c', d') \<and> client_ok c' \<and>
     effect_ok (msg_effect msg) c c'"
proof (cases msg)
  case (MsgNotification n)
  with handleNotification_effect [OF assms, of n] show ?thesis by (auto simp: handleServerMessage_def)
next
  case (MsgRequest i m p)
  with assms show ?thesis by (simp add: handleServerMessage_def effect_ok_def)
qed

lemma dispatch_loop_subs:
  "client_ok c \<Longrightarrow> \<exists>c' d'. dispatch_loop et cb msgs (c, d) = Some (c', d') \<and> client_ok c' \<and>
     (\<forall>i. sub_of (cl_subs c') i =
            map_option (\<lambda>s. foldl (\<lambda>s x. sub_offer x s) s (stream_ops msgs)) (sub_of (cl_subs c) i))"
proof (induction msgs arbitrary: c d)
  case Nil
  then show ?case by (simp add: stream_ops_def option.map_ident)
next
  case (Cons msg msgs)
  obtain c1 d1 where 1: "handleServerMessage et cb msg (c, d) = Some (c1, d1)" "client_ok c1"
      "effect_ok (msg_effect msg) c c1"
    using handleServerMessage_effect [OF Cons.prems] by blast
  from Cons.IH [OF 1(2), of d1] obtain c' d' where 2: "dispatch_loop et cb msgs (c1, d1) = Some (c', d')" "client_ok c'"
      "\<forall>i. sub_of (cl_subs c') i =
         map_option (\<lambda>s. foldl (\<lambda>s x. sub_offer x s) s (stream_ops msgs)) (sub_of (cl_subs c1) i)" by blast
  with 1 effect_subs [OF 1(3)] show ?case
    by (simp add: stream_ops_def option.map_comp o_def)
qed

section \<open>Reachable clients\<close>

definition new_client :: client where
  "new_client = \<lparr>cl_threads = Some [], cl_latest = [], cl_files = [], cl_subs = no_subscriptions\<lparr>st_table := Some []\<rparr>,
     cl_connected = False, cl_closed = False, cl_unknown = []\<rparr>"

definition set_thread :: "string \<Rightarrow> thread \<Rightarrow> client \<Rightarrow> client" where
  "set_thread i t c = c\<lparr>cl_threads := map_option (put i t) (cl_threads c)\<rparr>"

text \<open>The dispatcher's steps, and the steps of the other goroutines between them: connecting, starting
  and dropping threads, everything a thread does, subscribing, cancelling a subscription, receiving.\<close>

inductive client_reach :: "client \<Rightarrow> bool" where
  cr_new: "client_reach new_client"
| cr_connect: "client_reach c \<Longrightarrow> client_reach (c\<lparr>cl_connected := True\<rparr>)"
| cr_message: "client_reach c \<Longrightarrow> handleServerMessage et cb msg (c, d) = Some (c', d') \<Longrightarrow> client_reach c'"
| cr_end: "client_reach c \<Longrightarrow> dispatch_end canceled cause c = Some c' \<Longrightarrow> client_reach c'"
| cr_register: "client_reach c \<Longrightarrow> client_reach (registerThread (newThread i) c)"
| cr_unregister: "client_reach c \<Longrightarrow> client_reach (unregisterThread i c)"
| cr_thread: "client_reach c \<Longrightarrow> thread_of c i = Some t \<Longrightarrow> thstep t t' \<Longrightarrow> client_reach (set_thread i t' c)"
| cr_subscribe: "client_reach c \<Longrightarrow>
    client_reach (c\<lparr>cl_subs := snd (SubscribeThreadEvents n b (cl_closed c, cl_connected c) (cl_closed c, cl_connected c)
                      (cl_subs c))\<rparr>)"
| cr_cancel: "client_reach c \<Longrightarrow> client_reach (c\<lparr>cl_subs := removeThreadEventSubscriber i (cl_subs c)\<rparr>)"
| cr_recv: "client_reach c \<Longrightarrow> sub_of (cl_subs c) i = Some s \<Longrightarrow> sub_recv s = Some (e, s') \<Longrightarrow>
    client_reach (c\<lparr>cl_subs := set_sub i s' (cl_subs c)\<rparr>)"

lemma client_ok_new: "client_ok new_client"
  by (simp add: client_ok_def new_client_def subs_ok_def no_subscriptions_def registered_def sub_of_def thread_of_def)

lemma client_ok_flags [simp]: "client_ok (c\<lparr>cl_connected := b\<rparr>) = client_ok c"
  by (simp add: client_ok_def thread_of_def)

lemma client_ok_set_thread: "client_ok c \<Longrightarrow> th_ok t \<Longrightarrow> client_ok (set_thread i t c)"
  by (auto simp: client_ok_def set_thread_def)

lemma client_ok_register: "client_ok c \<Longrightarrow> client_ok (registerThread (newThread i) c)"
  by (auto simp: client_ok_def registerThread_def thread_of_def split: option.splits if_splits)

lemma client_ok_unregister: "client_ok c \<Longrightarrow> client_ok (unregisterThread i c)"
  by (auto simp: client_ok_def unregisterThread_def thread_of_def Let_def split: option.splits if_splits)

lemma dispatch_end_ok:
  assumes "client_ok c"
  shows "\<exists>c'. dispatch_end canceled cause c = Some c' \<and> client_ok c'"
proof -
  have "client_ok (c\<lparr>cl_connected := False\<rparr>)" using assms by simp
  from fail_ok_client [OF this] obtain c1 where "fail_subscriptions (gap_envelope [] (ThreadEventSourceGapError cause))
      (c\<lparr>cl_connected := False\<rparr>) = Some c1" "client_ok c1" by blast
  then show ?thesis
    using assms subs_ok_close by (auto simp: dispatch_end_def client_ok_def thread_of_def)
qed

lemma client_reach_ok: "client_reach c \<Longrightarrow> client_ok c"
proof (induction rule: client_reach.induct)
  case (cr_message c et cb msg d c' d')
  then show ?case using handleServerMessage_effect [of c et cb msg d] by auto
next
  case (cr_end c canceled cause c')
  then show ?case using dispatch_end_ok [of c canceled cause] by auto
next
  case (cr_thread c i t t')
  then have "th_ok t'" using th_ok_step [OF cr_thread(3)] by (simp add: client_ok_def)
  with cr_thread show ?case by (simp add: client_ok_set_thread)
next
  case (cr_recv c i s e s')
  then show ?case using subs_ok_recv by (intro client_ok_subs) (auto simp: client_ok_def)
next
  case (cr_subscribe c n b)
  then show ?case using subs_ok_subscribe by (intro client_ok_subs) (auto simp: client_ok_def)
next
  case (cr_cancel c i)
  then show ?case using subs_ok_remove by (intro client_ok_subs) (auto simp: client_ok_def)
qed (simp_all add: client_ok_new client_ok_register client_ok_unregister)

text \<open>What the dispatcher remembers for approvals: the events routed since the last gap.\<close>

definition since_gap :: "threadEvent list \<Rightarrow> serverMessage \<Rightarrow> threadEvent list" where
  "since_gap evs msg = (case msg_effect msg of Gap e \<Rightarrow> [] | Global \<Rightarrow> evs | Routed t ev \<Rightarrow> evs @ [ev])"

definition routed_since_gap :: "serverMessage list \<Rightarrow> threadEvent list" where
  "routed_since_gap msgs = foldl since_gap [] msgs"

lemma remember_all_snoc: "remember_all (evs @ [ev]) = rememberFileApproval ev (remember_all evs)"
  by (simp add: remember_all_def)

lemma effect_files:
  "effect_ok (msg_effect msg) c c' \<Longrightarrow> cl_files c = remember_all evs \<Longrightarrow> cl_files c' = remember_all (since_gap evs msg)"
  by (cases "msg_effect msg") (auto simp: effect_ok_def since_gap_def remember_all_snoc, simp add: remember_all_def)

lemma dispatch_loop_files:
  "client_ok c \<Longrightarrow> cl_files c = remember_all evs \<Longrightarrow> dispatch_loop et cb msgs (c, d) = Some (c', d') \<Longrightarrow>
     cl_files c' = remember_all (foldl since_gap evs msgs)"
proof (induction msgs arbitrary: c d evs)
  case (Cons msg msgs)
  obtain c1 d1 where 1: "handleServerMessage et cb msg (c, d) = Some (c1, d1)" "client_ok c1"
      "effect_ok (msg_effect msg) c c1"
    using handleServerMessage_effect [OF Cons.prems(1)] by blast
  with Cons.prems(3) have "dispatch_loop et cb msgs (c1, d1) = Some (c', d')" by simp
  from Cons.IH [OF 1(2) effect_files [OF 1(3) Cons.prems(2)] this] show ?case by simp
qed simp

text \<open>Offers without receives, as a schedule of the subscriber's stream.\<close>

lemma run_offers:
  "\<exists>app. sub.run (map Offer xs) s = (foldl (\<lambda>s x. sub_offer x s) s xs, app, [])"
  by (induction xs arbitrary: s) (simp_all add: split_def del: sub_offer.simps, metis fst_conv snd_conv)

lemma offers_map_Offer [simp]: "offers (map Offer xs) = xs"
  by (induction xs) simp_all

lemma foldl_offers_stream:
  assumes "sub_ok s" and "\<not> s_closed s"
  shows "\<exists>app. ch_buf (s_events (foldl (\<lambda>s x. sub_offer x s) s xs)) = ch_buf (s_events s) @ app \<and>
     complete_or_gap (s_eventCapacity s) xs app"
proof -
  obtain app where r: "sub.run (map Offer xs) s = (foldl (\<lambda>s x. sub_offer x s) s xs, app, [])"
    using run_offers by blast
  from sub.run_fifo [OF assms(1) r] run_complete_or_gap [OF assms refl r] show ?thesis by auto
qed

section \<open>Sample inputs\<close>

definition sample_note :: rpcNotification where
  "sample_note = \<lparr>note_Method = ''turn/started'', note_Params = None,
     note_DecodeError = Some (Sentinel ErrUnclassifiableFrame)\<rparr>"

definition sample_client :: client where
  "sample_client = (let c = new_client\<lparr>cl_connected := True\<rparr> in
     c\<lparr>cl_subs := snd (SubscribeThreadEvents False 2 (False, True) (False, True) (cl_subs c))\<rparr>)"

lemma sample_client_reach: "client_reach sample_client"
proof -
  have "client_reach (new_client\<lparr>cl_connected := True\<rparr>)" by (intro cr_connect cr_new)
  from cr_subscribe [OF this, of False 2] show ?thesis
    by (simp add: sample_client_def new_client_def Let_def)
qed

lemma sample_client_sub: "sub_of (cl_subs sample_client) 1 = Some (newThreadEventSubscriber 2)"
  by (simp add: sample_client_def SubscribeThreadEvents_def new_client_def no_subscriptions_def sub_of_def
     set_sub_def maxThreadEventSubscriptionBuffer_def Let_def)


definition start_params :: json where
  "start_params = JObj [(''threadId'', JStr ''t''), (''turnId'', JStr ''u''),
     (''item'', JObj [(''type'', JStr ''fileChange''), (''id'', JStr ''i''),
        (''changes'', JArr [JObj [(''path'', JStr ''a.go''), (''operation'', JStr ''modify'')]])])]"

definition sample_ask :: json where
  "sample_ask = JObj [(''threadId'', JStr ''t''), (''turnId'', JStr ''u''), (''itemId'', JStr ''i'')]"

lemma parse_file_item:
  "ParseItem (Some (JObj [(''type'', JStr ''fileChange''), (''id'', JStr ''i''),
     (''changes'', JArr [JObj [(''path'', JStr ''a.go''), (''operation'', JStr ''modify'')]])])) =
   Inr (ItemFileChange \<lparr>fc_ID = ''i'', fc_Status = [],
       fc_Changes = Some [\<lparr>fcp_Path = ''a.go'', fcp_Kind = None, fcp_Operation = ''modify'', fcp_Diff = []\<rparr>]\<rparr>)"
proof -
  have "map_of itemDecoders ''fileChange'' = Some (decodeItem t_fileChange (\<lambda>g. ItemFileChange (to_fileChange g)))"
    by (simp add: itemDecoders_def)
  then show ?thesis
    by (simp add: ParseItem_def t_disc_def decodeItem_def t_fileChange_def to_fileChange_def item_eval)
qed

lemma parse_sample_start: "ParseEvent ''item/started'' (Some start_params) = Inr sample_start"
proof -
  have "map_of eventParsers ''item/started'' = Some parseItemStarted"
    by (simp add: eventParsers_def)
  then show ?thesis
    by (simp add: start_params_def parse_event_eval parseItemStarted_def extractItemID_def parse_file_item
       sample_start_def t_str_def)
qed

lemma parse_sample_ask:
  "ParseApprovalRequest ''item/fileChange/requestApproval'' (Some sample_ask) = Inr (ReqFileChange sample_request)"
  by (simp add: sample_ask_def approval_eval sample_request_def)

section \<open>What a granting reply rests on\<close>

text \<open>What the callback is shown of a file change: the changes the events recorded for its item, or when
  they recorded none the one change the request itself describes, if it names a path. Nothing is shown
  of an item with invalid changes, nor when a root is asked for without naming the item, nor when
  there is neither a change nor a root.\<close>

definition with_changes :: "fileChangePart list \<Rightarrow> fileChangeApprovalRequest \<Rightarrow> fileChangeApprovalRequest" where
  "with_changes cs r = (case cs of
      [] \<Rightarrow> r\<lparr>fcar_Changes := None\<rparr>
    | [c] \<Rightarrow> r\<lparr>fcar_Changes := Some cs, fcar_Path := fcp_Path c, fcar_Operation := fcp_Operation c, fcar_Diff := fcp_Diff c\<rparr>
    | _ \<Rightarrow> r\<lparr>fcar_Changes := Some cs\<rparr>)"

definition shown_request :: "threadEvent list \<Rightarrow> fileChangeApprovalRequest \<Rightarrow> fileChangeApprovalRequest option" where
  "shown_request evs r =
     (let recorded = history_context evs r;
          cs = (case recorded of Some c \<Rightarrow> slice_list (ctx_changes c)
                | None \<Rightarrow> if fcar_Path r \<noteq> [] then [inline_change r] else [])
      in if (case recorded of Some c \<Rightarrow> ctx_invalid c | None \<Rightarrow> False) \<or> \<not> root_ok r \<or>
            \<not> list_all valid_change cs \<or> cs = [] \<and> fcar_GrantRoot r = None
         then None else Some (with_changes cs r))"

lemma resolve_shown:
  "resolveFileApproval (remember_all evs) r =
     (case shown_request evs r of Some r' \<Rightarrow> (True, r') | None \<Rightarrow> (False, r\<lparr>fcar_Changes := None\<rparr>))"
proof -
  have "map_of (remember_all evs) (fcar_ThreadID r, fcar_TurnID r, fcar_ItemID r) = history_context evs r"
    by (simp add: remember_all_context history_context_def)
  moreover have "x = Some (c # cs)" if "slice_list x = c # cs" for x :: "fileChangePart list option" and c cs
    using that by (cases x) simp_all
  ultimately show ?thesis
    by (cases "history_context evs r")
      (auto simp: resolveFileApproval_def shown_request_def with_changes_def inline_change_def root_ok_def Let_def
        split: option.splits list.splits)
qed

text \<open>The reply a request is due after the given events, and who decides it.\<close>

definition decided_by :: "approvalCallback option \<Rightarrow> approvalCallback" where
  "decided_by cb q = (case cb of None \<Rightarrow> DefaultDenyApprovalCallback q | Some f \<Rightarrow> f q)"

definition due_decision :: "approvalCallback option \<Rightarrow> threadEvent list \<Rightarrow> approvalRequest \<Rightarrow> approvalDecision" where
  "due_decision cb evs q = (case q of
      ReqFileChange r \<Rightarrow> (case shown_request evs r of
          Some r' \<Rightarrow> decided_by cb (ReqFileChange r')
        | None \<Rightarrow> ApprovalDeny ''no approval callback configured'')
    | _ \<Rightarrow> decided_by cb q)"

definition due_reply ::
  "(goError \<Rightarrow> string) \<Rightarrow> approvalCallback option \<Rightarrow> threadEvent list \<Rightarrow> nat \<Rightarrow> string \<Rightarrow> raw \<Rightarrow> rpcResponse" where
  "due_reply et cb evs i m p = (case ParseApprovalRequest m p of
      Inl e \<Rightarrow> \<lparr>resp_ID = i, resp_Result = None, resp_Error = Some \<lparr>rpc_Code = - 32000,
                rpc_Message = ''client parse error: '' @ et e, rpc_Data = None\<rparr>\<rparr>
    | Inr q \<Rightarrow> \<lparr>resp_ID = i, resp_Result = Some (EncodeApprovalDecision (due_decision cb evs q)), resp_Error = None\<rparr>)"

lemma server_reply_due:
  assumes "cl_files c = remember_all evs"
  shows "(case server_reply et cb m p c of (result, e) \<Rightarrow>
      \<lparr>resp_ID = i, resp_Result = (if e = None then result else None), resp_Error = e\<rparr>) = due_reply et cb evs i m p"
proof (cases "ParseApprovalRequest m p")
  case (Inr q)
  have "case_prod (\<lambda>f. f) (chosen_callback cb q c) = due_decision cb evs q"
    using assms by (cases q)
      (simp_all add: chosen_callback_def due_decision_def decided_by_def resolve_shown split: option.splits)
  then show ?thesis using Inr by (cases "chosen_callback cb q c") (simp add: server_reply_def due_reply_def)
qed (simp add: server_reply_def due_reply_def)

text \<open>A grant is the decision of the caller's own callback, on a request of that method; for a file change,
  on what it was shown.\<close>

definition grant_backed :: "approvalCallback option \<Rightarrow> threadEvent list \<Rightarrow> string \<Rightarrow> raw \<Rightarrow> bool" where
  "grant_backed cb evs m p = (\<exists>f q. cb = Some f \<and> f q \<in> {ApprovalAccept, ApprovalAcceptForSession} \<and>
     approvalMethod q = m \<and> (case q of
        ReqFileChange r' \<Rightarrow> (\<exists>r. ParseApprovalRequest m p = Inr (ReqFileChange r) \<and> shown_request evs r = Some r')
      | _ \<Rightarrow> ParseApprovalRequest m p = Inr q))"

lemma due_reply_grants:
  assumes "resp_Result (due_reply et cb evs i m p) = Some j" and "grants j"
  shows "grant_backed cb evs m p"
proof -
  obtain q0 where q0: "ParseApprovalRequest m p = Inr q0"
    using assms(1) by (cases "ParseApprovalRequest m p") (simp_all add: due_reply_def)
  then have acc: "due_decision cb evs q0 \<in> {ApprovalAccept, ApprovalAcceptForSession}"
    using assms grants_iff [of "due_decision cb evs q0"] by (auto simp: due_reply_def)
  have m: "approvalMethod q0 = m" using q0 by (rule ParseApprovalRequest_Inr)
  have own: "\<exists>f. cb = Some f \<and> f q \<in> {ApprovalAccept, ApprovalAcceptForSession}"
    if "decided_by cb q \<in> {ApprovalAccept, ApprovalAcceptForSession}" for q
    using that default_callback_denies [of q] by (cases cb) (auto simp: decided_by_def grants_iff)
  show ?thesis
  proof (cases "\<exists>r. q0 = ReqFileChange r")
    case True
    then obtain r r' where r: "q0 = ReqFileChange r" "shown_request evs r = Some r'"
      using acc by (auto simp: due_decision_def split: option.splits)
    with acc own [of "ReqFileChange r'"] obtain f where
      "cb = Some f" "f (ReqFileChange r') \<in> {ApprovalAccept, ApprovalAcceptForSession}"
      by (auto simp: due_decision_def)
    with q0 m r show ?thesis unfolding grant_backed_def by (intro exI [of _ f] exI [of _ "ReqFileChange r'"]) simp
  next
    case False
    then have "due_decision cb evs q0 = decided_by cb q0" by (cases q0) (auto simp: due_decision_def)
    with acc own [of q0] obtain f where "cb = Some f" "f q0 \<in> {ApprovalAccept, ApprovalAcceptForSession}" by auto
    with q0 m False show ?thesis
      unfolding grant_backed_def by (intro exI [of _ f] exI [of _ q0]) (cases q0; simp)
  qed
qed

lemma server_reply_grants:
  assumes "cl_files c = remember_all evs" and "server_reply et cb m p c = (Some j, None)" and "grants j"
  shows "grant_backed cb evs m p"
proof -
  have "due_reply et cb evs 0 m p = \<lparr>resp_ID = 0, resp_Result = Some j, resp_Error = None\<rparr>"
    using server_reply_due [OF assms(1), where i = 0 and et = et and cb = cb and m = m and p = p] assms(2) by simp
  then show ?thesis using due_reply_grants [of et cb evs 0 m p j] assms(3) by simp
qed

section \<open>Properties\<close>

text \<open>Dispatching never blocks and never panics, and every subscription sees the provider's messages
  as they were dispatched: what an open subscriber holds after the dispatcher handled a list of
  messages is what it held before followed by the thread events among them, in order and without a
  hole, up to the first undecodable, unparsable or unattributable message or its own overflow, which
  appear as one gap record that ends the stream.\<close>

theorem dispatch_subscription_stream:
  assumes "client_reach c" and "sub_of (cl_subs c) i = Some s" and "\<not> s_closed s"
  shows "\<exists>c' d' s' app. dispatch_loop et cb msgs (c, d) = Some (c', d') \<and> sub_of (cl_subs c') i = Some s' \<and>
     ch_buf (s_events s') = ch_buf (s_events s) @ app \<and>
     complete_or_gap (s_eventCapacity s) (stream_ops msgs) app"
proof -
  have ok: "client_ok c" using assms(1) by (rule client_reach_ok)
  then have "sub_ok s" using assms(2) by (simp add: client_ok_def subs_ok_def)
  from foldl_offers_stream [OF this assms(3)] obtain app where
    "ch_buf (s_events (foldl (\<lambda>s x. sub_offer x s) s (stream_ops msgs))) = ch_buf (s_events s) @ app"
    "complete_or_gap (s_eventCapacity s) (stream_ops msgs) app" by blast
  with dispatch_loop_subs [OF ok, of et cb msgs d] assms(2) show ?thesis by fastforce
qed

theorem dispatch_subscription_stream_witness:
  "\<exists>c' d' s' app. dispatch_loop (\<lambda>e. []) None [MsgNotification sample_note] (sample_client, NewDemux True 64) = Some (c', d') \<and>
     sub_of (cl_subs c') 1 = Some s' \<and> ch_buf (s_events s') = app \<and>
     complete_or_gap 2 [Fail (frame_gap (Sentinel ErrUnclassifiableFrame))] app"
  using dispatch_subscription_stream [OF sample_client_reach sample_client_sub, of "\<lambda>e. []" None
      "[MsgNotification sample_note]" "NewDemux True 64"]
  by (simp add: newThreadEventSubscriber_def make_chan_def stream_ops_def note_effect_def sample_note_def
      del: dispatch_loop.simps)

text \<open>C3: The dispatcher fails closed: a notification that cannot be decoded, parsed or attributed to the
  thread it needs leaves no subscription registered, each of them ended with the gap as its last
  record, and no file approval context, so that no file change can be approved on stale evidence.\<close>

theorem dispatch_fails_closed:
  assumes "client_reach c" and "note_effect n = Gap e"
  shows "\<exists>c'. handleNotification n c = Some c' \<and> te_Err e \<noteq> None \<and> registered (cl_subs c') = [] \<and>
     cl_files c' = [] \<and> cl_threads c' = cl_threads c \<and>
     (\<forall>i. sub_of (cl_subs c') i = map_option (sub_offer (Fail e)) (sub_of (cl_subs c) i))"
  using handleNotification_effect [OF client_reach_ok [OF assms(1)], of n] assms(2)
  by (auto simp: effect_ok_def simp del: sub_offer.simps)

theorem dispatch_fails_closed_witness:
  "\<exists>c'. handleNotification sample_note sample_client = Some c' \<and> registered (cl_subs c') = [] \<and> cl_files c' = []"
  using dispatch_fails_closed [OF sample_client_reach, of sample_note "frame_gap (Sentinel ErrUnclassifiableFrame)"]
  by (auto simp: note_effect_def sample_note_def)

text \<open>A reply that lets the server go on was granted by the caller's own callback for a request of
  that method; for a file change, on what the events since the last gap have it shown.\<close>

theorem grant_needs_callback_and_context:
  assumes "client_reach c" and "cl_files c = []" and "dispatch_loop et cb msgs (c, d) = Some (c', d')"
    and "server_reply et cb m p c' = (Some j, None)" and "grants j"
  shows "grant_backed cb (routed_since_gap msgs) m p"
proof -
  have "cl_files c' = remember_all (routed_since_gap msgs)"
    using dispatch_loop_files [OF client_reach_ok [OF assms(1)] _ assms(3), of "[]"] assms(2)
    by (simp add: routed_since_gap_def remember_all_def)
  from server_reply_grants [OF this assms(4,5)] show ?thesis .
qed

definition start_note :: rpcNotification where
  "start_note = \<lparr>note_Method = ''item/started'', note_Params = Some start_params, note_DecodeError = None\<rparr>"

lemma routed_start_note: "routed_since_gap [MsgNotification start_note] = [sample_start]"
proof -
  have "threadIdentityFromEvent sample_start = (''t'', True)"
    by (simp add: threadIdentityFromEvent_def threadIDExtractors_def sample_start_def)
  then show ?thesis
    by (simp add: routed_since_gap_def since_gap_def note_effect_def start_note_def parse_sample_start)
qed

theorem grant_needs_callback_and_context_witness:
  "\<exists>c' d'. dispatch_loop (\<lambda>e. []) (Some (\<lambda>q. ApprovalAccept)) [MsgNotification start_note] (new_client, NewDemux True 64) = Some (c', d') \<and>
     server_reply (\<lambda>e. []) (Some (\<lambda>q. ApprovalAccept)) ''item/fileChange/requestApproval'' (Some sample_ask) c' =
       (Some (JObj [(''decision'', JStr ''accept'')]), None) \<and>
     grant_backed (Some (\<lambda>q. ApprovalAccept)) (routed_since_gap [MsgNotification start_note])
       ''item/fileChange/requestApproval'' (Some sample_ask)"
proof -
  let ?cb = "Some (\<lambda>q. ApprovalAccept)" and ?msgs = "[MsgNotification start_note]"
  obtain c' d' where r: "dispatch_loop (\<lambda>e. []) ?cb ?msgs (new_client, NewDemux True 64) = Some (c', d')"
    using dispatch_loop_subs [OF client_ok_new] by blast
  have "cl_files new_client = remember_all []" by (simp add: new_client_def remember_all_def)
  from dispatch_loop_files [OF client_ok_new this r] have "cl_files c' = remember_all [sample_start]"
    using routed_start_note by (simp add: routed_since_gap_def)
  then have reply: "server_reply (\<lambda>e. []) ?cb ''item/fileChange/requestApproval'' (Some sample_ask) c' =
       (Some (JObj [(''decision'', JStr ''accept'')]), None)"
    using sample_shown
    by (cases "resolveFileApproval (remember_all [sample_start]) sample_request")
      (simp add: server_reply_def parse_sample_ask chosen_callback_def)
  from grant_needs_callback_and_context [OF cr_new _ r reply]
  have "grant_backed ?cb (routed_since_gap ?msgs) ''item/fileChange/requestApproval'' (Some sample_ask)"
    by (simp add: new_client_def grants_def)
  with r reply show ?thesis by blast
qed

end
