(* ===== verification/Client_Types.thy ===== *)
theory Client_Types
  imports Options
begin

text \<open>
  The data the client's commands return (\<open>types/account.go\<close>, \<open>types/models.go\<close>,
  \<open>types/inventory.go\<close>, \<open>types/review.go\<close>, \<open>types/feedback.go\<close>, \<open>types/config.go\<close>,
  \<open>types/background_terminals.go\<close>): for every struct its record, the Go type its tags decode, and the
  record a decoded value is. A field tagged \<open>"-"\<close> is never decoded. Then the two structs with
  custom decoding: \<open>Config\<close>, whose approval policy is a string or an object, and
  \<open>ApprovalPolicyRequirement\<close>.
\<close>

section \<open>Reading values\<close>

definition t_uint32 :: gotype where
  "t_uint32 = \<lparr>zero_of = GInt 0,
     dec_of = (\<lambda>j g. case j of
         JNum s \<Rightarrow> (case parse_uint64 s of Some v \<Rightarrow> if v < 2 ^ 32 then (GInt v, True) else (g, False)
                                       | None \<Rightarrow> (g, False))
       | JNull \<Rightarrow> (g, True) | _ \<Rightarrow> (g, False))\<rparr>"

fun as_num :: "gval \<Rightarrow> string" where
  "as_num (GNum s) = s" | "as_num _ = ''0''"

definition as_ptr_of :: "(gval \<Rightarrow> 'a) \<Rightarrow> gval \<Rightarrow> 'a ptr" where
  "as_ptr_of f g = map_option f (as_ptr g)"

definition as_slice_of :: "(gval \<Rightarrow> 'a) \<Rightarrow> gval \<Rightarrow> 'a slice" where
  "as_slice_of f g = map_option (map f) (as_slice g)"

definition as_map_of :: "(gval \<Rightarrow> 'a) \<Rightarrow> gval \<Rightarrow> (string \<times> 'a) list ptr" where
  "as_map_of f g = map_option (map (\<lambda>p. (fst p, f (snd p)))) (as_map g)"

section \<open>Account and rate limits\<close>

record rateLimitWindow =
  rateLimitWindow_ResetsAt :: "int"
  rateLimitWindow_UsedPercent :: "int"
  rateLimitWindow_WindowDurationMins :: "int"

definition t_rateLimitWindow :: gotype where
  "t_rateLimitWindow = t_struct
    [(''resetsAt'', t_int),
     (''usedPercent'', t_int),
     (''windowDurationMins'', t_int)]"

definition to_rateLimitWindow :: "gval \<Rightarrow> rateLimitWindow" where
  "to_rateLimitWindow g = \<lparr>rateLimitWindow_ResetsAt = as_int (gfield g ''resetsAt''),
     rateLimitWindow_UsedPercent = as_int (gfield g ''usedPercent''),
     rateLimitWindow_WindowDurationMins = as_int (gfield g ''windowDurationMins'')\<rparr>"

record credits =
  credits_Balance :: "string"
  credits_HasCredits :: "bool"
  credits_Unlimited :: "bool"

definition t_credits :: gotype where
  "t_credits = t_struct
    [(''balance'', t_str),
     (''hasCredits'', t_bool),
     (''unlimited'', t_bool)]"

definition to_credits :: "gval \<Rightarrow> credits" where
  "to_credits g = \<lparr>credits_Balance = as_str (gfield g ''balance''),
     credits_HasCredits = as_bool (gfield g ''hasCredits''),
     credits_Unlimited = as_bool (gfield g ''unlimited'')\<rparr>"

record rateLimits =
  rateLimits_LimitID :: "string"
  rateLimits_LimitName :: "string ptr"
  rateLimits_PlanType :: "string"
  rateLimits_Credits :: "credits ptr"
  rateLimits_Primary :: "rateLimitWindow ptr"
  rateLimits_Secondary :: "rateLimitWindow ptr"
  rateLimits_Raw :: "raw"

definition t_rateLimits :: gotype where
  "t_rateLimits = t_struct
    [(''limitId'', t_str),
     (''limitName'', t_ptr t_str),
     (''planType'', t_str),
     (''credits'', t_ptr t_credits),
     (''primary'', t_ptr t_rateLimitWindow),
     (''secondary'', t_ptr t_rateLimitWindow)]"

definition to_rateLimits :: "gval \<Rightarrow> rateLimits" where
  "to_rateLimits g = \<lparr>rateLimits_LimitID = as_str (gfield g ''limitId''),
     rateLimits_LimitName = as_ptr_of as_str (gfield g ''limitName''),
     rateLimits_PlanType = as_str (gfield g ''planType''),
     rateLimits_Credits = as_ptr_of to_credits (gfield g ''credits''),
     rateLimits_Primary = as_ptr_of to_rateLimitWindow (gfield g ''primary''),
     rateLimits_Secondary = as_ptr_of to_rateLimitWindow (gfield g ''secondary''),
     rateLimits_Raw = None\<rparr>"

record rateLimitsReadResult =
  rateLimitsReadResult_RateLimits :: "rateLimits ptr"
  rateLimitsReadResult_RateLimitsByLimitID :: "(string \<times> rateLimits ptr) list ptr"

definition t_rateLimitsReadResult :: gotype where
  "t_rateLimitsReadResult = t_struct
    [(''rateLimits'', t_ptr t_rateLimits),
     (''rateLimitsByLimitId'', t_map (t_ptr t_rateLimits))]"

definition to_rateLimitsReadResult :: "gval \<Rightarrow> rateLimitsReadResult" where
  "to_rateLimitsReadResult g = \<lparr>rateLimitsReadResult_RateLimits = as_ptr_of to_rateLimits (gfield g ''rateLimits''),
     rateLimitsReadResult_RateLimitsByLimitID = as_map_of (as_ptr_of to_rateLimits) (gfield g ''rateLimitsByLimitId'')\<rparr>"

record account =
  account_Type :: "string"
  account_Email :: "string"
  account_PlanType :: "string"

definition t_account :: gotype where
  "t_account = t_struct
    [(''type'', t_str),
     (''email'', t_str),
     (''planType'', t_str)]"

definition to_account :: "gval \<Rightarrow> account" where
  "to_account g = \<lparr>account_Type = as_str (gfield g ''type''),
     account_Email = as_str (gfield g ''email''),
     account_PlanType = as_str (gfield g ''planType'')\<rparr>"

record accountReadResult =
  accountReadResult_Account :: "account"
  accountReadResult_RequiresOpenaiAuth :: "bool"

definition t_accountReadResult :: gotype where
  "t_accountReadResult = t_struct
    [(''account'', t_account),
     (''requiresOpenaiAuth'', t_bool)]"

definition to_accountReadResult :: "gval \<Rightarrow> accountReadResult" where
  "to_accountReadResult g = \<lparr>accountReadResult_Account = to_account (gfield g ''account''),
     accountReadResult_RequiresOpenaiAuth = as_bool (gfield g ''requiresOpenaiAuth'')\<rparr>"

record authStatus =
  authStatus_AuthMethod :: "string"
  authStatus_AuthToken :: "string"
  authStatus_RequiresOpenaiAuth :: "bool"

definition t_authStatus :: gotype where
  "t_authStatus = t_struct
    [(''authMethod'', t_str),
     (''authToken'', t_str),
     (''requiresOpenaiAuth'', t_bool)]"

definition to_authStatus :: "gval \<Rightarrow> authStatus" where
  "to_authStatus g = \<lparr>authStatus_AuthMethod = as_str (gfield g ''authMethod''),
     authStatus_AuthToken = as_str (gfield g ''authToken''),
     authStatus_RequiresOpenaiAuth = as_bool (gfield g ''requiresOpenaiAuth'')\<rparr>"

section \<open>Models and experimental features\<close>

record reasoningEffortInfo =
  reasoningEffortInfo_ReasoningEffort :: "string"
  reasoningEffortInfo_Description :: "string"

definition t_reasoningEffortInfo :: gotype where
  "t_reasoningEffortInfo = t_struct
    [(''reasoningEffort'', t_str),
     (''description'', t_str)]"

definition to_reasoningEffortInfo :: "gval \<Rightarrow> reasoningEffortInfo" where
  "to_reasoningEffortInfo g = \<lparr>reasoningEffortInfo_ReasoningEffort = as_str (gfield g ''reasoningEffort''),
     reasoningEffortInfo_Description = as_str (gfield g ''description'')\<rparr>"

record modelUpgradeInfo =
  modelUpgradeInfo_Model :: "string"
  modelUpgradeInfo_UpgradeCopy :: "string ptr"
  modelUpgradeInfo_ModelLink :: "string ptr"
  modelUpgradeInfo_MigrationMarkdown :: "string"

definition t_modelUpgradeInfo :: gotype where
  "t_modelUpgradeInfo = t_struct
    [(''model'', t_str),
     (''upgradeCopy'', t_ptr t_str),
     (''modelLink'', t_ptr t_str),
     (''migrationMarkdown'', t_str)]"

definition to_modelUpgradeInfo :: "gval \<Rightarrow> modelUpgradeInfo" where
  "to_modelUpgradeInfo g = \<lparr>modelUpgradeInfo_Model = as_str (gfield g ''model''),
     modelUpgradeInfo_UpgradeCopy = as_ptr_of as_str (gfield g ''upgradeCopy''),
     modelUpgradeInfo_ModelLink = as_ptr_of as_str (gfield g ''modelLink''),
     modelUpgradeInfo_MigrationMarkdown = as_str (gfield g ''migrationMarkdown'')\<rparr>"

record modelInfo =
  modelInfo_ID :: "string"
  modelInfo_Model :: "string"
  modelInfo_DisplayName :: "string"
  modelInfo_Description :: "string"
  modelInfo_Hidden :: "bool"
  modelInfo_IsDefault :: "bool"
  modelInfo_InputModalities :: "string slice"
  modelInfo_SupportedReasoningEfforts :: "reasoningEffortInfo slice"
  modelInfo_DefaultReasoningEffort :: "string"
  modelInfo_SupportsPersonality :: "bool"
  modelInfo_AdditionalSpeedTiers :: "string slice"
  modelInfo_Upgrade :: "string ptr"
  modelInfo_UpgradeInfo :: "modelUpgradeInfo ptr"
  modelInfo_AvailabilityNux :: "raw"

definition t_modelInfo :: gotype where
  "t_modelInfo = t_struct
    [(''id'', t_str),
     (''model'', t_str),
     (''displayName'', t_str),
     (''description'', t_str),
     (''hidden'', t_bool),
     (''isDefault'', t_bool),
     (''inputModalities'', t_slice t_str),
     (''supportedReasoningEfforts'', t_slice t_reasoningEffortInfo),
     (''defaultReasoningEffort'', t_str),
     (''supportsPersonality'', t_bool),
     (''additionalSpeedTiers'', t_slice t_str),
     (''upgrade'', t_ptr t_str),
     (''upgradeInfo'', t_ptr t_modelUpgradeInfo),
     (''availabilityNux'', t_raw)]"

definition to_modelInfo :: "gval \<Rightarrow> modelInfo" where
  "to_modelInfo g = \<lparr>modelInfo_ID = as_str (gfield g ''id''),
     modelInfo_Model = as_str (gfield g ''model''),
     modelInfo_DisplayName = as_str (gfield g ''displayName''),
     modelInfo_Description = as_str (gfield g ''description''),
     modelInfo_Hidden = as_bool (gfield g ''hidden''),
     modelInfo_IsDefault = as_bool (gfield g ''isDefault''),
     modelInfo_InputModalities = as_slice_of as_str (gfield g ''inputModalities''),
     modelInfo_SupportedReasoningEfforts = as_slice_of to_reasoningEffortInfo (gfield g ''supportedReasoningEfforts''),
     modelInfo_DefaultReasoningEffort = as_str (gfield g ''defaultReasoningEffort''),
     modelInfo_SupportsPersonality = as_bool (gfield g ''supportsPersonality''),
     modelInfo_AdditionalSpeedTiers = as_slice_of as_str (gfield g ''additionalSpeedTiers''),
     modelInfo_Upgrade = as_ptr_of as_str (gfield g ''upgrade''),
     modelInfo_UpgradeInfo = as_ptr_of to_modelUpgradeInfo (gfield g ''upgradeInfo''),
     modelInfo_AvailabilityNux = as_raw (gfield g ''availabilityNux'')\<rparr>"

record modelListResult =
  modelListResult_Data :: "modelInfo slice"

definition t_modelListResult :: gotype where
  "t_modelListResult = t_struct
    [(''data'', t_slice t_modelInfo)]"

definition to_modelListResult :: "gval \<Rightarrow> modelListResult" where
  "to_modelListResult g = \<lparr>modelListResult_Data = as_slice_of to_modelInfo (gfield g ''data'')\<rparr>"

record experimentalFeature =
  experimentalFeature_Name :: "string"
  experimentalFeature_Stage :: "string"
  experimentalFeature_DisplayName :: "string ptr"
  experimentalFeature_Description :: "string ptr"
  experimentalFeature_Announcement :: "string ptr"
  experimentalFeature_Enabled :: "bool"
  experimentalFeature_DefaultEnabled :: "bool"

definition t_experimentalFeature :: gotype where
  "t_experimentalFeature = t_struct
    [(''name'', t_str),
     (''stage'', t_str),
     (''displayName'', t_ptr t_str),
     (''description'', t_ptr t_str),
     (''announcement'', t_ptr t_str),
     (''enabled'', t_bool),
     (''defaultEnabled'', t_bool)]"

definition to_experimentalFeature :: "gval \<Rightarrow> experimentalFeature" where
  "to_experimentalFeature g = \<lparr>experimentalFeature_Name = as_str (gfield g ''name''),
     experimentalFeature_Stage = as_str (gfield g ''stage''),
     experimentalFeature_DisplayName = as_ptr_of as_str (gfield g ''displayName''),
     experimentalFeature_Description = as_ptr_of as_str (gfield g ''description''),
     experimentalFeature_Announcement = as_ptr_of as_str (gfield g ''announcement''),
     experimentalFeature_Enabled = as_bool (gfield g ''enabled''),
     experimentalFeature_DefaultEnabled = as_bool (gfield g ''defaultEnabled'')\<rparr>"

record experimentalFeatureListResult =
  experimentalFeatureListResult_Data :: "experimentalFeature slice"

definition t_experimentalFeatureListResult :: gotype where
  "t_experimentalFeatureListResult = t_struct
    [(''data'', t_slice t_experimentalFeature)]"

definition to_experimentalFeatureListResult :: "gval \<Rightarrow> experimentalFeatureListResult" where
  "to_experimentalFeatureListResult g = \<lparr>experimentalFeatureListResult_Data = as_slice_of to_experimentalFeature (gfield g ''data'')\<rparr>"

section \<open>MCP servers, apps and skills\<close>

record mCPServerStatus =
  mCPServerStatus_Name :: "string"
  mCPServerStatus_AuthStatus :: "string"
  mCPServerStatus_Tools :: "(string \<times> raw) list ptr"
  mCPServerStatus_Resources :: "raw slice"
  mCPServerStatus_ResourceTemplates :: "raw slice"

definition t_mCPServerStatus :: gotype where
  "t_mCPServerStatus = t_struct
    [(''name'', t_str),
     (''authStatus'', t_str),
     (''tools'', t_map t_raw),
     (''resources'', t_slice t_raw),
     (''resourceTemplates'', t_slice t_raw)]"

definition to_mCPServerStatus :: "gval \<Rightarrow> mCPServerStatus" where
  "to_mCPServerStatus g = \<lparr>mCPServerStatus_Name = as_str (gfield g ''name''),
     mCPServerStatus_AuthStatus = as_str (gfield g ''authStatus''),
     mCPServerStatus_Tools = as_map_of as_raw (gfield g ''tools''),
     mCPServerStatus_Resources = as_slice_of as_raw (gfield g ''resources''),
     mCPServerStatus_ResourceTemplates = as_slice_of as_raw (gfield g ''resourceTemplates'')\<rparr>"

record mCPServerStatusListResult =
  mCPServerStatusListResult_Data :: "mCPServerStatus slice"
  mCPServerStatusListResult_NextCursor :: "string ptr"

definition t_mCPServerStatusListResult :: gotype where
  "t_mCPServerStatusListResult = t_struct
    [(''data'', t_slice t_mCPServerStatus),
     (''nextCursor'', t_ptr t_str)]"

definition to_mCPServerStatusListResult :: "gval \<Rightarrow> mCPServerStatusListResult" where
  "to_mCPServerStatusListResult g = \<lparr>mCPServerStatusListResult_Data = as_slice_of to_mCPServerStatus (gfield g ''data''),
     mCPServerStatusListResult_NextCursor = as_ptr_of as_str (gfield g ''nextCursor'')\<rparr>"

record appInfo =
  appInfo_ID :: "string"
  appInfo_Name :: "string"
  appInfo_Description :: "string"
  appInfo_Source :: "string"
  appInfo_Version :: "string"
  appInfo_Enabled :: "bool"
  appInfo_Raw :: "raw"

definition t_appInfo :: gotype where
  "t_appInfo = t_struct
    [(''id'', t_str),
     (''name'', t_str),
     (''description'', t_str),
     (''source'', t_str),
     (''version'', t_str),
     (''enabled'', t_bool)]"

definition to_appInfo :: "gval \<Rightarrow> appInfo" where
  "to_appInfo g = \<lparr>appInfo_ID = as_str (gfield g ''id''),
     appInfo_Name = as_str (gfield g ''name''),
     appInfo_Description = as_str (gfield g ''description''),
     appInfo_Source = as_str (gfield g ''source''),
     appInfo_Version = as_str (gfield g ''version''),
     appInfo_Enabled = as_bool (gfield g ''enabled''),
     appInfo_Raw = None\<rparr>"

record appListResult =
  appListResult_Data :: "appInfo slice"

definition t_appListResult :: gotype where
  "t_appListResult = t_struct
    [(''data'', t_slice t_appInfo)]"

definition to_appListResult :: "gval \<Rightarrow> appListResult" where
  "to_appListResult g = \<lparr>appListResult_Data = as_slice_of to_appInfo (gfield g ''data'')\<rparr>"

record skillInterface =
  skillInterface_DisplayName :: "string"
  skillInterface_ShortDescription :: "string"
  skillInterface_DefaultPrompt :: "string"
  skillInterface_BrandColor :: "string ptr"
  skillInterface_IconLarge :: "string"
  skillInterface_IconSmall :: "string"

definition t_skillInterface :: gotype where
  "t_skillInterface = t_struct
    [(''displayName'', t_str),
     (''shortDescription'', t_str),
     (''defaultPrompt'', t_str),
     (''brandColor'', t_ptr t_str),
     (''iconLarge'', t_str),
     (''iconSmall'', t_str)]"

definition to_skillInterface :: "gval \<Rightarrow> skillInterface" where
  "to_skillInterface g = \<lparr>skillInterface_DisplayName = as_str (gfield g ''displayName''),
     skillInterface_ShortDescription = as_str (gfield g ''shortDescription''),
     skillInterface_DefaultPrompt = as_str (gfield g ''defaultPrompt''),
     skillInterface_BrandColor = as_ptr_of as_str (gfield g ''brandColor''),
     skillInterface_IconLarge = as_str (gfield g ''iconLarge''),
     skillInterface_IconSmall = as_str (gfield g ''iconSmall'')\<rparr>"

record skillDependencies =
  skillDependencies_Tools :: "raw slice"

definition t_skillDependencies :: gotype where
  "t_skillDependencies = t_struct
    [(''tools'', t_slice t_raw)]"

definition to_skillDependencies :: "gval \<Rightarrow> skillDependencies" where
  "to_skillDependencies g = \<lparr>skillDependencies_Tools = as_slice_of as_raw (gfield g ''tools'')\<rparr>"

record skill =
  skill_Name :: "string"
  skill_Path :: "string"
  skill_Scope :: "string"
  skill_Enabled :: "bool"
  skill_Description :: "string"
  skill_Interface :: "skillInterface ptr"
  skill_Dependencies :: "skillDependencies ptr"

definition t_skill :: gotype where
  "t_skill = t_struct
    [(''name'', t_str),
     (''path'', t_str),
     (''scope'', t_str),
     (''enabled'', t_bool),
     (''description'', t_str),
     (''interface'', t_ptr t_skillInterface),
     (''dependencies'', t_ptr t_skillDependencies)]"

definition to_skill :: "gval \<Rightarrow> skill" where
  "to_skill g = \<lparr>skill_Name = as_str (gfield g ''name''),
     skill_Path = as_str (gfield g ''path''),
     skill_Scope = as_str (gfield g ''scope''),
     skill_Enabled = as_bool (gfield g ''enabled''),
     skill_Description = as_str (gfield g ''description''),
     skill_Interface = as_ptr_of to_skillInterface (gfield g ''interface''),
     skill_Dependencies = as_ptr_of to_skillDependencies (gfield g ''dependencies'')\<rparr>"

record skillsCwdGroup =
  skillsCwdGroup_Cwd :: "string"
  skillsCwdGroup_Errors :: "raw slice"
  skillsCwdGroup_Skills :: "skill slice"

definition t_skillsCwdGroup :: gotype where
  "t_skillsCwdGroup = t_struct
    [(''cwd'', t_str),
     (''errors'', t_slice t_raw),
     (''skills'', t_slice t_skill)]"

definition to_skillsCwdGroup :: "gval \<Rightarrow> skillsCwdGroup" where
  "to_skillsCwdGroup g = \<lparr>skillsCwdGroup_Cwd = as_str (gfield g ''cwd''),
     skillsCwdGroup_Errors = as_slice_of as_raw (gfield g ''errors''),
     skillsCwdGroup_Skills = as_slice_of to_skill (gfield g ''skills'')\<rparr>"

record skillsListResult =
  skillsListResult_Data :: "skillsCwdGroup slice"

definition t_skillsListResult :: gotype where
  "t_skillsListResult = t_struct
    [(''data'', t_slice t_skillsCwdGroup)]"

definition to_skillsListResult :: "gval \<Rightarrow> skillsListResult" where
  "to_skillsListResult g = \<lparr>skillsListResult_Data = as_slice_of to_skillsCwdGroup (gfield g ''data'')\<rparr>"

section \<open>Reviews\<close>

record reviewTurn =
  reviewTurn_ID :: "string"
  reviewTurn_Status :: "string"
  reviewTurn_StartedAt :: "int ptr"
  reviewTurn_CompletedAt :: "int ptr"
  reviewTurn_DurationMs :: "int ptr"

definition t_reviewTurn :: gotype where
  "t_reviewTurn = t_struct
    [(''id'', t_str),
     (''status'', t_str),
     (''startedAt'', t_ptr t_int),
     (''completedAt'', t_ptr t_int),
     (''durationMs'', t_ptr t_int)]"

definition to_reviewTurn :: "gval \<Rightarrow> reviewTurn" where
  "to_reviewTurn g = \<lparr>reviewTurn_ID = as_str (gfield g ''id''),
     reviewTurn_Status = as_str (gfield g ''status''),
     reviewTurn_StartedAt = as_ptr_of as_int (gfield g ''startedAt''),
     reviewTurn_CompletedAt = as_ptr_of as_int (gfield g ''completedAt''),
     reviewTurn_DurationMs = as_ptr_of as_int (gfield g ''durationMs'')\<rparr>"

record reviewStartResult =
  reviewStartResult_ReviewThreadID :: "string"
  reviewStartResult_Turn :: "reviewTurn"

definition t_reviewStartResult :: gotype where
  "t_reviewStartResult = t_struct
    [(''reviewThreadId'', t_str),
     (''turn'', t_reviewTurn)]"

definition to_reviewStartResult :: "gval \<Rightarrow> reviewStartResult" where
  "to_reviewStartResult g = \<lparr>reviewStartResult_ReviewThreadID = as_str (gfield g ''reviewThreadId''),
     reviewStartResult_Turn = to_reviewTurn (gfield g ''turn'')\<rparr>"

section \<open>Feedback\<close>

record feedbackReceipt =
  feedbackReceipt_ThreadID :: "string"

definition t_feedbackReceipt :: gotype where
  "t_feedbackReceipt = t_struct
    [(''threadId'', t_str)]"

definition to_feedbackReceipt :: "gval \<Rightarrow> feedbackReceipt" where
  "to_feedbackReceipt g = \<lparr>feedbackReceipt_ThreadID = as_str (gfield g ''threadId'')\<rparr>"

section \<open>Configuration writes\<close>

record configWriteResponse =
  configWriteResponse_Status :: "string"
  configWriteResponse_Version :: "string"
  configWriteResponse_FilePath :: "string"

definition t_configWriteResponse :: gotype where
  "t_configWriteResponse = t_struct
    [(''status'', t_str),
     (''version'', t_str),
     (''filePath'', t_str)]"

definition to_configWriteResponse :: "gval \<Rightarrow> configWriteResponse" where
  "to_configWriteResponse g = \<lparr>configWriteResponse_Status = as_str (gfield g ''status''),
     configWriteResponse_Version = as_str (gfield g ''version''),
     configWriteResponse_FilePath = as_str (gfield g ''filePath'')\<rparr>"

section \<open>Background terminals\<close>

record backgroundTerminal =
  backgroundTerminal_Command :: "string"
  backgroundTerminal_Cwd :: "string"
  backgroundTerminal_ItemID :: "string"
  backgroundTerminal_ProcessID :: "string"
  backgroundTerminal_OSPID :: "int ptr"
  backgroundTerminal_CPUPercent :: "string ptr"
  backgroundTerminal_RSSKB :: "int ptr"

definition t_backgroundTerminal :: gotype where
  "t_backgroundTerminal = t_struct
    [(''command'', t_str),
     (''cwd'', t_str),
     (''itemId'', t_str),
     (''processId'', t_str),
     (''osPid'', t_ptr t_uint32),
     (''cpuPercent'', t_ptr t_float),
     (''rssKb'', t_ptr t_uint64)]"

definition to_backgroundTerminal :: "gval \<Rightarrow> backgroundTerminal" where
  "to_backgroundTerminal g = \<lparr>backgroundTerminal_Command = as_str (gfield g ''command''),
     backgroundTerminal_Cwd = as_str (gfield g ''cwd''),
     backgroundTerminal_ItemID = as_str (gfield g ''itemId''),
     backgroundTerminal_ProcessID = as_str (gfield g ''processId''),
     backgroundTerminal_OSPID = as_ptr_of as_int (gfield g ''osPid''),
     backgroundTerminal_CPUPercent = as_ptr_of as_num (gfield g ''cpuPercent''),
     backgroundTerminal_RSSKB = as_ptr_of as_int (gfield g ''rssKb'')\<rparr>"

section \<open>Effective configuration\<close>

record config =
  cfg_Model :: "string ptr"
  cfg_ModelReasoningEffort :: "string ptr"
  cfg_ApprovalPolicy :: "string ptr"
  cfg_Sandbox :: "string ptr"
  cfg_DefaultPermissions :: raw
  cfg_Features :: "(string \<times> bool) list ptr"
  cfg_ApprovalsReviewer :: "string ptr"
  cfg_History :: raw
  cfg_Marketplaces :: "(string \<times> raw) list ptr"
  cfg_Apps :: raw
  cfg_Raw :: "(string \<times> raw) list ptr"

definition zero_config :: config where
  "zero_config = \<lparr>cfg_Model = None, cfg_ModelReasoningEffort = None, cfg_ApprovalPolicy = None, cfg_Sandbox = None,
     cfg_DefaultPermissions = None, cfg_Features = None, cfg_ApprovalsReviewer = None, cfg_History = None,
     cfg_Marketplaces = None, cfg_Apps = None, cfg_Raw = None\<rparr>"

definition t_configAux :: gotype where
  "t_configAux = t_struct
    [(''model'', t_ptr t_str), (''model_reasoning_effort'', t_ptr t_str), (''sandbox'', t_ptr t_str),
     (''default_permissions'', t_raw), (''features'', t_map t_bool), (''approvals_reviewer'', t_ptr t_str),
     (''history'', t_raw), (''marketplaces'', t_map t_raw), (''apps'', t_raw)]"

definition to_configAux :: "gval \<Rightarrow> config" where
  "to_configAux g = zero_config\<lparr>cfg_Model := as_ptr_of as_str (gfield g ''model''),
     cfg_ModelReasoningEffort := as_ptr_of as_str (gfield g ''model_reasoning_effort''),
     cfg_Sandbox := as_ptr_of as_str (gfield g ''sandbox''),
     cfg_DefaultPermissions := as_raw (gfield g ''default_permissions''),
     cfg_Features := as_map_of as_bool (gfield g ''features''),
     cfg_ApprovalsReviewer := as_ptr_of as_str (gfield g ''approvals_reviewer''),
     cfg_History := as_raw (gfield g ''history''),
     cfg_Marketplaces := as_map_of as_raw (gfield g ''marketplaces''),
     cfg_Apps := as_raw (gfield g ''apps'')\<rparr>"

text \<open>\<open>decodeConfigApprovalPolicy\<close>: a string is the policy, the granular object is the policy
  \<open>granular\<close>, any other object and \<open>null\<close> are no policy, and any other value is an error.\<close>

definition t_rawMap :: gotype where
  "t_rawMap = t_map t_raw"

definition map_has :: "gval \<Rightarrow> string \<Rightarrow> raw option" where
  "map_has g k = (case as_map_of as_raw g of None \<Rightarrow> None | Some m \<Rightarrow> map_of m k)"

definition decodeConfigApprovalPolicy :: "raw \<Rightarrow> goError + string ptr" where
  "decodeConfigApprovalPolicy r =
     (if r = None \<or> r = Some JNull then Inr None
      else (case unmarshal t_str r of (policy, ok) \<Rightarrow>
        if ok then Inr (Some (as_str policy))
        else (case unmarshal t_rawMap r of (obj, ok2) \<Rightarrow>
          if \<not> ok2 then Inl (ErrWrap ''types.Config.approval_policy: expected string, null, or object'' json_cause)
          else if map_has obj ApprovalGranular \<noteq> None then Inr (Some ApprovalGranular)
          else Inr None)))"

definition Config_UnmarshalJSON :: "json \<Rightarrow> goError + config" where
  "Config_UnmarshalJSON j =
     (case unmarshal t_configAux (Some j) of (aux, ok1) \<Rightarrow>
      if \<not> ok1 then Inl json_cause
      else (case unmarshal t_rawMap (Some j) of (r, ok2) \<Rightarrow>
        if \<not> ok2 then Inl json_cause
        else (let c = (to_configAux aux)\<lparr>cfg_Raw := as_map_of as_raw r\<rparr> in
          case map_has r ''approval_policy'' of
            None \<Rightarrow> Inr c
          | Some p \<Rightarrow> (case decodeConfigApprovalPolicy p of
                Inl e \<Rightarrow> Inl e
              | Inr policy \<Rightarrow> Inr (c\<lparr>cfg_ApprovalPolicy := policy\<rparr>)))))"

section \<open>Managed requirements\<close>

record approvalPolicyRequirement =
  apr_ProviderValue :: string
  apr_Granular :: "granularApprovalSettings ptr"

definition NewApprovalPolicyRequirement :: "string \<Rightarrow> approvalPolicyRequirement" where
  "NewApprovalPolicyRequirement v = \<lparr>apr_ProviderValue = v, apr_Granular = None\<rparr>"

definition requirement_MarshalJSON :: "approvalPolicyRequirement \<Rightarrow> json" where
  "requirement_MarshalJSON r = (case apr_Granular r of
      Some g \<Rightarrow> JObj [(''granular'', encode_granular g)]
    | None \<Rightarrow> JStr (apr_ProviderValue r))"

definition t_granular :: gotype where
  "t_granular = t_struct [(''mcp_elicitations'', t_bool), (''rules'', t_bool), (''sandbox_approval'', t_bool),
     (''skill_approval'', t_bool), (''request_permissions'', t_bool)]"

definition to_granular :: "gval \<Rightarrow> granularApprovalSettings" where
  "to_granular g = \<lparr>ga_MCPElicitations = f_bool g ''mcp_elicitations'', ga_Rules = f_bool g ''rules'',
     ga_SandboxApproval = f_bool g ''sandbox_approval'', ga_SkillApproval = f_bool g ''skill_approval'',
     ga_RequestPermissions = f_bool g ''request_permissions''\<rparr>"

text \<open>\<open>null\<close> decodes into a Go string without an error, so a \<open>null\<close> requirement is the empty policy.\<close>

definition requirement_UnmarshalJSON :: "json \<Rightarrow> goError + approvalPolicyRequirement" where
  "requirement_UnmarshalJSON j =
     (case unmarshal t_str (Some j) of (v, ok) \<Rightarrow>
      if ok then Inr (NewApprovalPolicyRequirement (as_str v))
      else (case unmarshal (t_struct [(''granular'', t_ptr t_granular)]) (Some j) of (obj, ok2) \<Rightarrow>
        if \<not> ok2 then Inl (ErrWrap ''types.ApprovalPolicyRequirement: decode'' json_cause)
        else (case f_ptr obj ''granular'' of
            None \<Rightarrow> Inl (ErrText ''types.ApprovalPolicyRequirement: unsupported object'')
          | Some g \<Rightarrow> Inr \<lparr>apr_ProviderValue = ApprovalGranular, apr_Granular = Some (to_granular g)\<rparr>)))"

record configRequirements =
  crq_AllowedApprovalPolicies :: "approvalPolicyRequirement slice"
  crq_AllowedSandboxModes :: "string slice"

text \<open>Types with their own \<open>UnmarshalJSON\<close>, as fields: the value kept is the message it accepted.\<close>

definition t_custom :: "(json \<Rightarrow> goError + 'a) \<Rightarrow> gotype" where
  "t_custom f = \<lparr>zero_of = GRaw None,
     dec_of = (\<lambda>j g. case f j of Inl e \<Rightarrow> (g, False) | Inr c \<Rightarrow> (GRaw (Some j), True))\<rparr>"

definition as_custom :: "(json \<Rightarrow> goError + 'a) \<Rightarrow> 'a \<Rightarrow> gval \<Rightarrow> 'a" where
  "as_custom f z g = (case as_raw g of None \<Rightarrow> z | Some j \<Rightarrow> (case f j of Inl e \<Rightarrow> z | Inr c \<Rightarrow> c))"

definition t_configReadResult :: gotype where
  "t_configReadResult = t_struct [(''config'', t_custom Config_UnmarshalJSON)]"

definition t_configRequirementsReadResult :: gotype where
  "t_configRequirementsReadResult = t_struct [(''requirements'', t_ptr (t_struct
     [(''allowedApprovalPolicies'', t_slice (t_custom requirement_UnmarshalJSON)),
      (''allowedSandboxModes'', t_slice t_str)]))]"

definition to_configRequirements :: "gval \<Rightarrow> configRequirements" where
  "to_configRequirements g = \<lparr>crq_AllowedApprovalPolicies =
       as_slice_of (as_custom requirement_UnmarshalJSON (NewApprovalPolicyRequirement [])) (gfield g ''allowedApprovalPolicies''),
     crq_AllowedSandboxModes = as_slice_of as_str (gfield g ''allowedSandboxModes'')\<rparr>"

section \<open>Requests\<close>

record reviewTarget =
  rvt_Type :: string
  rvt_Branch :: string
  rvt_Sha :: string
  rvt_Title :: string
  rvt_Instructions :: string

definition ReviewTargetUncommittedChanges :: reviewTarget where
  "ReviewTargetUncommittedChanges = \<lparr>rvt_Type = ''uncommittedChanges'', rvt_Branch = [], rvt_Sha = [], rvt_Title = [],
     rvt_Instructions = []\<rparr>"

definition ReviewTargetBaseBranch :: "string \<Rightarrow> reviewTarget" where
  "ReviewTargetBaseBranch b = \<lparr>rvt_Type = ''baseBranch'', rvt_Branch = b, rvt_Sha = [], rvt_Title = [],
     rvt_Instructions = []\<rparr>"

definition ReviewTargetCommit :: "string \<Rightarrow> string \<Rightarrow> reviewTarget" where
  "ReviewTargetCommit sha title = \<lparr>rvt_Type = ''commit'', rvt_Branch = [], rvt_Sha = sha, rvt_Title = title,
     rvt_Instructions = []\<rparr>"

definition ReviewTargetCustom :: "string \<Rightarrow> reviewTarget" where
  "ReviewTargetCustom instr = \<lparr>rvt_Type = ''custom'', rvt_Branch = [], rvt_Sha = [], rvt_Title = [],
     rvt_Instructions = instr\<rparr>"

definition encode_reviewTarget :: "reviewTarget \<Rightarrow> json" where
  "encode_reviewTarget t = JObj ([(''type'', JStr (rvt_Type t))] @ omit_empty ''branch'' (rvt_Branch t)
     @ omit_empty ''sha'' (rvt_Sha t) @ omit_empty ''title'' (rvt_Title t)
     @ omit_empty ''instructions'' (rvt_Instructions t))"

definition ReviewDetached :: string where "ReviewDetached = ''detached''"

record reviewOptions =
  rvo_Target :: reviewTarget
  rvo_Delivery :: string

definition encode_reviewStart :: "string \<Rightarrow> reviewOptions \<Rightarrow> json" where
  "encode_reviewStart threadID opts = JObj ([(''threadId'', JStr threadID),
     (''target'', encode_reviewTarget (rvo_Target opts))] @ omit_empty ''delivery'' (rvo_Delivery opts))"

record configEntry =
  cen_KeyPath :: string
  cen_MergeStrategy :: string
  cen_Value :: json

definition MergeReplace :: string where "MergeReplace = ''replace''"

definition encode_configEntry :: "configEntry \<Rightarrow> json" where
  "encode_configEntry e = JObj [(''keyPath'', JStr (cen_KeyPath e)), (''mergeStrategy'', JStr (cen_MergeStrategy e)),
     (''value'', cen_Value e)]"

record feedbackReport =
  fbr_Classification :: string
  fbr_IncludeLogs :: bool
  fbr_Reason :: string
  fbr_ExtraLogFiles :: "string list"

definition encode_feedbackReport :: "feedbackReport \<Rightarrow> json" where
  "encode_feedbackReport r = JObj ([(''classification'', JStr (fbr_Classification r)),
     (''includeLogs'', JBool (fbr_IncludeLogs r))] @ omit_empty ''reason'' (fbr_Reason r)
     @ omit_strs ''extraLogFiles'' (fbr_ExtraLogFiles r))"

section \<open>Lemmas\<close>

lemmas client_eval = gotype_defs field_defs unmarshal_def values_for_def match_field_def put_def
  t_uint32_def as_ptr_of_def as_slice_of_def as_map_of_def map_has_def t_rawMap_def

text \<open>A requirement is read back as it was written, except that a value whose granular settings are set
  is always the granular policy.\<close>

lemma requirement_roundtrip:
  "requirement_UnmarshalJSON (requirement_MarshalJSON r) =
     Inr (case apr_Granular r of None \<Rightarrow> r | Some g \<Rightarrow> r\<lparr>apr_ProviderValue := ApprovalGranular\<rparr>)"
proof (cases "apr_Granular r")
  case None
  then show ?thesis
    by (cases r) (simp add: requirement_UnmarshalJSON_def requirement_MarshalJSON_def client_eval
        NewApprovalPolicyRequirement_def)
next
  case (Some g)
  then show ?thesis
    by (cases r; cases g) (simp add: requirement_UnmarshalJSON_def requirement_MarshalJSON_def client_eval
        encode_granular_def omit_false_def t_granular_def to_granular_def to_lower_def to_lower_char_def)
qed

end
