(* ===== verification/Client_Commands.thy ===== *)
theory Client_Commands
  imports Dispatch Client_Types
begin

text \<open>
  The client's commands (\<open>client_commands.go\<close>): \<open>sendRaw\<close>, which checks the client and translates
  errors, the read-only commands, the writes of configuration, features and feedback. The peer is a
  parameter: a function from the method and the parameters of one request to what \<open>Demux.Send\<close>
  returns for it, over a state of its own. The operands that \<open>%q\<close> and \<open>%d\<close> format into error texts are
  left out.
\<close>

section \<open>Requests\<close>

type_synonym 's server = "string \<Rightarrow> raw \<Rightarrow> 's \<Rightarrow> (goError + rpcResponse) \<times> 's"

type_synonym ('a, 's) outcome = "(goError + 'a) \<times> 's"

definition client_op :: "string \<Rightarrow> string" where
  "client_op caller = ''codex.Client.'' @ caller"

text \<open>\<open>classifyRPCError\<close>.\<close>

definition legacyUnsupported :: "rpcErrorObj \<Rightarrow> bool" where
  "legacyUnsupported e = (rpc_Code e = - 32600 \<and> rpc_Message e = ''Invalid request'')"

definition classifyRPCError :: "string \<Rightarrow> rpcErrorObj \<Rightarrow> goError" where
  "classifyRPCError m e =
     (if m = ''configRequirements/read'' \<and> (rpc_Code e = - 32601 \<or> legacyUnsupported e)
      then ErrWrap (client_op ''ReadConfigRequirements'') (Sentinel ErrRuntimeControlsUnsupported)
      else if contains_str (rpc_Message e) ''requires experimentalApi capability''
      then FeatureNotEnabledError ''experimentalApi'' m (rpc_Message e)
      else RPCError (rpc_Code e) (rpc_Message e) (rpc_Data e))"

definition connection_error :: "string \<Rightarrow> client \<Rightarrow> goError option" where
  "connection_error caller c =
     (if cl_closed c then Some (ErrWrap (client_op caller) (Sentinel ErrClientClosed))
      else if \<not> cl_connected c then Some (ErrWrap (client_op caller) (Sentinel ErrClientNotConnected))
      else None)"

definition sendRaw :: "client \<Rightarrow> 's server \<Rightarrow> string \<Rightarrow> string \<Rightarrow> raw \<Rightarrow> 's \<Rightarrow> (raw, 's) outcome" where
  "sendRaw c srv caller m ps s = (case connection_error caller c of
      Some e \<Rightarrow> (Inl e, s)
    | None \<Rightarrow> (case srv m ps s of
        (Inl e, s') \<Rightarrow> (Inl (ErrWrap (client_op caller) e), s')
      | (Inr resp, s') \<Rightarrow> (case resp_Error resp of
            Some e \<Rightarrow> (Inl (classifyRPCError m e), s')
          | None \<Rightarrow> (Inr (resp_Result resp), s'))))"

text \<open>What the commands do with the result: decode it, or ignore it.\<close>

definition decode_as :: "string \<Rightarrow> gotype \<Rightarrow> (gval \<Rightarrow> 'a) \<Rightarrow> (raw, 's) outcome \<Rightarrow> ('a, 's) outcome" where
  "decode_as op t rd res = (case res of
      (Inl e, s) \<Rightarrow> (Inl e, s)
    | (Inr r, s) \<Rightarrow> (case unmarshal t r of (g, ok) \<Rightarrow>
        if ok then (Inr (rd g), s) else (Inl (ErrWrap (op @ '': decode response'') json_cause), s)))"

definition ignore :: "('a, 's) outcome \<Rightarrow> (unit, 's) outcome" where
  "ignore res = (case res of (Inl e, s) \<Rightarrow> (Inl e, s) | (Inr x, s) \<Rightarrow> (Inr (), s))"

section \<open>Read-only commands\<close>

definition no_params :: raw where "no_params = Some (JObj [])"

text \<open>\<open>ReadConfig\<close> decodes the response a second time to keep every field of the configuration.\<close>

definition config_of_response :: "gval \<Rightarrow> raw \<Rightarrow> config" where
  "config_of_response g r =
     (let c = as_custom Config_UnmarshalJSON zero_config (gfield g ''config'') in
      case unmarshal (t_struct [(''config'', t_rawMap)]) r of (wrapper, ok) \<Rightarrow>
        if ok then c\<lparr>cfg_Raw := as_map_of as_raw (gfield wrapper ''config'')\<rparr> else c)"

definition ReadConfig :: "client \<Rightarrow> 's server \<Rightarrow> 's \<Rightarrow> (config, 's) outcome" where
  "ReadConfig c srv s = (case sendRaw c srv ''ReadConfig'' ''config/read'' no_params s of
      (Inl e, s') \<Rightarrow> (Inl e, s')
    | (Inr r, s') \<Rightarrow> decode_as (client_op ''ReadConfig'') t_configReadResult (\<lambda>g. config_of_response g r) (Inr r, s'))"

definition ReadConfigRequirements :: "client \<Rightarrow> 's server \<Rightarrow> 's \<Rightarrow> (configRequirements ptr, 's) outcome" where
  "ReadConfigRequirements c srv s =
     decode_as (client_op ''ReadConfigRequirements'') t_configRequirementsReadResult
       (\<lambda>g. as_ptr_of to_configRequirements (gfield g ''requirements''))
       (sendRaw c srv ''ReadConfigRequirements'' ''configRequirements/read'' None s)"

definition ListModels :: "client \<Rightarrow> 's server \<Rightarrow> 's \<Rightarrow> (modelInfo slice, 's) outcome" where
  "ListModels c srv s = decode_as (client_op ''ListModels'') t_modelListResult
     (\<lambda>g. modelListResult_Data (to_modelListResult g)) (sendRaw c srv ''ListModels'' ''model/list'' no_params s)"

definition ListExperimentalFeatures :: "client \<Rightarrow> 's server \<Rightarrow> 's \<Rightarrow> (experimentalFeature slice, 's) outcome" where
  "ListExperimentalFeatures c srv s = decode_as (client_op ''ListExperimentalFeatures'') t_experimentalFeatureListResult
     (\<lambda>g. experimentalFeatureListResult_Data (to_experimentalFeatureListResult g))
     (sendRaw c srv ''ListExperimentalFeatures'' ''experimentalFeature/list'' no_params s)"

definition ListMCPServerStatus :: "client \<Rightarrow> 's server \<Rightarrow> 's \<Rightarrow> (mCPServerStatusListResult, 's) outcome" where
  "ListMCPServerStatus c srv s = decode_as (client_op ''ListMCPServerStatus'') t_mCPServerStatusListResult
     to_mCPServerStatusListResult (sendRaw c srv ''ListMCPServerStatus'' ''mcpServerStatus/list'' no_params s)"

definition ListApps :: "client \<Rightarrow> 's server \<Rightarrow> 's \<Rightarrow> (appInfo slice, 's) outcome" where
  "ListApps c srv s = decode_as (client_op ''ListApps'') t_appListResult
     (\<lambda>g. appListResult_Data (to_appListResult g)) (sendRaw c srv ''ListApps'' ''app/list'' no_params s)"

definition buildSkillsListParams :: "codexOptions option \<Rightarrow> json" where
  "buildSkillsListParams opts = JObj (case opts of
      None \<Rightarrow> []
    | Some o' \<Rightarrow> (if co_DefaultCwd o' = [] then [] else [(''cwds'', JArr [JStr (co_DefaultCwd o')])]))"

definition ListSkills :: "codexOptions \<Rightarrow> client \<Rightarrow> 's server \<Rightarrow> 's \<Rightarrow> (skillsCwdGroup slice, 's) outcome" where
  "ListSkills opts c srv s = decode_as (client_op ''ListSkills'') t_skillsListResult
     (\<lambda>g. skillsListResult_Data (to_skillsListResult g))
     (sendRaw c srv ''ListSkills'' ''skills/list'' (Some (buildSkillsListParams (Some opts))) s)"

definition ReadAccount :: "client \<Rightarrow> 's server \<Rightarrow> 's \<Rightarrow> (accountReadResult, 's) outcome" where
  "ReadAccount c srv s = decode_as (client_op ''ReadAccount'') t_accountReadResult to_accountReadResult
     (sendRaw c srv ''ReadAccount'' ''account/read'' no_params s)"

definition ReadRateLimits :: "client \<Rightarrow> 's server \<Rightarrow> 's \<Rightarrow> (rateLimitsReadResult, 's) outcome" where
  "ReadRateLimits c srv s = decode_as (client_op ''ReadRateLimits'') t_rateLimitsReadResult to_rateLimitsReadResult
     (sendRaw c srv ''ReadRateLimits'' ''account/rateLimits/read'' no_params s)"

definition GetAuthStatus :: "client \<Rightarrow> 's server \<Rightarrow> 's \<Rightarrow> (authStatus, 's) outcome" where
  "GetAuthStatus c srv s = decode_as (client_op ''GetAuthStatus'') t_authStatus to_authStatus
     (sendRaw c srv ''GetAuthStatus'' ''getAuthStatus'' no_params s)"

section \<open>Writing configuration\<close>

definition isHooksConfigKeyPath :: "string \<Rightarrow> bool" where
  "isHooksConfigKeyPath k = (k = ''hooks'' \<or> has_prefix k ''hooks.'')"

definition rejectHookConfigWrite :: "codexOptions \<Rightarrow> client \<Rightarrow> string \<Rightarrow> string \<Rightarrow> goError option" where
  "rejectHookConfigWrite opts c caller keyPath =
     (if \<not> isHooksConfigKeyPath keyPath then None
      else if \<not> co_HookCallback opts then None
      else if \<not> cl_connected c \<or> cl_closed c then None
      else Some (ErrText (client_op caller @ '': refusing to write while WithHookCallback owns generated hooks.json; close this client or create one without WithHookCallback'')))"

definition with_strategy :: "configEntry \<Rightarrow> configEntry" where
  "with_strategy e = (if cen_MergeStrategy e = [] then e\<lparr>cen_MergeStrategy := MergeReplace\<rparr> else e)"

definition WriteConfigValue ::
  "codexOptions \<Rightarrow> client \<Rightarrow> 's server \<Rightarrow> configEntry \<Rightarrow> 's \<Rightarrow> (configWriteResponse, 's) outcome" where
  "WriteConfigValue opts c srv entry s =
     (if cen_KeyPath entry = [] then (Inl (ErrText (client_op ''WriteConfigValue: keyPath must not be empty'')), s)
      else (case rejectHookConfigWrite opts c ''WriteConfigValue'' (cen_KeyPath entry) of
          Some e \<Rightarrow> (Inl e, s)
        | None \<Rightarrow> decode_as (client_op ''WriteConfigValue'') t_configWriteResponse to_configWriteResponse
            (sendRaw c srv ''WriteConfigValue'' ''config/value/write'' (Some (encode_configEntry (with_strategy entry))) s)))"

fun first_rejected :: "codexOptions \<Rightarrow> client \<Rightarrow> configEntry list \<Rightarrow> goError option" where
  "first_rejected opts c [] = None"
| "first_rejected opts c (e # es) = (case rejectHookConfigWrite opts c ''WriteConfigBatch'' (cen_KeyPath e) of
      Some err \<Rightarrow> Some err | None \<Rightarrow> first_rejected opts c es)"

definition WriteConfigBatch ::
  "codexOptions \<Rightarrow> client \<Rightarrow> 's server \<Rightarrow> configEntry list \<Rightarrow> 's \<Rightarrow> (configWriteResponse, 's) outcome" where
  "WriteConfigBatch opts c srv edits s =
     (if edits = [] then (Inl (ErrText (client_op ''WriteConfigBatch: edits must not be empty'')), s)
      else (case first_rejected opts c edits of
          Some e \<Rightarrow> (Inl e, s)
        | None \<Rightarrow> decode_as (client_op ''WriteConfigBatch'') t_configWriteResponse to_configWriteResponse
            (sendRaw c srv ''WriteConfigBatch'' ''config/batchWrite''
              (Some (JObj [(''edits'', JArr (map (\<lambda>e. encode_configEntry (with_strategy e)) edits))])) s)))"

definition set_value :: "codexOptions \<Rightarrow> client \<Rightarrow> 's server \<Rightarrow> string \<Rightarrow> json \<Rightarrow> 's \<Rightarrow> (unit, 's) outcome" where
  "set_value opts c srv key v s = ignore (WriteConfigValue opts c srv
     \<lparr>cen_KeyPath = key, cen_MergeStrategy = MergeReplace, cen_Value = v\<rparr> s)"

definition SetModel :: "codexOptions \<Rightarrow> client \<Rightarrow> 's server \<Rightarrow> string \<Rightarrow> 's \<Rightarrow> (unit, 's) outcome" where
  "SetModel opts c srv m s =
     (if m = [] then (Inl (ErrText (client_op ''SetModel: model must not be empty'')), s)
      else set_value opts c srv ''model'' (JStr m) s)"

definition SetReasoningEffort :: "codexOptions \<Rightarrow> client \<Rightarrow> 's server \<Rightarrow> string \<Rightarrow> 's \<Rightarrow> (unit, 's) outcome" where
  "SetReasoningEffort opts c srv effort s =
     (if effort = [] then (Inl (ErrText (client_op ''SetReasoningEffort: effort must not be empty'')), s)
      else set_value opts c srv ''model_reasoning_effort'' (JStr effort) s)"

definition SetApprovalPolicy ::
  "codexOptions \<Rightarrow> cliCompatibilityState \<Rightarrow> client \<Rightarrow> 's server \<Rightarrow> string \<Rightarrow> 's \<Rightarrow> (unit, 's) outcome" where
  "SetApprovalPolicy opts cli c srv policy s =
     (if policy = [] then (Inl (ErrText (client_op ''SetApprovalPolicy: policy must not be empty'')), s)
      else (case validateApprovalPolicy cli policy of
          Some e \<Rightarrow> (Inl (ErrWrap (client_op ''SetApprovalPolicy'') e), s)
        | None \<Rightarrow> set_value opts c srv ''approval_policy'' (encodeApprovalPolicy policy) s))"

definition SetSandbox :: "codexOptions \<Rightarrow> client \<Rightarrow> 's server \<Rightarrow> string \<Rightarrow> 's \<Rightarrow> (unit, 's) outcome" where
  "SetSandbox opts c srv sandbox s =
     (if sandbox = [] then (Inl (ErrText (client_op ''SetSandbox: sandbox must not be empty'')), s)
      else set_value opts c srv ''sandbox'' (JStr sandbox) s)"

section \<open>Features, logout, feedback\<close>

definition SetExperimentalFeatures ::
  "client \<Rightarrow> 's server \<Rightarrow> (string \<times> bool) list ptr \<Rightarrow> 's \<Rightarrow> (unit, 's) outcome" where
  "SetExperimentalFeatures c srv enablement s =
     (let m = (case enablement of None \<Rightarrow> [] | Some m \<Rightarrow> m) in
      ignore (sendRaw c srv ''SetExperimentalFeatures'' ''experimentalFeature/enablement/set''
        (Some (JObj [(''enablement'', marshal_map (map (\<lambda>p. (fst p, JBool (snd p))) m))])) s))"

definition SetExperimentalFeature :: "client \<Rightarrow> 's server \<Rightarrow> string \<Rightarrow> bool \<Rightarrow> 's \<Rightarrow> (unit, 's) outcome" where
  "SetExperimentalFeature c srv name enabled s =
     (if name = [] then (Inl (ErrText (client_op ''SetExperimentalFeature: name must not be empty'')), s)
      else SetExperimentalFeatures c srv (Some [(name, enabled)]) s)"

definition Logout :: "client \<Rightarrow> 's server \<Rightarrow> 's \<Rightarrow> (unit, 's) outcome" where
  "Logout c srv s = ignore (sendRaw c srv ''Logout'' ''account/logout'' no_params s)"

definition UploadFeedback :: "client \<Rightarrow> 's server \<Rightarrow> feedbackReport \<Rightarrow> 's \<Rightarrow> (feedbackReceipt, 's) outcome" where
  "UploadFeedback c srv report s =
     (if fbr_Classification report = [] then
        (Inl (ErrText (client_op ''UploadFeedback: report.Classification is required'')), s)
      else decode_as (client_op ''UploadFeedback'') t_feedbackReceipt to_feedbackReceipt
        (sendRaw c srv ''UploadFeedback'' ''feedback/upload'' (Some (encode_feedbackReport report)) s))"

section \<open>Recording the peer\<close>

text \<open>A peer that also records the requests it got and what it answered.\<close>

type_synonym exchange = "string \<times> raw \<times> (goError + rpcResponse)"

definition recorded :: "'s server \<Rightarrow> ('s \<times> exchange list) server" where
  "recorded srv m ps st = (case st of (s, tr) \<Rightarrow> (case srv m ps s of (r, s') \<Rightarrow> (r, (s', tr @ [(m, ps, r)]))))"

definition requests :: "exchange list \<Rightarrow> (string \<times> raw) list" where
  "requests tr = map (\<lambda>x. (fst x, fst (snd x))) tr"

section \<open>Lemmas\<close>

lemma connection_error_None [simp]: "connection_error caller c = None \<longleftrightarrow> \<not> cl_closed c \<and> cl_connected c"
  by (simp add: connection_error_def)

lemma snd_decode_as [simp]: "snd (decode_as op t rd res) = snd res"
  by (auto simp: decode_as_def split: prod.splits sum.splits)

lemma snd_ignore [simp]: "snd (ignore res) = snd res"
  by (auto simp: ignore_def split: prod.splits sum.splits)

lemma sendRaw_refused: "cl_closed c \<or> \<not> cl_connected c \<Longrightarrow> snd (sendRaw c srv caller m ps s) = s"
  by (auto simp: sendRaw_def connection_error_def)

lemma requests_sendRaw:
  "requests (snd (snd (sendRaw c (recorded srv) caller m ps (s, tr)))) = requests tr @
     (if \<not> cl_closed c \<and> cl_connected c then [(m, ps)] else [])"
  by (auto simp: sendRaw_def recorded_def requests_def connection_error_def split: prod.splits sum.splits option.splits)

lemma first_rejected_iff:
  "first_rejected opts c edits \<noteq> None \<longleftrightarrow>
     (\<exists>e \<in> set edits. rejectHookConfigWrite opts c ''WriteConfigBatch'' (cen_KeyPath e) \<noteq> None)"
  by (induction edits) (auto split: option.splits)

lemma reject_iff:
  "rejectHookConfigWrite opts c caller k \<noteq> None \<longleftrightarrow>
     isHooksConfigKeyPath k \<and> co_HookCallback opts \<and> cl_connected c \<and> \<not> cl_closed c"
  by (simp add: rejectHookConfigWrite_def)

section \<open>The writes among the requests\<close>

text \<open>The first key of a dotted key path, and the section of the configuration an edit is in.\<close>

definition first_key :: "string \<Rightarrow> string" where
  "first_key k = takeWhile (\<lambda>c. c \<noteq> CHR ''.'') k"

definition touches_hooks :: "json \<Rightarrow> bool" where
  "touches_hooks j = (case j of JObj kvs \<Rightarrow> (case map_of kvs ''keyPath'' of
      Some (JStr k) \<Rightarrow> first_key k = ''hooks'' | _ \<Rightarrow> False) | _ \<Rightarrow> False)"

definition edits_of :: "string \<times> raw \<Rightarrow> json list" where
  "edits_of rq = (case rq of
      (m, Some (JObj kvs)) \<Rightarrow>
        (if m = ''config/value/write'' then [JObj kvs]
         else if m = ''config/batchWrite'' then (case map_of kvs ''edits'' of Some (JArr js) \<Rightarrow> js | _ \<Rightarrow> [])
         else [])
    | _ \<Rightarrow> [])"

definition explicit_strategy :: "json \<Rightarrow> bool" where
  "explicit_strategy j = (case j of JObj kvs \<Rightarrow> (case map_of kvs ''mergeStrategy'' of
      Some (JStr k) \<Rightarrow> k \<noteq> [] | _ \<Rightarrow> False) | _ \<Rightarrow> False)"

definition allowed_edit :: "codexOptions \<Rightarrow> json \<Rightarrow> bool" where
  "allowed_edit opts j = (\<not> (co_HookCallback opts \<and> touches_hooks j) \<and> explicit_strategy j)"

text \<open>Every edit in the requests of a command is one that may be sent.\<close>

definition allowed_writes :: "codexOptions \<Rightarrow> exchange list \<Rightarrow> bool" where
  "allowed_writes opts tr = list_all (allowed_edit opts) (concat (map edits_of (requests tr)))"

lemma isHooksConfigKeyPath_iff: "isHooksConfigKeyPath k \<longleftrightarrow> first_key k = ''hooks''"
proof
  assume "isHooksConfigKeyPath k"
  then have "k = ''hooks'' \<or> (\<exists>r. k = ''hooks'' @ CHR ''.'' # r)"
    by (auto simp: isHooksConfigKeyPath_def has_prefix_def) (metis append_take_drop_id append_Cons append_Nil)
  then show "first_key k = ''hooks''" by (auto simp: first_key_def)
next
  assume f: "first_key k = ''hooks''"
  have k: "k = first_key k @ dropWhile (\<lambda>c. c \<noteq> CHR ''.'') k" by (simp add: first_key_def)
  show "isHooksConfigKeyPath k"
  proof (cases "dropWhile (\<lambda>c. c \<noteq> CHR ''.'') k")
    case Nil
    with k f show ?thesis by (simp add: isHooksConfigKeyPath_def)
  next
    case (Cons c r)
    then have "c = CHR ''.''" by (simp add: dropWhile_eq_Cons_conv)
    with k f Cons have "k = ''hooks.'' @ r" by simp
    then show ?thesis by (simp add: isHooksConfigKeyPath_def has_prefix_def)
  qed
qed

lemma edit_simps [simp]:
  "touches_hooks (encode_configEntry (with_strategy e)) = isHooksConfigKeyPath (cen_KeyPath e)"
  "explicit_strategy (encode_configEntry (with_strategy e))"
  by (auto simp: isHooksConfigKeyPath_iff touches_hooks_def explicit_strategy_def encode_configEntry_def with_strategy_def MergeReplace_def)

lemma edits_of_write [simp]:
  "edits_of (''config/value/write'', Some (encode_configEntry e)) = [encode_configEntry e]"
  "edits_of (''config/batchWrite'', Some (JObj [(''edits'', JArr js)])) = js"
  by (simp_all add: edits_of_def encode_configEntry_def)

lemma WriteConfigValue_requests:
  "requests (snd (snd (WriteConfigValue opts c (recorded srv) e (s, tr)))) = requests tr @
     (if cen_KeyPath e = [] \<or> rejectHookConfigWrite opts c ''WriteConfigValue'' (cen_KeyPath e) \<noteq> None \<or>
         cl_closed c \<or> \<not> cl_connected c then []
      else [(''config/value/write'', Some (encode_configEntry (with_strategy e)))])"
  by (auto simp: WriteConfigValue_def requests_sendRaw split: option.splits)

lemma WriteConfigBatch_requests:
  "requests (snd (snd (WriteConfigBatch opts c (recorded srv) es (s, tr)))) = requests tr @
     (if es = [] \<or> first_rejected opts c es \<noteq> None \<or> cl_closed c \<or> \<not> cl_connected c then []
      else [(''config/batchWrite'', Some (JObj [(''edits'', JArr (map (\<lambda>e. encode_configEntry (with_strategy e)) es))]))])"
  by (auto simp: WriteConfigBatch_def requests_sendRaw split: option.splits)

lemma WriteConfigValue_allowed: "allowed_writes opts (snd (snd (WriteConfigValue opts c (recorded srv) e (s, []))))"
  unfolding allowed_writes_def WriteConfigValue_requests reject_iff by (auto simp: requests_def allowed_edit_def)

lemma set_value_allowed: "allowed_writes opts (snd (snd (set_value opts c (recorded srv) k v (s, []))))"
  by (simp add: set_value_def WriteConfigValue_allowed)

lemma nothing_sent: "allowed_writes opts []"
  by (simp add: allowed_writes_def requests_def)

section \<open>Properties\<close>

text \<open>C34: While a hook callback owns the generated hooks file of a connected client, no command that writes
  configuration gets an edit to the peer whose key path begins with the key \<open>hooks\<close>: neither a single
  write, nor a batch that has one among any others, nor the four commands that set one value; and every
  edit that is sent has an explicit merge strategy.\<close>

theorem hooks_section_not_writable:
  "allowed_writes opts (snd (snd (WriteConfigValue opts c (recorded srv) e (s, [])))) \<and>
   allowed_writes opts (snd (snd (WriteConfigBatch opts c (recorded srv) es (s, [])))) \<and>
   allowed_writes opts (snd (snd (SetModel opts c (recorded srv) v (s, [])))) \<and>
   allowed_writes opts (snd (snd (SetReasoningEffort opts c (recorded srv) v (s, [])))) \<and>
   allowed_writes opts (snd (snd (SetApprovalPolicy opts cli c (recorded srv) v (s, [])))) \<and>
   allowed_writes opts (snd (snd (SetSandbox opts c (recorded srv) v (s, []))))"
proof -
  have "allowed_writes opts (snd (snd (WriteConfigBatch opts c (recorded srv) es (s, []))))"
    unfolding allowed_writes_def WriteConfigBatch_requests first_rejected_iff reject_iff
    by (auto simp: requests_def list_all_iff allowed_edit_def)
  then show ?thesis
    by (simp add: SetModel_def SetReasoningEffort_def SetApprovalPolicy_def SetSandbox_def WriteConfigValue_allowed
      set_value_allowed nothing_sent split: option.split)
qed

text \<open>The keys of the repository's own test.\<close>

lemma hook_keys:
  "list_all isHooksConfigKeyPath [''hooks'', ''hooks.PreToolUse'', ''hooks.pre_tool_use.0''] \<and>
   list_all (\<lambda>k. \<not> isHooksConfigKeyPath k) [''model'', ''features.hooks'', ''features.codex_hooks'', ''hooks_json'']"
  by code_simp

end
