(* ===== verification/Background_Terminals.thy ===== *)
theory Background_Terminals
  imports Client_Commands
begin

text \<open>
  The background terminals of a thread (\<open>background_terminals.go\<close>): the bounded pagination of
  \<open>ListBackgroundTerminals\<close>, terminating and cleaning terminals, interrupting a turn. The loop over at
  most 100 pages is a recursion on the number of pages still allowed, so it always returns.
\<close>

section \<open>One page\<close>

definition backgroundTerminalPageSize :: nat where "backgroundTerminalPageSize = 100"
definition backgroundTerminalMaxPages :: nat where "backgroundTerminalMaxPages = 100"

definition blank :: "string \<Rightarrow> bool" where
  "blank s = (trim_space s = [])"

definition t_terminalPage :: gotype where
  "t_terminalPage = t_struct [(''data'', t_ptr (t_slice t_backgroundTerminal)), (''nextCursor'', t_ptr t_str)]"

definition page_request :: "string \<Rightarrow> string ptr \<Rightarrow> json" where
  "page_request threadID cursor = JObj ([(''threadId'', JStr threadID)]
     @ (case cursor of None \<Rightarrow> [] | Some x \<Rightarrow> [(''cursor'', JStr x)])
     @ [(''limit'', JNum (itoa backgroundTerminalPageSize))])"

definition list_op :: string where
  "list_op = client_op ''ListBackgroundTerminals''"

definition decode_page :: "raw \<Rightarrow> goError + backgroundTerminal list \<times> string ptr" where
  "decode_page r = (case unmarshal t_terminalPage r of (g, ok) \<Rightarrow>
      if \<not> ok then Inl (ErrWrap (list_op @ '': decode response'') (JSONDecodeError r json_cause))
      else (case f_ptr g ''data'' of
          None \<Rightarrow> Inl (ErrWrap (list_op @ '': decode response'')
                    (JSONDecodeError r (ErrText ''required field \"data\" must be a non-null array'')))
        | Some d \<Rightarrow> Inr (slice_list (as_slice_of to_backgroundTerminal d), f_pstr g ''nextCursor'')))"

definition listBackgroundTerminalsPage ::
  "client \<Rightarrow> 's server \<Rightarrow> string \<Rightarrow> string ptr \<Rightarrow> 's \<Rightarrow> (backgroundTerminal list \<times> string ptr, 's) outcome" where
  "listBackgroundTerminalsPage c srv threadID cursor s =
     (case sendRaw c srv ''ListBackgroundTerminals'' ''thread/backgroundTerminals/list''
             (Some (page_request threadID cursor)) s of
        (Inl e, s') \<Rightarrow> (Inl e, s')
      | (Inr r, s') \<Rightarrow> (decode_page r, s'))"

section \<open>The loop\<close>

definition bt_error :: "string \<Rightarrow> goError" where
  "bt_error m = ErrWrap (list_op @ m) (Sentinel ErrBackgroundTerminalPagination)"

text \<open>The rows of a page: the processes seen so far and the terminals collected so far.\<close>

fun add_rows ::
  "backgroundTerminal list \<Rightarrow> string list \<Rightarrow> backgroundTerminal list \<Rightarrow> goError + string list \<times> backgroundTerminal list" where
  "add_rows [] seen acc = Inr (seen, acc)"
| "add_rows (t # ts) seen acc =
     (if blank (backgroundTerminal_ProcessID t) \<or> blank (backgroundTerminal_ItemID t)
      then Inl (ErrText (list_op @ '': malformed terminal row''))
      else if backgroundTerminal_ProcessID t \<in> set seen then Inl (bt_error '': duplicate process'')
      else add_rows ts (backgroundTerminal_ProcessID t # seen) (acc @ [t]))"

fun list_pages ::
  "nat \<Rightarrow> client \<Rightarrow> 's server \<Rightarrow> string \<Rightarrow> string ptr \<Rightarrow> string list \<Rightarrow> string list \<Rightarrow> backgroundTerminal list \<Rightarrow> 's \<Rightarrow>
     (backgroundTerminal list, 's) outcome" where
  "list_pages 0 c srv threadID cursor cursors procs acc s = (Inl (bt_error '': exceeded 100 pages''), s)"
| "list_pages (Suc n) c srv threadID cursor cursors procs acc s =
     (case listBackgroundTerminalsPage c srv threadID cursor s of
        (Inl e, s') \<Rightarrow> (Inl e, s')
      | (Inr (page, nxt), s') \<Rightarrow> (case add_rows page procs acc of
          Inl e \<Rightarrow> (Inl e, s')
        | Inr (procs', acc') \<Rightarrow>
            (if nxt = None \<or> nxt = Some [] then (Inr acc', s')
             else if the nxt \<in> set cursors then (Inl (bt_error '': cursor cycle''), s')
             else list_pages n c srv threadID nxt (the nxt # cursors) procs' acc' s')))"

definition ListBackgroundTerminals ::
  "client \<Rightarrow> 's server \<Rightarrow> string \<Rightarrow> 's \<Rightarrow> (backgroundTerminal list, 's) outcome" where
  "ListBackgroundTerminals c srv threadID s =
     (if blank threadID then (Inl (ErrText (list_op @ '': threadID is required'')), s)
      else list_pages backgroundTerminalMaxPages c srv threadID None [] [] [] s)"

section \<open>Acting on terminals and turns\<close>

definition TerminateBackgroundTerminal ::
  "client \<Rightarrow> 's server \<Rightarrow> string \<Rightarrow> string \<Rightarrow> 's \<Rightarrow> (unit, 's) outcome" where
  "TerminateBackgroundTerminal c srv threadID processID s =
     (if blank threadID \<or> blank processID
      then (Inl (ErrText (client_op ''TerminateBackgroundTerminal: threadID and processID are required'')), s)
      else (case sendRaw c srv ''TerminateBackgroundTerminal'' ''thread/backgroundTerminals/terminate''
               (Some (marshal_map [(''threadId'', JStr threadID), (''processId'', JStr processID)])) s of
          (Inl e, s') \<Rightarrow> (Inl e, s')
        | (Inr r, s') \<Rightarrow> (case unmarshal (t_struct [(''terminated'', t_bool)]) r of (g, ok) \<Rightarrow>
            if \<not> ok then (Inl (ErrWrap (client_op ''TerminateBackgroundTerminal: decode response'')
                                   (JSONDecodeError r json_cause)), s')
            else if \<not> f_bool g ''terminated''
            then (Inl (ErrWrap (client_op ''TerminateBackgroundTerminal'') (Sentinel ErrBackgroundTerminalNotTerminated)), s')
            else (Inr (), s'))))"

definition client_CleanBackgroundTerminals :: "client \<Rightarrow> 's server \<Rightarrow> string \<Rightarrow> 's \<Rightarrow> (unit, 's) outcome" where
  "client_CleanBackgroundTerminals c srv threadID s =
     (if blank threadID then (Inl (ErrText (client_op ''CleanBackgroundTerminals: threadID is required'')), s)
      else ignore (sendRaw c srv ''CleanBackgroundTerminals'' ''thread/backgroundTerminals/clean''
             (Some (marshal_map [(''threadId'', JStr threadID)])) s))"

definition InterruptThreadTurn :: "client \<Rightarrow> 's server \<Rightarrow> string \<Rightarrow> string \<Rightarrow> 's \<Rightarrow> (unit, 's) outcome" where
  "InterruptThreadTurn c srv threadID turnID s =
     (if blank threadID \<or> blank turnID
      then (Inl (ErrText (client_op ''InterruptThreadTurn: threadID and turnID are required'')), s)
      else ignore (sendRaw c srv ''InterruptThreadTurn'' ''turn/interrupt''
             (Some (marshal_map [(''threadId'', JStr threadID), (''turnId'', JStr turnID)])) s))"

section \<open>The exchanges of a listing\<close>

text \<open>What the peer was asked and answered, page by page: the cursor of a request and what its response
  decodes to. \<open>None\<close> is a request that got an error.\<close>

definition page_of :: "goError + rpcResponse \<Rightarrow> (backgroundTerminal list \<times> string ptr) option" where
  "page_of r = (case r of
      Inl e \<Rightarrow> None
    | Inr resp \<Rightarrow> (if resp_Error resp \<noteq> None then None
                   else case decode_page (resp_Result resp) of Inl e \<Rightarrow> None | Inr p \<Rightarrow> Some p))"

text \<open>The specification: exchanges that follow the cursor chain from \<open>cursor\<close>. Every exchange but the
  last has a page that names the next cursor.\<close>

fun follows :: "string \<Rightarrow> string ptr \<Rightarrow> exchange list \<Rightarrow> bool" where
  "follows threadID cursor [] = True"
| "follows threadID cursor ((m, ps, r) # tr) =
     (m = ''thread/backgroundTerminals/list'' \<and> ps = Some (page_request threadID cursor) \<and>
      (tr = [] \<or> (\<exists>page x. page_of r = Some (page, Some x) \<and> x \<noteq> [] \<and> follows threadID (Some x) tr)))"

definition rows :: "exchange list \<Rightarrow> backgroundTerminal list" where
  "rows tr = concat (map (\<lambda>x. case page_of (snd (snd x)) of None \<Rightarrow> [] | Some p \<Rightarrow> fst p) tr)"

definition next_cursors :: "exchange list \<Rightarrow> string list" where
  "next_cursors tr = concat (map (\<lambda>x. case page_of (snd (snd x)) of
      None \<Rightarrow> [] | Some p \<Rightarrow> (case snd p of None \<Rightarrow> [] | Some x \<Rightarrow> [x])) tr)"

definition complete_listing :: "exchange list \<Rightarrow> bool" where
  "complete_listing tr = (tr \<noteq> [] \<and> (\<exists>page. page_of (snd (snd (last tr))) \<in> {Some (page, None), Some (page, Some [])}))"

lemma exchange_simps [simp]:
  "rows [] = []" "next_cursors [] = []"
  "page_of r = Some (page, nxt) \<Longrightarrow> rows ((m, ps, r) # tr) = page @ rows tr"
  "page_of r = Some (page, nxt) \<Longrightarrow>
     next_cursors ((m, ps, r) # tr) = (case nxt of None \<Rightarrow> [] | Some x \<Rightarrow> [x]) @ next_cursors tr"
  "tr \<noteq> [] \<Longrightarrow> complete_listing (x # tr) = complete_listing tr"
  by (simp_all add: rows_def next_cursors_def complete_listing_def)

definition good_row :: "backgroundTerminal \<Rightarrow> bool" where
  "good_row t = (\<not> blank (backgroundTerminal_ProcessID t) \<and> \<not> blank (backgroundTerminal_ItemID t))"

lemma add_rows_Inr:
  "add_rows ts seen acc = Inr (seen', acc') \<Longrightarrow>
     acc' = acc @ ts \<and> list_all good_row ts \<and> seen' = rev (map backgroundTerminal_ProcessID ts) @ seen \<and>
     distinct (map backgroundTerminal_ProcessID ts) \<and>
     set (map backgroundTerminal_ProcessID ts) \<inter> set seen = {}"
proof (induction ts arbitrary: seen acc)
  case (Cons t ts)
  then have c: "good_row t" "backgroundTerminal_ProcessID t \<notin> set seen"
    and r: "add_rows ts (backgroundTerminal_ProcessID t # seen) (acc @ [t]) = Inr (seen', acc')"
    by (simp_all add: good_row_def split: if_splits)
  from c Cons.IH [OF r] show ?case by auto
qed simp

lemma page_exchange:
  assumes "listBackgroundTerminalsPage c (recorded srv) threadID cursor (s, tr) = (res, (s', tr'))"
  shows "tr' = tr \<and> (\<exists>e. res = Inl e) \<or>
     (\<exists>r. tr' = tr @ [(''thread/backgroundTerminals/list'', Some (page_request threadID cursor), r)] \<and>
          (case res of Inl e \<Rightarrow> page_of r = None | Inr p \<Rightarrow> page_of r = Some p))"
proof (cases "connection_error ''ListBackgroundTerminals'' c")
  case (Some e)
  with assms show ?thesis by (auto simp: listBackgroundTerminalsPage_def sendRaw_def)
next
  case None
  let ?m = "''thread/backgroundTerminals/list''" and ?ps = "Some (page_request threadID cursor)"
  obtain r s1 where r: "srv ?m ?ps s = (r, s1)" by fastforce
  show ?thesis
  proof (cases r)
    case (Inl e)
    with assms None r show ?thesis
      by (auto simp: listBackgroundTerminalsPage_def sendRaw_def recorded_def page_of_def)
  next
    case (Inr resp)
    have t: "tr' = tr @ [(?m, ?ps, r)]"
      and e: "res = (case resp_Error resp of Some e \<Rightarrow> Inl (classifyRPCError ?m e) | None \<Rightarrow> decode_page (resp_Result resp))"
      using assms None r Inr
      by (auto simp: listBackgroundTerminalsPage_def sendRaw_def recorded_def split: option.split_asm)
    from e Inr have "case res of Inl e \<Rightarrow> page_of r = None | Inr p \<Rightarrow> page_of r = Some p"
      by (cases "resp_Error resp"; cases "decode_page (resp_Result resp)") (simp_all add: page_of_def)
    with t show ?thesis by blast
  qed
qed

text \<open>One run of the loop adds at most \<open>n\<close> exchanges, which follow the cursor chain; the cursors it
  goes on with are fresh; and when it returns terminals, they are all the rows, in order, well formed
  and with distinct processes.\<close>

definition listing :: "nat \<Rightarrow> string \<Rightarrow> string ptr \<Rightarrow> string list \<Rightarrow> string list \<Rightarrow> backgroundTerminal list \<Rightarrow>
    exchange list \<Rightarrow> (goError + backgroundTerminal list) \<Rightarrow> bool" where
  "listing n threadID cursor cursors procs acc tr res =
     (length tr \<le> n \<and> follows threadID cursor tr \<and>
      distinct (next_cursors (butlast tr)) \<and> set (next_cursors (butlast tr)) \<inter> set cursors = {} \<and>
      (case res of Inl e \<Rightarrow> True
       | Inr ts \<Rightarrow> ts = acc @ rows tr \<and> complete_listing tr \<and> list_all good_row (rows tr) \<and>
           distinct (map backgroundTerminal_ProcessID (rows tr)) \<and>
           set (map backgroundTerminal_ProcessID (rows tr)) \<inter> set procs = {}))"

lemma listing_stop:
  "listing (Suc n) threadID cursor cursors procs acc [] (Inl e)"
  "listing (Suc n) threadID cursor cursors procs acc
     [(''thread/backgroundTerminals/list'', Some (page_request threadID cursor), r)] (Inl e)"
  by (simp_all add: listing_def next_cursors_def)

lemma listing_last:
  assumes "page_of r = Some (page, nxt)" and "nxt = None \<or> nxt = Some []"
    and "add_rows page procs acc = Inr (procs', acc')"
  shows "listing (Suc n) threadID cursor cursors procs acc
     [(''thread/backgroundTerminals/list'', Some (page_request threadID cursor), r)] (Inr acc')"
  using assms(1,2) add_rows_Inr [OF assms(3)]
  by (auto simp: listing_def next_cursors_def rows_def complete_listing_def)

lemma listing_more:
  assumes "page_of r = Some (page, Some x)" and "x \<noteq> []" and "x \<notin> set cursors"
    and "add_rows page procs acc = Inr (procs', acc')"
    and "listing n threadID (Some x) (x # cursors) procs' acc' tr res"
  shows "listing (Suc n) threadID cursor cursors procs acc
     ((''thread/backgroundTerminals/list'', Some (page_request threadID cursor), r) # tr) res"
proof (cases "tr = []")
  case True
  with assms show ?thesis by (auto simp: listing_def complete_listing_def split: sum.splits)
next
  case False
  note a = add_rows_Inr [OF assms(4)]
  show ?thesis
  proof (cases res)
    case (Inl e)
    with False assms(1,2,3,5) show ?thesis by (auto simp: listing_def)
  next
    case (Inr ts)
    with assms(5) have l: "ts = acc' @ rows tr" "complete_listing tr" "list_all good_row (rows tr)"
      "distinct (map backgroundTerminal_ProcessID (rows tr))"
      "set (map backgroundTerminal_ProcessID (rows tr)) \<inter> set procs' = {}" by (simp_all add: listing_def)
    then have "set (map backgroundTerminal_ProcessID (rows tr)) \<inter> set (map backgroundTerminal_ProcessID page) = {}"
      "set (map backgroundTerminal_ProcessID (rows tr)) \<inter> set procs = {}" using a by auto
    with l a have "distinct (map backgroundTerminal_ProcessID (page @ rows tr))"
      "set (map backgroundTerminal_ProcessID (page @ rows tr)) \<inter> set procs = {}"
      by (simp_all add: Int_Un_distrib2) (metis inf_commute)
    with False Inr assms(1,2,3,5) a l show ?thesis by (auto simp: listing_def)
  qed
qed

lemma list_pages_listing:
  "list_pages n c (recorded srv) threadID cursor cursors procs acc (s, tr) = (res, (s', tr')) \<Longrightarrow>
     \<exists>new. tr' = tr @ new \<and> listing n threadID cursor cursors procs acc new res"
proof (induction n arbitrary: cursor cursors procs acc s tr)
  case 0
  then show ?case by (auto simp: listing_def next_cursors_def)
next
  case (Suc n)
  obtain pres s1 tr1 where p: "listBackgroundTerminalsPage c (recorded srv) threadID cursor (s, tr) = (pres, (s1, tr1))"
    by (metis prod_cases3)
  show ?case
  proof (cases pres)
    case (Inl e)
    with Suc.prems p page_exchange [OF p] show ?thesis
      by (auto intro: listing_stop)
  next
    case (Inr pn)
    obtain page nxt where pn: "pn = (page, nxt)" by fastforce
    from page_exchange [OF p] Inr pn obtain r where
      r: "tr1 = tr @ [(''thread/backgroundTerminals/list'', Some (page_request threadID cursor), r)]"
        "page_of r = Some (page, nxt)" by auto
    show ?thesis
    proof (cases "add_rows page procs acc")
      case (Inl e)
      with Suc.prems p Inr pn r show ?thesis by (auto intro: listing_stop)
    next
      case a: (Inr pa)
      obtain procs' acc' where pa: "pa = (procs', acc')" by fastforce
      consider (final) "nxt = None \<or> nxt = Some []" | (cycle) x where "nxt = Some x" "x \<noteq> []" "x \<in> set cursors"
        | (more) x where "nxt = Some x" "x \<noteq> []" "x \<notin> set cursors" by (cases nxt) auto
      then show ?thesis
      proof cases
        case final
        with Suc.prems p Inr pn r a pa listing_last [OF r(2) final, of procs acc procs' acc'] show ?thesis by auto
      next
        case cycle
        with Suc.prems p Inr pn r a pa show ?thesis by (auto intro: listing_stop)
      next
        case more
        with Suc.prems p Inr pn a pa have
          "list_pages n c (recorded srv) threadID (Some x) (x # cursors) procs' acc' (s1, tr1) = (res, (s', tr'))" by simp
        from Suc.IH [OF this] obtain new where
          "tr' = tr1 @ new" "listing n threadID (Some x) (x # cursors) procs' acc' new res" by blast
        with r more a pa listing_more [of r page x cursors procs acc procs' acc' n threadID new res cursor]
        show ?thesis by auto
      qed
    qed
  qed
qed

section \<open>Properties\<close>

text \<open>C28: Listing the background terminals of a thread always ends, after at most 100 requests, whatever
  the peer answers: the requests follow the peer's cursors and never ask for a cursor twice, and the
  terminals returned are all rows of all pages up to the page that names no next one, in order, each
  with a process and an item, no process twice; anything else is an error, never a partial list.\<close>

theorem background_terminals_complete_or_error:
  "\<exists>res s' tr. ListBackgroundTerminals c (recorded srv) threadID (s, []) = (res, (s', tr)) \<and>
     length tr \<le> 100 \<and> follows threadID None tr \<and> distinct (next_cursors (butlast tr)) \<and>
     (case res of
        Inl e \<Rightarrow> True
      | Inr ts \<Rightarrow> ts = rows tr \<and> complete_listing tr \<and> list_all good_row ts \<and>
          distinct (map backgroundTerminal_ProcessID ts))"
proof -
  obtain res s' tr where r: "ListBackgroundTerminals c (recorded srv) threadID (s, []) = (res, (s', tr))"
    by (metis prod_cases3)
  show ?thesis
  proof (cases "blank threadID")
    case True
    with r show ?thesis by (auto simp: ListBackgroundTerminals_def next_cursors_def)
  next
    case False
    with r list_pages_listing [of backgroundTerminalMaxPages c srv threadID None "[]" "[]" "[]" s "[]" res s' tr]
    have "listing 100 threadID None [] [] [] tr res"
      by (simp add: ListBackgroundTerminals_def backgroundTerminalMaxPages_def)
    with r show ?thesis
      by (intro exI [of _ res] exI [of _ s'] exI [of _ tr]) (auto simp: listing_def split: sum.splits)
  qed
qed

end
