(* ===== verification/Thread_Commands.thy ===== *)
theory Thread_Commands
  imports Background_Terminals
begin

text \<open>
  The operations that start threads and turns (\<open>threads.go\<close>) and the commands of a thread
  (\<open>threads_commands.go\<close>), against the same peer as the client's commands. An operation on threads
  returns the client with its routing table updated; the operations on one thread return the thread.
  Waiting for \<open>turnMu\<close> is not modelled: the lock is free when a turn starts.
\<close>

section \<open>Errors\<close>

definition thread_op :: "string \<Rightarrow> string" where
  "thread_op caller = ''codex.Thread.'' @ caller"

definition closed_text :: "string \<Rightarrow> goError" where
  "closed_text caller = ErrText (thread_op caller @ '': thread closed'')"

text \<open>Operations that call \<open>Demux.Send\<close> themselves: its error is wrapped, the peer's error is not
  classified.\<close>

definition plain_send :: "string \<Rightarrow> 's server \<Rightarrow> string \<Rightarrow> raw \<Rightarrow> 's \<Rightarrow> (raw, 's) outcome" where
  "plain_send op srv m ps s = (case srv m ps s of
      (Inl e, s') \<Rightarrow> (Inl (ErrWrap op e), s')
    | (Inr resp, s') \<Rightarrow> (case resp_Error resp of
          Some e \<Rightarrow> (Inl (RPCError (rpc_Code e) (rpc_Message e) (rpc_Data e)), s')
        | None \<Rightarrow> (Inr (resp_Result resp), s')))"

section \<open>Starting, resuming, forking and archiving threads\<close>

definition thread_handle :: "string \<Rightarrow> raw \<Rightarrow> string \<Rightarrow> thread" where
  "thread_handle i result cwd = (newThread i)\<lparr>th_model := extractThreadModel result, th_cwd := cwd\<rparr>"

definition StartThread ::
  "codexOptions \<Rightarrow> cliCompatibilityState \<Rightarrow> 's server \<Rightarrow> threadOptions option \<Rightarrow> client \<Rightarrow> 's \<Rightarrow>
     (thread, client \<times> 's) outcome" where
  "StartThread opts cli srv topts c s = (case connection_error ''StartThread'' c of
      Some e \<Rightarrow> (Inl e, (c, s))
    | None \<Rightarrow> (case validateThreadApprovalPolicy cli opts topts of
        Some e \<Rightarrow> (Inl (ErrWrap (client_op ''StartThread'') e), (c, s))
      | None \<Rightarrow> (case plain_send (client_op ''StartThread'') srv ''thread/start''
                  (Some (marshal_map (buildThreadStartParams (Some opts) topts))) s of
          (Inl e, s') \<Rightarrow> (Inl e, (c, s'))
        | (Inr r, s') \<Rightarrow> (case extractThreadID r of
            Inl e \<Rightarrow> (Inl e, (c, s'))
          | Inr i \<Rightarrow> (let t = thread_handle i r (resolveCwd opts topts) in
              (Inr t, (registerThread t c, s')))))))"

text \<open>\<open>ResumeThread\<close>, with the working directory of its options; a response without an id keeps the
  caller's.\<close>

definition ResumeThread ::
  "codexOptions \<Rightarrow> 's server \<Rightarrow> string \<Rightarrow> string option \<Rightarrow> client \<Rightarrow> 's \<Rightarrow> (thread, client \<times> 's) outcome" where
  "ResumeThread opts srv threadID ropts c s = (case connection_error ''ResumeThread'' c of
      Some e \<Rightarrow> (Inl e, (c, s))
    | None \<Rightarrow>
       (if threadID = [] then (Inl (ErrText (client_op ''ResumeThread: threadID must not be empty'')), (c, s))
        else (let cwd = (case ropts of Some d \<Rightarrow> d | None \<Rightarrow> []) in
          case plain_send (client_op ''ResumeThread'') srv ''thread/resume''
                 (Some (marshal_map (put_str ''cwd'' cwd [(''threadId'', JStr threadID)]))) s of
            (Inl e, s') \<Rightarrow> (Inl e, (c, s'))
          | (Inr r, s') \<Rightarrow>
              (let i = (case extractThreadID r of Inl e \<Rightarrow> threadID | Inr i \<Rightarrow> if i = [] then threadID else i);
                   t = thread_handle i r (if cwd = [] then co_DefaultCwd opts else cwd)
               in (Inr t, (registerThread t c, s'))))))"

definition ForkThread ::
  "codexOptions \<Rightarrow> cliCompatibilityState \<Rightarrow> 's server \<Rightarrow> string \<Rightarrow> threadOptions option \<Rightarrow> client \<Rightarrow> 's \<Rightarrow>
     (thread \<times> (string \<times> string), client \<times> 's) outcome" where
  "ForkThread opts cli srv source topts c s = (case connection_error ''ForkThread'' c of
      Some e \<Rightarrow> (Inl e, (c, s))
    | None \<Rightarrow>
       (if source = [] then (Inl (ErrText (client_op ''ForkThread: sourceThreadID must not be empty'')), (c, s))
        else (case validateThreadApprovalPolicy cli opts topts of
          Some e \<Rightarrow> (Inl (ErrWrap (client_op ''ForkThread'') e), (c, s))
        | None \<Rightarrow> (case plain_send (client_op ''ForkThread'') srv ''thread/fork''
                    (Some (marshal_map (put ''sourceThreadId'' (JStr source) (buildThreadStartParams (Some opts) topts)))) s of
            (Inl e, s') \<Rightarrow> (Inl e, (c, s'))
          | (Inr r, s') \<Rightarrow> (case extractThreadID r of
              Inl e \<Rightarrow> (Inl e, (c, s'))
            | Inr i \<Rightarrow> (let t = thread_handle i r (resolveCwd opts topts) in
                (Inr (t, (source, i)), (registerThread t c, s'))))))))"

definition ArchiveThread :: "'s server \<Rightarrow> string \<Rightarrow> client \<Rightarrow> 's \<Rightarrow> (unit, client \<times> 's) outcome" where
  "ArchiveThread srv threadID c s = (case connection_error ''ArchiveThread'' c of
      Some e \<Rightarrow> (Inl e, (c, s))
    | None \<Rightarrow> (case plain_send (client_op ''ArchiveThread'') srv ''thread/archive''
                (Some (JObj [(''threadId'', JStr threadID)])) s of
        (Inl e, s') \<Rightarrow> (Inl e, (c, s'))
      | (Inr r, s') \<Rightarrow> (Inr (), (unregisterThread threadID c, s'))))"

section \<open>Turns\<close>

text \<open>\<open>RunStreamed\<close>: the stream of the turn, or an error and the thread as it was.\<close>

definition RunStreamed ::
  "'s server \<Rightarrow> string \<Rightarrow> runOptions option \<Rightarrow> thread \<Rightarrow> 's \<Rightarrow> (turnStream, 's) outcome" where
  "RunStreamed srv prompt ropts t s =
     (if th_closed t then (Inl (ErrWrap (thread_op ''RunStreamed'') (Sentinel ErrThreadClosed)), s)
      else (case buildTurnInput prompt ropts of
          Inl e \<Rightarrow> (Inl e, s)
        | Inr input \<Rightarrow> (case plain_send (thread_op ''RunStreamed: turn/start'') srv ''turn/start''
                          (Some (marshal_map (buildTurnStartParams (th_id t) input ropts))) s of
            (Inl e, s') \<Rightarrow> (Inl e, s')
          | (Inr r, s') \<Rightarrow> (Inr (start_stream (turn_id_of_response r) t), s'))))"

definition Interrupt :: "client \<Rightarrow> 's server \<Rightarrow> thread \<Rightarrow> 's \<Rightarrow> (unit, 's) outcome" where
  "Interrupt c srv t s =
     (if th_closed t then (Inl (ErrWrap (thread_op ''Interrupt'') (Sentinel ErrThreadClosed)), s)
      else if th_activeTurnID t = [] then (Inl (ErrWrap (thread_op ''Interrupt'') (Sentinel ErrNoActiveTurn)), s)
      else (case InterruptThreadTurn c srv (th_id t) (th_activeTurnID t) s of
          (Inl e, s') \<Rightarrow> (Inl (ErrWrap (thread_op ''Interrupt'') e), s')
        | (Inr u, s') \<Rightarrow> (Inr (), s')))"

section \<open>Commands of a thread\<close>

definition Rollback :: "client \<Rightarrow> 's server \<Rightarrow> int \<Rightarrow> thread \<Rightarrow> 's \<Rightarrow> (unit, 's) outcome" where
  "Rollback c srv numTurns t s =
     (if numTurns < 1 then (Inl (ErrText (thread_op ''Rollback: numTurns must be >= 1'')), s)
      else if th_closed t then (Inl (closed_text ''Rollback''), s)
      else ignore (sendRaw c srv ''Thread.Rollback'' ''thread/rollback''
        (Some (marshal_map [(''threadId'', JStr (th_id t)), (''numTurns'', JNum (render_int numTurns))])) s))"

definition SetName :: "client \<Rightarrow> 's server \<Rightarrow> string \<Rightarrow> thread \<Rightarrow> 's \<Rightarrow> (unit, 's) outcome" where
  "SetName c srv name t s =
     (if name = [] then (Inl (ErrText (thread_op ''SetName: name must not be empty'')), s)
      else if th_closed t then (Inl (closed_text ''SetName''), s)
      else ignore (sendRaw c srv ''Thread.SetName'' ''thread/name/set''
        (Some (marshal_map [(''threadId'', JStr (th_id t)), (''name'', JStr name)])) s))"

definition Steer :: "client \<Rightarrow> 's server \<Rightarrow> string \<Rightarrow> thread \<Rightarrow> 's \<Rightarrow> (unit, 's) outcome" where
  "Steer c srv txt t s =
     (if txt = [] then (Inl (ErrText (thread_op ''Steer: text must not be empty'')), s)
      else if th_closed t then (Inl (closed_text ''Steer''), s)
      else if th_activeTurnID t = [] then (Inl (ErrText (thread_op ''Steer: no active turn'')), s)
      else ignore (sendRaw c srv ''Thread.Steer'' ''turn/steer''
        (Some (marshal_map [(''threadId'', JStr (th_id t)), (''expectedTurnId'', JStr (th_activeTurnID t)),
           (''input'', JArr [marshal_map [(''type'', JStr ''text''), (''text'', JStr txt)]])])) s))"

definition CleanBackgroundTerminals :: "client \<Rightarrow> 's server \<Rightarrow> thread \<Rightarrow> 's \<Rightarrow> (unit, 's) outcome" where
  "CleanBackgroundTerminals c srv t s =
     (if th_closed t then (Inl (closed_text ''CleanBackgroundTerminals''), s)
      else (case client_CleanBackgroundTerminals c srv (th_id t) s of
          (Inl e, s') \<Rightarrow>
            (Inl (if errors_as is_FeatureNotEnabledError e
                  then ErrWrap ''(set CodexOptions.WithExperimentalAPI(true) at NewClient)'' e else e), s')
        | (Inr u, s') \<Rightarrow> (Inr (), s')))"

definition Compact ::
  "client \<Rightarrow> 's server \<Rightarrow> string option \<Rightarrow> thread \<Rightarrow> 's \<Rightarrow> (nat, thread \<times> 's) outcome" where
  "Compact c srv strategy t s = (case compact_begin t of
      (Inl e, t1) \<Rightarrow> (Inl e, (t1, s))
    | (Inr a, t1) \<Rightarrow> (case sendRaw c srv ''Thread.Compact'' ''thread/compact/start''
          (Some (JObj ((''threadId'', JStr (th_id t)) # omit_empty ''strategy'' (case strategy of None \<Rightarrow> [] | Some x \<Rightarrow> x)))) s of
        (Inl e, s') \<Rightarrow> (case compact_end a (Some e) t1 of (r, t2) \<Rightarrow> (r, (t2, s')))
      | (Inr r, s') \<Rightarrow> (case compact_end a None t1 of (r, t2) \<Rightarrow> (r, (t2, s')))))"

definition Summarize :: "client \<Rightarrow> 's server \<Rightarrow> thread \<Rightarrow> 's \<Rightarrow> (nat, thread \<times> 's) outcome" where
  "Summarize c srv t s = Compact c srv None t s"

definition StartReview ::
  "client \<Rightarrow> 's server \<Rightarrow> reviewOptions \<Rightarrow> thread \<Rightarrow> 's \<Rightarrow> (reviewStartResult, 's) outcome" where
  "StartReview c srv ropts t s =
     (if th_closed t then (Inl (closed_text ''StartReview''), s)
      else if rvt_Type (rvo_Target ropts) = [] then
        (Inl (ErrText (thread_op ''StartReview: opts.Target.Type is required (use ReviewTarget* constructors)'')), s)
      else decode_as (thread_op ''StartReview'') t_reviewStartResult to_reviewStartResult
        (sendRaw c srv ''Thread.StartReview'' ''review/start'' (Some (encode_reviewStart (th_id t) ropts)) s))"

definition StartReviewStreamed ::
  "client \<Rightarrow> 's server \<Rightarrow> reviewOptions \<Rightarrow> thread \<Rightarrow> 's \<Rightarrow> (turnStream, 's) outcome" where
  "StartReviewStreamed c srv ropts t s =
     (if th_closed t then (Inl (closed_text ''StartReviewStreamed''), s)
      else if rvt_Type (rvo_Target ropts) = [] then
        (Inl (ErrText (thread_op ''StartReviewStreamed: opts.Target.Type is required (use ReviewTarget* constructors)'')), s)
      else if rvo_Delivery ropts = ReviewDetached then
        (Inl (ErrText (thread_op ''StartReviewStreamed: detached review delivery is not streamable from the current thread'')), s)
      else (case StartReview c srv ropts t s of
          (Inl e, s') \<Rightarrow> (Inl e, s')
        | (Inr r, s') \<Rightarrow> (Inr (start_stream (reviewTurn_ID (reviewStartResult_Turn r)) t), s')))"

section \<open>All commands of a thread\<close>

text \<open>One name for every command of a thread, to state what they share.\<close>

datatype threadCommand =
    CRollback int
  | CSetName string
  | CSteer string
  | CCleanTerminals
  | CCompact "string option"
  | CStartReview reviewOptions
  | CReviewStreamed reviewOptions
  | CInterrupt
  | CRun string "runOptions option"

fun run_command :: "client \<Rightarrow> 's server \<Rightarrow> threadCommand \<Rightarrow> thread \<Rightarrow> 's \<Rightarrow> bool \<times> 's" where
  "run_command c srv (CRollback n) t s = (case Rollback c srv n t s of (r, s') \<Rightarrow> (isl r, s'))"
| "run_command c srv (CSetName n) t s = (case SetName c srv n t s of (r, s') \<Rightarrow> (isl r, s'))"
| "run_command c srv (CSteer x) t s = (case Steer c srv x t s of (r, s') \<Rightarrow> (isl r, s'))"
| "run_command c srv CCleanTerminals t s = (case CleanBackgroundTerminals c srv t s of (r, s') \<Rightarrow> (isl r, s'))"
| "run_command c srv (CCompact x) t s = (case Compact c srv x t s of (r, (t', s')) \<Rightarrow> (isl r, s'))"
| "run_command c srv (CStartReview o') t s = (case StartReview c srv o' t s of (r, s') \<Rightarrow> (isl r, s'))"
| "run_command c srv (CReviewStreamed o') t s = (case StartReviewStreamed c srv o' t s of (r, s') \<Rightarrow> (isl r, s'))"
| "run_command c srv CInterrupt t s = (case Interrupt c srv t s of (r, s') \<Rightarrow> (isl r, s'))"
| "run_command c srv (CRun p o') t s = (case RunStreamed srv p o' t s of (r, s') \<Rightarrow> (isl r, s'))"

fun command_method :: "threadCommand \<Rightarrow> string" where
  "command_method (CRollback n) = ''thread/rollback''"
| "command_method (CSetName n) = ''thread/name/set''"
| "command_method (CSteer x) = ''turn/steer''"
| "command_method CCleanTerminals = ''thread/backgroundTerminals/clean''"
| "command_method (CCompact x) = ''thread/compact/start''"
| "command_method (CStartReview o') = ''review/start''"
| "command_method (CReviewStreamed o') = ''review/start''"
| "command_method CInterrupt = ''turn/interrupt''"
| "command_method (CRun p o') = ''turn/start''"

definition names_thread :: "string \<Rightarrow> raw \<Rightarrow> bool" where
  "names_thread i ps = (case ps of Some (JObj kvs) \<Rightarrow> map_of kvs ''threadId'' = Some (JStr i) | _ \<Rightarrow> False)"

section \<open>Lemmas\<close>

lemma distinct_keys_sort: "distinct (map fst m) \<Longrightarrow> distinct (map fst (sort_slice lt m))"
  by (simp add: distinct_map)

lemma map_of_sort: "distinct (map fst m) \<Longrightarrow> map_of (sort_slice lt m) = map_of m"
  by (rule iffD2 [OF map_of_inject_set]) (simp_all add: distinct_keys_sort)

lemma names_thread_marshal:
  "distinct (map fst m) \<Longrightarrow> names_thread i (Some (marshal_map m)) = (map_of m ''threadId'' = Some (JStr i))"
  by (simp add: names_thread_def marshal_map_def map_of_sort)

lemma distinct_put [simp]: "distinct (map fst m) \<Longrightarrow> distinct (map fst (put k v m))"
  by (auto simp: put_def distinct_map inj_on_def)

lemma turn_params:
  "distinct (map fst (buildTurnStartParams i input ropts))"
  "map_of (buildTurnStartParams i input ropts) ''threadId'' = Some (JStr i)"
  by (auto simp: buildTurnStartParams_def put_opt_def Let_def simp del: map_of_eq_Some_iff split: option.splits)

lemma names_thread_turn [simp]:
  "names_thread i (Some (marshal_map (buildTurnStartParams i input ropts)))"
  unfolding names_thread_marshal [OF turn_params(1)] by (rule turn_params(2))

text \<open>What an operation may ask the peer: nothing, and then it fails, or one request of its method that
  names its thread.\<close>

definition asked :: "string \<Rightarrow> string \<Rightarrow> exchange list \<Rightarrow> bool \<times> 's \<times> exchange list \<Rightarrow> bool" where
  "asked m i tr res = (snd (snd res) = tr \<and> fst res \<or>
     (\<exists>ps r. snd (snd res) = tr @ [(m, ps, r)] \<and> names_thread i ps))"

definition asks :: "string \<Rightarrow> string \<Rightarrow> exchange list \<Rightarrow> ('a, 's \<times> exchange list) outcome \<Rightarrow> bool" where
  "asks m i tr res = asked m i tr (isl (fst res), snd res)"

lemma asks_sendRaw [simp]:
  "names_thread i ps \<Longrightarrow> asks m i tr (sendRaw c (recorded srv) caller m ps (s, tr))"
  by (auto simp: asks_def asked_def sendRaw_def recorded_def connection_error_def split: prod.splits sum.splits option.splits)

lemma asks_plain_send [simp]:
  "names_thread i ps \<Longrightarrow> asks m i tr (plain_send op (recorded srv) m ps (s, tr))"
  by (auto simp: asks_def asked_def plain_send_def recorded_def split: prod.splits sum.splits option.splits)

lemma asks_refused [simp]: "asks m i tr (Inl e, (s, tr))"
  by (simp add: asks_def asked_def)

lemma asks_more [simp]:
  "asks m i tr res \<Longrightarrow> asks m i tr (decode_as op ty rd res)"
  "asks m i tr res \<Longrightarrow> asks m i tr (ignore res)"
  by (auto simp: asks_def asked_def decode_as_def ignore_def split: prod.splits sum.splits)

lemma asks_fst:
  "asks m i tr (r, s') \<Longrightarrow> isl r' = isl r \<Longrightarrow> asks m i tr (r', s')"
  by (auto simp: asks_def)

lemma asks_eq: "asks m i tr res \<Longrightarrow> res = (r, s') \<Longrightarrow> isl r' = isl r \<Longrightarrow> asks m i tr (r', s')"
  by (auto simp: asks_def)

lemma names_literal [simp]:
  "names_thread i (Some (marshal_map [(''threadId'', JStr i)]))"
  "k \<noteq> ''threadId'' \<Longrightarrow> names_thread i (Some (marshal_map [(''threadId'', JStr i), (k, v)]))"
  "k \<noteq> ''threadId'' \<Longrightarrow> l \<noteq> ''threadId'' \<Longrightarrow> k \<noteq> l \<Longrightarrow>
     names_thread i (Some (marshal_map [(''threadId'', JStr i), (k, v), (l, w)]))"
  "names_thread i (Some (JObj ((''threadId'', JStr i) # kvs)))"
  by (simp_all add: names_thread_marshal) (simp add: names_thread_def)

lemma asks_commands:
  "asks ''thread/rollback'' (th_id t) tr (Rollback c (recorded srv) n t (s, tr))"
  "asks ''thread/name/set'' (th_id t) tr (SetName c (recorded srv) nm t (s, tr))"
  "asks ''turn/steer'' (th_id t) tr (Steer c (recorded srv) txt t (s, tr))"
  "asks ''review/start'' (th_id t) tr (StartReview c (recorded srv) ropts t (s, tr))"
  "asks ''turn/interrupt'' (th_id t) tr (InterruptThreadTurn c (recorded srv) (th_id t) turn (s, tr))"
  "asks ''thread/backgroundTerminals/clean'' (th_id t) tr (client_CleanBackgroundTerminals c (recorded srv) (th_id t) (s, tr))"
  by (simp_all add: Rollback_def SetName_def Steer_def StartReview_def InterruptThreadTurn_def
      client_CleanBackgroundTerminals_def encode_reviewStart_def)

lemma asks_compact:
  "asks ''thread/compact/start'' (th_id t) tr
     (case Compact c (recorded srv) strategy t (s, tr) of (r, (t', s')) \<Rightarrow> (r, s'))"
proof (cases "compact_begin t")
  case (Pair r0 t1)
  show ?thesis
  proof (cases r0)
    case (Inl e)
    with Pair show ?thesis by (simp add: Compact_def)
  next
    case (Inr a)
    let ?ps = "Some (JObj ((''threadId'', JStr (th_id t)) # omit_empty ''strategy'' (case strategy of None \<Rightarrow> [] | Some x \<Rightarrow> x)))"
    obtain r s' where r: "sendRaw c (recorded srv) ''Thread.Compact'' ''thread/compact/start'' ?ps (s, tr) = (r, s')"
      by (rule prod.exhaust)
    have "asks ''thread/compact/start'' (th_id t) tr (sendRaw c (recorded srv) ''Thread.Compact'' ''thread/compact/start'' ?ps (s, tr))"
      by simp
    with Pair Inr r show ?thesis
      by (cases r) (auto simp: Compact_def compact_end_def intro: asks_fst)
  qed
qed

lemma asks_asked: "asks m i tr (r, s') \<Longrightarrow> asked m i tr (isl r, s')"
  by (simp add: asks_def)

lemma asks_run: "asks ''turn/start'' (th_id t) tr (RunStreamed (recorded srv) prompt ropts t (s, tr))"
proof (cases "buildTurnInput prompt ropts")
  case (Inl e)
  then show ?thesis by (simp add: RunStreamed_def)
next
  case (Inr input)
  let ?ps = "Some (marshal_map (buildTurnStartParams (th_id t) input ropts))"
  obtain r s' where r: "plain_send (thread_op ''RunStreamed: turn/start'') (recorded srv) ''turn/start'' ?ps (s, tr) = (r, s')"
    by (rule prod.exhaust)
  have "asks ''turn/start'' (th_id t) tr (plain_send (thread_op ''RunStreamed: turn/start'') (recorded srv) ''turn/start'' ?ps (s, tr))"
    by simp
  with Inr r show ?thesis by (cases r) (auto simp: RunStreamed_def intro: asks_fst)
qed

lemma asked_run_command: "asked (command_method cmd) (th_id t) tr (run_command c (recorded srv) cmd t (s, tr))"
proof (cases cmd)
  case (CRollback n)
  then show ?thesis using asks_commands(1) [of t tr c srv n s]
    by (cases "Rollback c (recorded srv) n t (s, tr)") (simp add: asks_asked)
next
  case (CSetName n)
  then show ?thesis using asks_commands(2) [of t tr c srv n s]
    by (cases "SetName c (recorded srv) n t (s, tr)") (simp add: asks_asked)
next
  case (CSteer x)
  then show ?thesis using asks_commands(3) [of t tr c srv x s]
    by (cases "Steer c (recorded srv) x t (s, tr)") (simp add: asks_asked)
next
  case CCleanTerminals
  obtain r s' where r: "client_CleanBackgroundTerminals c (recorded srv) (th_id t) (s, tr) = (r, s')" by (rule prod.exhaust)
  with asks_commands(6) [of t tr c srv s] CCleanTerminals show ?thesis
    by (cases r) (auto simp: CleanBackgroundTerminals_def asked_def asks_def)
next
  case (CCompact x)
  then show ?thesis using asks_compact [of t tr c srv x s]
    by (cases "Compact c (recorded srv) x t (s, tr)") (auto simp: asks_asked split: prod.splits)
next
  case (CStartReview ropts)
  then show ?thesis using asks_commands(4) [of t tr c srv ropts s]
    by (cases "StartReview c (recorded srv) ropts t (s, tr)") (simp add: asks_asked)
next
  case (CReviewStreamed ropts)
  obtain r s' where r: "StartReview c (recorded srv) ropts t (s, tr) = (r, s')" by (rule prod.exhaust)
  with asks_commands(4) [of t tr c srv ropts s] CReviewStreamed show ?thesis
    by (cases r) (auto simp: StartReviewStreamed_def asked_def asks_def)
next
  case CInterrupt
  obtain r s' where r: "InterruptThreadTurn c (recorded srv) (th_id t) (th_activeTurnID t) (s, tr) = (r, s')" by (rule prod.exhaust)
  with asks_commands(5) [of t tr c srv "th_activeTurnID t" s] CInterrupt show ?thesis
    by (cases r) (auto simp: Interrupt_def asked_def asks_def)
next
  case (CRun p ropts)
  then show ?thesis using asks_run [of t tr srv p ropts s]
    by (cases "RunStreamed (recorded srv) p ropts t (s, tr)") (simp add: asks_asked)
qed

lemma closed_run_command: "th_closed t \<Longrightarrow> snd (run_command c srv cmd t s) = s"
  by (cases cmd) (auto simp: Rollback_def SetName_def Steer_def CleanBackgroundTerminals_def Compact_def compact_begin_def
      StartReview_def StartReviewStreamed_def Interrupt_def RunStreamed_def split: prod.splits if_splits)

section \<open>Properties\<close>

text \<open>A command of a thread sends at most one request: a request of its own method that names its
  own thread; a command that sent nothing failed, and a closed thread sends nothing.\<close>

theorem thread_commands_one_request:
  "\<exists>failed s' tr. run_command c (recorded srv) cmd t (s, []) = (failed, (s', tr)) \<and>
     (case tr of
        [] \<Rightarrow> failed
      | x # xs \<Rightarrow> xs = [] \<and> fst x = command_method cmd \<and> names_thread (th_id t) (fst (snd x)) \<and> \<not> th_closed t)"
proof -
  obtain failed s' tr where r: "run_command c (recorded srv) cmd t (s, []) = (failed, (s', tr))"
    by (metis prod_cases3)
  have "tr = [] \<and> failed \<or> (\<exists>ps r. tr = [(command_method cmd, ps, r)] \<and> names_thread (th_id t) ps)"
    using asked_run_command [of cmd t "[]" c srv s] r by (auto simp: asked_def)
  moreover have "th_closed t \<Longrightarrow> tr = []"
    using closed_run_command [of t c "recorded srv" cmd "(s, [])"] r by simp
  ultimately show ?thesis
    using r by (intro exI [of _ failed] exI [of _ s'] exI [of _ tr]) auto
qed

end
