(* ===== verification/Runtime_Controls.thy ===== *)
theory Runtime_Controls
  imports Client_Types Json_Text
begin

text \<open>
  Discovery of the runtime controls of the installed CLI (\<open>runtime_controls.go\<close>,
  \<open>runtime_controls_schema.go\<close>): parsing \<open>codex --help\<close>, reading the approval policies of the
  generated JSON schema, and intersecting both with the provider's managed requirements. The
  machine is a parameter: what finding the CLI, running it with given arguments, making a temporary
  directory, reading a generated file and probing the version return.
\<close>

section \<open>The machine\<close>

datatype fileRead = FileText string | FileMissing | FileFailed goError

record machine =
  mc_FindCLI :: "goError + string"
  mc_Run :: "string \<Rightarrow> string list \<Rightarrow> string \<times> string \<times> goError option"
  mc_ctxErr :: "goError option"
  mc_MkdirTemp :: "goError + string"
  mc_File :: "string \<Rightarrow> fileRead"
  mc_Version :: "string \<Rightarrow> goError + semVer"

section \<open>Help text\<close>

definition appendUnique :: "string list \<Rightarrow> string \<Rightarrow> string list" where
  "appendUnique vs v = (if v \<in> set vs then vs else vs @ [v])"

text \<open>The rest of a line after the first occurrence of a marker (\<open>strings.Index\<close>).\<close>

fun after_marker :: "string \<Rightarrow> string \<Rightarrow> string option" where
  "after_marker m [] = (if m = [] then Some [] else None)"
| "after_marker m (c # s) = (if has_prefix (c # s) m then Some (drop (length m) (c # s)) else after_marker m s)"

definition trim_suffix :: "string \<Rightarrow> string \<Rightarrow> string" where
  "trim_suffix s p = (if has_suffix s p then take (length s - length p) s else s)"

definition possible_values :: string where
  "possible_values = ''[possible values:''"

definition parseBracketValues :: "string \<Rightarrow> string list" where
  "parseBracketValues line = (case after_marker possible_values line of
      None \<Rightarrow> []
    | Some rest \<Rightarrow>
        foldl (\<lambda>out v. let w = trim_space v in if w = [] then out else appendUnique out w) []
          (split_at CHR '','' (trim_suffix (trim_space rest) '']'')))"

text \<open>\<open>approvalChoiceRE\<close>, \<open>^\s*-\s+([a-z][a-z0-9-]*):\<close>. The classes are disjoint where they meet, so
  the greedy match is the only one.\<close>

definition re_space :: "char \<Rightarrow> bool" where
  "re_space c = (c \<in> {CHR 0x09, CHR 0x0A, CHR 0x0C, CHR 0x0D, CHR 0x20})"

definition lower_letter :: "char \<Rightarrow> bool" where
  "lower_letter c = (97 \<le> (of_char c :: nat) \<and> (of_char c :: nat) \<le> 122)"

definition choice_char :: "char \<Rightarrow> bool" where
  "choice_char c = (lower_letter c \<or> is_digit c \<or> c = CHR ''-'')"

definition approval_choice :: "string \<Rightarrow> string option" where
  "approval_choice line = (case dropWhile re_space line of
      [] \<Rightarrow> None
    | d # rest \<Rightarrow>
       (if d \<noteq> CHR ''-'' \<or> rest = [] \<or> \<not> re_space (hd rest) then None
        else (case dropWhile re_space rest of
            [] \<Rightarrow> None
          | x # xs \<Rightarrow>
             (if lower_letter x \<and> has_prefix (dropWhile choice_char xs) '':''
              then Some (x # takeWhile choice_char xs) else None))))"

text \<open>The loop over the lines of the help text: whether the approval section is open, the approvals and
  the sandbox modes found so far.\<close>

definition control_line :: "bool \<times> string list \<times> string list \<Rightarrow> string \<Rightarrow> bool \<times> string list \<times> string list" where
  "control_line st line = (case st of (inApproval, approvals, sandboxes) \<Rightarrow>
     (if contains_str line ''--ask-for-approval'' then (True, approvals, sandboxes)
      else if contains_str line ''--sandbox <'' then (False, approvals, parseBracketValues line)
      else if inApproval \<and> approval_choice line \<noteq> None
      then (inApproval, appendUnique approvals (the (approval_choice line)), sandboxes)
      else (inApproval \<and> \<not> (has_prefix (trim_space line) ''-'' \<and> contains_str (trim_space line) ''--''),
            approvals,
            if sandboxes = [] \<and> contains_str line possible_values then parseBracketValues line else sandboxes)))"

definition parseRuntimeControls :: "string \<Rightarrow> string list \<times> string list" where
  "parseRuntimeControls help = snd (foldl control_line (False, [], []) (split_at lf help))"

section \<open>Managed requirements\<close>

definition filterStringRequirements :: "string list \<Rightarrow> string slice \<Rightarrow> string list" where
  "filterStringRequirements vs allowed = (case allowed of
      None \<Rightarrow> vs | Some al \<Rightarrow> filter (\<lambda>v. v \<in> set al) vs)"

definition supported_requirement :: "approvalPolicyRequirement \<Rightarrow> bool" where
  "supported_requirement r = (\<not> (apr_ProviderValue r = ApprovalGranular \<and>
     (apr_Granular r = None \<or> apr_Granular r \<noteq> Some DefaultGranularApprovalSettings)))"

definition filterApprovalRequirements :: "string list \<Rightarrow> configRequirements ptr \<Rightarrow> string list" where
  "filterApprovalRequirements vs req = (case req of
      None \<Rightarrow> vs
    | Some r \<Rightarrow> (case crq_AllowedApprovalPolicies r of
        None \<Rightarrow> vs
      | Some ps \<Rightarrow> filterStringRequirements vs (Some (map apr_ProviderValue (filter supported_requirement ps)))))"

definition sandboxRequirements :: "configRequirements ptr \<Rightarrow> string slice" where
  "sandboxRequirements req = (case req of None \<Rightarrow> None | Some r \<Rightarrow> crq_AllowedSandboxModes r)"

section \<open>Schemas\<close>

fun words :: "string \<Rightarrow> string \<Rightarrow> string list" where
  "words acc [] = (if acc = [] then [] else [rev acc])"
| "words acc (c # s) = (if is_space c then (if acc = [] then words [] s else rev acc # words [] s) else words (c # acc) s)"

text \<open>\<open>strings.Fields\<close>.\<close>

definition string_fields :: "string \<Rightarrow> string list" where
  "string_fields s = words [] s"

definition quoted_command :: string where
  "quoted_command = CHR 0x27 # ''generate-json-schema'' @ [CHR 0x27]"

definition requireSchemaCommand :: "machine \<Rightarrow> string \<Rightarrow> string \<Rightarrow> bool \<Rightarrow> goError option" where
  "requireSchemaCommand mc cli caller experimental =
     (case mc_Run mc cli [''app-server'', ''generate-json-schema'', ''--help''] of (out, err, res) \<Rightarrow>
      (case res of
        Some e \<Rightarrow>
          (case mc_ctxErr mc of
             Some ce \<Rightarrow> Some (ErrWrap (caller @ '': app-server help'') ce)
           | None \<Rightarrow>
              (if contains_str (out @ err) (''unexpected argument '' @ quoted_command @ '' found'') \<or>
                  contains_str (out @ err) (''unrecognized subcommand '' @ quoted_command)
               then Some (ErrWrap (caller @ '': app-server schema command is unavailable'')
                      (ErrJoin [Sentinel ErrRuntimeControlsUnsupported, e]))
               else Some (ErrWrap (caller @ '': app-server help'') e)))
      | None \<Rightarrow>
          (if list_all (\<lambda>o'. o' \<in> set (string_fields (out @ err)))
                (''--out'' # (if experimental then [''--experimental''] else []))
           then None
           else Some (ErrWrap (caller @ '': app-server does not advertise required schema options'')
                  (Sentinel ErrRuntimeControlsUnsupported)))))"

definition generateAppServerSchema :: "machine \<Rightarrow> string \<Rightarrow> string \<Rightarrow> bool \<Rightarrow> goError + string" where
  "generateAppServerSchema mc cli caller experimental = (case requireSchemaCommand mc cli caller experimental of
      Some e \<Rightarrow> Inl e
    | None \<Rightarrow> (case mc_MkdirTemp mc of
        Inl e \<Rightarrow> Inl (ErrWrap (caller @ '': create schema directory'') e)
      | Inr outDir \<Rightarrow>
          (case mc_Run mc cli ([''app-server'', ''generate-json-schema''] @ (if experimental then [''--experimental''] else [])
                 @ [''--out'', outDir]) of (out, err, res) \<Rightarrow>
            (case res of
               Some e \<Rightarrow> Inl (ErrWrap (caller @ '': generate app-server schema'')
                           (case mc_ctxErr mc of Some ce \<Rightarrow> ce | None \<Rightarrow> e))
             | None \<Rightarrow> Inr outDir))))"

definition t_threadStartSchema :: gotype where
  "t_threadStartSchema = t_struct [(''definitions'', t_map (t_struct
     [(''oneOf'', t_slice (t_struct [(''enum'', t_slice t_str), (''properties'', t_map t_raw)]))]))]"

text \<open>The policies of one variant: its enumeration, then the granular object.\<close>

definition variant_values :: "string list \<Rightarrow> gval \<Rightarrow> string list" where
  "variant_values vs v =
     (let vs1 = foldl appendUnique vs (slice_list (f_strs v ''enum''))
      in if map_has (gfield v ''properties'') ApprovalGranular \<noteq> None then appendUnique vs1 ApprovalGranular else vs1)"

definition controls_op :: string where
  "controls_op = ''codex.DiscoverRuntimeControls''"

definition discoverExperimentalApprovalPolicies :: "machine \<Rightarrow> string \<Rightarrow> goError + string list" where
  "discoverExperimentalApprovalPolicies mc cli = (case generateAppServerSchema mc cli controls_op True of
      Inl e \<Rightarrow> Inl e
    | Inr outDir \<Rightarrow> (case mc_File mc ''v2/ThreadStartParams.json'' of
        FileMissing \<Rightarrow> Inl (ErrWrap (controls_op @ '': app-server schema is unavailable'') (Sentinel ErrRuntimeControlsUnsupported))
      | FileFailed e \<Rightarrow> Inl (ErrWrap (controls_op @ '': read app-server schema'') e)
      | FileText txt \<Rightarrow>
          (case (case parse_json txt of None \<Rightarrow> (zero_of t_threadStartSchema, False)
                 | Some j \<Rightarrow> unmarshal t_threadStartSchema (Some j)) of (g, ok) \<Rightarrow>
            if \<not> ok then Inl (ErrWrap (controls_op @ '': decode app-server schema'')
                             (ErrJoin [Sentinel ErrRuntimeControlsUnsupported, json_cause]))
            else (case as_map (gfield g ''definitions'') of
                None \<Rightarrow> Inl (ErrWrap (controls_op @ '': app-server schema omitted AskForApproval'') (Sentinel ErrRuntimeControlsUnsupported))
              | Some defs \<Rightarrow> (case map_of defs ''AskForApproval'' of
                  None \<Rightarrow> Inl (ErrWrap (controls_op @ '': app-server schema omitted AskForApproval'') (Sentinel ErrRuntimeControlsUnsupported))
                | Some approval \<Rightarrow> Inr (foldl variant_values [] (slice_list (f_slice approval ''oneOf''))))))))"

section \<open>Discovery\<close>

record runtimeControlCapabilities =
  rcc_ApprovalPolicies :: "string list"
  rcc_SandboxModes :: "string list"
  rcc_CLIVersion :: string

definition locate_cli :: "machine \<Rightarrow> codexOptions \<Rightarrow> string \<Rightarrow> goError + string" where
  "locate_cli mc opts caller =
     (if trim_space (co_CLIPath opts) \<noteq> [] then Inr (trim_space (co_CLIPath opts))
      else (case mc_FindCLI mc of Inl e \<Rightarrow> Inl (ErrWrap (caller @ '': find CLI'') e) | Inr p \<Rightarrow> Inr p))"

text \<open>\<open>DiscoverRuntimeControls\<close>: the values the help text advertises, with the experimental policies of
  the schema when the options ask for them.\<close>

definition advertised :: "machine \<Rightarrow> codexOptions \<Rightarrow> string \<Rightarrow> goError + string list \<times> string list" where
  "advertised mc opts cli =
     (case mc_Run mc cli [''--help''] of (out, err, res) \<Rightarrow>
      (case res of
        Some e \<Rightarrow> Inl (ErrWrap (controls_op @ '': CLI help'') (case mc_ctxErr mc of Some ce \<Rightarrow> ce | None \<Rightarrow> e))
      | None \<Rightarrow> (case parseRuntimeControls (out @ [lf] @ err) of (approvals, sandboxes) \<Rightarrow>
          (if approvals = [] \<or> sandboxes = []
           then Inl (ErrWrap (controls_op @ '': installed CLI did not advertise runtime controls'') (Sentinel ErrRuntimeControlsUnsupported))
           else if co_ExperimentalAPI opts
           then (case discoverExperimentalApprovalPolicies mc cli of
               Inl e \<Rightarrow> Inl e
             | Inr vs \<Rightarrow> Inr (foldl appendUnique approvals vs, sandboxes))
           else Inr (approvals, sandboxes)))))"

definition DiscoverRuntimeControls ::
  "bool \<Rightarrow> machine \<Rightarrow> codexOptions option \<Rightarrow> configRequirements ptr \<Rightarrow> goError + runtimeControlCapabilities" where
  "DiscoverRuntimeControls ctx_nil mc options req =
     (if ctx_nil then Inl (ErrText (controls_op @ '': ctx is required''))
      else (let opts = (case options of None \<Rightarrow> NewCodexOptions | Some o' \<Rightarrow> o') in
        case locate_cli mc opts controls_op of
          Inl e \<Rightarrow> Inl e
        | Inr cli \<Rightarrow> (case advertised mc opts cli of
            Inl e \<Rightarrow> Inl e
          | Inr (approvals, sandboxes) \<Rightarrow> (case mc_Version mc cli of
              Inl e \<Rightarrow> Inl (ErrWrap (controls_op @ '': CLI version'') e)
            | Inr v \<Rightarrow>
                (let aps = filterApprovalRequirements approvals req;
                     ss = filterStringRequirements sandboxes (sandboxRequirements req)
                 in if aps = [] \<or> ss = []
                    then Inl (ErrText (controls_op @ '': managed requirements removed every runtime control''))
                    else Inr \<lparr>rcc_ApprovalPolicies = aps, rcc_SandboxModes = ss, rcc_CLIVersion = sv_String v\<rparr>)))))"

section \<open>Lemmas\<close>

lemma distinct_appendUnique [simp]: "distinct (appendUnique vs v) = distinct vs"
  by (simp add: appendUnique_def)

lemma set_appendUnique [simp]: "set (appendUnique vs v) = insert v (set vs)"
  by (auto simp: appendUnique_def)

lemma distinct_foldl_appendUnique [simp]: "distinct (foldl appendUnique vs ws) = distinct vs"
  by (induction ws arbitrary: vs) auto

lemma set_foldl_appendUnique [simp]: "set (foldl appendUnique vs ws) = set vs \<union> set ws"
  by (induction ws arbitrary: vs) auto

lemma distinct_parseBracketValues [simp]: "distinct (parseBracketValues line)"
proof -
  have "distinct (foldl (\<lambda>out v. let w = trim_space v in if w = [] then out else appendUnique out w) vs ws) = distinct vs"
    for vs ws by (induction ws arbitrary: vs) (auto simp: Let_def)
  then show ?thesis by (auto simp: parseBracketValues_def split: option.splits)
qed

lemma parseRuntimeControls_distinct:
  "parseRuntimeControls help = (aps, ss) \<Longrightarrow> distinct aps \<and> distinct ss"
proof -
  have "distinct (fst (snd st)) \<Longrightarrow> distinct (snd (snd st)) \<Longrightarrow>
    distinct (fst (snd (foldl control_line st ls))) \<and> distinct (snd (snd (foldl control_line st ls)))" for st ls
  proof (induction ls arbitrary: st)
    case (Cons l ls)
    have "distinct (fst (snd (control_line st l)))" "distinct (snd (snd (control_line st l)))"
      using Cons.prems by (auto simp: control_line_def split: prod.splits)
    from Cons.IH [OF this] show ?case by simp
  qed simp
  then show "parseRuntimeControls help = (aps, ss) \<Longrightarrow> distinct aps \<and> distinct ss"
    by (simp add: parseRuntimeControls_def) (metis distinct.simps(1) fst_conv snd_conv)
qed

lemma advertised_distinct: "advertised mc opts cli = Inr (aps, ss) \<Longrightarrow> distinct aps \<and> distinct ss"
  using parseRuntimeControls_distinct
  by (auto simp: advertised_def split: prod.splits option.splits if_splits sum.splits)

definition allowed_policy :: "configRequirements \<Rightarrow> string \<Rightarrow> bool" where
  "allowed_policy r p = (case crq_AllowedApprovalPolicies r of
      None \<Rightarrow> True
    | Some ps \<Rightarrow> list_ex (\<lambda>q. apr_ProviderValue q = p \<and>
        (if p = ApprovalGranular then apr_Granular q = Some DefaultGranularApprovalSettings else True)) ps)"

definition allowed_sandbox :: "configRequirements \<Rightarrow> string \<Rightarrow> bool" where
  "allowed_sandbox r m = (case crq_AllowedSandboxModes r of None \<Rightarrow> True | Some ms \<Rightarrow> m \<in> set ms)"

lemma filterApproval_filter: "filterApprovalRequirements vs (Some r) = filter (allowed_policy r) vs"
proof (cases "crq_AllowedApprovalPolicies r")
  case (Some ps)
  have "v \<in> set (map apr_ProviderValue (filter supported_requirement ps)) \<longleftrightarrow> allowed_policy r v" for v
    using Some by (auto simp: allowed_policy_def list_ex_iff supported_requirement_def image_iff)
  with Some show ?thesis
    by (simp add: filterApprovalRequirements_def filterStringRequirements_def)
qed (simp add: filterApprovalRequirements_def allowed_policy_def [abs_def])

lemma filterSandbox_filter:
  "filterStringRequirements vs (sandboxRequirements (Some r)) = filter (allowed_sandbox r) vs"
  by (cases "crq_AllowedSandboxModes r")
    (simp_all add: filterStringRequirements_def sandboxRequirements_def allowed_sandbox_def [abs_def])

section \<open>Properties\<close>

text \<open>C33: Discovery never widens the managed requirements: the controls it returns are the advertised ones
  that the requirements allow, in the advertised order, each once and at least one of each kind; a
  granular policy is allowed only with exactly the settings the SDK sends for it.\<close>

theorem runtime_controls_within_requirements:
  assumes "DiscoverRuntimeControls False mc (Some opts) (Some r) = Inr caps"
  shows "\<exists>cli aps ss. advertised mc opts cli = Inr (aps, ss) \<and>
     rcc_ApprovalPolicies caps = filter (allowed_policy r) aps \<and> rcc_SandboxModes caps = filter (allowed_sandbox r) ss \<and>
     rcc_ApprovalPolicies caps \<noteq> [] \<and> rcc_SandboxModes caps \<noteq> [] \<and>
     distinct (rcc_ApprovalPolicies caps) \<and> distinct (rcc_SandboxModes caps)"
proof -
  obtain cli aps ss v where a: "advertised mc opts cli = Inr (aps, ss)" "mc_Version mc cli = Inr v"
    and c: "caps = \<lparr>rcc_ApprovalPolicies = filter (allowed_policy r) aps,
      rcc_SandboxModes = filter (allowed_sandbox r) ss, rcc_CLIVersion = sv_String v\<rparr>"
    and n: "filter (allowed_policy r) aps \<noteq> []" "filter (allowed_sandbox r) ss \<noteq> []"
    using assms
    by (auto simp: DiscoverRuntimeControls_def Let_def filterApproval_filter filterSandbox_filter
        split: sum.splits if_splits)
  with advertised_distinct [OF a(1)] show ?thesis
    by (intro exI [of _ cli] exI [of _ aps] exI [of _ ss]) simp
qed

definition sample_help :: string where
  "sample_help = ''  -a, --ask-for-approval <P>'' @ [lf] @ ''    - never:      x'' @ [lf] @ ''    - granular: y'' @ [lf] @
     ''  -s, --sandbox <M>'' @ [lf] @ ''    [possible values: read-only, full]'' @ [lf]"

lemma parse_sample_help:
  "parseRuntimeControls (sample_help @ [lf] @ []) = ([''never'', ''granular''], [''read-only'', ''full''])"
  by code_simp

definition sample_machine :: machine where
  "sample_machine = \<lparr>mc_FindCLI = Inr ''codex'', mc_Run = (\<lambda>cli args. (sample_help, [], None)), mc_ctxErr = None,
     mc_MkdirTemp = Inr ''/tmp/x'', mc_File = (\<lambda>p. FileMissing), mc_Version = (\<lambda>cli. Inr (SemVer 0 144 0))\<rparr>"

definition sample_requirements :: configRequirements where
  "sample_requirements = \<lparr>crq_AllowedApprovalPolicies = Some [NewApprovalPolicyRequirement ''never'',
     NewApprovalPolicyRequirement ''granular''], crq_AllowedSandboxModes = None\<rparr>"

theorem runtime_controls_within_requirements_witness:
  "\<exists>caps. DiscoverRuntimeControls False sample_machine (Some NewCodexOptions) (Some sample_requirements) = Inr caps \<and>
     rcc_ApprovalPolicies caps = [''never''] \<and> distinct (rcc_SandboxModes caps)"
proof -
  have a: "advertised sample_machine NewCodexOptions ''codex'' = Inr ([''never'', ''granular''], [''read-only'', ''full''])"
    using parse_sample_help by (simp add: advertised_def sample_machine_def NewCodexOptions_def)
  have r: "DiscoverRuntimeControls False sample_machine (Some NewCodexOptions) (Some sample_requirements) =
     Inr \<lparr>rcc_ApprovalPolicies = [''never''], rcc_SandboxModes = [''read-only'', ''full''],
          rcc_CLIVersion = sv_String (SemVer 0 144 0)\<rparr>"
    using a by (simp add: DiscoverRuntimeControls_def locate_cli_def filterApproval_filter filterSandbox_filter
        allowed_policy_def allowed_sandbox_def sample_requirements_def NewApprovalPolicyRequirement_def ApprovalGranular_def
        sample_machine_def NewCodexOptions_def trim_space_def Let_def)
  from runtime_controls_within_requirements [OF r] r show ?thesis by auto
qed

end
