(* ===== verification/Runtime_Features.thy ===== *)
theory Runtime_Features
  imports Runtime_Controls
begin

text \<open>
  Discovery of optional server features from the generated JSON schemas (\<open>runtime_features.go\<close>): the
  comparison of a schema with what the SDK expects of it, and which features follow. The generated
  files are those of the machine of the theory \<open>Runtime_Controls\<close>.
\<close>

section \<open>Comparing sets of strings\<close>

definition equalStringSet :: "string list \<Rightarrow> string list \<Rightarrow> bool" where
  "equalStringSet left right =
     (length left = length right \<and> list_all (\<lambda>v. v \<in> set left) right)"

definition containsAllStrings :: "string list \<Rightarrow> string list \<Rightarrow> bool" where
  "containsAllStrings vs required = list_all (\<lambda>v. v \<in> set vs) required"

definition schemaTypesEqual :: "raw \<Rightarrow> string list \<Rightarrow> bool" where
  "schemaTypesEqual r expected = (case unmarshal t_str r of (single, ok) \<Rightarrow>
     if ok then equalStringSet [as_str single] expected
     else (case unmarshal (t_slice t_str) r of (multiple, ok2) \<Rightarrow>
       if \<not> ok2 then False else equalStringSet (slice_list (as_slice_of as_str multiple)) expected))"

section \<open>Schemas\<close>

record objectSchema =
  os_Required :: "string list"
  os_Properties :: "(string \<times> raw) list"
  os_Type :: raw

definition object_fields :: "(string \<times> gotype) list" where
  "object_fields = [(''required'', t_slice t_str), (''properties'', t_map t_raw), (''type'', t_raw)]"

definition to_objectSchema :: "gval \<Rightarrow> objectSchema" where
  "to_objectSchema g = \<lparr>os_Required = slice_list (f_strs g ''required''),
     os_Properties = (case as_map_of as_raw (gfield g ''properties'') of None \<Rightarrow> [] | Some m \<Rightarrow> m),
     os_Type = f_raw g ''type''\<rparr>"

text \<open>A property schema nests: its \<open>items\<close> is a property schema. A value nested \<open>n\<close> deep never reaches
  the type for depth 0 with an object.\<close>

fun t_propertySchema :: "nat \<Rightarrow> gotype" where
  "t_propertySchema 0 = t_struct [(''type'', t_raw), (''$ref'', t_str), (''enum'', t_slice t_str)]"
| "t_propertySchema (Suc n) = t_struct
     [(''type'', t_raw), (''$ref'', t_str), (''items'', t_ptr (t_propertySchema n)), (''enum'', t_slice t_str)]"

record propertyExpectation =
  pe_name :: string
  pe_required :: bool
  pe_types :: "string list"
  pe_ref :: string
  pe_itemsRef :: string
  pe_enum :: "string list"

definition requiredTypedProperty :: "string \<Rightarrow> string list \<Rightarrow> propertyExpectation" where
  "requiredTypedProperty name tys = \<lparr>pe_name = name, pe_required = True, pe_types = tys, pe_ref = [], pe_itemsRef = [], pe_enum = []\<rparr>"

definition optionalTypedProperty :: "string \<Rightarrow> string list \<Rightarrow> propertyExpectation" where
  "optionalTypedProperty name tys = \<lparr>pe_name = name, pe_required = False, pe_types = tys, pe_ref = [], pe_itemsRef = [], pe_enum = []\<rparr>"

definition requiredRefProperty :: "string \<Rightarrow> string \<Rightarrow> propertyExpectation" where
  "requiredRefProperty name ref = \<lparr>pe_name = name, pe_required = True, pe_types = [], pe_ref = ref, pe_itemsRef = [], pe_enum = []\<rparr>"

definition propertySchemaMatches :: "raw \<Rightarrow> propertyExpectation \<Rightarrow> bool" where
  "propertySchemaMatches r e =
     (case unmarshal (t_propertySchema (case r of None \<Rightarrow> 0 | Some j \<Rightarrow> json_depth j)) r of (p, ok) \<Rightarrow>
        ok \<and> (pe_types e = [] \<or> schemaTypesEqual (f_raw p ''type'') (pe_types e)) \<and>
        (pe_ref e = [] \<or> f_str p ''$ref'' = pe_ref e) \<and>
        (pe_itemsRef e = [] \<or> (case f_ptr p ''items'' of None \<Rightarrow> False | Some i \<Rightarrow> f_str i ''$ref'' = pe_itemsRef e)) \<and>
        (pe_enum e = [] \<or> equalStringSet (slice_list (f_strs p ''enum'')) (pe_enum e)))"

definition objectSchemaMatches :: "objectSchema \<Rightarrow> propertyExpectation list \<Rightarrow> bool" where
  "objectSchemaMatches s es = (schemaTypesEqual (os_Type s) [''object''] \<and>
     list_all (\<lambda>e. (pe_name e \<in> set (os_Required s)) = pe_required e \<and>
        (case map_of (os_Properties s) (pe_name e) of None \<Rightarrow> False | Some r \<Rightarrow> propertySchemaMatches r e)) es)"

section \<open>Files\<close>

text \<open>\<open>readRuntimeSchema\<close>: a missing file is no error.\<close>

definition readRuntimeSchema :: "gotype \<Rightarrow> (string \<Rightarrow> fileRead) \<Rightarrow> string \<Rightarrow> goError + gval option" where
  "readRuntimeSchema ty fs path = (case fs path of
      FileMissing \<Rightarrow> Inr None
    | FileFailed e \<Rightarrow> Inl (ErrWrap (''read schema '' @ path) e)
    | FileText txt \<Rightarrow>
        (case (case parse_json txt of None \<Rightarrow> (zero_of ty, False) | Some j \<Rightarrow> unmarshal ty (Some j)) of (g, ok) \<Rightarrow>
          if ok then Inr (Some g) else Inl (ErrWrap (''decode schema '' @ path) json_cause)))"

definition found_schema :: "(gval \<Rightarrow> bool) \<Rightarrow> goError + gval option \<Rightarrow> goError + bool" where
  "found_schema p r = (case r of Inl e \<Rightarrow> Inl e | Inr None \<Rightarrow> Inr False | Inr (Some g) \<Rightarrow> Inr (p g))"

definition schemaHasProperties :: "(string \<Rightarrow> fileRead) \<Rightarrow> string \<Rightarrow> propertyExpectation list \<Rightarrow> goError + bool" where
  "schemaHasProperties fs path es =
     found_schema (\<lambda>g. objectSchemaMatches (to_objectSchema g) es) (readRuntimeSchema (t_struct object_fields) fs path)"

definition schemaHasRequestProperties :: "(string \<Rightarrow> fileRead) \<Rightarrow> string \<Rightarrow> propertyExpectation list \<Rightarrow> goError + bool" where
  "schemaHasRequestProperties fs path es =
     found_schema (\<lambda>g. objectSchemaMatches (to_objectSchema g) es \<and>
        equalStringSet (os_Required (to_objectSchema g)) (map pe_name (filter pe_required es)))
      (readRuntimeSchema (t_struct object_fields) fs path)"

definition terminal_row :: "propertyExpectation list" where
  "terminal_row = [requiredTypedProperty ''command'' [''string''],
     requiredRefProperty ''cwd'' ''#/definitions/LegacyAppPathString'',
     requiredTypedProperty ''itemId'' [''string''], requiredTypedProperty ''processId'' [''string''],
     optionalTypedProperty ''osPid'' [''integer'', ''null''], optionalTypedProperty ''cpuPercent'' [''number'', ''null''],
     optionalTypedProperty ''rssKb'' [''integer'', ''null'']]"

definition terminal_list :: "propertyExpectation list" where
  "terminal_list = [\<lparr>pe_name = ''data'', pe_required = True, pe_types = [''array''], pe_ref = [],
       pe_itemsRef = ''#/definitions/ThreadBackgroundTerminal'', pe_enum = []\<rparr>,
     optionalTypedProperty ''nextCursor'' [''string'', ''null'']]"

definition schemaHasTerminalListResponse :: "(string \<Rightarrow> fileRead) \<Rightarrow> string \<Rightarrow> goError + bool" where
  "schemaHasTerminalListResponse fs path = found_schema
     (\<lambda>g. (let defs = (case as_map_of to_objectSchema (gfield g ''definitions'') of None \<Rightarrow> [] | Some m \<Rightarrow> m) in
        objectSchemaMatches (to_objectSchema g) terminal_list \<and>
        (case map_of defs ''ThreadBackgroundTerminal'' of None \<Rightarrow> False
         | Some t \<Rightarrow> schemaTypesEqual (os_Type t) [''object''] \<and> objectSchemaMatches t terminal_row) \<and>
        (case map_of defs ''LegacyAppPathString'' of None \<Rightarrow> False
         | Some l \<Rightarrow> schemaTypesEqual (os_Type l) [''string''])))
     (readRuntimeSchema (t_struct (object_fields @ [(''definitions'', t_map (t_struct object_fields))])) fs path)"

definition t_itemStartedSchema :: gotype where
  "t_itemStartedSchema = t_struct
    [(''type'', t_raw),
     (''definitions'', t_struct
        [(''SubAgentActivityKind'', t_struct [(''type'', t_raw), (''enum'', t_slice t_str)]),
         (''ThreadItem'', t_struct
            [(''oneOf'', t_slice (t_struct ((''title'', t_str) # object_fields)))])])]"

definition sub_agent_item :: "propertyExpectation list" where
  "sub_agent_item = [requiredTypedProperty ''agentPath'' [''string''], requiredTypedProperty ''agentThreadId'' [''string''],
     requiredTypedProperty ''id'' [''string''], requiredRefProperty ''kind'' ''#/definitions/SubAgentActivityKind'',
     \<lparr>pe_name = ''type'', pe_required = True, pe_types = [''string''], pe_ref = [], pe_itemsRef = [],
      pe_enum = [''subAgentActivity'']\<rparr>]"

definition schemaHasSubAgentActivity :: "(string \<Rightarrow> fileRead) \<Rightarrow> string \<Rightarrow> goError + bool" where
  "schemaHasSubAgentActivity fs path = found_schema
     (\<lambda>g. (let defs = gfield g ''definitions''; kind = gfield defs ''SubAgentActivityKind'' in
        schemaTypesEqual (f_raw g ''type'') [''object''] \<and> schemaTypesEqual (f_raw kind ''type'') [''string''] \<and>
        containsAllStrings (slice_list (f_strs kind ''enum'')) [''started'', ''interrupted''] \<and>
        list_ex (\<lambda>v. f_str v ''title'' = ''SubAgentActivityThreadItem'' \<and>
            schemaTypesEqual (f_raw v ''type'') [''object''] \<and> objectSchemaMatches (to_objectSchema v) sub_agent_item)
          (slice_list (f_slice (gfield defs ''ThreadItem'') ''oneOf''))))
     (readRuntimeSchema t_itemStartedSchema fs path)"

section \<open>Features\<close>

record features =
  ft_SubAgentActivity :: bool
  ft_TurnInterrupt :: bool
  ft_BackgroundTerminalInventory :: bool
  ft_BackgroundTerminalTerminate :: bool
  ft_BackgroundTerminalsClean :: bool
  ft_CLIVersion :: string

definition no_features :: features where
  "no_features = \<lparr>ft_SubAgentActivity = False, ft_TurnInterrupt = False, ft_BackgroundTerminalInventory = False,
     ft_BackgroundTerminalTerminate = False, ft_BackgroundTerminalsClean = False, ft_CLIVersion = []\<rparr>"

definition thread_id_property :: propertyExpectation where
  "thread_id_property = requiredTypedProperty ''threadId'' [''string'']"

text \<open>Two schemas that must both match, the first one read first.\<close>

definition both :: "goError + bool \<Rightarrow> goError + bool \<Rightarrow> goError + bool" where
  "both a b = (case a of Inl e \<Rightarrow> Inl e | Inr x \<Rightarrow> (case b of Inl e \<Rightarrow> Inl e | Inr y \<Rightarrow> Inr (x \<and> y)))"

definition turn_interrupt :: "(string \<Rightarrow> fileRead) \<Rightarrow> goError + bool" where
  "turn_interrupt fs = both
     (schemaHasRequestProperties fs ''v2/TurnInterruptParams.json'' [thread_id_property, requiredTypedProperty ''turnId'' [''string'']])
     (schemaHasProperties fs ''v2/TurnInterruptResponse.json'' [])"

definition terminal_inventory :: "(string \<Rightarrow> fileRead) \<Rightarrow> goError + bool" where
  "terminal_inventory fs = both
     (schemaHasRequestProperties fs ''v2/ThreadBackgroundTerminalsListParams.json''
        [thread_id_property, optionalTypedProperty ''cursor'' [''string'', ''null''],
         optionalTypedProperty ''limit'' [''integer'', ''null'']])
     (schemaHasTerminalListResponse fs ''v2/ThreadBackgroundTerminalsListResponse.json'')"

definition terminal_terminate :: "(string \<Rightarrow> fileRead) \<Rightarrow> goError + bool" where
  "terminal_terminate fs = both
     (schemaHasRequestProperties fs ''v2/ThreadBackgroundTerminalsTerminateParams.json''
        [thread_id_property, requiredTypedProperty ''processId'' [''string'']])
     (schemaHasProperties fs ''v2/ThreadBackgroundTerminalsTerminateResponse.json''
        [requiredTypedProperty ''terminated'' [''boolean'']])"

definition terminals_clean :: "(string \<Rightarrow> fileRead) \<Rightarrow> goError + bool" where
  "terminals_clean fs = both
     (schemaHasRequestProperties fs ''v2/ThreadBackgroundTerminalsCleanParams.json'' [thread_id_property])
     (schemaHasProperties fs ''v2/ThreadBackgroundTerminalsCleanResponse.json'' [])"

definition discoverRuntimeFeaturesFromSchema :: "(string \<Rightarrow> fileRead) \<Rightarrow> bool \<Rightarrow> goError + features" where
  "discoverRuntimeFeaturesFromSchema fs experimental =
     (case schemaHasSubAgentActivity fs ''v2/ItemStartedNotification.json'' of Inl e \<Rightarrow> Inl e | Inr sub_agents \<Rightarrow>
      (case turn_interrupt fs of Inl e \<Rightarrow> Inl e | Inr interrupt \<Rightarrow>
       (let f = no_features\<lparr>ft_SubAgentActivity := sub_agents, ft_TurnInterrupt := interrupt\<rparr> in
        if \<not> experimental then Inr f
        else (case terminal_inventory fs of Inl e \<Rightarrow> Inl e | Inr inventory \<Rightarrow>
              (case terminal_terminate fs of Inl e \<Rightarrow> Inl e | Inr terminate \<Rightarrow>
               (case terminals_clean fs of Inl e \<Rightarrow> Inl e | Inr clean \<Rightarrow>
                  Inr (f\<lparr>ft_BackgroundTerminalInventory := inventory, ft_BackgroundTerminalTerminate := terminate,
                         ft_BackgroundTerminalsClean := clean\<rparr>)))))))"

definition features_op :: string where
  "features_op = ''codex.DiscoverRuntimeFeatures''"

text \<open>The experimental schema first; if the CLI cannot generate it, the stable one.\<close>

definition generateRuntimeFeatureSchema :: "machine \<Rightarrow> string \<Rightarrow> bool \<Rightarrow> (goError + string) \<times> bool" where
  "generateRuntimeFeatureSchema mc cli experimental =
     (case generateAppServerSchema mc cli features_op experimental of
        Inr d \<Rightarrow> (Inr d, experimental)
      | Inl e \<Rightarrow> (if \<not> experimental \<or> \<not> errors_is ErrRuntimeControlsUnsupported e then (Inl e, experimental)
                  else (generateAppServerSchema mc cli features_op False, False)))"

definition DiscoverRuntimeFeatures :: "bool \<Rightarrow> machine \<Rightarrow> codexOptions option \<Rightarrow> goError + features" where
  "DiscoverRuntimeFeatures ctx_nil mc options =
     (if ctx_nil then Inl (ErrText (features_op @ '': context is required''))
      else (let opts = (case options of None \<Rightarrow> NewCodexOptions | Some o' \<Rightarrow> o') in
        case locate_cli mc opts features_op of
          Inl e \<Rightarrow> Inl e
        | Inr cli \<Rightarrow>
            (case (case mc_Version mc cli of
                Inr v \<Rightarrow> Inr (sv_String v)
              | Inl e \<Rightarrow> (case mc_ctxErr mc of
                  Some ce \<Rightarrow> Inl (ErrWrap (features_op @ '': CLI version'') ce) | None \<Rightarrow> Inr [])) of
              Inl e \<Rightarrow> Inl e
            | Inr version \<Rightarrow>
                (case generateRuntimeFeatureSchema mc cli (co_ExperimentalAPI opts) of
                  (Inl e, x) \<Rightarrow> (if errors_is ErrRuntimeControlsUnsupported e
                                then Inr (no_features\<lparr>ft_CLIVersion := version\<rparr>) else Inl e)
                | (Inr outDir, experimental) \<Rightarrow>
                    (case discoverRuntimeFeaturesFromSchema (mc_File mc) experimental of
                      Inl e \<Rightarrow> Inl (ErrWrap features_op e)
                    | Inr f \<Rightarrow> Inr (f\<lparr>ft_CLIVersion := version\<rparr>))))))"

section \<open>Lemmas\<close>

text \<open>On the right-hand sides the code uses, which have no repetitions, \<open>equalStringSet\<close> is equality of
  the sets, each element once.\<close>

lemma equalStringSet_iff:
  assumes "distinct right"
  shows "equalStringSet left right \<longleftrightarrow> set left = set right \<and> distinct left"
proof
  assume l: "equalStringSet left right"
  then have sub: "set right \<subseteq> set left" and len: "length left = length right"
    by (auto simp: equalStringSet_def list_all_iff)
  have "card (set left) \<le> card (set right)"
    using card_length [of left] len distinct_card [OF assms] by simp
  with sub have "set left = set right" using card_seteq [of "set left" "set right"] by simp
  moreover from this have "card (set left) = length left" using len distinct_card [OF assms] by simp
  then have "distinct left" by (rule card_distinct)
  ultimately show "set left = set right \<and> distinct left" ..
next
  assume l: "set left = set right \<and> distinct left"
  then have "length left = length right" using distinct_card [of left] distinct_card [OF assms] by simp
  with l show "equalStringSet left right" by (simp add: equalStringSet_def list_all_iff)
qed

text \<open>Without a file, no error and no match.\<close>

lemma readRuntimeSchema_missing [simp]: "fs p = FileMissing \<Longrightarrow> readRuntimeSchema ty fs p = Inr None"
  by (simp add: readRuntimeSchema_def)

lemma readRuntimeSchema_other [simp]: "p \<noteq> q \<Longrightarrow> readRuntimeSchema ty (fs(q := x)) p = readRuntimeSchema ty fs p"
  by (simp add: readRuntimeSchema_def)

lemma found_missing [simp]: "found_schema P (Inr None) = Inr False"
  by (simp add: found_schema_def)

lemma both_Inr: "both a b = Inr z \<longleftrightarrow> (\<exists>x y. a = Inr x \<and> b = Inr y \<and> z = (x \<and> y))"
  by (cases a; cases b) (auto simp: both_def)

text \<open>The files a feature needs.\<close>

datatype feature = SubAgentActivity | TurnInterrupt | TerminalInventory | TerminalTerminate | TerminalsClean

fun feature_files :: "feature \<Rightarrow> string list" where
  "feature_files SubAgentActivity = [''v2/ItemStartedNotification.json'']"
| "feature_files TurnInterrupt = [''v2/TurnInterruptParams.json'', ''v2/TurnInterruptResponse.json'']"
| "feature_files TerminalInventory =
     [''v2/ThreadBackgroundTerminalsListParams.json'', ''v2/ThreadBackgroundTerminalsListResponse.json'']"
| "feature_files TerminalTerminate =
     [''v2/ThreadBackgroundTerminalsTerminateParams.json'', ''v2/ThreadBackgroundTerminalsTerminateResponse.json'']"
| "feature_files TerminalsClean =
     [''v2/ThreadBackgroundTerminalsCleanParams.json'', ''v2/ThreadBackgroundTerminalsCleanResponse.json'']"

fun has_feature :: "features \<Rightarrow> feature \<Rightarrow> bool" where
  "has_feature f SubAgentActivity = ft_SubAgentActivity f"
| "has_feature f TurnInterrupt = ft_TurnInterrupt f"
| "has_feature f TerminalInventory = ft_BackgroundTerminalInventory f"
| "has_feature f TerminalTerminate = ft_BackgroundTerminalTerminate f"
| "has_feature f TerminalsClean = ft_BackgroundTerminalsClean f"

text \<open>A check that reads one file.\<close>

definition file_check :: "string \<Rightarrow> ((string \<Rightarrow> fileRead) \<Rightarrow> goError + bool) \<Rightarrow> bool" where
  "file_check q A = (\<forall>fs b p. A fs = Inr b \<longrightarrow> A (fs(p := FileMissing)) = Inr (b \<and> p \<noteq> q))"

lemma file_check_found: "file_check q (\<lambda>fs. found_schema P (readRuntimeSchema ty fs q))"
  unfolding file_check_def
proof (intro allI impI)
  fix fs b p
  assume "found_schema P (readRuntimeSchema ty fs q) = Inr b"
  then show "found_schema P (readRuntimeSchema ty (fs(p := FileMissing)) q) = Inr (b \<and> p \<noteq> q)"
    by (cases "p = q") simp_all
qed

lemma file_checks:
  "file_check q (\<lambda>fs. schemaHasRequestProperties fs q es)" "file_check q (\<lambda>fs. schemaHasProperties fs q es)"
  "file_check q (\<lambda>fs. schemaHasTerminalListResponse fs q)" "file_check q (\<lambda>fs. schemaHasSubAgentActivity fs q)"
  unfolding schemaHasRequestProperties_def schemaHasProperties_def schemaHasTerminalListResponse_def
    schemaHasSubAgentActivity_def by (rule file_check_found)+

lemma both_missing:
  assumes "file_check q A" and "file_check r B" and "both (A fs) (B fs) = Inr b"
  shows "both (A (fs(p := FileMissing))) (B (fs(p := FileMissing))) = Inr (b \<and> p \<notin> set [q, r])"
  using assms unfolding both_Inr file_check_def by auto

lemma feature_check_missing:
  "schemaHasSubAgentActivity fs ''v2/ItemStartedNotification.json'' = Inr b \<Longrightarrow>
     schemaHasSubAgentActivity (fs(p := FileMissing)) ''v2/ItemStartedNotification.json'' =
       Inr (b \<and> p \<notin> set (feature_files SubAgentActivity))"
  "turn_interrupt fs = Inr b \<Longrightarrow>
     turn_interrupt (fs(p := FileMissing)) = Inr (b \<and> p \<notin> set (feature_files TurnInterrupt))"
  "terminal_inventory fs = Inr b \<Longrightarrow>
     terminal_inventory (fs(p := FileMissing)) = Inr (b \<and> p \<notin> set (feature_files TerminalInventory))"
  "terminal_terminate fs = Inr b \<Longrightarrow>
     terminal_terminate (fs(p := FileMissing)) = Inr (b \<and> p \<notin> set (feature_files TerminalTerminate))"
  "terminals_clean fs = Inr b \<Longrightarrow>
     terminals_clean (fs(p := FileMissing)) = Inr (b \<and> p \<notin> set (feature_files TerminalsClean))"
  using file_checks(4) [of "''v2/ItemStartedNotification.json''"]
  by (auto simp only: file_check_def feature_files.simps list.set turn_interrupt_def terminal_inventory_def
      terminal_terminate_def terminals_clean_def singleton_iff intro: both_missing [OF file_checks(1) file_checks(2), simplified list.set]
      both_missing [OF file_checks(1) file_checks(3), simplified list.set])

lemma all_feature: "(\<forall>x. P x) \<longleftrightarrow> P SubAgentActivity \<and> P TurnInterrupt \<and> P TerminalInventory \<and> P TerminalTerminate \<and> P TerminalsClean"
  by (metis feature.exhaust)

section \<open>Properties\<close>

text \<open>A schema file that is missing disables exactly the features that need it: with any one file taken
  away, discovery still succeeds, every feature that needs the file is off and every other feature is
  as it was.\<close>

theorem missing_schema_disables_only_its_features:
  assumes "discoverRuntimeFeaturesFromSchema fs experimental = Inr f"
  shows "\<exists>f'. discoverRuntimeFeaturesFromSchema (fs(p := FileMissing)) experimental = Inr f' \<and>
     ft_CLIVersion f' = ft_CLIVersion f \<and>
     (\<forall>x. has_feature f' x = (has_feature f x \<and> p \<notin> set (feature_files x)))"
proof -
  obtain a b where ab: "schemaHasSubAgentActivity fs ''v2/ItemStartedNotification.json'' = Inr a" "turn_interrupt fs = Inr b"
    using assms by (auto simp: discoverRuntimeFeaturesFromSchema_def split: sum.splits)
  note m = feature_check_missing(1) [OF ab(1), of p] feature_check_missing(2) [OF ab(2), of p]
  show ?thesis
  proof (cases experimental)
    case False
    with assms ab m show ?thesis
      by (auto simp: discoverRuntimeFeaturesFromSchema_def no_features_def Let_def all_feature
          simp del: feature_files.simps)
  next
    case True
    with assms ab obtain c d e where cde: "terminal_inventory fs = Inr c" "terminal_terminate fs = Inr d" "terminals_clean fs = Inr e"
      by (auto simp: discoverRuntimeFeaturesFromSchema_def Let_def split: sum.splits)
    note n = feature_check_missing(3) [OF cde(1), of p] feature_check_missing(4) [OF cde(2), of p]
      feature_check_missing(5) [OF cde(3), of p]
    from True assms ab cde m n show ?thesis
      by (auto simp: discoverRuntimeFeaturesFromSchema_def no_features_def Let_def all_feature
          simp del: feature_files.simps)
  qed
qed

definition sample_params :: string where
  "sample_params = CHR ''{'' # dq # ''type'' @ dq # '':'' @ dq # ''object'' @ dq # '','' @ dq # ''required'' @ dq # '':['' @ dq # ''threadId'' @ dq
     # '','' @ dq # ''turnId'' @ dq # ''],'' @ dq # ''properties'' @ dq # '':{'' @ dq # ''threadId'' @ dq # '':{'' @ dq # ''type'' @ dq # '':'' @ dq
     # ''string'' @ dq # ''},'' @ dq # ''turnId'' @ dq # '':{'' @ dq # ''type'' @ dq # '':'' @ dq # ''string'' @ dq # ''}}}''"

definition sample_response :: string where
  "sample_response = CHR ''{'' # dq # ''type'' @ dq # '':'' @ dq # ''object'' @ dq # ''}''"

definition sample_files :: "string \<Rightarrow> fileRead" where
  "sample_files p = (if p = ''v2/TurnInterruptParams.json'' then FileText sample_params
     else if p = ''v2/TurnInterruptResponse.json'' then FileText sample_response else FileMissing)"

lemma sample_interrupt: "turn_interrupt sample_files = Inr True"
  by code_simp

theorem missing_schema_disables_only_its_features_witness:
  "(\<exists>f. discoverRuntimeFeaturesFromSchema sample_files False = Inr f \<and> ft_TurnInterrupt f) \<and>
   (\<exists>f'. discoverRuntimeFeaturesFromSchema (sample_files(''v2/TurnInterruptResponse.json'' := FileMissing)) False = Inr f' \<and>
     \<not> ft_TurnInterrupt f')"
proof -
  have "schemaHasSubAgentActivity sample_files ''v2/ItemStartedNotification.json'' = Inr False"
    by (simp add: schemaHasSubAgentActivity_def sample_files_def)
  then have d: "discoverRuntimeFeaturesFromSchema sample_files False = Inr (no_features\<lparr>ft_TurnInterrupt := True\<rparr>)"
    using sample_interrupt by (simp add: discoverRuntimeFeaturesFromSchema_def no_features_def)
  from missing_schema_disables_only_its_features [OF d, of "''v2/TurnInterruptResponse.json''"]
  obtain f' where f': "discoverRuntimeFeaturesFromSchema (sample_files(''v2/TurnInterruptResponse.json'' := FileMissing)) False = Inr f'"
    and x: "\<forall>x. has_feature f' x = (has_feature (no_features\<lparr>ft_TurnInterrupt := True\<rparr>) x \<and>
       ''v2/TurnInterruptResponse.json'' \<notin> set (feature_files x))" by blast
  have "\<not> ft_TurnInterrupt f'" using spec [OF x, of TurnInterrupt] by simp
  with f' d show ?thesis by simp
qed

end
