(* ===== verification/Thread_History.thy ===== *)
theory Thread_History
  imports Thread_Commands
begin

text \<open>
  Persisted threads (\<open>thread_history.go\<close>): listing and reading threads without resuming them, the
  messages of a thread and their window. The text of a raw message is what \<open>render\<close> writes for its
  value.
\<close>

section \<open>Options\<close>

record threadListOptions =
  tlo_Limit :: int
  tlo_Cursor :: string
  tlo_Archived :: "bool ptr"
  tlo_Cwd :: "string list"
  tlo_SearchTerm :: string
  tlo_SortKey :: string
  tlo_SortDirection :: string
  tlo_ModelProviders :: "string list"
  tlo_SourceKinds :: "string list"
  tlo_UseStateDBOnly :: bool

definition put_strs :: "string \<Rightarrow> string list \<Rightarrow> (string \<times> json) list \<Rightarrow> (string \<times> json) list" where
  "put_strs k vs m = (if vs = [] then m else put k (JArr (map JStr vs)) m)"

definition buildThreadListParams :: "threadListOptions option \<Rightarrow> (string \<times> json) list" where
  "buildThreadListParams opts = (case opts of
      None \<Rightarrow> []
    | Some o' \<Rightarrow>
       (let p1 = (if 0 < tlo_Limit o' then put ''limit'' (JNum (render_int (tlo_Limit o'))) [] else []);
            p2 = put_str ''cursor'' (tlo_Cursor o') p1;
            p3 = put_opt ''archived'' (map_option JBool (tlo_Archived o')) p2;
            p4 = (case tlo_Cwd o' of [] \<Rightarrow> p3 | [d] \<Rightarrow> put ''cwd'' (JStr d) p3 | ds \<Rightarrow> put ''cwd'' (JArr (map JStr ds)) p3);
            p5 = put_str ''sortDirection'' (tlo_SortDirection o') (put_str ''sortKey'' (tlo_SortKey o')
                   (put_str ''searchTerm'' (tlo_SearchTerm o') p4));
            p6 = put_strs ''sourceKinds'' (tlo_SourceKinds o') (put_strs ''modelProviders'' (tlo_ModelProviders o') p5)
        in if tlo_UseStateDBOnly o' then put ''useStateDbOnly'' (JBool True) p6 else p6))"

section \<open>Rows\<close>

record threadInfo =
  ti_ThreadID :: string
  ti_Summary :: string
  ti_LastModified :: string
  ti_Cwd :: string
  ti_Model :: string
  ti_Archived :: bool
  ti_Raw :: raw

record threadHistoryItem =
  thi_Type :: string
  thi_ID :: string
  thi_Raw :: raw

record threadHistoryTurn =
  tht_ID :: string
  tht_Status :: string
  tht_StartedAt :: string
  tht_CompletedAt :: string
  tht_Items :: "threadHistoryItem list"
  tht_Raw :: raw

record threadRecord =
  trc_ID :: string
  trc_SessionID :: string
  trc_Name :: string
  trc_Preview :: string
  trc_Cwd :: string
  trc_Model :: string
  trc_Path :: string
  trc_Status :: string
  trc_CreatedAt :: string
  trc_UpdatedAt :: string
  trc_Turns :: "threadHistoryTurn list"
  trc_Raw :: raw

definition raw_text :: "raw \<Rightarrow> string" where
  "raw_text r = (case r of None \<Rightarrow> [] | Some j \<Rightarrow> render j)"

definition t_threadRow :: gotype where
  "t_threadRow = t_struct [(''id'', t_str), (''sessionId'', t_str), (''name'', t_str), (''preview'', t_str), (''cwd'', t_str),
     (''model'', t_str), (''modelProvider'', t_raw), (''path'', t_str), (''updatedAt'', t_str), (''createdAt'', t_str),
     (''archived'', t_bool)]"

definition or_else :: "string \<Rightarrow> string \<Rightarrow> string" where
  "or_else a b = (if a = [] then b else a)"

definition parseThreadInfo :: "raw \<Rightarrow> goError + threadInfo" where
  "parseThreadInfo r = (case unmarshal t_threadRow r of (g, ok) \<Rightarrow>
     if \<not> ok then Inl (JSONDecodeError r json_cause)
     else Inr \<lparr>ti_ThreadID = or_else (f_str g ''id'') (f_str g ''sessionId''),
               ti_Summary = or_else (f_str g ''preview'') (f_str g ''name''),
               ti_LastModified = or_else (or_else (f_str g ''updatedAt'') (f_str g ''createdAt'')) (f_str g ''path''),
               ti_Cwd = f_str g ''cwd'',
               ti_Model = or_else (f_str g ''model'') (raw_text (f_raw g ''modelProvider'')),
               ti_Archived = f_bool g ''archived'', ti_Raw = r\<rparr>)"

fun parse_items :: "raw list \<Rightarrow> goError + threadHistoryItem list" where
  "parse_items [] = Inr []"
| "parse_items (r # rs) = (case unmarshal (t_struct [(''type'', t_str), (''id'', t_str)]) r of (g, ok) \<Rightarrow>
     if \<not> ok then Inl (JSONDecodeError r json_cause)
     else (case parse_items rs of Inl e \<Rightarrow> Inl e
        | Inr items \<Rightarrow> Inr (\<lparr>thi_Type = f_str g ''type'', thi_ID = f_str g ''id'', thi_Raw = r\<rparr> # items)))"

definition parseThreadHistoryTurn :: "raw \<Rightarrow> goError + threadHistoryTurn" where
  "parseThreadHistoryTurn r =
     (case unmarshal (t_struct [(''id'', t_str), (''status'', t_str), (''startedAt'', t_str), (''completedAt'', t_str),
                                (''items'', t_slice t_raw)]) r of (g, ok) \<Rightarrow>
        if \<not> ok then Inl (JSONDecodeError r json_cause)
        else (case parse_items (slice_list (f_raws g ''items'')) of Inl e \<Rightarrow> Inl e
           | Inr items \<Rightarrow> Inr \<lparr>tht_ID = f_str g ''id'', tht_Status = f_str g ''status'', tht_StartedAt = f_str g ''startedAt'',
                tht_CompletedAt = f_str g ''completedAt'', tht_Items = items, tht_Raw = r\<rparr>))"

fun parse_turns :: "raw list \<Rightarrow> goError + threadHistoryTurn list" where
  "parse_turns [] = Inr []"
| "parse_turns (r # rs) = (case parseThreadHistoryTurn r of Inl e \<Rightarrow> Inl e
     | Inr t \<Rightarrow> (case parse_turns rs of Inl e \<Rightarrow> Inl e | Inr ts \<Rightarrow> Inr (t # ts)))"

definition t_threadRecordRow :: gotype where
  "t_threadRecordRow = t_struct [(''id'', t_str), (''sessionId'', t_str), (''name'', t_str), (''preview'', t_str), (''cwd'', t_str),
     (''model'', t_str), (''modelProvider'', t_raw), (''path'', t_str), (''status'', t_str), (''createdAt'', t_str),
     (''updatedAt'', t_str), (''turns'', t_slice t_raw)]"

definition parseThreadRecord :: "raw \<Rightarrow> goError + threadRecord" where
  "parseThreadRecord r = (case unmarshal t_threadRecordRow r of (g, ok) \<Rightarrow>
     if \<not> ok then Inl (JSONDecodeError r json_cause)
     else (case parse_turns (slice_list (f_raws g ''turns'')) of Inl e \<Rightarrow> Inl e
        | Inr turns \<Rightarrow> Inr \<lparr>trc_ID = or_else (f_str g ''id'') (f_str g ''sessionId''), trc_SessionID = f_str g ''sessionId'',
             trc_Name = f_str g ''name'', trc_Preview = f_str g ''preview'', trc_Cwd = f_str g ''cwd'',
             trc_Model = or_else (f_str g ''model'') (raw_text (f_raw g ''modelProvider'')),
             trc_Path = f_str g ''path'', trc_Status = f_str g ''status'', trc_CreatedAt = f_str g ''createdAt'',
             trc_UpdatedAt = f_str g ''updatedAt'', trc_Turns = turns, trc_Raw = r\<rparr>))"

section \<open>Requests\<close>

definition threadHistoryRPCError :: "string \<Rightarrow> string \<Rightarrow> rpcErrorObj \<Rightarrow> goError" where
  "threadHistoryRPCError m threadID e =
     (let lower = to_lower (rpc_Message e); rpc = RPCError (rpc_Code e) (rpc_Message e) (rpc_Data e) in
      if contains_str lower ''not found'' then ThreadHistoryError ''thread_not_found'' threadID (rpc_Message e) (Some rpc)
      else if contains_str lower ''unknown method'' \<or> contains_str lower ''not supported'' \<or> contains_str lower ''unsupported''
      then ThreadHistoryError ''feature_unavailable'' threadID (m @ '' unavailable: '' @ rpc_Message e) (Some rpc)
      else rpc)"

text \<open>The part \<open>ReadThread\<close> and \<open>ListThreadsPage\<close> share: send, and classify an error of the peer.\<close>

definition history_send :: "string \<Rightarrow> 's server \<Rightarrow> string \<Rightarrow> string \<Rightarrow> raw \<Rightarrow> 's \<Rightarrow> (raw, 's) outcome" where
  "history_send caller srv m threadID ps s = (case srv m ps s of
      (Inl e, s') \<Rightarrow> (Inl (ErrWrap (client_op caller) e), s')
    | (Inr resp, s') \<Rightarrow> (case resp_Error resp of
          Some e \<Rightarrow> (Inl (threadHistoryRPCError m threadID e), s')
        | None \<Rightarrow> (Inr (resp_Result resp), s')))"

definition malformed :: "string \<Rightarrow> string \<Rightarrow> goError option \<Rightarrow> goError" where
  "malformed threadID m cause = ThreadHistoryError ''malformed_history'' threadID m cause"

definition decode_read :: "string \<Rightarrow> raw \<Rightarrow> goError + threadRecord \<times> raw" where
  "decode_read threadID r = (case unmarshal (t_struct [(''thread'', t_raw)]) r of (g, ok) \<Rightarrow>
     if \<not> ok then Inl (malformed threadID ''malformed thread/read response'' (Some (JSONDecodeError r json_cause)))
     else if f_raw g ''thread'' = None then Inl (malformed threadID ''thread/read response missing thread'' None)
     else (case parseThreadRecord (f_raw g ''thread'') of
         Inl e \<Rightarrow> Inl (malformed threadID ''malformed thread/read thread'' (Some e))
       | Inr t \<Rightarrow> Inr (t, r)))"

definition ReadThread :: "client \<Rightarrow> 's server \<Rightarrow> string \<Rightarrow> bool option \<Rightarrow> 's \<Rightarrow> (threadRecord \<times> raw, 's) outcome" where
  "ReadThread c srv threadID includeTurns s = (case connection_error ''ReadThread'' c of
      Some e \<Rightarrow> (Inl e, s)
    | None \<Rightarrow>
       (if blank threadID then (Inl (ThreadHistoryError ''invalid_thread_id'' threadID ''thread id must not be empty'' None), s)
        else (case history_send ''ReadThread'' srv ''thread/read'' threadID
                 (Some (marshal_map (put_opt ''includeTurns'' (map_option JBool includeTurns) [(''threadId'', JStr threadID)]))) s of
            (Inl e, s') \<Rightarrow> (Inl e, s')
          | (Inr r, s') \<Rightarrow> (decode_read threadID r, s'))))"

fun parse_rows :: "raw list \<Rightarrow> goError + threadInfo list" where
  "parse_rows [] = Inr []"
| "parse_rows (r # rs) = (case parseThreadInfo r of
     Inl e \<Rightarrow> Inl (malformed [] ''malformed thread/list row'' (Some e))
   | Inr info \<Rightarrow> (case parse_rows rs of Inl e \<Rightarrow> Inl e
       | Inr infos \<Rightarrow> Inr (if ti_ThreadID info = [] then infos else info # infos)))"

record threadListPage =
  tlp_Threads :: "threadInfo list"
  tlp_NextCursor :: string
  tlp_BackwardsCursor :: string
  tlp_Raw :: raw

definition decode_list :: "raw \<Rightarrow> goError + threadListPage" where
  "decode_list r = (case unmarshal (t_struct [(''data'', t_slice t_raw), (''threads'', t_slice t_raw), (''nextCursor'', t_str),
                                  (''backwardsCursor'', t_str)]) r of (g, ok) \<Rightarrow>
     if \<not> ok then Inl (malformed [] ''malformed thread/list response'' (Some (JSONDecodeError r json_cause)))
     else (let rows = (if slice_list (f_raws g ''data'') = [] then slice_list (f_raws g ''threads'')
                       else slice_list (f_raws g ''data'')) in
       case parse_rows rows of Inl e \<Rightarrow> Inl e
       | Inr infos \<Rightarrow> Inr \<lparr>tlp_Threads = infos, tlp_NextCursor = f_str g ''nextCursor'',
            tlp_BackwardsCursor = f_str g ''backwardsCursor'', tlp_Raw = r\<rparr>))"

definition ListThreadsPage :: "client \<Rightarrow> 's server \<Rightarrow> threadListOptions option \<Rightarrow> 's \<Rightarrow> (threadListPage, 's) outcome" where
  "ListThreadsPage c srv opts s = (case connection_error ''ListThreadsPage'' c of
      Some e \<Rightarrow> (Inl e, s)
    | None \<Rightarrow> (case history_send ''ListThreadsPage'' srv ''thread/list'' [] (Some (marshal_map (buildThreadListParams opts))) s of
        (Inl e, s') \<Rightarrow> (Inl e, s')
      | (Inr r, s') \<Rightarrow> (decode_list r, s')))"

definition ListThreads :: "client \<Rightarrow> 's server \<Rightarrow> 's \<Rightarrow> (threadInfo list, 's) outcome" where
  "ListThreads c srv s = (case ListThreadsPage c srv None s of
      (Inl e, s') \<Rightarrow> (Inl e, s') | (Inr p, s') \<Rightarrow> (Inr (tlp_Threads p), s'))"

section \<open>Messages\<close>

record threadMessage =
  tm_Role :: string
  tm_ID :: string
  tm_ThreadID :: string
  tm_TurnID :: string
  tm_Text :: string
  tm_Raw :: raw

fun join_lines :: "string list \<Rightarrow> string" where
  "join_lines [] = []"
| "join_lines [x] = x"
| "join_lines (x # y # zs) = x @ [lf] @ join_lines (y # zs)"

definition userMessageText :: "raw \<Rightarrow> string" where
  "userMessageText r = (case unmarshal (t_struct [(''content'', t_slice (t_struct [(''type'', t_str), (''text'', t_str)]))]) r of
     (g, ok) \<Rightarrow> if \<not> ok then []
        else join_lines (filter (\<lambda>x. x \<noteq> []) (map (\<lambda>p. f_str p ''text'') (slice_list (f_slice g ''content'')))))"

definition threadMessageFromItem :: "string \<Rightarrow> string \<Rightarrow> threadHistoryItem \<Rightarrow> threadMessage option" where
  "threadMessageFromItem threadID turnID it =
     (if thi_Type it = ''userMessage'' then Some \<lparr>tm_Role = ''user'', tm_ID = thi_ID it, tm_ThreadID = threadID,
          tm_TurnID = turnID, tm_Text = userMessageText (thi_Raw it), tm_Raw = thi_Raw it\<rparr>
      else if thi_Type it = ''agentMessage'' then Some \<lparr>tm_Role = ''assistant'', tm_ID = thi_ID it, tm_ThreadID = threadID,
          tm_TurnID = turnID, tm_Text = f_str (fst (unmarshal (t_struct [(''text'', t_str)]) (thi_Raw it))) ''text'',
          tm_Raw = thi_Raw it\<rparr>
      else None)"

record getThreadMessagesOptions =
  gtm_Limit :: int
  gtm_Offset :: int

definition applyThreadMessageWindow :: "getThreadMessagesOptions option \<Rightarrow> 'a list \<Rightarrow> 'a list" where
  "applyThreadMessageWindow opts vs = (case opts of
      None \<Rightarrow> vs
    | Some o' \<Rightarrow>
       (let offset = (if gtm_Offset o' < 0 then 0 else gtm_Offset o') in
        if int (length vs) \<le> offset then []
        else (let ws = drop (nat offset) vs in
              if 0 < gtm_Limit o' \<and> gtm_Limit o' < int (length ws) then take (nat (gtm_Limit o')) ws else ws)))"

definition thread_messages :: "threadRecord \<Rightarrow> threadMessage list" where
  "thread_messages t = concat (map (\<lambda>turn. concat (map
     (\<lambda>it. case threadMessageFromItem (trc_ID t) (tht_ID turn) it of None \<Rightarrow> [] | Some m \<Rightarrow> [m]) (tht_Items turn))) (trc_Turns t))"

definition GetThreadMessages ::
  "client \<Rightarrow> 's server \<Rightarrow> string \<Rightarrow> getThreadMessagesOptions option \<Rightarrow> 's \<Rightarrow> (threadMessage list, 's) outcome" where
  "GetThreadMessages c srv threadID opts s = (case ReadThread c srv threadID (Some True) s of
      (Inl e, s') \<Rightarrow> (Inl e, s')
    | (Inr (t, r), s') \<Rightarrow> (Inr (applyThreadMessageWindow opts (thread_messages t)), s'))"

section \<open>Lemmas\<close>

lemma window_take_drop:
  assumes "0 < n"
  shows "applyThreadMessageWindow (Some \<lparr>gtm_Limit = int n, gtm_Offset = int k\<rparr>) vs = take n (drop k vs)"
  using assms by (auto simp: applyThreadMessageWindow_def Let_def)

lemma windows_tile: "concat (map (\<lambda>k. take n (drop (k * n) vs)) [0..<m]) = take (m * n) vs"
  by (induction m) (simp_all add: take_add add.commute [of n])

text \<open>The history operations ask one thing, and never resume or start anything.\<close>

lemma history_send_asks:
  "\<exists>r. snd (snd (history_send caller (recorded srv) m threadID ps (s, tr))) = tr @ [(m, ps, r)]"
  by (auto simp: history_send_def recorded_def split: prod.splits sum.splits option.splits)

definition only_asks :: "string \<Rightarrow> exchange list \<Rightarrow> exchange list \<Rightarrow> bool" where
  "only_asks m tr tr' = (\<exists>new. tr' = tr @ new \<and> length new \<le> 1 \<and> list_all (\<lambda>x. fst x = m) new)"

lemma ReadThread_asks: "only_asks ''thread/read'' tr (snd (snd (ReadThread c (recorded srv) threadID inc (s, tr))))"
proof -
  let ?ps = "Some (marshal_map (put_opt ''includeTurns'' (map_option JBool inc) [(''threadId'', JStr threadID)]))"
  obtain res s' where h: "history_send ''ReadThread'' (recorded srv) ''thread/read'' threadID ?ps (s, tr) = (res, s')"
    by (rule prod.exhaust)
  with history_send_asks [of "''ReadThread''" srv "''thread/read''" threadID ?ps s tr]
  obtain r where "snd s' = tr @ [(''thread/read'', ?ps, r)]" by auto
  with h show ?thesis
    by (cases res) (auto simp: ReadThread_def only_asks_def split: option.splits)
qed

text \<open>What a read without a thread gives: \<open>null\<close> is not empty, and an empty struct decodes from it.\<close>

lemma read_null_thread:
  "\<exists>t. decode_read i (Some (JObj [(''thread'', JNull)])) = Inr (t, Some (JObj [(''thread'', JNull)])) \<and>
     trc_ID t = [] \<and> trc_Turns t = []"
  by (simp add: decode_read_def parseThreadRecord_def t_threadRecordRow_def or_else_def client_eval)

text \<open>A thread without a model gets the JSON text of its provider as its model, quotes included.\<close>

lemma provider_as_model:
  "\<exists>info. parseThreadInfo (Some (JObj [(''id'', JStr ''t''), (''modelProvider'', JStr p)])) = Inr info \<and>
     ti_Model info = render (JStr p)"
  by (simp add: parseThreadInfo_def t_threadRow_def or_else_def raw_text_def client_eval)

section \<open>Properties\<close>

text \<open>Reading the messages of a thread in windows loses none and repeats none: the windows of size \<open>n\<close> at
  the offsets 0, n, 2n and so on, put together, are all its messages in order, and no window asks the
  peer for anything but reading the thread.\<close>

theorem message_windows_tile:
  assumes "fst (GetThreadMessages c srv i None s) = Inr msgs" and "0 < n" and "length msgs \<le> m * n"
  shows "concat (map (\<lambda>k. case fst (GetThreadMessages c srv i (Some \<lparr>gtm_Limit = int n, gtm_Offset = int (k * n)\<rparr>) s) of
       Inl e \<Rightarrow> [] | Inr ws \<Rightarrow> ws) [0..<m]) = msgs \<and>
     only_asks ''thread/read'' [] (snd (snd (GetThreadMessages c (recorded srv) i opts (s, []))))"
proof
  obtain t r s' where r: "ReadThread c srv i (Some True) s = (Inr (t, r), s')" and m: "msgs = thread_messages t"
    using assms(1) by (auto simp: GetThreadMessages_def applyThreadMessageWindow_def split: prod.splits sum.splits)
  have "fst (GetThreadMessages c srv i (Some \<lparr>gtm_Limit = int n, gtm_Offset = int (k * n)\<rparr>) s) =
      Inr (take n (drop (k * n) msgs))" for k
    using r m window_take_drop [OF assms(2), of "k * n" msgs] by (simp add: GetThreadMessages_def)
  then have "map (\<lambda>k. case fst (GetThreadMessages c srv i (Some \<lparr>gtm_Limit = int n, gtm_Offset = int (k * n)\<rparr>) s) of
       Inl e \<Rightarrow> [] | Inr ws \<Rightarrow> ws) [0..<m] = map (\<lambda>k. take n (drop (k * n) msgs)) [0..<m]" by simp
  then show "concat (map (\<lambda>k. case fst (GetThreadMessages c srv i (Some \<lparr>gtm_Limit = int n, gtm_Offset = int (k * n)\<rparr>) s) of
       Inl e \<Rightarrow> [] | Inr ws \<Rightarrow> ws) [0..<m]) = msgs"
    using assms(3) by (simp only: windows_tile) simp
  have "snd (GetThreadMessages c (recorded srv) i opts (s, [])) = snd (ReadThread c (recorded srv) i (Some True) (s, []))"
    by (auto simp: GetThreadMessages_def split: prod.splits sum.splits)
  then show "only_asks ''thread/read'' [] (snd (snd (GetThreadMessages c (recorded srv) i opts (s, []))))"
    by (simp add: ReadThread_asks)
qed

definition sample_history :: json where
  "sample_history = JObj [(''thread'', JObj [(''id'', JStr ''t''), (''turns'', JArr [JObj [(''id'', JStr ''u''),
     (''items'', JArr [JObj [(''type'', JStr ''agentMessage''), (''id'', JStr ''1''), (''text'', JStr ''hi'')],
                       JObj [(''type'', JStr ''reasoning''), (''id'', JStr ''2'')],
                       JObj [(''type'', JStr ''agentMessage''), (''id'', JStr ''3''), (''text'', JStr ''ho'')]])]])])]"

definition sample_server :: "unit server" where
  "sample_server m ps s = (Inr \<lparr>resp_ID = 1, resp_Result = Some sample_history, resp_Error = None\<rparr>, s)"

definition sample_message :: "string \<Rightarrow> string \<Rightarrow> threadMessage" where
  "sample_message i x = \<lparr>tm_Role = ''assistant'', tm_ID = i, tm_ThreadID = ''t'', tm_TurnID = ''u'', tm_Text = x,
     tm_Raw = Some (JObj [(''type'', JStr ''agentMessage''), (''id'', JStr i), (''text'', JStr x)])\<rparr>"

lemma sample_messages:
  "fst (GetThreadMessages (new_client\<lparr>cl_connected := True\<rparr>) sample_server ''t'' None ()) =
     Inr [sample_message ''1'' ''hi'', sample_message ''3'' ''ho'']"
  by (simp add: GetThreadMessages_def ReadThread_def connection_error_def new_client_def blank_def trim_space_def is_space_def
      history_send_def sample_server_def decode_read_def sample_history_def parseThreadRecord_def t_threadRecordRow_def
      parseThreadHistoryTurn_def thread_messages_def threadMessageFromItem_def sample_message_def or_else_def
      applyThreadMessageWindow_def client_eval to_lower_def to_lower_char_def)

theorem message_windows_tile_witness:
  "concat (map (\<lambda>k. case fst (GetThreadMessages (new_client\<lparr>cl_connected := True\<rparr>) sample_server ''t''
       (Some \<lparr>gtm_Limit = 1, gtm_Offset = int k\<rparr>) ()) of Inl e \<Rightarrow> [] | Inr ws \<Rightarrow> ws) [0..<2]) =
   [sample_message ''1'' ''hi'', sample_message ''3'' ''ho'']"
  using message_windows_tile [OF sample_messages, of 1 2] by simp

end
