(* ===== verification/Cli_Process.thy ===== *)
theory Cli_Process
  imports Semver Transitions "HOL-Library.Multiset"
begin

text \<open>
  Running the CLI (\<open>internal/transport\<close>): the environment overlay and the path of an explicit CLI
  (\<open>subprocess_spawn.go\<close>), the arguments of the server (\<open>subprocess_appserver.go\<close>), the bounded
  retry on a busy executable (\<open>cli_command.go\<close>) and the search for the CLI with its single-flight
  cache (\<open>cli_discovery.go\<close>). The process environment, the file system, the user's home directory and
  the results of running a command are parameters.
\<close>

section \<open>Environment\<close>

text \<open>The split at the first equals sign, and whether there was one.\<close>

fun splitKV :: "string \<Rightarrow> string \<times> string \<times> bool" where
  "splitKV [] = ([], [], False)"
| "splitKV (c # s) = (if c = CHR ''='' then ([], s, True)
     else (case splitKV s of (k, v, ok) \<Rightarrow> (c # k, v, ok)))"

definition overrides_of :: "string list \<Rightarrow> (string \<times> string) list" where
  "overrides_of kvs = foldl (\<lambda>m kv. case splitKV kv of (k, v, ok) \<Rightarrow> put k v m) [] kvs"

text \<open>\<open>order\<close> is the order in which Go happens to iterate over the overrides.\<close>

definition BuildRuntimeEnvironment ::
  "string list \<Rightarrow> ((string \<times> string) list \<Rightarrow> (string \<times> string) list) \<Rightarrow> string list \<Rightarrow> string list" where
  "BuildRuntimeEnvironment environ order kvs =
     (if kvs = [] then environ
      else (let ov = overrides_of kvs in
        filter (\<lambda>kv. map_of ov (fst (splitKV kv)) = None) environ @
        map (\<lambda>p. fst p @ CHR ''='' # snd p) (filter (\<lambda>p. snd p \<noteq> []) (order ov))))"

text \<open>What an environment says about a variable.\<close>

definition values_of :: "string list \<Rightarrow> string \<Rightarrow> string list" where
  "values_of env k = map (\<lambda>kv. fst (snd (splitKV kv))) (filter (\<lambda>kv. fst (splitKV kv) = k) env)"

text \<open>The last entry for a variable decides.\<close>

definition last_entry :: "string list \<Rightarrow> string \<Rightarrow> string option" where
  "last_entry kvs k = (case filter (\<lambda>kv. fst (splitKV kv) = k) (rev kvs) of
     [] \<Rightarrow> None | kv # rest \<Rightarrow> Some (fst (snd (splitKV kv))))"

lemma last_entry_snoc:
  "last_entry (kvs @ [kv]) k = (if fst (splitKV kv) = k then Some (fst (snd (splitKV kv))) else last_entry kvs k)"
  by (simp add: last_entry_def)

lemma overrides_lookup: "map_of (overrides_of kvs) k = last_entry kvs k"
proof (induction kvs rule: rev_induct)
  case Nil
  then show ?case by (simp add: overrides_of_def last_entry_def)
next
  case (snoc kv kvs)
  then show ?case unfolding last_entry_snoc by (simp add: overrides_of_def split: prod.splits)
qed

lemma overrides_distinct: "distinct (map fst (overrides_of kvs))"
  by (induction kvs rule: rev_induct)
    (auto simp: overrides_of_def put_def distinct_map_filter split: prod.splits)

lemma splitKV_key: "splitKV kv = (k, v, ok) \<Longrightarrow> CHR ''='' \<notin> set k"
  by (induction kv arbitrary: k v ok) (auto split: if_splits prod.splits)

lemma splitKV_join: "CHR ''='' \<notin> set k \<Longrightarrow> splitKV (k @ CHR ''='' # v) = (k, v, True)"
  by (induction k) auto

lemma overrides_keys: "p \<in> set (overrides_of kvs) \<Longrightarrow> CHR ''='' \<notin> set (fst p)"
proof (induction kvs rule: rev_induct)
  case Nil
  then show ?case by (simp add: overrides_of_def)
next
  case (snoc kv kvs)
  obtain k v ok where kv: "splitKV kv = (k, v, ok)" by (cases "splitKV kv") auto
  with snoc.prems have "p = (k, v) \<or> p \<in> set (overrides_of kvs)"
    by (auto simp: overrides_of_def put_def)
  with snoc.IH splitKV_key [OF kv] show ?case by auto
qed

lemma filter_unique_key:
  "distinct (map fst m) \<Longrightarrow> filter (\<lambda>p. fst p = k) m = (case map_of m k of None \<Rightarrow> [] | Some v \<Rightarrow> [(k, v)])"
  by (induction m) (auto simp: filter_empty_conv image_iff split: option.splits)

lemma values_of_append: "values_of (xs @ ys) k = values_of xs k @ values_of ys k"
  by (simp add: values_of_def)

lemma values_of_joined:
  "(\<And>p. p \<in> set m \<Longrightarrow> splitKV (fst p @ CHR ''='' # snd p) = (fst p, snd p, True)) \<Longrightarrow>
   values_of (map (\<lambda>p. fst p @ CHR ''='' # snd p) (filter (\<lambda>p. snd p \<noteq> []) m)) k =
     map snd (filter (\<lambda>p. snd p \<noteq> []) (filter (\<lambda>p. fst p = k) m))"
proof (induction m)
  case Nil
  then show ?case by (simp add: values_of_def)
next
  case (Cons p m)
  have "splitKV (fst p @ CHR ''='' # snd p) = (fst p, snd p, True)" using Cons.prems by simp
  moreover note Cons.IH [OF Cons.prems]
  ultimately show ?case by (cases p) (auto simp: values_of_def)
qed

definition appServerArgs :: "string list \<Rightarrow> string list \<Rightarrow> string list" where
  "appServerArgs globalArgs extraArgs = globalArgs @ [''app-server''] @ extraArgs"

text \<open>On POSIX systems a path is absolute when it starts with a slash, which is also the separator.\<close>

definition resolveExplicitCLIPath :: "(string \<Rightarrow> goError + string) \<Rightarrow> string \<Rightarrow> goError + string" where
  "resolveExplicitCLIPath abs_path cli =
     (if has_prefix cli ''/'' \<or> CHR 0x2F \<notin> set cli then Inr cli
      else (case abs_path cli of
          Inl e \<Rightarrow> Inl (ErrWrap ''resolve explicit relative CLI path'' e) | Inr p \<Rightarrow> Inr p))"

section \<open>Retry\<close>

definition maxCLICommandAttempts :: nat where "maxCLICommandAttempts = 5"

definition is_busy :: "goError option \<Rightarrow> bool" where
  "is_busy err = (case err of None \<Rightarrow> False | Some e \<Rightarrow> errors_is ErrETXTBSY e)"

text \<open>\<open>ctx\<close> is the context's error before an attempt, \<open>wake\<close> what ends the pause after it: the
  context's error, or the timer. The state is that of the command.\<close>

function retry_from ::
  "(nat \<Rightarrow> goError option) \<Rightarrow> (nat \<Rightarrow> goError option) \<Rightarrow> ('s \<Rightarrow> goError option \<times> 's) \<Rightarrow> nat \<Rightarrow> 's \<Rightarrow> goError option \<times> 's" where
  "retry_from ctx wake cmd attempt s = (case ctx attempt of
      Some e \<Rightarrow> (Some e, s)
    | None \<Rightarrow> (case cmd s of (err, s') \<Rightarrow>
        (if \<not> is_busy err \<or> maxCLICommandAttempts \<le> attempt then (err, s')
         else (case wake attempt of
             Some e \<Rightarrow> (Some e, s')
           | None \<Rightarrow> retry_from ctx wake cmd (attempt + 1) s'))))"
  by pat_completeness auto
termination by (relation "measure (\<lambda>(ctx, wake, cmd, attempt, s). maxCLICommandAttempts - attempt)") auto

declare retry_from.simps [simp del]

definition retryOnETXTBSY ::
  "(nat \<Rightarrow> goError option) \<Rightarrow> (nat \<Rightarrow> goError option) \<Rightarrow> ('s \<Rightarrow> goError option \<times> 's) \<Rightarrow> 's \<Rightarrow> goError option \<times> 's" where
  "retryOnETXTBSY ctx wake cmd s = retry_from ctx wake cmd 1 s"

text \<open>What ends a command whose context is done, on a POSIX system (\<open>cli_command_cancel_posix.go\<close>): a kill of
  the whole process group, which the command leads, so that a helper it forked cannot keep its output
  open. A command that was not started, or a group that is gone, is done.\<close>

definition cancel_command :: "(int \<Rightarrow> goError option) \<Rightarrow> nat option \<Rightarrow> goError option" where
  "cancel_command kill pid = (case pid of
      None \<Rightarrow> Some (Sentinel ErrProcessDone)
    | Some p \<Rightarrow> (case kill (- int p) of
        None \<Rightarrow> None
      | Some e \<Rightarrow> if errors_is ErrESRCH e then Some (Sentinel ErrProcessDone) else Some e))"

lemma cancel_gone: "cancel_command (\<lambda>p. Some (Sentinel ErrESRCH)) pid = Some (Sentinel ErrProcessDone)"
  by (simp add: cancel_command_def split: option.split)

text \<open>A short-lived command. \<open>run\<close> takes the environment and the world, and gives what was written to
  the two buffers, the error and the world; the buffers are reset before each attempt.\<close>

definition RunCLICommand ::
  "(nat \<Rightarrow> goError option) \<Rightarrow> (nat \<Rightarrow> goError option) \<Rightarrow> string list \<Rightarrow>
   ((string \<times> string) list \<Rightarrow> (string \<times> string) list) \<Rightarrow>
   (string list \<Rightarrow> 'w \<Rightarrow> string \<times> string \<times> goError option \<times> 'w) \<Rightarrow> string list \<Rightarrow> 'w \<Rightarrow>
   string \<times> string \<times> goError option \<times> 'w" where
  "RunCLICommand ctx wake environ order run env w =
     (case retryOnETXTBSY ctx wake
         (\<lambda>(w, stdout, stderr). case run (BuildRuntimeEnvironment environ order env) w of
            (out, errs, err, w') \<Rightarrow> (err, (w', out, errs)))
         (w, [], []) of
       (err, (w', stdout, stderr)) \<Rightarrow> (stdout, stderr, err, w'))"

text \<open>The version probe: \<open>late\<close> is the error of its context after the run.\<close>

definition probeCLIVersion :: "goError option \<Rightarrow> string \<times> string \<times> goError option \<times> 'w \<Rightarrow> (goError + semVer) \<times> 'w" where
  "probeCLIVersion late result = (case result of (stdout, stderr, err, w) \<Rightarrow>
     (case err of
        None \<Rightarrow> (ParseSemVer stdout, w)
      | Some e \<Rightarrow> (case late of
            Some ce \<Rightarrow> (Inl (ErrWrap ''transport.ProbeCLIVersion'' ce), w)
          | None \<Rightarrow> (Inl (ErrWrap ''transport.ProbeCLIVersion: run --version'' e), w))))"

text \<open>What the soft probe logs: it never fails the connection.\<close>

datatype probeLog = ProbeFailed goError | BelowRecommended semVer | VersionOk semVer

definition logCLIVersion :: "goError + semVer \<Rightarrow> probeLog" where
  "logCLIVersion probe = (case probe of
      Inl e \<Rightarrow> ProbeFailed e
    | Inr v \<Rightarrow> (case ParseSemVer RecommendedCLIVersion of
        Inr r \<Rightarrow> (if AtLeast v r then VersionOk v else BelowRecommended v)
      | Inl e \<Rightarrow> VersionOk v))"

text \<open>Starting the server: \<open>open_pipes\<close> is \<open>newSpawnedProc\<close>, \<open>start\<close> starts the process of the candidate;
  the state of the retry is the started process, the error of the pipes and the world. The candidate
  whose start fails has its pipes closed (\<open>close_pipes\<close>).\<close>

definition spawn_attempt ::
  "('w \<Rightarrow> (goError + 'p) \<times> 'w) \<Rightarrow> ('p \<Rightarrow> 'w \<Rightarrow> goError option \<times> 'w) \<Rightarrow> ('p \<Rightarrow> 'w \<Rightarrow> 'w) \<Rightarrow>
   'p option \<times> goError option \<times> 'w \<Rightarrow> goError option \<times> ('p option \<times> goError option \<times> 'w)" where
  "spawn_attempt open_pipes start close_pipes st = (case st of (proc, pipeErr, w) \<Rightarrow>
     (case open_pipes w of
        (Inl e, w1) \<Rightarrow> (Some e, (proc, Some e, w1))
      | (Inr candidate, w1) \<Rightarrow> (case start candidate w1 of
            (Some e, w2) \<Rightarrow> (Some e, (proc, pipeErr, close_pipes candidate w2))
          | (None, w2) \<Rightarrow> (None, (Some candidate, pipeErr, w2)))))"

definition spawnWithRetry ::
  "(nat \<Rightarrow> goError option) \<Rightarrow> (nat \<Rightarrow> goError option) \<Rightarrow> (string \<Rightarrow> goError + string) \<Rightarrow>
   (string \<Rightarrow> 'w \<Rightarrow> (goError + 'p) \<times> 'w) \<Rightarrow> ('p \<Rightarrow> 'w \<Rightarrow> goError option \<times> 'w) \<Rightarrow> ('p \<Rightarrow> 'w \<Rightarrow> 'w) \<Rightarrow>
   string \<Rightarrow> 'w \<Rightarrow> (goError + 'p option) \<times> 'w" where
  "spawnWithRetry ctx wake abs_path open_pipes start close_pipes cli w =
     (case resolveExplicitCLIPath abs_path cli of
        Inl e \<Rightarrow> (Inl (CLIConnectionError (''resolve '' @ cli) (Some e)), w)
      | Inr path \<Rightarrow>
          (case retryOnETXTBSY ctx wake (spawn_attempt (open_pipes path) start close_pipes) (None, None, w) of
             (startErr, (proc, pipeErr, w')) \<Rightarrow>
               (case pipeErr of
                  Some e \<Rightarrow> (Inl e, w')
                | None \<Rightarrow> (case startErr of
                      Some e \<Rightarrow> (Inl (CLIConnectionError (''spawn '' @ cli) (Some e)), w')
                    | None \<Rightarrow> (Inr proc, w')))))"

text \<open>A command that records its results.\<close>

definition logged :: "('s \<Rightarrow> goError option \<times> 's) \<Rightarrow> 's \<times> goError option list \<Rightarrow> goError option \<times> ('s \<times> goError option list)" where
  "logged cmd st = (case st of (s, tr) \<Rightarrow> (case cmd s of (err, s') \<Rightarrow> (err, (s', tr @ [err]))))"

lemma retry_cases:
  assumes "retry_from ctx wake cmd attempt s = (res, s')"
  obtains (stopped) e where "ctx attempt = Some e" "res = Some e" "s' = s"
  | (final) "ctx attempt = None" "cmd s = (res, s')" "\<not> is_busy res \<or> maxCLICommandAttempts \<le> attempt"
  | (pause) err e where "ctx attempt = None" "cmd s = (err, s')" "is_busy err" "res = Some e"
  | (again) err s1 where "cmd s = (err, s1)" "is_busy err" "attempt < maxCLICommandAttempts"
      "retry_from ctx wake cmd (attempt + 1) s1 = (res, s')"
proof -
  obtain err s1 where c: "cmd s = (err, s1)" by fastforce
  note eq = assms [unfolded retry_from.simps [of ctx wake cmd attempt s], unfolded c]
  show thesis
  proof (cases "ctx attempt")
    case (Some e)
    with eq have "res = Some e" "s' = s" by simp_all
    with Some that(1) show thesis by blast
  next
    case None
    show thesis
    proof (cases "\<not> is_busy err \<or> maxCLICommandAttempts \<le> attempt")
      case True
      with None eq c that(2) show thesis by simp
    next
      case False
      note stay = False
      show thesis
      proof (cases "wake attempt")
        case (Some e)
        with None stay eq have "res = Some e" "s' = s1" by simp_all
        with None stay c that(3) show thesis by blast
      next
        case wake: None
        with None stay eq have "retry_from ctx wake cmd (attempt + 1) s1 = (res, s')" by simp
        with stay c that(4) show thesis by fastforce
      qed
    qed
  qed
qed

lemma retry_from_runs:
  "retry_from ctx wake (logged cmd) attempt (s, tr) = (res, (s', tr')) \<Longrightarrow> 1 \<le> attempt \<Longrightarrow>
     attempt \<le> maxCLICommandAttempts \<Longrightarrow>
     \<exists>new. tr' = tr @ new \<and> length new \<le> maxCLICommandAttempts + 1 - attempt \<and> list_all is_busy (butlast new) \<and>
       (res = None \<longrightarrow> new \<noteq> [] \<and> last new = None)"
proof (induction "maxCLICommandAttempts - attempt" arbitrary: attempt s tr rule: less_induct)
  case less
  obtain err s1 where c: "cmd s = (err, s1)" by fastforce
  then have l: "logged cmd (s, tr) = (err, (s1, tr @ [err]))" by (simp add: logged_def)
  from less.prems(1) show ?case
  proof (cases rule: retry_cases)
    case (stopped e)
    then show ?thesis by simp
  next
    case final
    with l less.prems(2,3) show ?thesis by (intro exI [of _ "[res]"]) simp
  next
    case (pause err' e)
    with l less.prems(2,3) show ?thesis by (intro exI [of _ "[err']"]) simp
  next
    case (again err' s2)
    with l have r: "retry_from ctx wake (logged cmd) (attempt + 1) (s1, tr @ [err]) = (res, (s', tr'))" "is_busy err" by simp_all
    have "maxCLICommandAttempts - (attempt + 1) < maxCLICommandAttempts - attempt" using again(3) by simp
    from less.hyps [OF this r(1)] again(3) obtain new where
      "tr' = (tr @ [err]) @ new" "length new \<le> maxCLICommandAttempts + 1 - (attempt + 1)"
      "list_all is_busy (butlast new)" "res = None \<longrightarrow> new \<noteq> [] \<and> last new = None" by fastforce
    with r(2) again(3) show ?thesis by (intro exI [of _ "err # new"]) auto
  qed
qed

section \<open>Finding the CLI\<close>

definition cliFallbackLocations :: "string list" where
  "cliFallbackLocations = [''~/.codex/bin/codex'', ''/opt/homebrew/bin/codex'', ''/usr/local/bin/codex'',
     ''~/.npm-global/bin/codex'', ''~/.local/bin/codex'', ''~/node_modules/.bin/codex'']"

text \<open>\<open>filepath.Join\<close> of the home directory and the rest of the path is a parameter.\<close>

definition expandHome :: "string option \<Rightarrow> (string \<Rightarrow> string \<Rightarrow> string) \<Rightarrow> string \<Rightarrow> string" where
  "expandHome home join path =
     (if \<not> has_prefix path ''~'' then path
      else (case home of
          None \<Rightarrow> path
        | Some h \<Rightarrow> (if path = ''~'' then h else if has_prefix path ''~/'' then join h (drop 2 path) else path)))"

definition cliNotFoundText :: string where
  "cliNotFoundText = ''codex CLI not found. Install with:'' @ [CHR 0x0A] @ ''  npm install -g @openai/codex'' @ [CHR 0x0A] @
     [CHR 0x0A] @ ''or via Homebrew:'' @ [CHR 0x0A] @ ''  brew install codex'' @ [CHR 0x0A] @ [CHR 0x0A] @
     ''Or pass an explicit path via CodexOptions.WithCLIPath('' @ [CHR 0x22] @ ''/path/to/codex'' @ [CHR 0x22] @ '').''"

definition findCLIUncached ::
  "string option \<Rightarrow> string option \<Rightarrow> (string \<Rightarrow> string \<Rightarrow> string) \<Rightarrow> (string \<Rightarrow> bool) \<Rightarrow> goError + string" where
  "findCLIUncached look_path home join exists = (case look_path of
      Some p \<Rightarrow> Inr p
    | None \<Rightarrow> (case filter exists (map (expandHome home join) cliFallbackLocations) of
        p # ps \<Rightarrow> Inr p
      | [] \<Rightarrow> Inl (CLINotFoundError cliNotFoundText)))"

text \<open>The cache. Callers run concurrently; a caller is idle, runs the discovery of its flight, waits for
  the flight of another, or has its result.\<close>

datatype finder = Idle | Discovering nat | Awaiting nat | Found "goError + string"

record discoveryCache =
  dc_path :: string
  dc_inFlight :: "nat ptr"
  dc_flights :: "(nat \<times> (goError + string)) list"
  dc_next :: nat
  dc_finders :: "nat \<Rightarrow> finder"

definition empty_cache :: discoveryCache where
  "empty_cache = \<lparr>dc_path = [], dc_inFlight = None, dc_flights = [], dc_next = 0, dc_finders = (\<lambda>i. Idle)\<rparr>"

definition find_begin :: "nat \<Rightarrow> discoveryCache \<Rightarrow> discoveryCache" where
  "find_begin i c =
     (if dc_path c \<noteq> [] then c\<lparr>dc_finders := (dc_finders c)(i := Found (Inr (dc_path c)))\<rparr>
      else (case dc_inFlight c of
          Some f \<Rightarrow> c\<lparr>dc_finders := (dc_finders c)(i := Awaiting f)\<rparr>
        | None \<Rightarrow> c\<lparr>dc_inFlight := Some (dc_next c), dc_next := dc_next c + 1,
                    dc_finders := (dc_finders c)(i := Discovering (dc_next c))\<rparr>))"

definition find_end :: "nat \<Rightarrow> nat \<Rightarrow> goError + string \<Rightarrow> discoveryCache \<Rightarrow> discoveryCache" where
  "find_end i f r c = c\<lparr>dc_path := (case r of Inr p \<Rightarrow> p | Inl e \<Rightarrow> dc_path c), dc_flights := put f r (dc_flights c),
     dc_inFlight := None, dc_finders := (dc_finders c)(i := Found r)\<rparr>"

inductive find_step :: "discoveryCache \<Rightarrow> discoveryCache \<Rightarrow> bool" where
  fs_begin: "(case dc_finders c i of Idle \<Rightarrow> True | Found r \<Rightarrow> True | _ \<Rightarrow> False) \<Longrightarrow> find_step c (find_begin i c)"
| fs_end: "dc_finders c i = Discovering f \<Longrightarrow> find_step c (find_end i f r c)"
| fs_wake: "dc_finders c i = Awaiting f \<Longrightarrow> map_of (dc_flights c) f = Some r \<Longrightarrow>
    find_step c (c\<lparr>dc_finders := (dc_finders c)(i := Found r)\<rparr>)"

abbreviation find_reach :: "discoveryCache \<Rightarrow> bool" where "find_reach \<equiv> find_step\<^sup>*\<^sup>* empty_cache"

lemmas fr_empty = rtranclp.rtrancl_refl [of find_step empty_cache]
lemmas fr_step = rtranclp.rtrancl_into_rtrancl [of find_step empty_cache]

definition discovers :: "discoveryCache \<Rightarrow> nat set" where
  "discovers c = {i. \<exists>f. dc_finders c i = Discovering f}"

text \<open>The invariant: the flights, and each caller.\<close>

definition finder_ok :: "discoveryCache \<Rightarrow> finder \<Rightarrow> bool" where
  "finder_ok c x = (case x of
      Discovering f \<Rightarrow> dc_inFlight c = Some f
    | Awaiting f \<Rightarrow> dc_inFlight c = Some f \<or> map_of (dc_flights c) f \<noteq> None
    | _ \<Rightarrow> True)"

definition cache_ok :: "discoveryCache \<Rightarrow> bool" where
  "cache_ok c =
     ((\<forall>i. finder_ok c (dc_finders c i)) \<and> (dom (map_of (dc_flights c)) \<subseteq> {..<dc_next c}) \<and>
      (case dc_inFlight c of
         None \<Rightarrow> discovers c = {}
       | Some f \<Rightarrow> f < dc_next c \<and> map_of (dc_flights c) f = None \<and> (\<exists>i. discovers c = {i})))"

lemma discovers_update [simp]:
  "discovers (c\<lparr>dc_finders := (dc_finders c)(i := x)\<rparr>) =
     (case x of Discovering f \<Rightarrow> insert i (discovers c) | _ \<Rightarrow> discovers c - {i})"
  by (auto simp: discovers_def split: finder.splits if_splits)

lemma discovers_frame [simp]:
  "discovers (c\<lparr>dc_path := p\<rparr>) = discovers c" "discovers (c\<lparr>dc_inFlight := x\<rparr>) = discovers c"
  "discovers (c\<lparr>dc_next := n\<rparr>) = discovers c" "discovers (c\<lparr>dc_flights := fl\<rparr>) = discovers c"
  by (simp_all add: discovers_def)

lemma not_discovering: "(case dc_finders c i of Idle \<Rightarrow> True | Found r \<Rightarrow> True | _ \<Rightarrow> False) \<Longrightarrow> i \<notin> discovers c"
  by (auto simp: discovers_def)

lemma finder_ok_frame:
  "dc_inFlight c' = dc_inFlight c \<Longrightarrow> dc_flights c' = dc_flights c \<Longrightarrow> finder_ok c' x = finder_ok c x"
  by (cases x) (simp_all add: finder_ok_def)

lemma cache_ok_finder:
  assumes ok: "cache_ok c" and x: "finder_ok c x" and i: "i \<notin> discovers c" and nd: "\<And>f. x \<noteq> Discovering f"
  shows "cache_ok (c\<lparr>dc_finders := (dc_finders c)(i := x)\<rparr>)"
proof -
  let ?c = "c\<lparr>dc_finders := (dc_finders c)(i := x)\<rparr>"
  have d: "discovers ?c = discovers c" using i nd by (simp split: finder.splits)
  have "finder_ok ?c (dc_finders ?c j)" for j
  proof -
    have "finder_ok c (dc_finders ?c j)" using ok x by (simp add: cache_ok_def)
    then show ?thesis using finder_ok_frame [of ?c c] by simp
  qed
  with ok d show ?thesis by (simp add: cache_ok_def split: option.splits)
qed

lemma discoverer_flight: "cache_ok c \<Longrightarrow> dc_finders c i = Discovering f \<Longrightarrow> dc_inFlight c = Some f"
  by (auto simp: cache_ok_def finder_ok_def dest: spec [of _ i])

lemma cache_ok_begin:
  assumes "cache_ok c" and "case dc_finders c i of Idle \<Rightarrow> True | Found r \<Rightarrow> True | _ \<Rightarrow> False"
  shows "cache_ok (find_begin i c)"
proof (cases "dc_path c = []")
  case False
  then show ?thesis using cache_ok_finder [OF assms(1) _ not_discovering [OF assms(2)]]
    by (simp add: find_begin_def finder_ok_def)
next
  case p: True
  show ?thesis
  proof (cases "dc_inFlight c")
    case None
    with assms(1) have n: "discovers c = {}" "map_of (dc_flights c) (dc_next c) = None"
      "finder_ok c (dc_finders c j)" "dom (map_of (dc_flights c)) \<subseteq> {..<dc_next c}" for j
      by (auto simp: cache_ok_def)
    have c': "find_begin i c = c\<lparr>dc_inFlight := Some (dc_next c), dc_next := dc_next c + 1,
        dc_finders := (dc_finders c)(i := Discovering (dc_next c))\<rparr>"
      using p None by (simp add: find_begin_def)
    have "finder_ok (find_begin i c) (dc_finders (find_begin i c) j)" for j
      using n(3) [of j] None n(1) by (auto simp: c' finder_ok_def discovers_def split: finder.splits)
    moreover have "discovers (find_begin i c) = {i}" using n(1) by (auto simp: c' discovers_def)
    ultimately show ?thesis using n(2,4) by (auto simp: cache_ok_def c')
  next
    case (Some f)
    with p have c': "find_begin i c = c\<lparr>dc_finders := (dc_finders c)(i := Awaiting f)\<rparr>"
      by (simp add: find_begin_def)
    with Some show ?thesis using cache_ok_finder [OF assms(1) _ not_discovering [OF assms(2)]]
      by (simp add: finder_ok_def)
  qed
qed

lemma cache_ok_end:
  assumes "cache_ok c" and "dc_finders c i = Discovering f"
  shows "cache_ok (find_end i f r c)"
proof -
  have f: "dc_inFlight c = Some f" using assms by (rule discoverer_flight)
  with assms(1) obtain j where "discovers c = {j}" by (auto simp: cache_ok_def)
  moreover have "i \<in> discovers c" using assms(2) by (simp add: discovers_def)
  ultimately have d: "discovers c = {i}" by simp
  have "finder_ok (find_end i f r c) (dc_finders (find_end i f r c) j)" for j
  proof (cases "dc_finders c j")
    case (Discovering g)
    then have "j = i" using d by (auto simp: discovers_def)
    then show ?thesis by (simp add: find_end_def finder_ok_def)
  next
    case (Awaiting g)
    moreover have "finder_ok c (dc_finders c j)" using assms(1) by (simp add: cache_ok_def)
    ultimately show ?thesis using f by (auto simp: find_end_def finder_ok_def)
  qed (simp_all add: find_end_def finder_ok_def)
  moreover have "discovers (find_end i f r c) = {}"
    using d by (auto simp: find_end_def discovers_def split: if_splits)
  ultimately show ?thesis using assms(1) f by (auto simp: cache_ok_def find_end_def)
qed

lemma cache_ok_step:
  assumes "find_step c c'" and "cache_ok c"
  shows "cache_ok c'"
  using assms(1)
proof cases
  case (fs_wake i f r)
  then have "i \<notin> discovers c" by (simp add: discovers_def)
  with fs_wake assms(2) show ?thesis using cache_ok_finder by (simp add: finder_ok_def)
qed (use assms(2) cache_ok_begin cache_ok_end in auto)

interpretation discovery: step_invariant empty_cache find_step cache_ok
  by unfold_locales
    (simp add: cache_ok_def empty_cache_def finder_ok_def discovers_def, rule cache_ok_step)

section \<open>Properties\<close>

text \<open>C35: Looking for the CLI is done once at a time and waiters are never left behind: in every reachable
  state at most one caller runs the search; a caller that waits for a flight waits for the one in
  progress, or for one that is over and has its result, so that it can go on.\<close>

theorem discovery_single_flight:
  assumes "find_reach c"
  shows "(\<exists>i. discovers c \<subseteq> {i}) \<and>
     (\<forall>j f. dc_finders c j = Awaiting f \<longrightarrow>
        (\<exists>i. discovers c = {i} \<and> dc_finders c i = Discovering f) \<or>
        (\<exists>r. map_of (dc_flights c) f = Some r \<and> find_step c (c\<lparr>dc_finders := (dc_finders c)(j := Found r)\<rparr>)))"
proof (intro conjI allI impI)
  have ok: "cache_ok c" using assms by (rule discovery.reach_ok)
  then show "\<exists>i. discovers c \<subseteq> {i}" by (auto simp: cache_ok_def split: option.splits)
  fix j f
  assume w: "dc_finders c j = Awaiting f"
  moreover have "finder_ok c (dc_finders c j)" using ok by (simp add: cache_ok_def)
  ultimately consider (run) "dc_inFlight c = Some f" | (over) r where "map_of (dc_flights c) f = Some r"
    by (auto simp: finder_ok_def)
  then show "(\<exists>i. discovers c = {i} \<and> dc_finders c i = Discovering f) \<or>
        (\<exists>r. map_of (dc_flights c) f = Some r \<and> find_step c (c\<lparr>dc_finders := (dc_finders c)(j := Found r)\<rparr>))"
  proof cases
    case run
    with ok obtain i where i: "discovers c = {i}" by (auto simp: cache_ok_def)
    then obtain g where g: "dc_finders c i = Discovering g" by (auto simp: discovers_def)
    moreover have "finder_ok c (dc_finders c i)" using ok by (simp add: cache_ok_def)
    ultimately have "g = f" using run by (simp add: finder_ok_def)
    with i g show ?thesis by blast
  next
    case over
    with w fs_wake show ?thesis by blast
  qed
qed

theorem discovery_single_flight_witness:
  "\<exists>i. discovers (find_begin 2 (find_begin 1 empty_cache)) \<subseteq> {i}"
proof -
  have "find_reach (find_begin 2 (find_begin 1 empty_cache))"
    by (intro fr_step [OF fr_step [OF fr_empty fs_begin [of _ 1]] fs_begin [of _ 2]])
      (simp_all add: empty_cache_def find_begin_def)
  from discovery_single_flight [OF this] show ?thesis by blast
qed

text \<open>C36: A command on a busy executable is retried within a bound: whatever the command, the context and
  the timer do, it runs at most five times, every run but the last found the executable busy, and the
  result is success only when the last run was one.\<close>

theorem busy_retry_bounded:
  assumes "retryOnETXTBSY ctx wake (logged cmd) (s, []) = (res, (s', runs))"
  shows "length runs \<le> 5 \<and> list_all is_busy (butlast runs) \<and> (res = None \<longrightarrow> runs \<noteq> [] \<and> last runs = None)"
  using retry_from_runs [OF assms [unfolded retryOnETXTBSY_def]] by (auto simp: maxCLICommandAttempts_def)

definition busy_twice :: "nat \<Rightarrow> goError option \<times> nat" where
  "busy_twice n = (if n < 2 then (Some (Sentinel ErrETXTBSY), n + 1) else (None, n + 1))"

theorem busy_retry_bounded_witness:
  "retryOnETXTBSY (\<lambda>n. None) (\<lambda>n. None) (logged busy_twice) (0, []) =
     (None, (3, [Some (Sentinel ErrETXTBSY), Some (Sentinel ErrETXTBSY), None])) \<and> length [Some (Sentinel ErrETXTBSY), Some (Sentinel ErrETXTBSY), None] \<le> 5"
proof -
  have r: "retryOnETXTBSY (\<lambda>n. None) (\<lambda>n. None) (logged busy_twice) (0, []) =
     (None, (3, [Some (Sentinel ErrETXTBSY), Some (Sentinel ErrETXTBSY), None]))"
    by (simp add: retryOnETXTBSY_def retry_from.simps logged_def busy_twice_def is_busy_def maxCLICommandAttempts_def)
  from r busy_retry_bounded [OF r] show ?thesis by simp
qed

text \<open>The environment of the CLI is the parent's with the overrides laid over it, whatever order Go
  iterates over the overrides in: an overridden variable has exactly its last value, or does not occur
  when that value is empty; any other variable is what the parent has.\<close>

theorem runtime_env_overlay:
  assumes "\<And>m. mset (order m) = mset m"
  shows "values_of (BuildRuntimeEnvironment environ order kvs) k =
    (case last_entry kvs k of
       None \<Rightarrow> values_of environ k
     | Some v \<Rightarrow> (if v = [] then [] else [v]))"
proof (cases "kvs = []")
  case True
  then show ?thesis by (simp add: BuildRuntimeEnvironment_def last_entry_def)
next
  case False
  define ov where "ov = overrides_of kvs"
  define joined where "joined = map (\<lambda>p. fst p @ CHR ''='' # snd p) (filter (\<lambda>p. snd p \<noteq> []) (order ov))"
  have mem: "set (order ov) = set ov" using assms [of ov] mset_eq_setD by blast
  have d: "distinct (map fst (order ov))"
    using assms [of ov] overrides_distinct [of kvs] mset_eq_imp_distinct_iff [of "map fst (order ov)" "map fst ov"]
    by (simp add: ov_def)
  have "map_of (order ov) = map_of ov"
    using map_of_inject_set [OF d] overrides_distinct [of kvs] mem by (simp add: ov_def)
  then have lookup: "map_of (order ov) k = last_entry kvs k" by (simp add: ov_def overrides_lookup)
  have parent: "values_of (filter (\<lambda>kv. map_of ov (fst (splitKV kv)) = None) environ) k =
      (if last_entry kvs k = None then values_of environ k else [])"
    by (auto simp: values_of_def ov_def overrides_lookup filter_empty_conv intro!: arg_cong [of _ _ "map _"] filter_cong)
  have split_joined: "splitKV (fst p @ CHR ''='' # snd p) = (fst p, snd p, True)" if "p \<in> set (order ov)" for p
    using that overrides_keys mem splitKV_join by (simp add: ov_def)
  have "values_of joined k = map snd (filter (\<lambda>p. snd p \<noteq> []) (filter (\<lambda>p. fst p = k) (order ov)))"
    using values_of_joined [of "order ov" k] split_joined by (simp add: joined_def)
  also have "\<dots> = (case last_entry kvs k of None \<Rightarrow> [] | Some v \<Rightarrow> if v = [] then [] else [v])"
    using filter_unique_key [OF d, of k] by (simp add: lookup split: option.splits)
  finally have "values_of joined k = (case last_entry kvs k of None \<Rightarrow> [] | Some v \<Rightarrow> if v = [] then [] else [v])" .
  with False parent show ?thesis
    by (simp add: BuildRuntimeEnvironment_def Let_def values_of_append ov_def [symmetric] joined_def [symmetric]
        split: option.splits)
qed

theorem runtime_env_overlay_witness:
  "values_of (BuildRuntimeEnvironment [''HOME=/root'', ''PATH=/bin'', ''LANG=C''] rev [''PATH=/usr/bin'', ''LANG='', ''X=a=b'']) ''PATH''
     = [''/usr/bin'']"
  using runtime_env_overlay [of rev "[''HOME=/root'', ''PATH=/bin'', ''LANG=C'']" "[''PATH=/usr/bin'', ''LANG='', ''X=a=b'']" "''PATH''"]
  by (simp add: last_entry_def)

end
