(* ===== verification/Ring_Buffer.thy ===== *)
theory Ring_Buffer
  imports Prelude
begin

text \<open>
  The ring buffer that keeps the tail of the subprocess's stderr
  (\<open>internal/transport/ring_buffer.go\<close>), and its specification: it holds the last bytes written, up
  to its size.
\<close>

record ring =
  rb_data :: string
  rb_size :: nat
  rb_full :: bool
  rb_pos :: nat

definition newRingBuffer :: "nat \<Rightarrow> ring" where
  "newRingBuffer sz = \<lparr>rb_data = [], rb_size = sz, rb_full = False, rb_pos = 0\<rparr>"

text \<open>Go's \<open>copy(data[pos:], p)\<close>: what the data is afterwards.\<close>

definition copy_at :: "nat \<Rightarrow> string \<Rightarrow> string \<Rightarrow> string" where
  "copy_at pos p data = take pos data @ take (length data - pos) p @ drop (pos + length p) data"

text \<open>The part of \<open>Write\<close> for a full buffer.\<close>

definition ring_write :: "string \<Rightarrow> ring \<Rightarrow> ring" where
  "ring_write p r =
     (if rb_size r \<le> length p
      then r\<lparr>rb_data := copy_at 0 (drop (length p - rb_size r) p) (rb_data r), rb_pos := 0\<rparr>
      else (let n = min (length p) (length (rb_data r) - rb_pos r);
                data = copy_at (rb_pos r) p (rb_data r)
            in if n < length p
               then r\<lparr>rb_data := copy_at 0 (drop n p) data, rb_pos := length p - n\<rparr>
               else r\<lparr>rb_data := data, rb_pos := (if rb_pos r + n = rb_size r then 0 else rb_pos r + n)\<rparr>))"

definition rb_Write :: "string \<Rightarrow> ring \<Rightarrow> ring" where
  "rb_Write p r =
     (if \<not> rb_full r
      then (let room = rb_size r - length (rb_data r) in
            if length p \<le> room
            then (let r1 = r\<lparr>rb_data := rb_data r @ p\<rparr> in
                  if length (rb_data r1) = rb_size r then r1\<lparr>rb_full := True, rb_pos := 0\<rparr> else r1)
            else ring_write (drop room p) (r\<lparr>rb_data := rb_data r @ take room p, rb_full := True, rb_pos := 0\<rparr>))
      else ring_write p r)"

definition rb_String :: "ring \<Rightarrow> string" where
  "rb_String r = (if \<not> rb_full r then rb_data r else drop (rb_pos r) (rb_data r) @ take (rb_pos r) (rb_data r))"

section \<open>Specification and invariant\<close>

definition last_bytes :: "nat \<Rightarrow> string \<Rightarrow> string" where
  "last_bytes n s = drop (length s - n) s"

definition rb_ok :: "ring \<Rightarrow> bool" where
  "rb_ok r = (length (rb_data r) \<le> rb_size r \<and>
     (rb_full r \<longrightarrow> length (rb_data r) = rb_size r \<and> rb_pos r \<le> rb_size r \<and> (0 < rb_size r \<longrightarrow> rb_pos r < rb_size r)))"

lemma last_bytes_length: "length (last_bytes n s) = min n (length s)"
  by (simp add: last_bytes_def)

lemma last_bytes_append: "last_bytes n (last_bytes n s @ p) = last_bytes n (s @ p)"
  by (cases "length s \<le> n") (simp_all add: last_bytes_def add.commute [of "length p"])

lemma copy_at_length: "pos \<le> length data \<Longrightarrow> length (copy_at pos p data) = length data"
  by (simp add: copy_at_def)

lemma ring_write_ok:
  assumes "rb_ok r" and "rb_full r"
  shows "rb_ok (ring_write p r) \<and> rb_full (ring_write p r) \<and> rb_size (ring_write p r) = rb_size r \<and>
     rb_String (ring_write p r) = last_bytes (rb_size r) (rb_String r @ p)"
proof (cases "rb_size r \<le> length p")
  case True
  with assms show ?thesis
    by (auto simp: ring_write_def rb_ok_def rb_String_def last_bytes_def copy_at_def)
next
  case False
  let ?n = "min (length p) (rb_size r - rb_pos r)"
  have l: "length (rb_data r) = rb_size r" "rb_pos r < rb_size r" using assms False by (auto simp: rb_ok_def)
  show ?thesis
  proof (cases "rb_pos r + length p < rb_size r")
    case True
    with assms l False show ?thesis
      by (auto simp: ring_write_def rb_ok_def rb_String_def last_bytes_def copy_at_def Let_def min_def
        add.commute [of "length p"])
  next
    case f: False
    show ?thesis
    proof (cases "rb_pos r + length p = rb_size r")
      case True
      with assms l False show ?thesis
        by (auto simp: ring_write_def rb_ok_def rb_String_def last_bytes_def copy_at_def Let_def min_def)
    next
      case g: False
      have "rb_size r - rb_pos r < length p" using f g l by linarith
      with assms l False show ?thesis
        by (auto simp: ring_write_def rb_ok_def rb_String_def last_bytes_def copy_at_def Let_def min_def)
    qed
  qed
qed

lemma rb_Write_ok:
  assumes "rb_ok r"
  shows "rb_ok (rb_Write p r) \<and> rb_size (rb_Write p r) = rb_size r \<and>
     rb_String (rb_Write p r) = last_bytes (rb_size r) (rb_String r @ p)"
proof (cases "rb_full r")
  case True
  with ring_write_ok [OF assms True, of p] show ?thesis by (simp add: rb_Write_def)
next
  case False
  let ?room = "rb_size r - length (rb_data r)"
  show ?thesis
  proof (cases "length p \<le> ?room")
    case True
    with assms False show ?thesis
      by (auto simp: rb_Write_def rb_ok_def rb_String_def last_bytes_def Let_def)
  next
    case f: False
    let ?r = "r\<lparr>rb_data := rb_data r @ take ?room p, rb_full := True, rb_pos := 0\<rparr>"
    have "rb_ok ?r" using assms f by (auto simp: rb_ok_def)
    moreover have "rb_String ?r = rb_data r @ take ?room p" "rb_String r = rb_data r"
      using False by (simp_all add: rb_String_def)
    moreover have "rb_Write p r = ring_write (drop ?room p) ?r" using False f by (simp add: rb_Write_def Let_def)
    ultimately show ?thesis using ring_write_ok [of ?r "drop ?room p"] by simp
  qed
qed

section \<open>Property\<close>

text \<open>C40: The buffer is the tail of what was written: after any sequence of writes of any lengths,
  \<open>String\<close> returns the last bytes of everything written, up to the size of the buffer, in order.\<close>

theorem ring_buffer_keeps_tail:
  "rb_String (foldl (\<lambda>r p. rb_Write p r) (newRingBuffer sz) ps) = last_bytes sz (concat ps)"
proof -
  have "rb_ok r \<Longrightarrow> rb_size r = sz \<Longrightarrow> rb_String r = last_bytes sz s \<Longrightarrow>
    rb_String (foldl (\<lambda>r p. rb_Write p r) r ps) = last_bytes sz (s @ concat ps)" for r s
  proof (induction ps arbitrary: r s)
    case (Cons p ps)
    with rb_Write_ok [OF Cons.prems(1), of p] Cons.IH [of "rb_Write p r" "s @ p"] show ?case
      by (simp add: last_bytes_append)
  qed simp
  from this [of "newRingBuffer sz" "[]"] show ?thesis
    by (simp add: newRingBuffer_def rb_ok_def rb_String_def last_bytes_def)
qed

end
