(* ===== verification/Subprocess.thy ===== *)
theory Subprocess
  imports Errors Ring_Buffer Transitions
begin

text \<open>
  The life of the server process (\<open>internal/transport/subprocess_appserver.go\<close>,
  \<open>subprocess_lifecycle.go\<close>) as a step relation: the goroutine that waits for the exit, the close
  ladder, the give-up callback of the demultiplexer, the drain of stderr and the process itself
  interleave in any order. What happens under the mutex is one step, so are a channel operation and a
  signal. Timers and the cancellation of a context may fire at any time.
\<close>

definition StderrRingSize :: nat where "StderrRingSize = 64 * 1024"

text \<open>The process: not started, running, or over, with what \<open>cmd.Wait\<close> gives and the exit code.\<close>

datatype process = Unborn | Running | Exited "goError ptr" int

text \<open>The program points of \<open>watchExit\<close>, and of \<open>doClose\<close>; it returns early when there is no process.\<close>

datatype watcher = NoWatcher | Draining | Waiting | Publishing "goError ptr" int bool "goError ptr"
  | Emitting int bool "goError ptr" | WatchOver

datatype closer = NotClosing | ReturnedEarly | Stage1 | Stage2 | Stage3 | DrainTail "goError ptr" | Returned "goError ptr"

datatype signal = Interrupt_signal | Kill_signal

record appServer =
  as_pid :: nat
  as_proc :: process
  as_stderr :: ring
  as_stderrDone :: bool
  as_waitDone :: "goError ptr option"
  as_ready :: bool
  as_shutdownReq :: bool
  as_lastErr :: "goError ptr"
  as_connectOnce :: bool
  as_closedOnce :: bool
  as_exits :: "(int \<times> bool \<times> goError ptr) list"
  as_watcher :: watcher
  as_closer :: closer
  as_signals :: "signal list"
  as_killed :: bool
  as_stdin_open :: bool
  as_demux_open :: bool

definition NewAppServer :: appServer where
  "NewAppServer = \<lparr>as_pid = 0, as_proc = Unborn, as_stderr = newRingBuffer StderrRingSize, as_stderrDone = False,
     as_waitDone = None, as_ready = False, as_shutdownReq = False, as_lastErr = None, as_connectOnce = False,
     as_closedOnce = False, as_exits = [], as_watcher = NoWatcher, as_closer = NotClosing, as_signals = [],
     as_killed = False, as_stdin_open = False, as_demux_open = False\<rparr>"

text \<open>Whether the command has been published.\<close>

definition has_cmd :: "appServer \<Rightarrow> bool" where "has_cmd s = (as_proc s \<noteq> Unborn)"

section \<open>Observers\<close>

record transportHealth =
  hl_Connected :: bool
  hl_Ready :: bool
  hl_PID :: nat
  hl_LastError :: "goError ptr"

definition Health :: "appServer \<Rightarrow> transportHealth" where
  "Health s = \<lparr>hl_Connected = (has_cmd s \<and> as_ready s), hl_Ready = as_ready s,
     hl_PID = (if has_cmd s then as_pid s else 0), hl_LastError = as_lastErr s\<rparr>"

definition Pid :: "appServer \<Rightarrow> nat" where "Pid s = (if has_cmd s then as_pid s else 0)"

definition Stderr :: "appServer \<Rightarrow> string" where
  "Stderr s = (if has_cmd s then rb_String (as_stderr s) else [])"

definition GetError :: "appServer \<Rightarrow> goError ptr" where "GetError s = as_lastErr s"

section \<open>Operations\<close>

text \<open>The end of a successful \<open>doConnect\<close>: the process runs, its state is published and the goroutines
  are started. A failed one leaves only the mark of its attempt.\<close>

definition connected_to :: "nat \<Rightarrow> appServer \<Rightarrow> appServer" where
  "connected_to pid s = s\<lparr>as_connectOnce := True, as_pid := pid, as_proc := Running,
     as_stderr := newRingBuffer StderrRingSize, as_ready := True, as_watcher := Draining,
     as_stdin_open := True, as_demux_open := True\<rparr>"

text \<open>The critical section of \<open>watchExit\<close> after \<open>cmd.Wait\<close>.\<close>

definition exit_error :: "goError \<Rightarrow> string \<Rightarrow> int \<Rightarrow> appServer \<Rightarrow> goError" where
  "exit_error e text code s = ProcessError (''codex app-server exited unexpectedly: '' @ text) code (Stderr s)"

definition record_exit :: "(goError \<Rightarrow> string) \<Rightarrow> goError ptr \<Rightarrow> int \<Rightarrow> appServer \<Rightarrow> appServer" where
  "record_exit err_text waitErr code s =
     (let s1 = s\<lparr>as_ready := False\<rparr>; requested = as_shutdownReq s in
      (case (requested, waitErr) of
         (False, Some e) \<Rightarrow>
           (let s2 = (if as_lastErr s1 = None then s1\<lparr>as_lastErr := Some (exit_error e (err_text e) code s1)\<rparr> else s1) in
            s2\<lparr>as_watcher := Publishing waitErr code requested (as_lastErr s2)\<rparr>)
       | (False, None) \<Rightarrow> s1\<lparr>as_watcher := Publishing waitErr code requested (as_lastErr s1)\<rparr>
       | (True, _) \<Rightarrow> s1\<lparr>as_watcher := Publishing waitErr code requested None\<rparr>))"

definition publish_exit :: "goError ptr \<Rightarrow> int \<Rightarrow> bool \<Rightarrow> goError ptr \<Rightarrow> appServer \<Rightarrow> appServer" where
  "publish_exit waitErr code requested cause s = s\<lparr>as_waitDone := Some waitErr, as_watcher := Emitting code requested cause\<rparr>"

definition emit_exit :: "int \<Rightarrow> bool \<Rightarrow> goError ptr \<Rightarrow> appServer \<Rightarrow> appServer" where
  "emit_exit code requested cause s = s\<lparr>as_exits := as_exits s @ [(code, requested, cause)], as_watcher := WatchOver\<rparr>"

text \<open>\<open>terminateOnUnrecoverableError\<close>: its critical section, and the kill after it.\<close>

definition record_unrecoverable :: "goError \<Rightarrow> appServer \<Rightarrow> appServer" where
  "record_unrecoverable reason s = s\<lparr>as_lastErr := (if as_lastErr s = None then Some reason else as_lastErr s)\<rparr>"

definition kill_process :: "appServer \<Rightarrow> appServer" where
  "kill_process s = s\<lparr>as_killed := (as_killed s \<or> has_cmd s)\<rparr>"

definition classifyExit :: "(goError \<Rightarrow> int option) \<Rightarrow> (goError \<Rightarrow> string) \<Rightarrow> goError ptr \<Rightarrow> bool \<Rightarrow> appServer \<Rightarrow> goError ptr" where
  "classifyExit exit_code err_text err shutdownRequested s = (case err of
      None \<Rightarrow> None
    | Some e \<Rightarrow> (if shutdownRequested then None
        else (case exit_code e of
            Some code \<Rightarrow> Some (ProcessError ''codex app-server exited non-zero'' code (Stderr s))
          | None \<Rightarrow> Some (ProcessError (''codex app-server terminated unexpectedly: '' @ err_text e) (- 1) (Stderr s)))))"

text \<open>The part of \<open>doClose\<close> before the ladder, and each rung. A wait that ends with the exit takes it from
  the channel; a wait that ends otherwise goes to the next rung.\<close>

definition close_begin :: "appServer \<Rightarrow> appServer" where
  "close_begin s = s\<lparr>as_closedOnce := True, as_shutdownReq := True, as_demux_open := False, as_stdin_open := False,
     as_closer := (if has_cmd s then Stage1 else ReturnedEarly)\<rparr>"

definition close_exited :: "goError ptr \<Rightarrow> appServer \<Rightarrow> appServer" where
  "close_exited err s = s\<lparr>as_waitDone := None, as_closer := DrainTail err\<rparr>"

definition close_timeout :: "appServer \<Rightarrow> appServer" where
  "close_timeout s = (case as_closer s of
      Stage1 \<Rightarrow> s\<lparr>as_signals := as_signals s @ [Interrupt_signal], as_closer := Stage2\<rparr>
    | Stage2 \<Rightarrow> s\<lparr>as_signals := as_signals s @ [Kill_signal], as_killed := True, as_closer := Stage3\<rparr>
    | _ \<Rightarrow> s)"

definition waits_exit :: "closer \<Rightarrow> bool" where
  "waits_exit c = (c = Stage1 \<or> c = Stage2 \<or> c = Stage3)"

text \<open>The moves of the transport. The two parts of the give-up callback are moves of their own where the
  demultiplexer that calls it is left out (\<open>hooked\<close>). A wait for stderr ends when it is drained or when
  its time is over.\<close>

inductive as_moves :: "bool \<Rightarrow> appServer \<Rightarrow> appServer \<Rightarrow> bool" for hooked :: bool where
  connect_failed: "\<not> as_connectOnce s \<Longrightarrow> as_moves hooked s (s\<lparr>as_connectOnce := True\<rparr>)"
| connect_ok: "\<not> as_connectOnce s \<Longrightarrow> pid \<noteq> 0 \<Longrightarrow> as_moves hooked s (connected_to pid s)"
| stderr_chunk: "has_cmd s \<Longrightarrow> \<not> as_stderrDone s \<Longrightarrow> as_moves hooked s (s\<lparr>as_stderr := rb_Write p (as_stderr s)\<rparr>)"
| stderr_eof: "has_cmd s \<Longrightarrow> as_moves hooked s (s\<lparr>as_stderrDone := True\<rparr>)"
| process_exit: "as_proc s = Running \<Longrightarrow> as_moves hooked s (s\<lparr>as_proc := Exited waitErr code\<rparr>)"
| watch_drained: "as_watcher s = Draining \<Longrightarrow> as_stderrDone s \<Longrightarrow> as_moves hooked s (s\<lparr>as_watcher := Waiting\<rparr>)"
| watch_drain_timeout: "as_watcher s = Draining \<Longrightarrow> as_moves hooked s (s\<lparr>as_watcher := Waiting\<rparr>)"
| watch_wait: "as_watcher s = Waiting \<Longrightarrow> as_proc s = Exited waitErr code \<Longrightarrow>
    as_moves hooked s (record_exit err_text waitErr code s)"
| watch_publish: "as_watcher s = Publishing waitErr code requested cause \<Longrightarrow> as_waitDone s = None \<Longrightarrow>
    as_moves hooked s (publish_exit waitErr code requested cause s)"
| watch_emit: "as_watcher s = Emitting code requested cause \<Longrightarrow> as_moves hooked s (emit_exit code requested cause s)"
| give_up: "hooked \<Longrightarrow> as_moves hooked s (record_unrecoverable reason s)"
| give_up_kill: "hooked \<Longrightarrow> as_moves hooked s (kill_process s)"
| close_call: "\<not> as_closedOnce s \<Longrightarrow> as_moves hooked s (close_begin s)"
| close_wait: "waits_exit (as_closer s) \<Longrightarrow> as_waitDone s = Some err \<Longrightarrow> as_moves hooked s (close_exited err s)"
| close_grace_over: "as_closer s = Stage1 \<or> as_closer s = Stage2 \<Longrightarrow> as_moves hooked s (close_timeout s)"
| close_drained: "as_closer s = DrainTail err \<Longrightarrow> as_stderrDone s \<Longrightarrow>
    as_moves hooked s (s\<lparr>as_closer := Returned (classifyExit exit_code err_text err True s)\<rparr>)"
| close_drain_timeout: "as_closer s = DrainTail err \<Longrightarrow>
    as_moves hooked s (s\<lparr>as_closer := Returned (classifyExit exit_code err_text err True s)\<rparr>)"

abbreviation as_step :: "appServer \<Rightarrow> appServer \<Rightarrow> bool" where "as_step \<equiv> as_moves True"

lemma as_moves_step: "as_moves hooked s s' \<Longrightarrow> as_step s s'"
  by (induction rule: as_moves.induct) (rule as_moves.intros; simp)+

inductive_cases as_stepE: "as_step s s'"

abbreviation as_reach :: "appServer \<Rightarrow> bool" where "as_reach \<equiv> as_step\<^sup>*\<^sup>* NewAppServer"

lemmas as_start = rtranclp.rtrancl_refl [of as_step NewAppServer]
lemmas as_next = rtranclp.rtrancl_into_rtrancl [of as_step NewAppServer]

lemmas as_defs = connected_to_def publish_exit_def emit_exit_def record_unrecoverable_def kill_process_def
  close_begin_def close_exited_def has_cmd_def waits_exit_def

section \<open>The invariant\<close>

text \<open>Where the waiting goroutine is, and what it has left.\<close>

definition watch_ok :: "appServer \<Rightarrow> bool" where
  "watch_ok s = (case as_watcher s of
      NoWatcher \<Rightarrow> as_proc s = Unborn \<and> \<not> as_ready s \<and> as_waitDone s = None \<and> as_exits s = []
    | Draining \<Rightarrow> as_proc s \<noteq> Unborn \<and> as_waitDone s = None \<and> as_exits s = []
    | Waiting \<Rightarrow> as_proc s \<noteq> Unborn \<and> as_waitDone s = None \<and> as_exits s = []
    | Publishing w c req cause \<Rightarrow> as_proc s = Exited w c \<and> \<not> as_ready s \<and> as_waitDone s = None \<and> as_exits s = []
    | Emitting c req cause \<Rightarrow> (\<exists>w. as_proc s = Exited w c) \<and> \<not> as_ready s \<and> as_exits s = []
    | WatchOver \<Rightarrow> (\<exists>w c. as_proc s = Exited w c) \<and> \<not> as_ready s \<and> length (as_exits s) = 1)"

text \<open>What is true of an exit that is reported.\<close>

definition exit_ok :: "appServer \<Rightarrow> int \<Rightarrow> bool \<Rightarrow> goError ptr \<Rightarrow> bool" where
  "exit_ok s c req cause =
     ((req \<longrightarrow> cause = None \<and> as_shutdownReq s) \<and> (cause \<noteq> None \<longrightarrow> cause = as_lastErr s) \<and>
      (\<exists>w. as_proc s = Exited w c \<and> (\<not> req \<and> w \<noteq> None \<longrightarrow> cause \<noteq> None)))"

definition report_ok :: "appServer \<Rightarrow> bool" where
  "report_ok s =
     ((case as_watcher s of Publishing w c req cause \<Rightarrow> exit_ok s c req cause
       | Emitting c req cause \<Rightarrow> exit_ok s c req cause | _ \<Rightarrow> True) \<and>
      (\<forall>e \<in> set (as_exits s). exit_ok s (fst e) (fst (snd e)) (snd (snd e))))"

definition past_publish :: "watcher \<Rightarrow> bool" where
  "past_publish w = (case w of Emitting c req cause \<Rightarrow> True | WatchOver \<Rightarrow> True | _ \<Rightarrow> False)"

lemma past_publish_simps [simp]:
  "past_publish (Emitting c req cause)" "past_publish WatchOver" "\<not> past_publish NoWatcher" "\<not> past_publish Draining"
  "\<not> past_publish Waiting" "\<not> past_publish (Publishing w c req cause)"
  by (simp_all add: past_publish_def)

definition close_ok :: "appServer \<Rightarrow> bool" where
  "close_ok s =
     ((as_closedOnce s = (as_closer s \<noteq> NotClosing)) \<and> (as_shutdownReq s = as_closedOnce s) \<and>
      (case as_closer s of
         NotClosing \<Rightarrow> as_signals s = []
       | ReturnedEarly \<Rightarrow> as_signals s = []
       | Stage1 \<Rightarrow> as_signals s = [] \<and> as_proc s \<noteq> Unborn \<and> (past_publish (as_watcher s) \<longrightarrow> as_waitDone s \<noteq> None)
       | Stage2 \<Rightarrow> as_signals s = [Interrupt_signal] \<and> as_proc s \<noteq> Unborn \<and>
           (past_publish (as_watcher s) \<longrightarrow> as_waitDone s \<noteq> None)
       | Stage3 \<Rightarrow> as_signals s = [Interrupt_signal, Kill_signal] \<and> as_killed s \<and> as_proc s \<noteq> Unborn \<and>
           (past_publish (as_watcher s) \<longrightarrow> as_waitDone s \<noteq> None)
       | DrainTail e \<Rightarrow> past_publish (as_watcher s)
       | Returned r \<Rightarrow> past_publish (as_watcher s) \<and> r = None))"

definition as_ok :: "appServer \<Rightarrow> bool" where
  "as_ok s = (watch_ok s \<and> report_ok s \<and> close_ok s \<and>
     (\<not> as_connectOnce s \<longrightarrow> as_proc s = Unborn) \<and>
     (as_closer s \<in> {NotClosing, ReturnedEarly} \<and> past_publish (as_watcher s) \<longrightarrow> as_waitDone s \<noteq> None))"

section \<open>Preservation\<close>

lemma exit_ok_frame:
  "exit_ok s c req cause \<Longrightarrow> as_proc s' = as_proc s \<Longrightarrow> (as_shutdownReq s \<longrightarrow> as_shutdownReq s') \<Longrightarrow>
   (as_lastErr s \<noteq> None \<longrightarrow> as_lastErr s' = as_lastErr s) \<Longrightarrow> exit_ok s' c req cause"
  by (auto simp: exit_ok_def)

lemma report_ok_frame:
  assumes "report_ok s" "as_proc s' = as_proc s" "as_shutdownReq s \<longrightarrow> as_shutdownReq s'"
    "as_lastErr s \<noteq> None \<longrightarrow> as_lastErr s' = as_lastErr s" "as_watcher s' = as_watcher s" "as_exits s' = as_exits s"
  shows "report_ok s'"
  using assms(1) exit_ok_frame [OF _ assms(2-4)] unfolding report_ok_def assms(5,6)
  by (auto split: watcher.splits)

lemma first_error_wins: "as_step s s' \<Longrightarrow> as_lastErr s = Some e \<Longrightarrow> as_lastErr s' = Some e"
  by (erule as_stepE)
    (auto simp: as_defs record_exit_def Let_def close_timeout_def split: option.splits bool.splits closer.splits)

lemma record_exit_fields:
  "as_proc (record_exit tx w c s) = as_proc s" "as_waitDone (record_exit tx w c s) = as_waitDone s"
  "as_exits (record_exit tx w c s) = as_exits s" "as_closer (record_exit tx w c s) = as_closer s"
  "as_closedOnce (record_exit tx w c s) = as_closedOnce s" "as_shutdownReq (record_exit tx w c s) = as_shutdownReq s"
  "as_killed (record_exit tx w c s) = as_killed s" "as_stderrDone (record_exit tx w c s) = as_stderrDone s"
  "as_signals (record_exit tx w c s) = as_signals s" "as_connectOnce (record_exit tx w c s) = as_connectOnce s"
  "as_ready (record_exit tx w c s) = False"
  "\<exists>cause. as_watcher (record_exit tx w c s) = Publishing w c (as_shutdownReq s) cause \<and>
     (as_shutdownReq s \<longrightarrow> cause = None) \<and> (cause \<noteq> None \<longrightarrow> cause = as_lastErr (record_exit tx w c s)) \<and>
     (\<not> as_shutdownReq s \<and> w \<noteq> None \<longrightarrow> cause \<noteq> None)"
  by (auto simp: record_exit_def Let_def split: option.splits bool.splits)

lemma watch_ok_step:
  assumes "as_step s s'" and "watch_ok s" and "\<not> as_connectOnce s \<longrightarrow> as_proc s = Unborn"
  shows "watch_ok s'"
  using assms(1)
proof cases
  case (watch_wait w c tx)
  then show ?thesis using assms(2) record_exit_fields [of tx w c s] by (auto simp: watch_ok_def)
next
  case close_grace_over
  then show ?thesis using assms(2) by (auto simp: watch_ok_def close_timeout_def split: watcher.splits)
next
  case (connect_ok pid)
  then show ?thesis by (simp add: watch_ok_def connected_to_def) (use assms in \<open>auto simp: watch_ok_def split: watcher.splits\<close>)
qed (use assms(2) in \<open>auto simp: watch_ok_def as_defs split: watcher.splits\<close>)

lemma close_ok_step:
  assumes "as_step s s'" and ok: "as_ok s"
  shows "close_ok s' \<and> (as_closer s' \<in> {NotClosing, ReturnedEarly} \<and> past_publish (as_watcher s') \<longrightarrow> as_waitDone s' \<noteq> None)"
  using assms(1)
proof cases
  case (watch_wait w c tx)
  then show ?thesis using ok record_exit_fields [of tx w c s]
    by (auto simp: as_ok_def close_ok_def past_publish_def split: closer.splits)
next
  case (watch_publish w c req cause)
  then show ?thesis using ok by (auto simp: as_ok_def close_ok_def past_publish_def publish_exit_def split: closer.splits)
next
  case (watch_emit c req cause)
  then show ?thesis using ok by (auto simp: as_ok_def close_ok_def past_publish_def emit_exit_def split: closer.splits)
next
  case (close_wait err)
  then have "past_publish (as_watcher s)"
    using ok by (auto simp: as_ok_def watch_ok_def past_publish_def split: watcher.splits)
  with close_wait show ?thesis using ok by (auto simp: as_ok_def close_ok_def close_exited_def waits_exit_def)
next
  case close_grace_over
  then show ?thesis using ok by (auto simp: as_ok_def close_ok_def close_timeout_def)
next
  case (close_drained err ec tx)
  then show ?thesis using ok by (auto simp: as_ok_def close_ok_def classifyExit_def split: option.splits)
next
  case (close_drain_timeout err ec tx)
  then show ?thesis using ok by (auto simp: as_ok_def close_ok_def classifyExit_def split: option.splits)
next
  case (connect_ok pid)
  then have "as_watcher s = NoWatcher" using ok by (auto simp: as_ok_def watch_ok_def split: watcher.splits)
  with connect_ok show ?thesis using ok
    by (auto simp: as_ok_def close_ok_def connected_to_def past_publish_def split: closer.splits)
qed (use ok in \<open>auto simp: as_ok_def close_ok_def as_defs split: closer.splits\<close>)

lemma report_ok_step:
  assumes "as_step s s'" and ok: "as_ok s"
  shows "report_ok s'"
  using assms(1)
proof cases
  case (connect_ok pid)
  then have "as_exits s = []" using ok by (auto simp: as_ok_def watch_ok_def split: watcher.splits)
  with connect_ok show ?thesis by (simp add: report_ok_def connected_to_def)
next
  case (process_exit w c)
  then have "as_exits s = []" "\<And>w c r d. as_watcher s \<noteq> Publishing w c r d" "\<And>c r d. as_watcher s \<noteq> Emitting c r d"
    using ok by (auto simp: as_ok_def watch_ok_def split: watcher.splits)
  with process_exit show ?thesis by (auto simp: report_ok_def split: watcher.splits)
next
  case watch_drained
  then show ?thesis using ok by (auto simp: as_ok_def report_ok_def watch_ok_def)
next
  case watch_drain_timeout
  then show ?thesis using ok by (auto simp: as_ok_def report_ok_def watch_ok_def)
next
  case (watch_wait w c tx)
  then have "as_exits s = []" using ok by (auto simp: as_ok_def watch_ok_def)
  with watch_wait record_exit_fields [of tx w c s] show ?thesis by (auto simp: report_ok_def exit_ok_def)
next
  case (watch_publish w c req cause)
  then show ?thesis using ok by (auto simp: as_ok_def report_ok_def watch_ok_def publish_exit_def exit_ok_def)
next
  case (watch_emit c req cause)
  then show ?thesis using ok by (auto simp: as_ok_def report_ok_def watch_ok_def emit_exit_def exit_ok_def)
next
  case close_grace_over
  then show ?thesis using ok report_ok_frame [of s s'] by (auto simp: as_ok_def close_timeout_def)
qed (use ok in \<open>auto simp: as_ok_def as_defs intro: report_ok_frame [of s]\<close>)

lemma connect_once_step:
  assumes "as_step s s'" and "\<not> as_connectOnce s \<longrightarrow> as_proc s = Unborn"
  shows "\<not> as_connectOnce s' \<longrightarrow> as_proc s' = Unborn"
  using assms
  by (cases rule: as_moves.cases) (auto simp: as_defs record_exit_fields close_timeout_def split: closer.splits)

lemma as_ok_step:
  assumes "as_step s s'" and "as_ok s"
  shows "as_ok s'"
proof -
  have "watch_ok s'" using assms watch_ok_step by (simp add: as_ok_def)
  moreover have "report_ok s'" "close_ok s' \<and> (as_closer s' \<in> {NotClosing, ReturnedEarly} \<and> past_publish (as_watcher s') \<longrightarrow> as_waitDone s' \<noteq> None)"
    using assms report_ok_step close_ok_step by blast+
  moreover have "\<not> as_connectOnce s' \<longrightarrow> as_proc s' = Unborn"
    using connect_once_step [OF assms(1)] assms(2) by (simp add: as_ok_def)
  ultimately show ?thesis by (simp add: as_ok_def)
qed

interpretation server: step_invariant NewAppServer as_step as_ok
  by unfold_locales
    (simp add: as_ok_def watch_ok_def report_ok_def close_ok_def NewAppServer_def, rule as_ok_step)

interpretation transport_error: stable_value as_step as_lastErr
  by unfold_locales (rule first_error_wins)

section \<open>Properties\<close>

text \<open>C17: A close that found a process leaves none: once it has returned, by whatever rung of the ladder, the
  process is over, health shows neither connected nor ready, and its result is no error.\<close>

theorem close_leaves_no_process:
  assumes "as_reach s" and "as_closer s = Returned r"
  shows "r = None \<and> (\<exists>w c. as_proc s = Exited w c) \<and> \<not> hl_Connected (Health s) \<and> \<not> hl_Ready (Health s)"
proof -
  have ok: "as_ok s" using assms(1) by (rule server.reach_ok)
  then have "past_publish (as_watcher s)" "r = None" using assms(2) by (simp_all add: as_ok_def close_ok_def)
  with ok show ?thesis by (auto simp: as_ok_def watch_ok_def past_publish_def Health_def split: watcher.splits)
qed


text \<open>The ladder: an interrupt before a kill, and no signal to a process that exits within the first
  grace.\<close>

fun rung :: "closer \<Rightarrow> nat" where
  "rung Stage2 = 1"
| "rung Stage3 = 2"
| "rung _ = 0"

lemma ladder_signals:
  "as_ok s \<Longrightarrow> waits_exit (as_closer s) \<Longrightarrow> as_signals s = take (rung (as_closer s)) [Interrupt_signal, Kill_signal]"
  by (auto simp: as_ok_def close_ok_def waits_exit_def)

text \<open>A step with no help from outside: the process goes on running unless it has been killed, and stderr
  reaches no end it has not reached.\<close>

definition unaided :: "appServer \<Rightarrow> appServer \<Rightarrow> bool" where
  "unaided s s' = (as_moves False s s' \<and> (as_proc s = Running \<and> \<not> as_killed s \<longrightarrow> as_proc s' = Running) \<and>
     as_stderrDone s' = as_stderrDone s)"

definition closing :: "closer \<Rightarrow> bool" where
  "closing c = (waits_exit c \<or> (\<exists>err. c = DrainTail err))"

text \<open>How far a close is from its return: the rungs left, the steps of the waiting goroutine left, and the
  process.\<close>

fun rungs_left :: "closer \<Rightarrow> nat" where
  "rungs_left Stage1 = 4"
| "rungs_left Stage2 = 3"
| "rungs_left Stage3 = 2"
| "rungs_left (DrainTail err) = 1"
| "rungs_left _ = 0"

fun watch_left :: "watcher \<Rightarrow> nat" where
  "watch_left Draining = 4"
| "watch_left Waiting = 3"
| "watch_left (Publishing w c req cause) = 2"
| "watch_left (Emitting c req cause) = 1"
| "watch_left _ = 0"

definition close_weight :: "appServer \<Rightarrow> nat" where
  "close_weight s = rungs_left (as_closer s) + watch_left (as_watcher s) + (if as_proc s = Running then 1 else 0)"

lemma unaidedI:
  "as_moves False s s' \<Longrightarrow> as_proc s = Running \<and> \<not> as_killed s \<longrightarrow> as_proc s' = Running \<Longrightarrow>
     as_stderrDone s' = as_stderrDone s \<Longrightarrow> close_weight s' < close_weight s \<Longrightarrow>
     \<exists>s'. unaided s s' \<and> close_weight s' < close_weight s"
  unfolding unaided_def by blast

lemma close_progress_waiting:
  assumes ok: "as_ok s" and w: "waits_exit (as_closer s)" "as_waitDone s = None" "as_watcher s = Waiting"
  shows "\<exists>s'. unaided s s' \<and> close_weight s' < close_weight s"
proof (cases "as_proc s")
  case Unborn
  with ok w(3) show ?thesis by (simp add: as_ok_def watch_ok_def)
next
  case (Exited x c)
  obtain cause where "as_watcher (record_exit (\<lambda>e. []) x c s) = Publishing x c (as_shutdownReq s) cause"
    using record_exit_fields(12) by metis
  then show ?thesis
    by (intro unaidedI [OF watch_wait [OF w(3) Exited, where err_text = "\<lambda>e. []"]]) (simp_all add: close_weight_def record_exit_fields w(3))
next
  case Running
  show ?thesis
  proof (cases "as_closer s = Stage3")
    case True
    with ok have "as_killed s" by (simp add: as_ok_def close_ok_def)
    then show ?thesis by (intro unaidedI [OF process_exit [OF Running]]) (simp_all add: close_weight_def Running)
  next
    case False
    with w(1) have "as_closer s = Stage1 \<or> as_closer s = Stage2" by (simp add: waits_exit_def)
    then show ?thesis
      by (intro unaidedI [OF close_grace_over]) (auto simp: close_weight_def close_timeout_def)
  qed
qed

lemma process_close_progress:
  assumes ok: "as_ok s" and c: "closing (as_closer s)"
  shows "\<exists>s'. unaided s s' \<and> close_weight s' < close_weight s"
proof (cases "waits_exit (as_closer s)")
  case False
  with c obtain err where "as_closer s = DrainTail err" by (auto simp: closing_def)
  then show ?thesis by (intro unaidedI [OF close_drain_timeout]) (simp_all add: close_weight_def)
next
  case w: True
  show ?thesis
  proof (cases "as_waitDone s")
    case (Some x)
    with w show ?thesis
      by (intro unaidedI [OF close_wait]) (auto simp: close_weight_def close_exited_def waits_exit_def)
  next
    case None
    have p: "as_proc s \<noteq> Unborn" "\<not> past_publish (as_watcher s)"
      using ok w None by (auto simp: as_ok_def close_ok_def waits_exit_def)
    show ?thesis
    proof (cases "as_watcher s")
      case Draining
      then show ?thesis by (intro unaidedI [OF watch_drain_timeout]) (simp_all add: close_weight_def)
    next
      case (Publishing x c req cause)
      with None show ?thesis
        by (intro unaidedI [OF watch_publish]) (simp_all add: close_weight_def publish_exit_def)
    qed (use ok w None p close_progress_waiting in \<open>simp_all add: as_ok_def watch_ok_def\<close>)
  qed
qed

lemma close_keeps_on:
  assumes ok: "as_ok s" and c: "closing (as_closer s)" and st: "as_step s s'"
  shows "close_weight s' \<le> close_weight s \<and> (closing (as_closer s') \<or> as_closer s' = Returned None)"
  using st
proof cases
  case (watch_wait w x tx)
  obtain cause where "as_watcher (record_exit tx w x s) = Publishing w x (as_shutdownReq s) cause"
    using record_exit_fields(12) by metis
  with watch_wait c show ?thesis by (simp add: close_weight_def record_exit_fields)
next
  case (connect_ok pid)
  with ok c show ?thesis by (auto simp: as_ok_def close_ok_def closing_def waits_exit_def watch_ok_def past_publish_def split: watcher.splits)
next
  case close_grace_over
  then show ?thesis by (auto simp: close_weight_def close_timeout_def closing_def waits_exit_def)
next
  case close_call
  with ok c show ?thesis by (auto simp: as_ok_def close_ok_def closing_def waits_exit_def)
next
  case (close_drained err ec tx)
  then show ?thesis by (simp add: close_weight_def classifyExit_def split: option.split)
next
  case (close_drain_timeout err ec tx)
  then show ?thesis by (simp add: close_weight_def classifyExit_def split: option.split)
next
  case (close_wait err)
  then show ?thesis by (auto simp: close_weight_def close_exited_def closing_def waits_exit_def)
qed (use c in \<open>auto simp: close_weight_def as_defs\<close>)

lemma close_returns_unaided:
  assumes "as_ok s" and "closing (as_closer s)"
  shows "\<exists>k s'. k \<le> close_weight s \<and> (unaided ^^ k) s s' \<and> as_closer s' = Returned None"
  using assms
proof (induction "close_weight s" arbitrary: s rule: less_induct)
  case less
  obtain s1 where s1: "unaided s s1" "close_weight s1 < close_weight s"
    using process_close_progress [OF less.prems] by blast
  then have st: "as_step s s1" unfolding unaided_def by (blast intro: as_moves_step)
  have ok: "as_ok s1" by (rule as_ok_step [OF st less.prems(1)])
  from close_keeps_on [OF less.prems st] show ?case
  proof (elim conjE disjE)
    assume "closing (as_closer s1)"
    from less.hyps [OF s1(2) ok this] obtain k s' where k: "k \<le> close_weight s1" "(unaided ^^ k) s1 s'"
      "as_closer s' = Returned None" by blast
    have "(unaided ^^ Suc k) s s'" by (rule relpowp_Suc_I2 [OF s1(1) k(2)])
    moreover have "Suc k \<le> close_weight s" using k(1) s1(2) by simp
    ultimately show ?thesis using k(3) by blast
  next
    assume "as_closer s1 = Returned None"
    with s1 show ?thesis by (intro exI [of _ "Suc 0"] exI [of _ s1]) auto
  qed
qed

text \<open>C19: A close that found a process needs nobody's help to return: even when the process never exits by
  itself and stderr is held open, the timers, the signals of the ladder and the goroutine that waits
  for the process bring it in at most nine steps to return without an error, a killed process being
  the only one that has to exit. Nothing any part of the transport does takes it further away or out
  of the close, and at each rung exactly the signals of the rungs passed have been sent.\<close>

theorem close_can_complete:
  assumes "as_reach s" and "closing (as_closer s)"
  shows "(\<exists>k s'. k \<le> 9 \<and> (unaided ^^ k) s s' \<and> as_closer s' = Returned None) \<and>
     (\<exists>s'. unaided s s' \<and> close_weight s' < close_weight s) \<and>
     (\<forall>s'. as_step s s' \<longrightarrow> close_weight s' \<le> close_weight s \<and>
        (closing (as_closer s') \<or> as_closer s' = Returned None)) \<and>
     (waits_exit (as_closer s) \<longrightarrow>
        as_signals s = take (rung (as_closer s)) [Interrupt_signal, Kill_signal])"
proof -
  have ok: "as_ok s" using assms(1) by (rule server.reach_ok)
  have "rungs_left (as_closer s) \<le> 4" by (cases "as_closer s") simp_all
  moreover have "watch_left (as_watcher s) \<le> 4" by (cases "as_watcher s") simp_all
  ultimately have "close_weight s \<le> 9" by (simp add: close_weight_def)
  then show ?thesis
    using close_returns_unaided [OF ok assms(2)] process_close_progress [OF ok assms(2)]
      close_keeps_on [OF ok assms(2)] ladder_signals [OF ok] by (meson order_trans)
qed

section \<open>A run\<close>

text \<open>The process is started, the client closes it, it exits on the interrupt, and its exit is reported.\<close>

definition sample_exit :: "goError ptr" where "sample_exit = Some (ErrText ''signal: interrupt'')"

definition sample_closing :: appServer where
  "sample_closing = close_timeout (close_begin (connected_to 7 NewAppServer))"

definition sample_published :: appServer where
  "sample_published = publish_exit sample_exit (- 1) True None
     (record_exit (\<lambda>e. []) sample_exit (- 1) (sample_closing\<lparr>as_proc := Exited sample_exit (- 1), as_watcher := Waiting\<rparr>))"

definition sample_closed :: appServer where
  "sample_closed = (let s = emit_exit (- 1) True None (close_exited sample_exit sample_published) in
     s\<lparr>as_closer := Returned (classifyExit (\<lambda>e. None) (\<lambda>e. []) sample_exit True s)\<rparr>)"

lemmas sample_defs = sample_closing_def sample_published_def sample_closed_def as_defs close_timeout_def
  NewAppServer_def record_exit_def sample_exit_def

lemma sample_closing_reach: "as_reach sample_closing"
proof -
  have "as_reach (connected_to 7 NewAppServer)"
    by (intro as_next [OF as_start connect_ok]) (simp_all add: sample_defs)
  then have "as_reach (close_begin (connected_to 7 NewAppServer))"
    by (rule as_next [OF _ close_call]) (simp add: sample_defs)
  then show ?thesis unfolding sample_closing_def
    by (rule as_next [OF _ close_grace_over]) (simp add: sample_defs)
qed

lemma sample_published_reach: "as_reach sample_published"
proof -
  have "as_reach (sample_closing\<lparr>as_proc := Exited sample_exit (- 1)\<rparr>)"
    by (rule as_next [OF sample_closing_reach process_exit]) (simp add: sample_defs)
  then have "as_reach (sample_closing\<lparr>as_proc := Exited sample_exit (- 1), as_watcher := Waiting\<rparr>)"
    by (rule as_next [OF _ watch_drain_timeout]) (simp add: sample_defs)
  then have "as_reach (record_exit (\<lambda>e. []) sample_exit (- 1)
      (sample_closing\<lparr>as_proc := Exited sample_exit (- 1), as_watcher := Waiting\<rparr>))"
    by (rule as_next [OF _ watch_wait]) simp_all
  then show ?thesis unfolding sample_published_def
    by (rule as_next [OF _ watch_publish]) (simp_all add: sample_defs)
qed

lemma sample_closed_reach: "as_reach sample_closed"
proof -
  have "as_reach (close_exited sample_exit sample_published)"
    by (rule as_next [OF sample_published_reach close_wait]) (simp_all add: sample_defs)
  then have "as_reach (emit_exit (- 1) True None (close_exited sample_exit sample_published))"
    by (rule as_next [OF _ watch_emit]) (simp add: sample_defs)
  then show ?thesis unfolding sample_closed_def Let_def
    by (rule as_next [OF _ close_drain_timeout]) (simp add: sample_defs)
qed

lemma sample_closed_closer: "as_closer sample_closed = Returned None"
  by (simp add: sample_closed_def Let_def classifyExit_def sample_exit_def)

lemma sample_closed_exits: "as_exits sample_closed = [(- 1, True, None)]"
  by (simp add: sample_defs Let_def)

theorem close_leaves_no_process_witness:
  "as_reach sample_closed \<and> as_closer sample_closed = Returned None \<and> \<not> hl_Ready (Health sample_closed)"
  using close_leaves_no_process [OF sample_closed_reach sample_closed_closer] sample_closed_reach sample_closed_closer
  by simp


theorem close_can_complete_witness:
  "as_proc sample_closing = Running \<and> \<not> as_killed sample_closing \<and> as_signals sample_closing = [Interrupt_signal] \<and>
   (\<exists>k s'. k \<le> 9 \<and> (unaided ^^ k) sample_closing s' \<and> as_closer s' = Returned None)"
proof -
  have c: "as_closer sample_closing = Stage2" "as_proc sample_closing = Running \<and> \<not> as_killed sample_closing"
    by (simp_all add: sample_defs)
  then have "closing (as_closer sample_closing)" by (simp add: closing_def waits_exit_def)
  from close_can_complete [OF sample_closing_reach this] c show ?thesis by (simp add: waits_exit_def)
qed

text \<open>The pid is still shown after the exit.\<close>

lemma pid_after_exit: "hl_PID (Health sample_closed) = 7 \<and> Pid sample_closed = 7 \<and> (\<exists>w c. as_proc sample_closed = Exited w c)"
  by (simp add: sample_defs Health_def Pid_def Let_def)

text \<open>The bound on the wait for stderr runs from the start of the process, so that a process is waited for
  while it runs and its stderr is not drained.\<close>

lemma wait_before_drained:
  "\<exists>s. as_reach s \<and> as_watcher s = Waiting \<and> as_proc s = Running \<and> \<not> as_stderrDone s"
proof -
  let ?s = "connected_to 7 NewAppServer"
  have "as_reach ?s" by (intro as_next [OF as_start connect_ok]) (simp_all add: sample_defs)
  then have "as_reach (?s\<lparr>as_watcher := Waiting\<rparr>)" by (rule as_next [OF _ watch_drain_timeout]) (simp add: sample_defs)
  moreover have "as_proc (?s\<lparr>as_watcher := Waiting\<rparr>) = Running \<and> \<not> as_stderrDone (?s\<lparr>as_watcher := Waiting\<rparr>)"
    by (simp add: sample_defs)
  ultimately show ?thesis by (intro exI [of _ "?s\<lparr>as_watcher := Waiting\<rparr>"]) simp
qed

end
