(* ===== verification/Client_Lifecycle.thy ===== *)
theory Client_Lifecycle
  imports Dispatch Transitions
begin

text \<open>
  The life of a client (\<open>client.go\<close>): \<open>Connect\<close> and \<open>Close\<close> as a step relation in which any number of
  callers of \<open>Connect\<close>, one \<open>Close\<close> and the dispatcher interleave. What the code does under
  \<open>lifecycleMu\<close> is one step, and so are an atomic operation, the start and the close of a transport and
  the set-up and the removal of the hook bridge. The state of the client proper is that of the
  dispatcher's theory. The results of the set-up, of the start and of the handshake are arbitrary.
\<close>

section \<open>State\<close>

text \<open>How far a caller of \<open>Connect\<close> is: the deferred functions run after a failure, in reverse order.\<close>

datatype connectPhase = NotConnecting | Begun | Hooked | Spawned nat | Published nat | Accepted nat
  | ClosingTransport nat goError | Unhooking goError | Clearing "goError ptr" | ConnectOver "goError ptr"

text \<open>How far \<open>Close\<close> is, with what it has taken from the client.\<close>

datatype closePhase = StillOpen | Marked | Snapped "nat ptr" | Stopped "nat ptr" "goError ptr"
  | ThreadsClosed "nat ptr" "goError ptr" | TransportClosed "goError ptr" "goError ptr"
  | ResetDone "goError ptr" "goError ptr" | CloseOver "goError ptr"

text \<open>\<open>lc_live\<close> holds the transports that were started and not closed, \<open>lc_cancel\<close> the attempt whose cancel
  function is kept, \<open>lc_dispatcher\<close> and \<open>lc_ended\<close> whether the dispatcher was started and has ended, and
  \<open>lc_handles\<close> the threads that the client has dropped.\<close>

record lifecycle =
  lc_client :: client
  lc_started :: bool
  lc_cancel :: "nat ptr"
  lc_tr :: "nat ptr"
  lc_live :: "nat set"
  lc_next :: nat
  lc_bridge :: bool
  lc_dispatcher :: bool
  lc_ended :: bool
  lc_connects :: "nat \<Rightarrow> connectPhase"
  lc_close :: closePhase
  lc_handles :: "(string \<times> thread) list"

definition NewClient :: lifecycle where
  "NewClient = \<lparr>lc_client = new_client, lc_started = False, lc_cancel = None, lc_tr = None, lc_live = {},
     lc_next = 0, lc_bridge = False, lc_dispatcher = False, lc_ended = False, lc_connects = (\<lambda>i. NotConnecting),
     lc_close = StillOpen, lc_handles = []\<rparr>"

abbreviation is_closed :: "lifecycle \<Rightarrow> bool" where "is_closed s \<equiv> cl_closed (lc_client s)"
abbreviation is_connected :: "lifecycle \<Rightarrow> bool" where "is_connected s \<equiv> cl_connected (lc_client s)"

definition set_connect :: "nat \<Rightarrow> connectPhase \<Rightarrow> lifecycle \<Rightarrow> lifecycle" where
  "set_connect i p s = s\<lparr>lc_connects := (lc_connects s)(i := p)\<rparr>"

definition client_closed_error :: goError where
  "client_closed_error = ErrWrap ''codex.Client.Connect'' (Sentinel ErrClientClosed)"

definition already_connected_error :: goError where
  "already_connected_error = ErrWrap ''codex.Client.Connect'' (Sentinel ErrClientAlreadyConnected)"

section \<open>Operations\<close>

definition beginConnect :: "nat \<Rightarrow> lifecycle \<Rightarrow> goError option \<times> lifecycle" where
  "beginConnect i s =
     (if is_closed s then (Some client_closed_error, s)
      else if is_connected s then (Some already_connected_error, s)
      else if lc_started s then (Some already_connected_error, s)
      else (None, s\<lparr>lc_started := True, lc_cancel := Some i\<rparr>))"

definition clearConnectCancel :: "nat \<Rightarrow> lifecycle \<Rightarrow> lifecycle" where
  "clearConnectCancel i s = (if lc_cancel s = Some i then s\<lparr>lc_cancel := None\<rparr> else s)"

definition publishConnectingTransport :: "nat \<Rightarrow> lifecycle \<Rightarrow> goError option \<times> lifecycle" where
  "publishConnectingTransport n s =
     (if is_closed s then (Some client_closed_error, s) else (None, s\<lparr>lc_tr := Some n\<rparr>))"

definition startDispatcher :: "lifecycle \<Rightarrow> goError option \<times> lifecycle" where
  "startDispatcher s =
     (if is_closed s then (Some client_closed_error, s)
      else (None, s\<lparr>lc_client := (lc_client s)\<lparr>cl_connected := True\<rparr>, lc_dispatcher := True, lc_ended := False\<rparr>))"

definition close_transport :: "nat \<Rightarrow> lifecycle \<Rightarrow> lifecycle" where
  "close_transport n s = s\<lparr>lc_live := lc_live s - {n}\<rparr>"

text \<open>After a failed handshake a client that is closed leaves its transport to \<open>Close\<close>.\<close>

definition after_connect_error :: "nat \<Rightarrow> goError \<Rightarrow> lifecycle \<Rightarrow> connectPhase" where
  "after_connect_error n e s = (if is_closed s then Unhooking e else ClosingTransport n e)"

text \<open>The part of \<open>Close\<close> under \<open>mu\<close>: the subscriptions are closed, the threads marked and dropped.\<close>

definition close_threads :: "client \<Rightarrow> client \<times> (string \<times> thread) list" where
  "close_threads c =
     (c\<lparr>cl_subs := closeThreadEventSubscriptions (cl_subs c), cl_threads := None, cl_latest := []\<rparr>,
      map (\<lambda>(i, t). (i, markClosed t)) (case cl_threads c of None \<Rightarrow> [] | Some ts \<Rightarrow> ts))"

definition reset_client :: "lifecycle \<Rightarrow> lifecycle" where
  "reset_client s = s\<lparr>lc_client := (lc_client s)\<lparr>cl_connected := False\<rparr>, lc_started := False, lc_cancel := None,
     lc_tr := None\<rparr>"

definition errors_join :: "goError ptr \<Rightarrow> goError ptr \<Rightarrow> goError ptr" where
  "errors_join a b = (case (a, b) of
      (None, None) \<Rightarrow> None | (Some x, None) \<Rightarrow> Some (ErrJoin [x]) | (None, Some y) \<Rightarrow> Some (ErrJoin [y])
    | (Some x, Some y) \<Rightarrow> Some (ErrJoin [x, y]))"

definition may_connect :: "connectPhase \<Rightarrow> bool" where
  "may_connect p = (case p of NotConnecting \<Rightarrow> True | ConnectOver r \<Rightarrow> True | _ \<Rightarrow> False)"

section \<open>Steps\<close>

inductive lc_step :: "lifecycle \<Rightarrow> lifecycle \<Rightarrow> bool" where
  connect_begin: "may_connect (lc_connects s i) \<Longrightarrow> beginConnect i s = (None, s') \<Longrightarrow> lc_step s (set_connect i Begun s')"
| connect_refused: "may_connect (lc_connects s i) \<Longrightarrow> lc_connects s i \<noteq> ConnectOver None \<Longrightarrow>
    beginConnect i s = (Some e, s') \<Longrightarrow> lc_step s (set_connect i (ConnectOver (Some e)) s')"
| hook_bridge: "lc_connects s i = Begun \<Longrightarrow> lc_step s (set_connect i Hooked (s\<lparr>lc_bridge := True\<rparr>))"
| no_hooks: "lc_connects s i = Begun \<Longrightarrow> lc_step s (set_connect i Hooked s)"
| hook_failed: "lc_connects s i = Begun \<Longrightarrow> lc_step s (set_connect i (Unhooking e) s)"
| spawn: "lc_connects s i = Hooked \<Longrightarrow>
    lc_step s (set_connect i (Spawned (lc_next s)) (s\<lparr>lc_live := insert (lc_next s) (lc_live s), lc_next := lc_next s + 1\<rparr>))"
| spawn_failed: "lc_connects s i = Hooked \<Longrightarrow> lc_step s (set_connect i (Unhooking e) s)"
| transport_published: "lc_connects s i = Spawned n \<Longrightarrow> publishConnectingTransport n s = (None, s') \<Longrightarrow>
    lc_step s (set_connect i (Published n) s')"
| transport_refused: "lc_connects s i = Spawned n \<Longrightarrow> publishConnectingTransport n s = (Some e, s') \<Longrightarrow>
    lc_step s (set_connect i (ClosingTransport n e) s')"
| handshake: "lc_connects s i = Published n \<Longrightarrow> lc_step s (set_connect i (Accepted n) s)"
| handshake_failed: "lc_connects s i = Published n \<Longrightarrow> lc_step s (set_connect i (after_connect_error n e s) s)"
| dispatcher_started: "lc_connects s i = Accepted n \<Longrightarrow> startDispatcher s = (None, s') \<Longrightarrow>
    lc_step s (set_connect i (Clearing None) s')"
| dispatcher_refused: "lc_connects s i = Accepted n \<Longrightarrow> startDispatcher s = (Some e, s') \<Longrightarrow>
    lc_step s (set_connect i (after_connect_error n e s') s')"
| connect_close: "lc_connects s i = ClosingTransport n e \<Longrightarrow>
    lc_step s (set_connect i (Unhooking e) (close_transport n s))"
| connect_unhook: "lc_connects s i = Unhooking e \<Longrightarrow> lc_step s (set_connect i (Clearing (Some e)) (s\<lparr>lc_bridge := False\<rparr>))"
| connect_end: "lc_connects s i = Clearing r \<Longrightarrow> lc_step s (set_connect i (ConnectOver r) (clearConnectCancel i s))"
| client_work: "cl_closed c = is_closed s \<Longrightarrow> cl_connected c = is_connected s \<Longrightarrow> lc_step s (s\<lparr>lc_client := c\<rparr>)"
| dispatcher_end: "lc_dispatcher s \<Longrightarrow> \<not> lc_ended s \<Longrightarrow> dispatch_end canceled cause (lc_client s) = Some c \<Longrightarrow>
    lc_step s (s\<lparr>lc_client := c, lc_ended := True\<rparr>)"
| close_mark: "lc_close s = StillOpen \<Longrightarrow> \<not> is_closed s \<Longrightarrow>
    lc_step s (s\<lparr>lc_client := (lc_client s)\<lparr>cl_closed := True\<rparr>, lc_close := Marked\<rparr>)"
| close_snapshot: "lc_close s = Marked \<Longrightarrow> lc_step s (s\<lparr>lc_close := Snapped (lc_tr s)\<rparr>)"
| close_stopped: "lc_close s = Snapped t \<Longrightarrow> lc_dispatcher s \<longrightarrow> lc_ended s \<Longrightarrow> lc_step s (s\<lparr>lc_close := Stopped t None\<rparr>)"
| close_gave_up: "lc_close s = Snapped t \<Longrightarrow> lc_dispatcher s \<Longrightarrow> lc_step s (s\<lparr>lc_close := Stopped t (Some e)\<rparr>)"
| close_drop: "lc_close s = Stopped t w \<Longrightarrow> close_threads (lc_client s) = (c, hs) \<Longrightarrow>
    lc_step s (s\<lparr>lc_client := c, lc_handles := hs, lc_close := ThreadsClosed t w\<rparr>)"
| close_tr: "lc_close s = ThreadsClosed (Some n) w \<Longrightarrow>
    lc_step s ((close_transport n s)\<lparr>lc_close := TransportClosed r w\<rparr>)"
| close_no_tr: "lc_close s = ThreadsClosed None w \<Longrightarrow> lc_step s (s\<lparr>lc_close := TransportClosed None w\<rparr>)"
| close_reset: "lc_close s = TransportClosed r w \<Longrightarrow> lc_step s ((reset_client s)\<lparr>lc_close := ResetDone r w\<rparr>)"
| close_unhook: "lc_close s = ResetDone r w \<Longrightarrow>
    lc_step s (s\<lparr>lc_bridge := False, lc_close := CloseOver (errors_join r w)\<rparr>)"

inductive_cases lc_stepE: "lc_step s s'"

abbreviation lc_reach :: "lifecycle \<Rightarrow> bool" where "lc_reach \<equiv> lc_step\<^sup>*\<^sup>* NewClient"

lemmas lc_start = rtranclp.rtrancl_refl [of lc_step NewClient]
lemmas lc_go = rtranclp.rtrancl_into_rtrancl [of lc_step NewClient]

section \<open>The invariant\<close>

text \<open>A caller is busy when it is inside \<open>Connect\<close> or has connected; it made the connection when nothing
  can fail any more; it owns a transport that nobody else closes.\<close>

definition busy :: "connectPhase \<Rightarrow> bool" where
  "busy p = (case p of NotConnecting \<Rightarrow> False | ConnectOver (Some e) \<Rightarrow> False | _ \<Rightarrow> True)"

definition made :: "connectPhase \<Rightarrow> bool" where
  "made p = (case p of Clearing None \<Rightarrow> True | ConnectOver None \<Rightarrow> True | _ \<Rightarrow> False)"

definition hooked :: "connectPhase \<Rightarrow> bool" where
  "hooked p = (case p of Hooked \<Rightarrow> True | Spawned n \<Rightarrow> True | Published n \<Rightarrow> True | Accepted n \<Rightarrow> True
     | ClosingTransport n e \<Rightarrow> True | Unhooking e \<Rightarrow> True | _ \<Rightarrow> False)"

definition owns :: "connectPhase \<Rightarrow> nat \<Rightarrow> bool" where
  "owns p n = (case p of Spawned m \<Rightarrow> m = n | Published m \<Rightarrow> m = n | Accepted m \<Rightarrow> m = n
     | ClosingTransport m e \<Rightarrow> m = n | _ \<Rightarrow> False)"

definition shown :: "connectPhase \<Rightarrow> nat \<Rightarrow> bool" where
  "shown p n = (case p of Published m \<Rightarrow> m = n | Accepted m \<Rightarrow> m = n | _ \<Rightarrow> False)"

text \<open>What \<open>Close\<close> has, or will take, to close.\<close>

definition taken :: "lifecycle \<Rightarrow> nat \<Rightarrow> bool" where
  "taken s n = (case lc_close s of StillOpen \<Rightarrow> lc_tr s = Some n | Marked \<Rightarrow> lc_tr s = Some n | Snapped t \<Rightarrow> t = Some n
     | Stopped t w \<Rightarrow> t = Some n | ThreadsClosed t w \<Rightarrow> t = Some n | _ \<Rightarrow> n \<notin> lc_live s)"

definition before_reset :: "closePhase \<Rightarrow> bool" where
  "before_reset p = (case p of ResetDone r w \<Rightarrow> False | CloseOver r \<Rightarrow> False | _ \<Rightarrow> True)"

definition closing :: "closePhase \<Rightarrow> bool" where
  "closing p = (p \<noteq> StillOpen \<and> (\<forall>r. p \<noteq> CloseOver r))"

definition one_connect :: "lifecycle \<Rightarrow> bool" where
  "one_connect s = ((\<forall>i j. busy (lc_connects s i) \<and> busy (lc_connects s j) \<longrightarrow> i = j) \<and>
     (lc_close s = StillOpen \<longrightarrow> \<not> is_closed s) \<and> (lc_close s \<noteq> StillOpen \<longrightarrow> is_closed s) \<and>
     (\<not> is_closed s \<and> (\<exists>i. busy (lc_connects s i)) \<longrightarrow> lc_started s) \<and>
     (is_connected s \<longrightarrow> before_reset (lc_close s) \<and> (\<exists>i. made (lc_connects s i))))"

definition live_ok :: "lifecycle \<Rightarrow> bool" where
  "live_ok s = ((\<forall>n. n \<in> lc_live s \<longrightarrow> (\<exists>i. owns (lc_connects s i) n) \<or>
        (taken s n \<and> (lc_close s = StillOpen \<longrightarrow> (\<exists>i. made (lc_connects s i))))) \<and>
     (\<forall>i n. shown (lc_connects s i) n \<longrightarrow> taken s n) \<and> (\<forall>i n. owns (lc_connects s i) n \<longrightarrow> n < lc_next s))"

definition bridge_ok :: "lifecycle \<Rightarrow> bool" where
  "bridge_ok s = (lc_bridge s \<longrightarrow> (\<exists>i. hooked (lc_connects s i)) \<or> closing (lc_close s) \<or>
     (lc_close s = StillOpen \<and> (\<exists>i. made (lc_connects s i))))"

lemmas phase_defs = busy_def made_def hooked_def owns_def shown_def

lemma phase_simps [simp]:
  "busy Begun" "busy Hooked" "busy (Spawned n)" "busy (Published n)" "busy (Accepted n)" "busy (ClosingTransport n e)"
  "busy (Unhooking e)" "busy (Clearing r)" "\<not> busy NotConnecting" "busy (ConnectOver r) = (r = None)"
  "made (Clearing r) = (r = None)" "made (ConnectOver r) = (r = None)" "\<not> made NotConnecting" "\<not> made Begun" "\<not> made Hooked"
  "\<not> made (Spawned n)" "\<not> made (Published n)" "\<not> made (Accepted n)" "\<not> made (ClosingTransport n e)" "\<not> made (Unhooking e)"
  "hooked Hooked" "hooked (Spawned n)" "hooked (Published n)" "hooked (Accepted n)" "hooked (ClosingTransport n e)"
  "hooked (Unhooking e)" "\<not> hooked NotConnecting" "\<not> hooked Begun" "\<not> hooked (Clearing r)" "\<not> hooked (ConnectOver r)"
  "owns (Spawned m) n = (m = n)" "owns (Published m) n = (m = n)" "owns (Accepted m) n = (m = n)"
  "owns (ClosingTransport m e) n = (m = n)" "\<not> owns NotConnecting n" "\<not> owns Begun n" "\<not> owns Hooked n"
  "\<not> owns (Unhooking e) n" "\<not> owns (Clearing r) n" "\<not> owns (ConnectOver r) n"
  "shown (Published m) n = (m = n)" "shown (Accepted m) n = (m = n)" "\<not> shown NotConnecting n" "\<not> shown Begun n"
  "\<not> shown Hooked n" "\<not> shown (Spawned m) n" "\<not> shown (ClosingTransport m e) n" "\<not> shown (Unhooking e) n"
  "\<not> shown (Clearing r) n" "\<not> shown (ConnectOver r) n"
  by (simp_all add: phase_defs split: option.splits)

lemma made_busy: "made p \<Longrightarrow> busy p" and owns_busy: "owns p n \<Longrightarrow> busy p" and hooked_busy: "hooked p \<Longrightarrow> busy p"
  and shown_owns: "shown p n \<Longrightarrow> owns p n"
  by (cases p; simp)+

lemma set_connect_simps [simp]:
  "lc_client (set_connect i p s) = lc_client s" "lc_started (set_connect i p s) = lc_started s"
  "lc_cancel (set_connect i p s) = lc_cancel s" "lc_tr (set_connect i p s) = lc_tr s"
  "lc_live (set_connect i p s) = lc_live s" "lc_next (set_connect i p s) = lc_next s"
  "lc_bridge (set_connect i p s) = lc_bridge s" "lc_close (set_connect i p s) = lc_close s"
  "lc_connects (set_connect i p s) = (lc_connects s)(i := p)"
  by (simp_all add: set_connect_def)

lemma beginConnect_cases:
  "beginConnect i s = (None, s') \<Longrightarrow> \<not> is_closed s \<and> \<not> is_connected s \<and> \<not> lc_started s \<and> s' = s\<lparr>lc_started := True, lc_cancel := Some i\<rparr>"
  "beginConnect i s = (Some e, s') \<Longrightarrow> s' = s"
  "publishConnectingTransport n s = (None, s') \<Longrightarrow> \<not> is_closed s \<and> s' = s\<lparr>lc_tr := Some n\<rparr>"
  "publishConnectingTransport n s = (Some e, s') \<Longrightarrow> is_closed s \<and> s' = s"
  "startDispatcher s = (None, s') \<Longrightarrow> \<not> is_closed s \<and>
     s' = s\<lparr>lc_client := (lc_client s)\<lparr>cl_connected := True\<rparr>, lc_dispatcher := True, lc_ended := False\<rparr>"
  "startDispatcher s = (Some e, s') \<Longrightarrow> is_closed s \<and> s' = s"
  by (auto simp: beginConnect_def publishConnectingTransport_def startDispatcher_def split: if_splits)

section \<open>Preservation\<close>

lemma ex_upd: "(\<exists>j. P ((f(i := p)) j)) = (P p \<or> (\<exists>j. j \<noteq> i \<and> P (f j)))"
  by auto

lemma ex_other: "\<exists>j. P (f j) \<Longrightarrow> \<not> P (f i) \<Longrightarrow> \<exists>j. j \<noteq> i \<and> P (f j)"
  by auto

lemma made_keep: "\<exists>j. made (f j) \<Longrightarrow> made (f i) \<longrightarrow> made p \<Longrightarrow> \<exists>j. made ((f(i := p)) j)"
  by (metis fun_upd_apply)

lemma unique_upd:
  "(\<forall>a b. busy (f a) \<and> busy (f b) \<longrightarrow> a = b) \<Longrightarrow> busy (f i) \<Longrightarrow>
   (\<forall>a b. busy ((f(i := p)) a) \<and> busy ((f(i := p)) b) \<longrightarrow> a = b)"
  by (auto split: if_splits)

lemma may_connect_idle: "may_connect p \<Longrightarrow> p \<noteq> ConnectOver None \<Longrightarrow> \<not> busy p \<and> \<not> made p \<and> (\<forall>n. \<not> owns p n) \<and> (\<forall>n. \<not> shown p n) \<and> \<not> hooked p"
  by (cases p) (auto simp: may_connect_def)

lemma dispatch_end_flags: "dispatch_end canceled cause c = Some c' \<Longrightarrow> cl_closed c' = cl_closed c \<and> cl_connected c' = False"
  by (auto simp: dispatch_end_def fail_subscriptions_def clearFileApprovals_def split: if_splits)

lemma close_threads_flags: "close_threads c = (c', hs) \<Longrightarrow> cl_closed c' = cl_closed c \<and> cl_connected c' = cl_connected c"
  by (auto simp: close_threads_def)

text \<open>A caller that moves on, from inside \<open>Connect\<close>: the part of the invariant on the callers.\<close>

lemma one_connect_move:
  assumes "one_connect s" and "busy (lc_connects s i)" and "made (lc_connects s i) \<longrightarrow> made p"
  shows "one_connect (set_connect i p s)"
proof -
  have "\<forall>a b. busy (((lc_connects s)(i := p)) a) \<and> busy (((lc_connects s)(i := p)) b) \<longrightarrow> a = b"
    using assms(1,2) unfolding one_connect_def by (intro unique_upd) simp_all
  moreover have "is_connected s \<longrightarrow> before_reset (lc_close s) \<and> (\<exists>j. made (((lc_connects s)(i := p)) j))"
    using assms(1,3) made_keep [of "lc_connects s" i p] unfolding one_connect_def by blast
  moreover have "\<not> is_closed s \<longrightarrow> lc_started s" using assms(1,2) unfolding one_connect_def by blast
  moreover have "(lc_close s = StillOpen \<longrightarrow> \<not> is_closed s) \<and> (lc_close s \<noteq> StillOpen \<longrightarrow> is_closed s)"
    using assms(1) unfolding one_connect_def by blast
  ultimately show ?thesis unfolding one_connect_def set_connect_simps by blast
qed

lemma one_connect_frame:
  "one_connect s \<Longrightarrow> lc_connects s' = lc_connects s \<Longrightarrow> lc_close s' = lc_close s \<Longrightarrow> lc_started s' = lc_started s \<Longrightarrow>
   is_closed s' = is_closed s \<Longrightarrow> (is_connected s' \<longrightarrow> is_connected s) \<Longrightarrow> one_connect s'"
  by (auto simp: one_connect_def)

lemma one_connect_cong:
  "one_connect s \<Longrightarrow> (\<And>j. busy (lc_connects s' j) = busy (lc_connects s j)) \<Longrightarrow>
   (\<And>j. made (lc_connects s' j) = made (lc_connects s j)) \<Longrightarrow> lc_close s' = lc_close s \<Longrightarrow> lc_started s' = lc_started s \<Longrightarrow>
   lc_client s' = lc_client s \<Longrightarrow> one_connect s'"
  unfolding one_connect_def by simp

lemma one_connect_close:
  "one_connect s \<Longrightarrow> lc_connects s' = lc_connects s \<Longrightarrow> lc_close s' \<noteq> StillOpen \<Longrightarrow> is_closed s' \<Longrightarrow>
   (is_connected s' \<longrightarrow> is_connected s \<and> before_reset (lc_close s')) \<Longrightarrow> one_connect s'"
  by (auto simp: one_connect_def)

lemma one_connect_made:
  "one_connect s \<Longrightarrow> made (lc_connects s i) \<Longrightarrow> before_reset (lc_close s) \<Longrightarrow> lc_connects s' = lc_connects s \<Longrightarrow>
   lc_close s' = lc_close s \<Longrightarrow> lc_started s' = lc_started s \<Longrightarrow> is_closed s' = is_closed s \<Longrightarrow> one_connect s'"
  unfolding one_connect_def by metis

lemma closed_phase: "one_connect s \<Longrightarrow> lc_close s \<noteq> StillOpen \<Longrightarrow> is_closed s"
  by (simp add: one_connect_def)

lemma not_open: "one_connect s \<Longrightarrow> is_closed s \<Longrightarrow> lc_close s \<noteq> StillOpen"
  by (auto simp: one_connect_def)

lemma connected_phase: "one_connect s \<Longrightarrow> is_connected s \<Longrightarrow> before_reset (lc_close s)"
  by (simp add: one_connect_def)

lemma one_connect_step:
  assumes "lc_step s s'" and ok: "one_connect s"
  shows "one_connect s'"
  using assms(1)
proof cases
  case (connect_begin i s1)
  note b = beginConnect_cases(1) [OF connect_begin(3)]
  then have idle: "\<not> busy (lc_connects s j)" for j using ok unfolding one_connect_def by blast
  have s': "s' = set_connect i Begun (s\<lparr>lc_started := True, lc_cancel := Some i\<rparr>)" using b connect_begin(1) by simp
  have "\<not> is_connected s" "lc_close s = StillOpen" "\<not> is_closed s" using b ok unfolding one_connect_def by blast+
  with idle show ?thesis by (simp add: one_connect_def s')
next
  case (connect_refused i e s1)
  note r = may_connect_idle [OF connect_refused(2,3)]
  have s': "s' = set_connect i (ConnectOver (Some e)) s" using connect_refused(1) beginConnect_cases(2) [OF connect_refused(4)] by simp
  have "busy (lc_connects s' j) = busy (lc_connects s j)" "made (lc_connects s' j) = made (lc_connects s j)" for j
    using r by (simp_all add: s')
  with ok show ?thesis by (rule one_connect_cong) (simp_all add: s')
next
  case (hook_bridge i)
  then show ?thesis using one_connect_move [of "s\<lparr>lc_bridge := True\<rparr>" i Hooked] one_connect_frame [OF ok] by simp
next
  case (spawn i)
  then show ?thesis
    using one_connect_move [of "s\<lparr>lc_live := insert (lc_next s) (lc_live s), lc_next := lc_next s + 1\<rparr>" i "Spawned (lc_next s)"]
      one_connect_frame [OF ok] by simp
next
  case (transport_published i n s1)
  with beginConnect_cases(3) [OF transport_published(3)] show ?thesis
    using one_connect_move [of "s\<lparr>lc_tr := Some n\<rparr>" i "Published n"] one_connect_frame [OF ok] by simp
next
  case (transport_refused i n e s1)
  with beginConnect_cases(4) [OF transport_refused(3)] show ?thesis using one_connect_move [OF ok] by simp
next
  case (dispatcher_started i n s1)
  note d = beginConnect_cases(5) [OF dispatcher_started(3)]
  with ok have "lc_close s = StillOpen" by (auto simp: one_connect_def)
  moreover have "one_connect (set_connect i (Clearing None) s)"
    using dispatcher_started one_connect_move [OF ok] by simp
  ultimately show ?thesis using d dispatcher_started(1)
    by (intro one_connect_made [of "set_connect i (Clearing None) s" i s']) (simp_all add: before_reset_def)
next
  case (dispatcher_refused i n e s1)
  with beginConnect_cases(6) [OF dispatcher_refused(3)] show ?thesis using one_connect_move [OF ok] by simp
next
  case (connect_close i n e)
  then show ?thesis using one_connect_move [of "close_transport n s" i "Unhooking e"] one_connect_frame [OF ok]
    by (simp add: close_transport_def)
next
  case (connect_unhook i e)
  then show ?thesis using one_connect_move [of "s\<lparr>lc_bridge := False\<rparr>" i "Clearing (Some e)"] one_connect_frame [OF ok] by simp
next
  case (connect_end i r)
  then show ?thesis using one_connect_move [of "clearConnectCancel i s" i "ConnectOver r"] one_connect_frame [OF ok]
    by (cases "lc_cancel s = Some i") (simp_all add: clearConnectCancel_def)
next
  case (client_work c)
  then show ?thesis using one_connect_frame [OF ok] by simp
next
  case (dispatcher_end canceled cause c)
  then show ?thesis using one_connect_frame [OF ok] dispatch_end_flags by fastforce
next
  case (close_drop t w c hs)
  with close_threads_flags [OF close_drop(3)] closed_phase [OF ok] one_connect_close [OF ok, of s']
  show ?thesis by (simp add: before_reset_def)
next
  case close_mark
  then show ?thesis using one_connect_close [OF ok, of s'] by (simp add: before_reset_def)
next
  case close_snapshot
  then show ?thesis using one_connect_close [OF ok, of s'] closed_phase [OF ok] by (simp add: before_reset_def)
next
  case (close_stopped t)
  then show ?thesis using one_connect_close [OF ok, of s'] closed_phase [OF ok] by (simp add: before_reset_def)
next
  case (close_gave_up t e)
  then show ?thesis using one_connect_close [OF ok, of s'] closed_phase [OF ok] by (simp add: before_reset_def)
next
  case (close_tr n w r)
  then show ?thesis using one_connect_close [OF ok, of s'] closed_phase [OF ok]
    by (simp add: before_reset_def close_transport_def)
next
  case (close_no_tr w)
  then show ?thesis using one_connect_close [OF ok, of s'] closed_phase [OF ok] by (simp add: before_reset_def)
next
  case (close_reset r w)
  then show ?thesis using one_connect_close [OF ok, of s'] closed_phase [OF ok] by (simp add: reset_client_def)
next
  case (close_unhook r w)
  then show ?thesis using one_connect_close [OF ok, of s'] closed_phase [OF ok] connected_phase [OF ok]
    by (auto simp: before_reset_def)
qed (use one_connect_move [OF ok] in simp_all)

text \<open>What may change without touching the ownership of the transports.\<close>

lemma taken_frame:
  "lc_close s' = lc_close s \<Longrightarrow> lc_tr s' = lc_tr s \<Longrightarrow> lc_live s' = lc_live s \<Longrightarrow> taken s' n = taken s n"
  by (cases "lc_close s") (simp_all add: taken_def)

lemma live_ok_frame:
  "live_ok s \<Longrightarrow> lc_connects s' = lc_connects s \<Longrightarrow> lc_close s' = lc_close s \<Longrightarrow> lc_tr s' = lc_tr s \<Longrightarrow>
   lc_live s' = lc_live s \<Longrightarrow> lc_next s' = lc_next s \<Longrightarrow> live_ok s'"
  using taken_frame [of s' s] unfolding live_ok_def by simp

lemma live_okI:
  assumes "\<And>n. n \<in> lc_live s \<Longrightarrow> (\<exists>i. owns (lc_connects s i) n) \<or>
      (taken s n \<and> (lc_close s = StillOpen \<longrightarrow> (\<exists>i. made (lc_connects s i))))"
    and "\<And>i n. shown (lc_connects s i) n \<Longrightarrow> taken s n" and "\<And>i n. owns (lc_connects s i) n \<Longrightarrow> n < lc_next s"
  shows "live_ok s"
  using assms by (simp add: live_ok_def)

lemma live_ok_cases:
  assumes "live_ok s" and "n \<in> lc_live s"
  obtains (owner) j where "owns (lc_connects s j) n"
  | (closer) "taken s n" "lc_close s = StillOpen \<longrightarrow> (\<exists>j. made (lc_connects s j))"
proof -
  from assms have "(\<exists>i. owns (lc_connects s i) n) \<or>
        (taken s n \<and> (lc_close s = StillOpen \<longrightarrow> (\<exists>i. made (lc_connects s i))))" by (simp add: live_ok_def)
  then show thesis using owner closer by (elim disjE exE conjE)
qed

text \<open>A caller moves on and keeps, or gives up to \<open>Close\<close>, what it owned.\<close>

lemma live_ok_move:
  assumes ok: "live_ok s"
    and kept: "\<And>n. owns (lc_connects s i) n \<Longrightarrow> n \<in> lc_live s \<Longrightarrow>
      owns p n \<or> (taken s n \<and> (lc_close s = StillOpen \<longrightarrow> made p))"
    and m: "made (lc_connects s i) \<Longrightarrow> made p"
    and sh: "\<And>n. shown p n \<Longrightarrow> taken s n" and ow: "\<And>n. owns p n \<Longrightarrow> n < lc_next s"
  shows "live_ok (set_connect i p s)"
proof -
  have t: "taken (set_connect i p s) n = taken s n" for n by (rule taken_frame) simp_all
  have "(\<exists>j. owns (((lc_connects s)(i := p)) j) n) \<or>
      (taken s n \<and> (lc_close s = StillOpen \<longrightarrow> (\<exists>j. made (((lc_connects s)(i := p)) j))))" if "n \<in> lc_live s" for n
  proof -
    from ok that show ?thesis
    proof (cases rule: live_ok_cases)
      case (owner j)
      show ?thesis
      proof (cases "j = i")
        case True
        with owner kept [OF _ that] show ?thesis by (metis fun_upd_same)
      next
        case False
        with owner show ?thesis by (metis fun_upd_other)
      qed
    next
      case closer
      with m made_keep [of "lc_connects s" i p] show ?thesis by blast
    qed
  qed
  moreover have "taken s n" if "shown (((lc_connects s)(i := p)) j) n" for j n
    using ok sh that unfolding live_ok_def by (cases "j = i") auto
  moreover have "n < lc_next s" if "owns (((lc_connects s)(i := p)) j) n" for j n
    using ok ow that unfolding live_ok_def by (cases "j = i") auto
  ultimately show ?thesis by (simp add: live_ok_def t del: fun_upd_apply)
qed

lemma live_okD: "live_ok s \<Longrightarrow> shown (lc_connects s i) n \<Longrightarrow> taken s n" "live_ok s \<Longrightarrow> owns (lc_connects s i) n \<Longrightarrow> n < lc_next s"
  by (auto simp: live_ok_def)

lemma live_ok_close:
  assumes ok: "live_ok s" and "lc_connects s' = lc_connects s" and "lc_next s' = lc_next s" and "lc_close s' \<noteq> StillOpen"
    and "lc_live s' \<subseteq> lc_live s" and t: "\<And>n. taken s n \<Longrightarrow> taken s' n"
  shows "live_ok s'"
  using assms unfolding live_ok_def by (metis subsetD)

lemma live_ok_step:
  assumes "lc_step s s'" and ok: "live_ok s" and one: "one_connect s"
  shows "live_ok s'"
  using assms(1)
proof cases
  case (connect_begin i s1)
  note b = beginConnect_cases(1) [OF connect_begin(3)]
  have "\<not> busy (lc_connects s i)" using b one unfolding one_connect_def by blast
  then have "\<not> made (lc_connects s i)" "\<And>n. \<not> owns (lc_connects s i) n" using made_busy owns_busy by blast+
  moreover have "live_ok s1" using b by (intro live_ok_frame [OF ok]) simp_all
  ultimately show ?thesis using b connect_begin(1) live_ok_move [of s1 i Begun] by simp
next
  case (connect_refused i e s1)
  note r = may_connect_idle [OF connect_refused(2,3)]
  with connect_refused(1) beginConnect_cases(2) [OF connect_refused(4)] show ?thesis
    using live_ok_move [OF ok, of i "ConnectOver (Some e)"] by simp
next
  case (hook_bridge i)
  then show ?thesis using live_ok_move [of "s\<lparr>lc_bridge := True\<rparr>" i Hooked] live_ok_frame [OF ok] by simp
next
  case (spawn i)
  have t: "taken s' n = taken s n" if "n \<noteq> lc_next s" for n
    using that spawn(1) by (auto simp: taken_def split: closePhase.splits)
  have f: "lc_connects s' = (lc_connects s)(i := Spawned (lc_next s))" "lc_live s' = insert (lc_next s) (lc_live s)"
    "lc_next s' = lc_next s + 1" "lc_close s' = lc_close s" using spawn(1) by simp_all
  have next_free: "owns (lc_connects s j) n \<Longrightarrow> n \<noteq> lc_next s" for j n using live_okD(2) [OF ok, of j n] by auto
  have "(\<exists>j. owns (lc_connects s' j) n) \<or> (taken s' n \<and> (lc_close s' = StillOpen \<longrightarrow> (\<exists>j. made (lc_connects s' j))))"
    if n: "n \<in> lc_live s'" for n
  proof (cases "n = lc_next s")
    case True
    then show ?thesis using f(1) by (intro disjI1 exI [of _ i]) simp
  next
    case False
    with n f(2) have "n \<in> lc_live s" by simp
    with ok show ?thesis
    proof (cases rule: live_ok_cases)
      case (owner j)
      then have "j \<noteq> i" using spawn(2) by auto
      with owner f(1) show ?thesis by (intro disjI1 exI [of _ j]) simp
    next
      case closer
      with False t f(1,4) spawn(2) made_keep [of "lc_connects s" i] show ?thesis by auto
    qed
  qed
  moreover have "taken s' n" if "shown (lc_connects s' j) n" for j n
    using that f(1) t live_okD(1) [OF ok, of j n] next_free [of j n] shown_owns by (cases "j = i") auto
  moreover have "n < lc_next s'" if "owns (lc_connects s' j) n" for j n
    using that f(1,3) live_okD(2) [OF ok, of j n] by (cases "j = i") auto
  ultimately show ?thesis by (intro live_okI) blast+
next
  case (transport_published i n s1)
  note p = beginConnect_cases(3) [OF transport_published(3)]
  have open_phase: "lc_close s = StillOpen" using p one unfolding one_connect_def by blast
  have alone: "j = i" if "busy (lc_connects s j)" for j
    using that one transport_published(2) unfolding one_connect_def by (metis phase_simps(3))
  have none_made: "\<not> made (lc_connects s j)" for j
    using alone [of j] made_busy [of "lc_connects s j"] transport_published(2) by auto
  have only: "m = n" if m: "m \<in> lc_live s" for m
  proof -
    obtain j where j: "owns (lc_connects s j) m"
      using ok m by (cases rule: live_ok_cases) (use none_made open_phase in auto)
    with alone [of j] owns_busy [OF j] transport_published(2) show ?thesis by simp
  qed
  have "taken s' m" if "shown (lc_connects s' j) m" for j m
  proof (cases "j = i")
    case True
    with that transport_published(1) p open_phase show ?thesis by (simp add: taken_def)
  next
    case False
    with that transport_published(1) p have "owns (lc_connects s j) m" using shown_owns by simp
    with alone [of j] owns_busy False show ?thesis by blast
  qed
  moreover have "\<exists>j. owns (lc_connects s' j) m" if "m \<in> lc_live s'" for m
    using only that transport_published(1) p by (intro exI [of _ i]) simp
  moreover have "m < lc_next s'" if "owns (lc_connects s' j) m" for j m
    using that transport_published(1,2) p live_okD(2) [OF ok, of j m] live_okD(2) [OF ok, of i n] by (cases "j = i") auto
  ultimately show ?thesis by (intro live_okI) blast+
next
  case (transport_refused i n e s1)
  with beginConnect_cases(4) [OF transport_refused(3)] live_okD(2) [OF ok, of i n]
    live_ok_move [OF ok, of i "ClosingTransport n e"] show ?thesis by simp
next
  case (handshake i n)
  with live_okD [OF ok, of i n] live_ok_move [OF ok, of i "Accepted n"] show ?thesis by simp
next
  case (handshake_failed i n e)
  with live_okD [OF ok, of i n] not_open [OF one] show ?thesis
    by (auto simp: after_connect_error_def intro!: live_ok_move [OF ok])
next
  case (dispatcher_started i n s1)
  note d = beginConnect_cases(5) [OF dispatcher_started(3)]
  have "live_ok s1" using d by (intro live_ok_frame [OF ok]) simp_all
  moreover have "taken s1 n" using d live_okD(1) [OF ok, of i n] dispatcher_started(2) taken_frame [of s1 s n] by simp
  ultimately show ?thesis using dispatcher_started(1,2) d by (auto intro!: live_ok_move)
next
  case (dispatcher_refused i n e s1)
  with beginConnect_cases(6) [OF dispatcher_refused(3)] live_okD [OF ok, of i n] not_open [OF one]
  show ?thesis by (auto simp: after_connect_error_def intro!: live_ok_move [OF ok])
next
  case (connect_close i n e)
  have alone: "j = i" if "busy (lc_connects s j)" for j
    using that one connect_close(2) unfolding one_connect_def by (metis phase_simps(6))
  have t: "taken s m \<Longrightarrow> taken s' m" for m
    using connect_close(1) by (auto simp: taken_def close_transport_def split: closePhase.splits)
  have f: "lc_live s' = lc_live s - {n}" "lc_connects s' = (lc_connects s)(i := Unhooking e)" "lc_next s' = lc_next s"
    "lc_close s' = lc_close s" using connect_close(1) by (simp_all add: close_transport_def)
  have none: "\<not> owns (lc_connects s' j) m" for j m
    using alone [of j] owns_busy [of "lc_connects s j" m] f(2) by (cases "j = i") auto
  then have "\<not> shown (lc_connects s' j) m" for j m using shown_owns by blast
  moreover have "taken s' m \<and> (lc_close s' = StillOpen \<longrightarrow> (\<exists>j. made (lc_connects s' j)))" if m: "m \<in> lc_live s'" for m
  proof -
    have "m \<in> lc_live s" using m f(1) by simp
    with ok show ?thesis
    proof (cases rule: live_ok_cases)
      case (owner j)
      with alone [of j] owns_busy [OF owner] connect_close(2) f(1) m show ?thesis by auto
    next
      case closer
      with t f(2,4) connect_close(2) made_keep [of "lc_connects s" i] show ?thesis by auto
    qed
  qed
  ultimately show ?thesis using none by (intro live_okI) blast+
next
  case (connect_unhook i e)
  then show ?thesis using live_ok_move [of "s\<lparr>lc_bridge := False\<rparr>" i "Clearing (Some e)"] live_ok_frame [OF ok] by simp
next
  case (connect_end i r)
  then show ?thesis using live_ok_move [of "clearConnectCancel i s" i "ConnectOver r"] live_ok_frame [OF ok]
    by (cases "lc_cancel s = Some i") (simp_all add: clearConnectCancel_def)
next
  case (client_work c)
  then show ?thesis using live_ok_frame [OF ok] by simp
next
  case (dispatcher_end canceled cause c)
  then show ?thesis using live_ok_frame [OF ok] by simp
next
  case (close_tr n w r)
  then show ?thesis by (intro live_ok_close [OF ok]) (auto simp: taken_def close_transport_def)
next
  case (close_no_tr w)
  then show ?thesis by (intro live_ok_close [OF ok]) (auto simp: taken_def)
next
  case (close_reset r w)
  then show ?thesis by (intro live_ok_close [OF ok]) (simp_all add: taken_def reset_client_def)
next
  case (no_hooks i)
  then show ?thesis using live_ok_move [OF ok, of i Hooked] by simp
next
  case (hook_failed i e)
  then show ?thesis using live_ok_move [OF ok, of i "Unhooking e"] by simp
next
  case (spawn_failed i e)
  then show ?thesis using live_ok_move [OF ok, of i "Unhooking e"] by simp
next
  case (close_unhook r w)
  then show ?thesis by (intro live_ok_close [OF ok]) (simp_all add: taken_def)
next
  case close_mark
  then show ?thesis by (intro live_ok_close [OF ok]) (simp_all add: taken_def)
next
  case close_snapshot
  then show ?thesis by (intro live_ok_close [OF ok]) (simp_all add: taken_def)
next
  case (close_stopped t)
  then show ?thesis by (intro live_ok_close [OF ok]) (simp_all add: taken_def)
next
  case (close_gave_up t e)
  then show ?thesis by (intro live_ok_close [OF ok]) (simp_all add: taken_def)
next
  case (close_drop t w c hs)
  then show ?thesis by (intro live_ok_close [OF ok]) (simp_all add: taken_def)
qed

lemma bridge_ok_move:
  assumes "bridge_ok s" and "hooked (lc_connects s i) \<Longrightarrow> lc_bridge s' \<Longrightarrow> hooked p \<or> closing (lc_close s) \<or> (lc_close s = StillOpen \<and> made p)"
    and "made (lc_connects s i) \<Longrightarrow> made p" and "lc_bridge s' \<Longrightarrow> lc_bridge s \<or> hooked p"
    and "lc_connects s' = (lc_connects s)(i := p)" and "lc_close s' = lc_close s"
  shows "bridge_ok s'"
proof -
  have h: "hooked (lc_connects s' j) = (if j = i then hooked p else hooked (lc_connects s j))"
    "made (lc_connects s' j) = (if j = i then made p else made (lc_connects s j))" for j using assms(5) by simp_all
  show ?thesis unfolding bridge_ok_def
  proof (intro impI)
    assume b: "lc_bridge s'"
    show "(\<exists>j. hooked (lc_connects s' j)) \<or> closing (lc_close s') \<or> (lc_close s' = StillOpen \<and> (\<exists>j. made (lc_connects s' j)))"
      using assms(1-4,6) b h unfolding bridge_ok_def by metis
  qed
qed

lemma bridge_ok_frame:
  "bridge_ok s \<Longrightarrow> lc_connects s' = lc_connects s \<Longrightarrow> lc_close s' = lc_close s \<Longrightarrow> lc_bridge s' = lc_bridge s \<Longrightarrow> bridge_ok s'"
  by (simp add: bridge_ok_def)

lemma bridge_ok_closing: "closing (lc_close s) \<Longrightarrow> bridge_ok s"
  by (simp add: bridge_ok_def)

lemma bridge_ok_step:
  assumes "lc_step s s'" and ok: "bridge_ok s" and one: "one_connect s"
  shows "bridge_ok s'"
  using assms(1)
proof cases
  case (connect_begin i s1)
  note b = beginConnect_cases(1) [OF connect_begin(3)]
  have "\<not> busy (lc_connects s i)" using b one unfolding one_connect_def by blast
  then have "\<not> made (lc_connects s i)" "\<not> hooked (lc_connects s i)" using made_busy hooked_busy by blast+
  with b connect_begin(1) show ?thesis by (intro bridge_ok_move [OF ok, of i s' Begun]) simp_all
next
  case (connect_refused i e s1)
  with may_connect_idle [OF connect_refused(2,3)] beginConnect_cases(2) [OF connect_refused(4)] show ?thesis
    by (intro bridge_ok_move [OF ok, of i s' "ConnectOver (Some e)"]) simp_all
next
  case (hook_bridge i)
  then show ?thesis by (intro bridge_ok_move [OF ok, of i s' Hooked]) simp_all
next
  case (no_hooks i)
  then show ?thesis by (intro bridge_ok_move [OF ok, of i s' Hooked]) simp_all
next
  case (hook_failed i e)
  then show ?thesis by (intro bridge_ok_move [OF ok, of i s' "Unhooking e"]) simp_all
next
  case (spawn i)
  then show ?thesis by (intro bridge_ok_move [OF ok, of i s' "Spawned (lc_next s)"]) simp_all
next
  case (spawn_failed i e)
  then show ?thesis by (intro bridge_ok_move [OF ok, of i s' "Unhooking e"]) simp_all
next
  case (transport_published i n s1)
  with beginConnect_cases(3) [OF transport_published(3)] show ?thesis
    by (intro bridge_ok_move [OF ok, of i s' "Published n"]) simp_all
next
  case (transport_refused i n e s1)
  with beginConnect_cases(4) [OF transport_refused(3)] show ?thesis
    by (intro bridge_ok_move [OF ok, of i s' "ClosingTransport n e"]) simp_all
next
  case (handshake i n)
  then show ?thesis by (intro bridge_ok_move [OF ok, of i s' "Accepted n"]) simp_all
next
  case (handshake_failed i n e)
  then show ?thesis by (intro bridge_ok_move [OF ok, of i s' "after_connect_error n e s"]) (simp_all add: after_connect_error_def)
next
  case (dispatcher_started i n s1)
  note d = beginConnect_cases(5) [OF dispatcher_started(3)]
  then have "lc_close s = StillOpen" using one by (auto simp: one_connect_def)
  with d dispatcher_started show ?thesis by (intro bridge_ok_move [OF ok, of i s' "Clearing None"]) simp_all
next
  case (dispatcher_refused i n e s1)
  with beginConnect_cases(6) [OF dispatcher_refused(3)] show ?thesis
    by (intro bridge_ok_move [OF ok, of i s' "after_connect_error n e s"]) (simp_all add: after_connect_error_def)
next
  case (connect_close i n e)
  then show ?thesis by (intro bridge_ok_move [OF ok, of i s' "Unhooking e"]) (simp_all add: close_transport_def)
next
  case (connect_unhook i e)
  then show ?thesis by (simp add: bridge_ok_def)
next
  case (connect_end i r)
  then show ?thesis by (intro bridge_ok_move [OF ok, of i s' "ConnectOver r"]) (auto simp: clearConnectCancel_def split: if_splits)
next
  case (client_work c)
  then show ?thesis using bridge_ok_frame [OF ok] by simp
next
  case (dispatcher_end canceled cause c)
  then show ?thesis using bridge_ok_frame [OF ok] by simp
next
  case (close_unhook r w)
  then show ?thesis by (simp add: bridge_ok_def)
qed (simp_all add: bridge_ok_closing closing_def)

definition lc_ok :: "lifecycle \<Rightarrow> bool" where "lc_ok s = (one_connect s \<and> live_ok s \<and> bridge_ok s)"

lemma lc_ok_step: "lc_step s s' \<Longrightarrow> lc_ok s \<Longrightarrow> lc_ok s'"
  unfolding lc_ok_def using one_connect_step live_ok_step bridge_ok_step by blast

interpretation life: step_invariant NewClient lc_step lc_ok
  by unfold_locales
    (simp add: lc_ok_def NewClient_def one_connect_def live_ok_def bridge_ok_def new_client_def, rule lc_ok_step)

section \<open>Properties\<close>

text \<open>C9: Whatever the interleaving of \<open>Connect\<close>, \<open>Close\<close> and the dispatcher, nothing is left behind: when no
  caller is inside \<open>Connect\<close> and either \<open>Close\<close> has returned or no connection was ever made, no
  subprocess runs, no hook bridge is installed and the client does not count as connected.\<close>

theorem client_leaves_nothing_behind:
  assumes "lc_reach s" and "\<And>i. may_connect (lc_connects s i)"
    and "(\<exists>r. lc_close s = CloseOver r) \<or> (lc_close s = StillOpen \<and> (\<forall>i. lc_connects s i \<noteq> ConnectOver None))"
  shows "lc_live s = {} \<and> \<not> lc_bridge s \<and> \<not> is_connected s"
proof -
  have ok: "one_connect s" "live_ok s" "bridge_ok s" using life.reach_ok [OF assms(1)] by (auto simp: lc_ok_def)
  have idle: "\<not> owns (lc_connects s i) n" "\<not> hooked (lc_connects s i)" for i n
    using assms(2) [of i] by (auto simp: may_connect_def split: connectPhase.splits)
  have unmade: "\<not> made (lc_connects s i)" if "lc_close s = StillOpen" for i
    using assms(2) [of i] assms(3) that
    by (cases "lc_connects s i") (auto simp: may_connect_def dest: spec [of _ i])
  have "n \<notin> lc_live s" for n
  proof
    assume n: "n \<in> lc_live s"
    with ok(2) show False
      by (cases rule: live_ok_cases) (use n idle unmade assms(3) in \<open>auto simp: taken_def\<close>)
  qed
  moreover have "\<not> lc_bridge s" using ok(3) idle unmade assms(3) by (auto simp: bridge_ok_def closing_def)
  moreover have "\<not> is_connected s" using ok(1) unmade assms(3) by (auto simp: one_connect_def before_reset_def)
  ultimately show ?thesis by auto
qed

text \<open>A client connects at most once in its life, and never after \<open>Close\<close> has begun.\<close>

lemma connects_once:
  assumes "lc_reach s" and "made (lc_connects s i)" and "made (lc_connects s j)"
  shows "i = j"
  using life.reach_ok [OF assms(1)] made_busy [OF assms(2)] made_busy [OF assms(3)]
  unfolding lc_ok_def one_connect_def by blast

definition sample_failed :: lifecycle where
  "sample_failed = (let s = set_connect 0 Begun (snd (beginConnect 0 NewClient));
       s1 = set_connect 0 (Unhooking (ErrText ''no home'')) s;
       s2 = set_connect 0 (Clearing (Some (ErrText ''no home''))) (s1\<lparr>lc_bridge := False\<rparr>)
     in set_connect 0 (ConnectOver (Some (ErrText ''no home''))) (clearConnectCancel 0 s2))"

lemma sample_failed_reach: "lc_reach sample_failed"
proof -
  have "beginConnect 0 NewClient = (None, snd (beginConnect 0 NewClient))"
    by (simp add: beginConnect_def NewClient_def new_client_def)
  then have "lc_reach (set_connect 0 Begun (snd (beginConnect 0 NewClient)))"
    by (intro lc_go [OF lc_start connect_begin]) (simp_all add: NewClient_def may_connect_def)
  then have "lc_reach (set_connect 0 (Unhooking (ErrText ''no home'')) (set_connect 0 Begun (snd (beginConnect 0 NewClient))))"
    by (rule lc_go [OF _ hook_failed]) simp
  then have "lc_reach (set_connect 0 (Clearing (Some (ErrText ''no home'')))
      ((set_connect 0 (Unhooking (ErrText ''no home'')) (set_connect 0 Begun (snd (beginConnect 0 NewClient))))\<lparr>lc_bridge := False\<rparr>))"
    by (rule lc_go [OF _ connect_unhook]) simp
  then show ?thesis unfolding sample_failed_def Let_def by (rule lc_go [OF _ connect_end]) simp
qed

theorem client_leaves_nothing_behind_witness:
  "lc_connects sample_failed 0 = ConnectOver (Some (ErrText ''no home'')) \<and> lc_live sample_failed = {} \<and>
   \<not> lc_bridge sample_failed"
proof -
  have c: "lc_connects sample_failed = (\<lambda>i. NotConnecting)(0 := ConnectOver (Some (ErrText ''no home'')))"
    "lc_close sample_failed = StillOpen"
    by (auto simp: sample_failed_def Let_def clearConnectCancel_def beginConnect_def NewClient_def new_client_def)
  then have "may_connect (lc_connects sample_failed i)" for i by (simp add: may_connect_def)
  from client_leaves_nothing_behind [OF sample_failed_reach this] c show ?thesis by simp
qed

end
