(* ===== verification/Connect_Diagnostics.thy ===== *)
theory Connect_Diagnostics
  imports Options Errors
begin

text \<open>
  What \<open>Connect\<close> sends and logs (\<open>client.go\<close>): the parameters of \<open>initialize\<close>, the kind of its failure and
  the redacted tail of the subprocess's stderr that goes to the log.
\<close>

section \<open>Initialize\<close>

definition buildInitializeParams :: "codexOptions \<Rightarrow> json" where
  "buildInitializeParams opts = marshal_map
     [(''clientInfo'', marshal_map [(''name'', JStr (co_ClientName opts)), (''version'', JStr (co_ClientVersion opts)),
        (''title'', JStr (co_ClientTitle opts))]),
      (''capabilities'', marshal_map ((''experimentalApi'', JBool (co_ExperimentalAPI opts)) #
        omit_strs ''optOutNotificationMethods'' (co_OptOutNotificationMethods opts)))]"

definition is_RPCError :: "goError \<Rightarrow> bool" where
  "is_RPCError e = (case e of RPCError c m d \<Rightarrow> True | _ \<Rightarrow> False)"

definition initializeFailureKind :: "goError \<Rightarrow> string" where
  "initializeFailureKind err =
     (if errors_is ErrContextDeadlineExceeded err then ''deadline_exceeded''
      else if errors_is ErrContextCanceled err then ''context_canceled''
      else if errors_as is_RPCError err then ''rpc_error''
      else ''other'')"

section \<open>Redaction\<close>

definition stderrDiagnosticTailLimit :: nat where "stderrDiagnosticTailLimit = 2048"

definition redactedStderrLine :: string where "redactedStderrLine = ''<redacted>''"

definition controlProtocolInitializationFailed :: string where
  "controlProtocolInitializationFailed = ''control protocol initialization failed''"

text \<open>\<open>strings.SplitAfter\<close> at newlines.\<close>

fun split_after :: "string \<Rightarrow> string list" where
  "split_after [] = [[]]"
| "split_after (c # s) = (if c = lf then [c] # split_after s
     else (case split_after s of [] \<Rightarrow> [[c]] | w # ws \<Rightarrow> (c # w) # ws))"

definition chomp :: "string \<Rightarrow> string \<times> string" where
  "chomp line = (if has_suffix line [lf] then (butlast line, [lf]) else (line, []))"

definition redactStderrDiagnosticLine :: "string \<Rightarrow> string" where
  "redactStderrDiagnosticLine line =
     (if line = [] then []
      else (case chomp line of (body, ending) \<Rightarrow>
        (if trim_space body = [] then ending
         else if has_prefix (trim_space body) controlProtocolInitializationFailed
         then controlProtocolInitializationFailed @ ending
         else redactedStderrLine @ ending)))"

definition redactStderrDiagnosticLines :: "string \<Rightarrow> string" where
  "redactStderrDiagnosticLines stderr = concat (map redactStderrDiagnosticLine (split_after stderr))"

definition redactedStderrDiagnosticTail :: "string \<Rightarrow> string" where
  "redactedStderrDiagnosticTail stderr =
     (if stderr = [] then []
      else (let r = redactStderrDiagnosticLines stderr in
        if stderrDiagnosticTailLimit < length r
        then ''[truncated]'' @ [lf] @ drop (length r - stderrDiagnosticTailLimit) r else r))"

text \<open>What a line may show: whether it is blank, whether it begins with the one message that is known to hold
  no secret, and whether it is complete.\<close>

definition line_class :: "string \<Rightarrow> bool \<times> bool \<times> bool" where
  "line_class line = (case chomp line of (body, ending) \<Rightarrow>
     (trim_space body = [], has_prefix (trim_space body) controlProtocolInitializationFailed, ending = []))"

definition shown_for :: "bool \<times> bool \<times> bool \<Rightarrow> string" where
  "shown_for c = (case c of (blank, known, open_end) \<Rightarrow>
     (if blank then [] else if known then controlProtocolInitializationFailed else redactedStderrLine) @
     (if open_end then [] else [lf]))"

lemma redact_line_class: "redactStderrDiagnosticLine line = shown_for (line_class line)"
proof (cases "line = []")
  case True
  then show ?thesis
    by (simp add: redactStderrDiagnosticLine_def shown_for_def line_class_def chomp_def trim_space_def has_suffix_def has_prefix_def)
next
  case False
  then show ?thesis
    by (auto simp: redactStderrDiagnosticLine_def shown_for_def line_class_def chomp_def)
qed

lemma redact_lines_class:
  "redactStderrDiagnosticLines s = concat (map shown_for (map line_class (split_after s)))"
  unfolding redactStderrDiagnosticLines_def by (simp add: redact_line_class cong: map_cong)

lemma split_after_nonempty: "split_after s \<noteq> []"
  by (induction s) (auto split: list.splits)

section \<open>Properties\<close>

text \<open>C37: No content of the subprocess's stderr reaches the log: two outputs whose lines are blank, known and
  terminated alike give the same text, whatever their other bytes, and that text is at most the limit
  and the mark of truncation long.\<close>

theorem stderr_redaction_hides_content:
  assumes "map line_class (split_after s) = map line_class (split_after t)" and "s \<noteq> []" and "t \<noteq> []"
  shows "redactedStderrDiagnosticTail s = redactedStderrDiagnosticTail t \<and>
     length (redactedStderrDiagnosticTail s) \<le> 2048 + 12"
proof -
  have "redactStderrDiagnosticLines s = redactStderrDiagnosticLines t"
    using assms(1) by (simp only: redact_lines_class)
  with assms(2,3) have "redactedStderrDiagnosticTail s = redactedStderrDiagnosticTail t"
    by (simp add: redactedStderrDiagnosticTail_def)
  moreover have "length (redactedStderrDiagnosticTail s) \<le> 2048 + 12"
    by (simp add: redactedStderrDiagnosticTail_def stderrDiagnosticTailLimit_def Let_def)
  ultimately show ?thesis by blast
qed

theorem stderr_redaction_hides_content_witness:
  "redactedStderrDiagnosticTail (''token=abc'' @ [lf] @ ''x'') = redactedStderrDiagnosticTail (''token=zzzz'' @ [lf] @ ''yy'')"
proof -
  have "map line_class (split_after (''token=abc'' @ [lf] @ ''x'')) = map line_class (split_after (''token=zzzz'' @ [lf] @ ''yy''))"
    by code_simp
  from stderr_redaction_hides_content [OF this] show ?thesis by simp
qed

text \<open>A failure of the handshake is classified through every layer of wrapping.\<close>

lemma initialize_timeout_kind:
  "initializeFailureKind (ErrWrap m (CLIConnectionError n (Some (Sentinel ErrContextDeadlineExceeded)))) = ''deadline_exceeded''"
  by (simp add: initializeFailureKind_def errors_is_def)

end
