(* ===== verification/Hook_Install.thy ===== *)
theory Hook_Install
  imports Hook_Decision
begin

text \<open>
  The installation of the hook bridge (\<open>client_hookbridge.go\<close>): the place of the socket, the two modes of
  installing \<open>hooks.json\<close>, the backup of the user's file, its restoration on close and the recovery of the
  backups that a crashed run left. The directory \<open>~/.codex\<close> is a list of named files with their contents and
  modification times (seconds); the results of reading, writing and removing a file, the clock, the
  process id and the shim are parameters, and so is the text that \<open>json.MarshalIndent\<close> gives.
\<close>

section \<open>Files\<close>

record dirFile =
  fl_data :: string
  fl_mtime :: int
  fl_isdir :: bool

type_synonym directory = "(string \<times> dirFile) list"

text \<open>The error of reading the directory comes with whether it says that there is none. What a write does: all of it, nothing, or an error after the file was truncated, with what is left.\<close>

datatype writeResult = Written | Refused goError | Torn goError string

record io =
  io_readErr :: "string \<Rightarrow> goError option"
  io_write :: "string \<Rightarrow> writeResult"
  io_removable :: "string \<Rightarrow> bool"
  io_mkdirErr :: "goError option"
  io_readDirErr :: "(goError \<times> bool) option"
  io_now :: int

definition file_of :: "string \<Rightarrow> int \<Rightarrow> dirFile" where
  "file_of d t = \<lparr>fl_data = d, fl_mtime = t, fl_isdir = False\<rparr>"

text \<open>\<open>Inr None\<close> is a file that does not exist.\<close>

definition ReadFile :: "io \<Rightarrow> string \<Rightarrow> directory \<Rightarrow> goError + string option" where
  "ReadFile i name d = (case map_of d name of
      None \<Rightarrow> Inr None
    | Some f \<Rightarrow> (case io_readErr i name of Some e \<Rightarrow> Inl e | None \<Rightarrow> Inr (Some (fl_data f))))"

definition WriteFile :: "io \<Rightarrow> string \<Rightarrow> string \<Rightarrow> directory \<Rightarrow> goError option \<times> directory" where
  "WriteFile i name data d = (case io_write i name of
      Written \<Rightarrow> (None, put name (file_of data (io_now i)) d)
    | Refused e \<Rightarrow> (Some e, d)
    | Torn e left \<Rightarrow> (Some e, put name (file_of left (io_now i)) d))"

definition RemoveFile :: "io \<Rightarrow> string \<Rightarrow> directory \<Rightarrow> directory" where
  "RemoveFile i name d = (if io_removable i name then drop_key name d else d)"

definition readIfExists :: "io \<Rightarrow> string \<Rightarrow> directory \<Rightarrow> goError + string option" where
  "readIfExists i name d = ReadFile i name d"

section \<open>Backups\<close>

definition hookBackupSuffix :: string where "hookBackupSuffix = ''.sdk-backup''"

definition staleBackupAge :: int where "staleBackupAge = 60"

definition hooksJSONTimeoutSeconds :: int where "hooksJSONTimeoutSeconds = 30"

definition hooks_name :: string where "hooks_name = ''hooks.json''"

definition backup_prefix :: string where "backup_prefix = hooks_name @ hookBackupSuffix"

definition backup_name :: "nat \<Rightarrow> string" where "backup_name pid = backup_prefix @ CHR ''-'' # itoa pid"

definition is_backup :: "string \<times> dirFile \<Rightarrow> bool" where
  "is_backup e = (\<not> fl_isdir (snd e) \<and> has_prefix (fst e) backup_prefix)"

definition is_stale :: "io \<Rightarrow> dirFile \<Rightarrow> bool" where
  "is_stale i f = (staleBackupAge \<le> io_now i - fl_mtime f)"

text \<open>A fresh backup of another process is refused.\<close>

definition concurrent_backups :: "io \<Rightarrow> nat \<Rightarrow> directory \<Rightarrow> directory" where
  "concurrent_backups i pid d = filter (\<lambda>e. is_backup e \<and> \<not> has_suffix (fst e) (CHR ''-'' # itoa pid) \<and> \<not> is_stale i (snd e)) d"

definition detectConcurrentSDK :: "io \<Rightarrow> nat \<Rightarrow> directory \<Rightarrow> goError option" where
  "detectConcurrentSDK i pid d = (case io_readDirErr i of
      Some (e, missing) \<Rightarrow> (if missing then None else Some (ErrWrap ''detectConcurrentSDK: read'' e))
    | None \<Rightarrow> (case concurrent_backups i pid d of
        [] \<Rightarrow> None
      | e # es \<Rightarrow> Some (ErrText (''concurrent codex SDK Client detected (fresh backup at '' @ fst e @ '')''))))"

fun oldest_of :: "string \<times> dirFile \<Rightarrow> directory \<Rightarrow> string \<times> dirFile" where
  "oldest_of best [] = best"
| "oldest_of best (s # ss) = oldest_of (if fl_mtime (snd s) < fl_mtime (snd best) then s else best) ss"

definition recoverStaleBackups :: "io \<Rightarrow> directory \<Rightarrow> directory" where
  "recoverStaleBackups i d =
     (if io_readDirErr i \<noteq> None then d
      else (case filter (\<lambda>e. is_backup e \<and> is_stale i (snd e)) d of
          [] \<Rightarrow> d
        | s # ss \<Rightarrow>
            (case ReadFile i (fst (oldest_of s ss)) d of
               Inl e \<Rightarrow> d
             | Inr None \<Rightarrow> d
             | Inr (Some data) \<Rightarrow> (case WriteFile i hooks_name data d of
                   (Some e, d1) \<Rightarrow> d1
                 | (None, d1) \<Rightarrow> foldl (\<lambda>d x. RemoveFile i (fst x) d) d1 (s # ss)))))"

section \<open>Installing and restoring\<close>

text \<open>What \<open>filepath.Join\<close> makes of a directory and a name: a file of \<open>~/.codex\<close>, or of a directory that
  \<open>os.MkdirTemp\<close> made, which is never \<open>~/.codex\<close>. The empty path of the code is \<open>NoPath\<close>.\<close>

datatype filePath = NoPath | InUserDir string | InTempDir string string

text \<open>What the client remembers for its close.\<close>

record hookInstall =
  hi_hooksPath :: filePath
  hi_backupPath :: filePath
  hi_hadUser :: bool

definition no_install :: hookInstall where
  "no_install = \<lparr>hi_hooksPath = NoPath, hi_backupPath = NoPath, hi_hadUser = False\<rparr>"

definition undo_backup :: "io \<Rightarrow> nat \<Rightarrow> bool \<Rightarrow> hookInstall \<times> directory \<Rightarrow> hookInstall \<times> directory" where
  "undo_backup i pid hadOriginal st = (if hadOriginal
     then ((fst st)\<lparr>hi_backupPath := NoPath\<rparr>, RemoveFile i (backup_name pid) (snd st)) else st)"

definition installHooksJSON ::
  "(json \<Rightarrow> string) \<Rightarrow> io \<Rightarrow> nat \<Rightarrow> string \<Rightarrow> hookInstall \<Rightarrow> directory \<Rightarrow> goError option \<times> hookInstall \<times> directory" where
  "installHooksJSON indent i pid shimPath h d0 =
     (case io_mkdirErr i of Some e \<Rightarrow> (Some (ErrWrap ''ensure codex dir'' e), h, d0) | None \<Rightarrow>
      (let d = recoverStaleBackups i d0 in
      case detectConcurrentSDK i pid d of
        Some e \<Rightarrow> (Some e, h, d)
      | None \<Rightarrow> (case readIfExists i hooks_name d of
          Inl e \<Rightarrow> (Some (ErrWrap ''read existing hooks.json'' e), h, d)
        | Inr original \<Rightarrow>
            (case (case original of None \<Rightarrow> (None, d) | Some data \<Rightarrow> WriteFile i (backup_name pid) data d) of
               (Some e, d1) \<Rightarrow> (Some (ErrWrap ''write hooks.json backup'' e), h, d1)
             | (None, d1) \<Rightarrow>
                 (let had = original \<noteq> None; h1 = (if had then h\<lparr>hi_backupPath := InUserDir (backup_name pid)\<rparr> else h) in
                  case GenerateHooksJSON shimPath hooksJSONTimeoutSeconds of
                    Inl e \<Rightarrow> (Some (ErrWrap ''generate hooks.json'' e), undo_backup i pid had (h1, d1))
                  | Inr cfg \<Rightarrow> (case WriteFile i hooks_name (indent cfg) d1 of
                        (Some e, d2) \<Rightarrow> (Some (ErrWrap ''write hooks.json'' e), undo_backup i pid had (h1, d2))
                      | (None, d2) \<Rightarrow> (None, h1\<lparr>hi_hooksPath := InUserDir hooks_name, hi_hadUser := had\<rparr>, d2)))))))"

section \<open>Setting up the bridge\<close>

definition maxUnixSocketLen :: nat where "maxUnixSocketLen = 103"

text \<open>\<open>made\<close> is what \<open>os.MkdirTemp\<close> gives; the result is the socket, the directory to remove on close, and
  the directories that exist.\<close>

definition relocateHookSocketUnderPrivateDir :: "string \<Rightarrow> goError + string \<Rightarrow> string list \<Rightarrow> (string \<times> string) \<times> string list" where
  "relocateHookSocketUnderPrivateDir preferred made dirs =
     (if length preferred \<le> maxUnixSocketLen then ((preferred, []), dirs)
      else (case made of
          Inl e \<Rightarrow> ((preferred, []), dirs)
        | Inr d \<Rightarrow> (if maxUnixSocketLen < length (d @ ''/h.sock'') then ((preferred, []), dirs)
            else ((d @ ''/h.sock'', d), d # dirs))))"

definition hookSocketFallbackDir :: "string \<Rightarrow> (string \<Rightarrow> bool) \<Rightarrow> string \<Rightarrow> string" where
  "hookSocketFallbackDir xdg is_dir temp = (if xdg \<noteq> [] \<and> is_dir xdg then xdg else temp)"

text \<open>\<open>stat\<close> gives the error of a path, \<open>roots\<close> are the directories searched last that are known.\<close>

definition resolveShimPath ::
  "(string \<Rightarrow> goError option) \<Rightarrow> (string \<Rightarrow> goError + string) \<Rightarrow> string option \<Rightarrow> (string \<Rightarrow> string list \<Rightarrow> string) \<Rightarrow>
   string \<Rightarrow> string option \<Rightarrow> string option \<Rightarrow> string \<Rightarrow> goError + string" where
  "resolveShimPath stat abs_path look_path join gopath home cwd explicit =
     (if explicit \<noteq> []
      then (case stat explicit of Some e \<Rightarrow> Inl (ErrWrap (''shim at '' @ explicit) e) | None \<Rightarrow> abs_path explicit)
      else (case look_path of
          Some p \<Rightarrow> Inr p
        | None \<Rightarrow>
            (let roots = (if gopath \<noteq> [] then [join gopath [''bin'']] else []) @
                   (case home of Some h \<Rightarrow> [join h [''go'', ''bin'']] | None \<Rightarrow> []) @
                   (case cwd of Some c \<Rightarrow> [join c [''.bin'']] | None \<Rightarrow> []) in
             case filter (\<lambda>p. stat p = None) (map (\<lambda>r. join r [''codex-sdk-hook-shim'']) roots) of
               p # ps \<Rightarrow> Inr p
             | [] \<Rightarrow> Inl (ErrText ''codex-sdk-hook-shim not found''))))"

definition HookConfigModeIsolated :: string where "HookConfigModeIsolated = ''isolated''"
definition HookConfigModeUserHome :: string where "HookConfigModeUserHome = ''user_home''"

record hookWorld =
  hw_codexDir :: directory
  hw_tempDirs :: "string list"
  hw_homes :: "(string \<times> directory) list"
  hw_listening :: bool

fun dir_at :: "filePath \<Rightarrow> hookWorld \<Rightarrow> directory" where
  "dir_at NoPath w = []"
| "dir_at (InUserDir n) w = hw_codexDir w"
| "dir_at (InTempDir p n) w = (case map_of (hw_homes w) p of None \<Rightarrow> [] | Some d \<Rightarrow> d)"

fun set_dir_at :: "filePath \<Rightarrow> directory \<Rightarrow> hookWorld \<Rightarrow> hookWorld" where
  "set_dir_at NoPath d w = w"
| "set_dir_at (InUserDir n) d w = w\<lparr>hw_codexDir := d\<rparr>"
| "set_dir_at (InTempDir p n) d w = w\<lparr>hw_homes := put p d (hw_homes w)\<rparr>"

fun base_name :: "filePath \<Rightarrow> string" where
  "base_name NoPath = []"
| "base_name (InUserDir n) = n"
| "base_name (InTempDir p n) = n"

text \<open>\<open>os.Remove\<close> of a path.\<close>

definition remove_path :: "io \<Rightarrow> filePath \<Rightarrow> hookWorld \<Rightarrow> hookWorld" where
  "remove_path i f w = set_dir_at f (RemoveFile i (base_name f) (dir_at f w)) w"

definition restoreUserHooksJSONPath :: "io \<Rightarrow> filePath \<Rightarrow> filePath \<Rightarrow> hookWorld \<Rightarrow> hookWorld" where
  "restoreUserHooksJSONPath i hooksPath backupPath w =
     (if hooksPath = NoPath then w
      else if backupPath \<noteq> NoPath
      then (case ReadFile i (base_name backupPath) (dir_at backupPath w) of
          Inl e \<Rightarrow> w
        | Inr None \<Rightarrow> w
        | Inr (Some data) \<Rightarrow> (case WriteFile i (base_name hooksPath) data (dir_at hooksPath w) of
              (Some e, d1) \<Rightarrow> set_dir_at hooksPath d1 w
            | (None, d1) \<Rightarrow> remove_path i backupPath (set_dir_at hooksPath d1 w)))
      else remove_path i hooksPath w)"

record hookBridge =
  hb_listener :: bool
  hb_install :: hookInstall
  hb_codexHome :: string
  hb_socketDir :: string

definition no_bridge :: hookBridge where
  "no_bridge = \<lparr>hb_listener = False, hb_install = no_install, hb_codexHome = [], hb_socketDir = []\<rparr>"

text \<open>What the environment gives to one set-up: the errors of the home and cache directories, the socket
  that is preferred, the two temporary directories, the shim, the listener, and the files.\<close>

record setupEnv =
  se_homeErr :: "goError option"
  se_cacheErr :: "goError option"
  se_socket :: string
  se_socketTemp :: "goError + string"
  se_shim :: "goError + string"
  se_listenErr :: "goError option"
  se_homeTemp :: "goError + string"
  se_io :: io
  se_pid :: nat

definition installIsolatedHooksJSON ::
  "(json \<Rightarrow> string) \<Rightarrow> io \<Rightarrow> string \<Rightarrow> string \<Rightarrow> hookInstall \<Rightarrow> hookWorld \<Rightarrow> goError option \<times> hookInstall \<times> hookWorld" where
  "installIsolatedHooksJSON indent i codexHome shimPath h w =
     (case io_mkdirErr i of Some e \<Rightarrow> (Some (ErrWrap ''ensure isolated CODEX_HOME'' e), h, w) | None \<Rightarrow>
      (case GenerateHooksJSON shimPath hooksJSONTimeoutSeconds of
         Inl e \<Rightarrow> (Some (ErrWrap ''generate hooks.json'' e), h, w)
       | Inr cfg \<Rightarrow> (case WriteFile i hooks_name (indent cfg) [] of
             (Some e, d) \<Rightarrow> (Some (ErrWrap ''write isolated hooks.json'' e), h, w\<lparr>hw_homes := put codexHome d (hw_homes w)\<rparr>)
           | (None, d) \<Rightarrow> (None, h\<lparr>hi_hooksPath := InTempDir codexHome hooks_name, hi_hadUser := False\<rparr>,
                 w\<lparr>hw_homes := put codexHome d (hw_homes w)\<rparr>))))"

definition remove_dir :: "string \<Rightarrow> hookWorld \<Rightarrow> hookWorld" where
  "remove_dir p w = (if p = [] then w
     else w\<lparr>hw_tempDirs := filter (\<lambda>q. q \<noteq> p) (hw_tempDirs w), hw_homes := drop_key p (hw_homes w)\<rparr>)"

text \<open>The set-up after the socket is chosen: the result, the bridge, the additions to the environment.\<close>

definition setup_mode ::
  "(json \<Rightarrow> string) \<Rightarrow> setupEnv \<Rightarrow> string \<Rightarrow> string \<Rightarrow> hookBridge \<Rightarrow> hookWorld \<Rightarrow>
   goError option \<times> hookBridge \<times> hookWorld \<times> string list" where
  "setup_mode indent en mode shim b w =
     (let failed = (\<lambda>e b w. (Some e, b\<lparr>hb_listener := False\<rparr>, w\<lparr>hw_listening := False\<rparr>, [])) in
      if mode = HookConfigModeIsolated
      then (case se_homeTemp en of
          Inl e \<Rightarrow> failed (ErrWrap ''isolated CODEX_HOME'' e) b w
        | Inr p \<Rightarrow> (case installIsolatedHooksJSON indent (se_io en) p shim (hb_install b)
                             (w\<lparr>hw_tempDirs := p # hw_tempDirs w\<rparr>) of
              (Some e, h, w1) \<Rightarrow> failed e (b\<lparr>hb_codexHome := []\<rparr>) (remove_dir p w1)
            | (None, h, w1) \<Rightarrow> (None, b\<lparr>hb_install := h, hb_codexHome := p\<rparr>, w1, [''CODEX_HOME='' @ p])))
      else if mode = HookConfigModeUserHome
      then (case installHooksJSON indent (se_io en) (se_pid en) shim (hb_install b) (hw_codexDir w) of
          (Some e, h, d) \<Rightarrow> failed e (b\<lparr>hb_install := h\<rparr>) (w\<lparr>hw_codexDir := d\<rparr>)
        | (None, h, d) \<Rightarrow> (None, b\<lparr>hb_install := h\<rparr>, w\<lparr>hw_codexDir := d\<rparr>, []))
      else failed (ErrText (''unsupported hook config mode '' @ mode)) b w)"

text \<open>The deferred removal of the socket's directory.\<close>

definition cleanupHookSocketDir :: "hookBridge \<times> hookWorld \<Rightarrow> hookBridge \<times> hookWorld" where
  "cleanupHookSocketDir bw = ((fst bw)\<lparr>hb_socketDir := []\<rparr>, remove_dir (hb_socketDir (fst bw)) (snd bw))"

definition setupHookBridge ::
  "(json \<Rightarrow> string) \<Rightarrow> setupEnv \<Rightarrow> string \<Rightarrow> hookBridge \<Rightarrow> hookWorld \<Rightarrow> goError option \<times> hookBridge \<times> hookWorld \<times> string list" where
  "setupHookBridge indent en mode b w =
     (case se_homeErr en of Some e \<Rightarrow> (Some (ErrWrap ''home dir'' e), b, w, []) | None \<Rightarrow>
      (case se_cacheErr en of Some e \<Rightarrow> (Some (ErrWrap ''cache dir'' e), b, w, []) | None \<Rightarrow>
       (case relocateHookSocketUnderPrivateDir (se_socket en) (se_socketTemp en) (hw_tempDirs w) of ((sock, dir), dirs) \<Rightarrow>
         (let b1 = b\<lparr>hb_socketDir := dir\<rparr>; w1 = w\<lparr>hw_tempDirs := dirs\<rparr>;
              bail = (\<lambda>e b w. case cleanupHookSocketDir (b, w) of (b', w') \<Rightarrow> (Some e, b', w', [])) in
          case se_shim en of
            Inl e \<Rightarrow> bail e b1 w1
          | Inr shim \<Rightarrow> (case se_listenErr en of
              Some e \<Rightarrow> bail e b1 w1
            | None \<Rightarrow>
                (case setup_mode indent en (if mode = [] then HookConfigModeIsolated else mode) shim
                        (b1\<lparr>hb_listener := True\<rparr>) (w1\<lparr>hw_listening := True\<rparr>) of
                   (Some e, b2, w2, vars) \<Rightarrow> bail e b2 w2
                 | (None, b2, w2, vars) \<Rightarrow> (None, b2, w2, vars @ [''CODEX_SDK_HOOK_SOCKET='' @ sock])))))))"

text \<open>\<open>takeHookBridgeForClose\<close> leaves nothing behind in the client; the listener is closed, the user's file
  restored, the isolated home and the directory of the socket removed.\<close>

definition closeHookBridge :: "io \<Rightarrow> hookBridge \<Rightarrow> hookWorld \<Rightarrow> hookBridge \<times> hookWorld" where
  "closeHookBridge i b w =
     (let w1 = (if hb_listener b then w\<lparr>hw_listening := False\<rparr> else w);
          w2 = restoreUserHooksJSONPath i (hi_hooksPath (hb_install b)) (hi_backupPath (hb_install b)) w1
      in (no_bridge, remove_dir (hb_socketDir b) (remove_dir (hb_codexHome b) w2)))"

section \<open>Lemmas\<close>

text \<open>An environment in which no operation on files fails.\<close>

definition calm :: "io \<Rightarrow> bool" where
  "calm i = ((\<forall>n. io_readErr i n = None) \<and> (\<forall>n. io_write i n = Written) \<and> (\<forall>n. io_removable i n) \<and>
     io_mkdirErr i = None \<and> io_readDirErr i = None)"

definition data_of :: "directory \<Rightarrow> string \<Rightarrow> string option" where
  "data_of d n = map_option fl_data (map_of d n)"

definition no_backups :: "directory \<Rightarrow> bool" where
  "no_backups d = (\<forall>e \<in> set d. \<not> has_prefix (fst e) backup_prefix)"

lemma calm_simps:
  "calm i \<Longrightarrow> ReadFile i n d = Inr (data_of d n)"
  "calm i \<Longrightarrow> WriteFile i n s d = (None, put n (file_of s (io_now i)) d)"
  "calm i \<Longrightarrow> RemoveFile i n d = drop_key n d" "calm i \<Longrightarrow> io_mkdirErr i = None" "calm i \<Longrightarrow> io_readDirErr i = None"
  by (simp_all add: calm_def ReadFile_def WriteFile_def RemoveFile_def data_of_def split: option.splits)

lemma data_of_put [simp]: "data_of (put n (file_of s t) d) m = (if m = n then Some s else data_of d m)"
  by (simp add: data_of_def file_of_def)

lemma data_of_drop [simp]: "data_of (drop_key n d) m = (if m = n then None else data_of d m)"
  by (simp add: data_of_def)

lemma hooks_not_backup: "\<not> has_prefix hooks_name backup_prefix" "has_prefix (backup_name pid) backup_prefix"
  "backup_name pid \<noteq> hooks_name" "backup_name pid \<noteq> []" "hooks_name \<noteq> []"
  by (simp_all add: hooks_name_def backup_prefix_def hookBackupSuffix_def has_prefix_def backup_name_def)

lemma no_backups_data: "no_backups d \<Longrightarrow> data_of d (backup_name pid) = None"
proof -
  assume "no_backups d"
  then have "backup_name pid \<notin> fst ` set d" using hooks_not_backup(2) [of pid] by (force simp: no_backups_def)
  then show ?thesis by (simp add: data_of_def map_of_eq_None_iff)
qed

lemma no_backups_filter: "no_backups d \<Longrightarrow> filter (\<lambda>e. is_backup e \<and> P e) d = []"
  by (auto simp: no_backups_def is_backup_def filter_empty_conv)

lemma no_backups_recover: "no_backups d \<Longrightarrow> recoverStaleBackups i d = d"
  by (simp add: recoverStaleBackups_def no_backups_filter)

lemma no_backups_detect: "no_backups d \<Longrightarrow> calm i \<Longrightarrow> detectConcurrentSDK i pid d = None"
  using no_backups_filter [of d "\<lambda>e. \<not> has_suffix (fst e) (CHR ''-'' # itoa pid) \<and> \<not> is_stale i (snd e)"]
  by (simp add: detectConcurrentSDK_def concurrent_backups_def calm_simps)

text \<open>What a successful installation does where there is no backup.\<close>

lemma install_calm:
  assumes "calm i" and "no_backups d" and "installHooksJSON indent i pid shim no_install d = (None, h, d1)"
  obtains cfg where "hi_hooksPath h = InUserDir hooks_name"
    and "hi_backupPath h = (if data_of d hooks_name = None then NoPath else InUserDir (backup_name pid))"
    and "d1 = put hooks_name (file_of (indent cfg) (io_now i)) (case data_of d hooks_name of
       None \<Rightarrow> d | Some data \<Rightarrow> put (backup_name pid) (file_of data (io_now i)) d)"
proof (cases "GenerateHooksJSON shim hooksJSONTimeoutSeconds")
  case (Inl e)
  with assms show thesis
    by (simp add: installHooksJSON_def calm_simps no_backups_recover no_backups_detect Let_def readIfExists_def split: option.splits)
next
  case (Inr cfg)
  with assms that [of cfg] show thesis
    by (cases "data_of d hooks_name")
      (auto simp: installHooksJSON_def calm_simps no_backups_recover no_backups_detect Let_def readIfExists_def no_install_def)
qed

lemma user_hooks_lemma:
  assumes "calm i" and "calm j" and "no_backups d"
    and "installHooksJSON indent i pid shim no_install d = (None, h, hw_codexDir w)"
  shows "data_of (hw_codexDir (restoreUserHooksJSONPath j (hi_hooksPath h) (hi_backupPath h) w)) = data_of d"
proof
  fix n
  from install_calm [OF assms(1,3,4)] obtain cfg where h: "hi_hooksPath h = InUserDir hooks_name"
      "hi_backupPath h = (if data_of d hooks_name = None then NoPath else InUserDir (backup_name pid))"
      "hw_codexDir w = put hooks_name (file_of (indent cfg) (io_now i)) (case data_of d hooks_name of
         None \<Rightarrow> d | Some data \<Rightarrow> put (backup_name pid) (file_of data (io_now i)) d)" .
  show "data_of (hw_codexDir (restoreUserHooksJSONPath j (hi_hooksPath h) (hi_backupPath h) w)) n = data_of d n"
    using h no_backups_data [OF assms(3), of pid] hooks_not_backup
    by (cases "data_of d hooks_name")
      (auto simp: restoreUserHooksJSONPath_def remove_path_def calm_simps [OF assms(2)])
qed

text \<open>A set-up in user-home mode that succeeds is an installation in the user's directory.\<close>

lemma setup_user_home:
  assumes "setupHookBridge indent en HookConfigModeUserHome no_bridge w = (None, b, w', vars)"
  shows "\<exists>shim. installHooksJSON indent (se_io en) (se_pid en) shim no_install (hw_codexDir w) =
    (None, hb_install b, hw_codexDir w')"
  using assms
  by (auto simp: setupHookBridge_def setup_mode_def no_bridge_def cleanupHookSocketDir_def Let_def
      HookConfigModeUserHome_def HookConfigModeIsolated_def split: option.splits sum.splits prod.splits if_splits)

lemma remove_dir_fields [simp]:
  "hw_codexDir (remove_dir p w) = hw_codexDir w" "hw_listening (remove_dir p w) = hw_listening w"
  "set (hw_tempDirs (remove_dir p w)) = set (hw_tempDirs w) - (if p = [] then {} else {p})"
  by (auto simp: remove_dir_def)

lemma close_user_dir:
  "hw_codexDir (snd (closeHookBridge j b w)) =
     hw_codexDir (restoreUserHooksJSONPath j (hi_hooksPath (hb_install b)) (hi_backupPath (hb_install b))
       (if hb_listener b then w\<lparr>hw_listening := False\<rparr> else w))"
  by (simp add: closeHookBridge_def Let_def)

lemma close_restores:
  assumes "calm i" and "calm j" and "no_backups d"
    and "installHooksJSON indent i pid shim no_install d = (None, hb_install b, hw_codexDir w)"
  shows "data_of (hw_codexDir (snd (closeHookBridge j b w))) = data_of d"
  unfolding close_user_dir by (rule user_hooks_lemma [OF assms(1-3)]) (use assms(4) in auto)

section \<open>Properties\<close>

text \<open>C25: In user-home mode the user's files survive: where no operation on files fails and the directory holds
  no backup of the SDK's, after a set-up that succeeded and the close every file of the directory,
  \<open>hooks.json\<close> included, holds what it held before, or does not exist if it did not.\<close>

theorem user_hooks_restored:
  assumes "calm (se_io en)" and "calm j" and "no_backups (hw_codexDir w)"
    and "setupHookBridge indent en HookConfigModeUserHome no_bridge w = (None, b, w', vars)"
  shows "data_of (hw_codexDir (snd (closeHookBridge j b w'))) = data_of (hw_codexDir w)"
  using setup_user_home [OF assms(4)] close_restores [OF assms(1-3)] by blast

text \<open>C26: A run that crashes does not cost the user the file: when no operation on files fails, the directory
  holds no backup of the SDK's, a first run installs over the user's \<open>hooks.json\<close> and never closes, and
  another run's set-up, at least a minute later, succeeds and is closed, every file holds what it held
  before the first.\<close>

theorem crashed_run_recovered:
  assumes "calm (se_io en)" and "calm (se_io en2)" and "calm k" and "no_backups (hw_codexDir w)"
    and "data_of (hw_codexDir w) hooks_name = Some user"
    and "setupHookBridge indent en HookConfigModeUserHome no_bridge w = (None, b, w1, vars)"
    and "io_now (se_io en) + 60 \<le> io_now (se_io en2)"
    and "setupHookBridge indent en2 HookConfigModeUserHome no_bridge w1 = (None, b2, w2, vars2)"
  shows "data_of (hw_codexDir (snd (closeHookBridge k b2 w2))) = data_of (hw_codexDir w)"
proof -
  let ?i = "se_io en" and ?j = "se_io en2" and ?pid = "se_pid en" and ?d = "hw_codexDir w"
  obtain shim where "installHooksJSON indent ?i ?pid shim no_install ?d = (None, hb_install b, hw_codexDir w1)"
    using setup_user_home [OF assms(6)] by blast
  from install_calm [OF assms(1,4) this] obtain cfg where h: "hw_codexDir w1 = put hooks_name (file_of (indent cfg) (io_now ?i))
      (put (backup_name ?pid) (file_of user (io_now ?i)) ?d)" using assms(5) by auto
  let ?b = "(backup_name ?pid, file_of user (io_now ?i))"
  let ?d1 = "drop_key (backup_name ?pid) (put hooks_name (file_of user (io_now ?j)) (hw_codexDir w1))"
  have "filter (\<lambda>e. is_backup e \<and> is_stale ?j (snd e)) (hw_codexDir w1) = [?b]"
    using assms(4,7) hooks_not_backup
    by (auto simp: h put_def is_backup_def is_stale_def file_of_def staleBackupAge_def no_backups_def filter_empty_conv)
  then have r: "recoverStaleBackups ?j (hw_codexDir w1) = ?d1"
    using hooks_not_backup by (simp add: recoverStaleBackups_def calm_simps [OF assms(2)] h)
  have nb: "no_backups ?d1"
    using assms(4) hooks_not_backup by (auto simp: no_backups_def h put_def drop_key_def)
  have same: "data_of ?d1 = data_of ?d"
    using assms(4,5) no_backups_data [of ?d ?pid] hooks_not_backup by (auto simp: h)
  obtain shim2 where "installHooksJSON indent ?j (se_pid en2) shim2 no_install (hw_codexDir w1) = (None, hb_install b2, hw_codexDir w2)"
    using setup_user_home [OF assms(8)] by blast
  then have "installHooksJSON indent ?j (se_pid en2) shim2 no_install ?d1 = (None, hb_install b2, hw_codexDir w2)"
    unfolding installHooksJSON_def calm_simps(4) [OF assms(2)] r no_backups_recover [OF nb] by simp
  from close_restores [OF assms(2,3) nb this] same show ?thesis by simp
qed

text \<open>The part of a close on the user's directory alone.\<close>

definition close_install :: "io \<Rightarrow> hookInstall \<times> directory \<Rightarrow> hookInstall \<times> directory" where
  "close_install i st = (no_install, hw_codexDir (restoreUserHooksJSONPath i (hi_hooksPath (fst st)) (hi_backupPath (fst st))
     \<lparr>hw_codexDir = snd st, hw_tempDirs = [], hw_homes = [], hw_listening = False\<rparr>))"

definition calm_at :: "int \<Rightarrow> io" where
  "calm_at t = \<lparr>io_readErr = (\<lambda>n. None), io_write = (\<lambda>n. Written), io_removable = (\<lambda>n. True), io_mkdirErr = None,
     io_readDirErr = None, io_now = t\<rparr>"

definition user_dir :: directory where
  "user_dir = [(hooks_name, file_of ''mine'' 5), (''config.toml'', file_of ''x'' 6)]"

lemma calm_at: "calm (calm_at t)" "io_now (calm_at t) = t"
  by (simp_all add: calm_def calm_at_def)

lemma user_dir_clean: "no_backups user_dir"
  by (simp add: no_backups_def user_dir_def hooks_name_def backup_prefix_def hookBackupSuffix_def has_prefix_def)

text \<open>Two runs in user-home mode, a minute apart.\<close>

definition run_env :: "int \<Rightarrow> nat \<Rightarrow> setupEnv" where
  "run_env t pid = \<lparr>se_homeErr = None, se_cacheErr = None, se_socket = ''/home/u/.cache/codex-sdk/hook-7.sock'',
     se_socketTemp = Inr ''/tmp/cxh-1'', se_shim = Inr ''/bin/shim'', se_listenErr = None, se_homeTemp = Inr ''/tmp/home-1'',
     se_io = calm_at t, se_pid = pid\<rparr>"

definition sample_world :: hookWorld where
  "sample_world = \<lparr>hw_codexDir = user_dir, hw_tempDirs = [], hw_homes = [], hw_listening = False\<rparr>"

definition first_run :: "hookBridge \<times> hookWorld \<times> string list" where
  "first_run = snd (setupHookBridge (\<lambda>j. ''sdk'') (run_env 100 7) HookConfigModeUserHome no_bridge sample_world)"

definition second_run :: "hookBridge \<times> hookWorld \<times> string list" where
  "second_run = snd (setupHookBridge (\<lambda>j. ''sdk'') (run_env 160 8) HookConfigModeUserHome no_bridge (fst (snd first_run)))"

lemma run_env_simps [simp]: "se_io (run_env t pid) = calm_at t"
  by (simp add: run_env_def)

lemma first_run_ok: "setupHookBridge (\<lambda>j. ''sdk'') (run_env 100 7) HookConfigModeUserHome no_bridge sample_world =
    (None, fst first_run, fst (snd first_run), snd (snd first_run))"
proof -
  have "fst (setupHookBridge (\<lambda>j. ''sdk'') (run_env 100 7) HookConfigModeUserHome no_bridge sample_world) = None" by code_simp
  then show ?thesis by (simp add: first_run_def prod_eq_iff)
qed

lemma second_run_ok: "setupHookBridge (\<lambda>j. ''sdk'') (run_env 160 8) HookConfigModeUserHome no_bridge (fst (snd first_run)) =
    (None, fst second_run, fst (snd second_run), snd (snd second_run))"
proof -
  have "fst (setupHookBridge (\<lambda>j. ''sdk'') (run_env 160 8) HookConfigModeUserHome no_bridge (fst (snd first_run))) = None"
    by code_simp
  then show ?thesis by (simp add: second_run_def prod_eq_iff)
qed

theorem user_hooks_restored_witness:
  "data_of (hw_codexDir (fst (snd first_run))) hooks_name = Some ''sdk'' \<and>
   data_of (hw_codexDir (snd (closeHookBridge (calm_at 110) (fst first_run) (fst (snd first_run))))) hooks_name = Some ''mine''"
proof -
  have "data_of (hw_codexDir (fst (snd first_run))) hooks_name = Some ''sdk''" by code_simp
  moreover have "data_of user_dir hooks_name = Some ''mine''" by code_simp
  moreover have "no_backups (hw_codexDir sample_world)" by (simp add: sample_world_def user_dir_clean)
  moreover note user_hooks_restored [OF _ calm_at(1) \<open>no_backups (hw_codexDir sample_world)\<close> first_run_ok, of 110]
  ultimately show ?thesis by (simp add: calm_at sample_world_def)
qed

theorem crashed_run_recovered_witness:
  "data_of (hw_codexDir (snd (closeHookBridge (calm_at 170) (fst second_run) (fst (snd second_run))))) hooks_name = Some ''mine''"
proof -
  have u: "data_of (hw_codexDir sample_world) hooks_name = Some ''mine''" by code_simp
  have nb: "no_backups (hw_codexDir sample_world)" by (simp add: sample_world_def user_dir_clean)
  from crashed_run_recovered [OF _ _ calm_at(1) nb u first_run_ok _ second_run_ok, of 170] u
  show ?thesis by (simp add: calm_at)
qed

section \<open>The isolated mode\<close>

lemma isolated_dir:
  "installIsolatedHooksJSON indent i p shim h w = (r, h1, w1) \<Longrightarrow>
     hw_codexDir w1 = hw_codexDir w \<and> hw_tempDirs w1 = hw_tempDirs w \<and> (r \<noteq> None \<longrightarrow> h1 = h)"
  by (auto simp: installIsolatedHooksJSON_def split: option.splits sum.splits prod.splits)

text \<open>What an isolated set-up leaves: the user's directory as it was, nothing remembered but a file of the new
  home, and no directory or listener that the bridge does not know of.\<close>

definition isolated_ok :: "hookWorld \<Rightarrow> hookBridge \<Rightarrow> hookWorld \<Rightarrow> bool" where
  "isolated_ok w b w' = (hw_codexDir w' = hw_codexDir w \<and>
     (hi_hooksPath (hb_install b) = NoPath \<or> (\<exists>p n. hi_hooksPath (hb_install b) = InTempDir p n)) \<and>
     hi_backupPath (hb_install b) = NoPath \<and> hw_listening w' = hb_listener b \<and>
     set (hw_tempDirs w') \<subseteq> set (hw_tempDirs w) \<union> ({hb_codexHome b, hb_socketDir b} - {[]}))"

lemma isolated_install:
  "installIsolatedHooksJSON indent i p shim no_install w = (r, h1, w1) \<Longrightarrow>
     hi_backupPath h1 = NoPath \<and> (hi_hooksPath h1 = NoPath \<or> (\<exists>p n. hi_hooksPath h1 = InTempDir p n)) \<and>
     hw_listening w1 = hw_listening w"
  by (auto simp: installIsolatedHooksJSON_def no_install_def split: option.splits sum.splits prod.splits)

lemma setup_mode_isolated:
  assumes "setup_mode indent en HookConfigModeIsolated shim b w = (r, b', w', vars)"
    and "\<And>p. se_homeTemp en = Inr p \<Longrightarrow> p \<noteq> []" and "hb_install b = no_install" and "hb_codexHome b = []"
    and "hb_listener b = hw_listening w"
  shows "isolated_ok w (b'\<lparr>hb_socketDir := []\<rparr>) w' \<and> hb_socketDir b' = hb_socketDir b \<and>
     (r \<noteq> None \<longrightarrow> \<not> hw_listening w' \<and> hb_codexHome b' = [])"
proof (cases "se_homeTemp en")
  case (Inl e)
  with assms show ?thesis by (auto simp: setup_mode_def Let_def isolated_ok_def no_install_def)
next
  case (Inr p)
  obtain r1 h1 w1 where i: "installIsolatedHooksJSON indent (se_io en) p shim no_install
      (w\<lparr>hw_tempDirs := p # hw_tempDirs w\<rparr>) = (r1, h1, w1)" by (rule prod_cases3)
  note f = isolated_dir [OF i] isolated_install [OF i] assms(2) [OF Inr]
  show ?thesis
  proof (cases r1)
    case None
    with assms Inr i f show ?thesis by (auto simp: setup_mode_def Let_def isolated_ok_def)
  next
    case (Some e)
    with assms Inr i f show ?thesis by (auto simp: setup_mode_def Let_def isolated_ok_def no_install_def)
  qed
qed

lemma relocate_dirs:
  "(\<And>p. made = Inr p \<Longrightarrow> p \<noteq> []) \<Longrightarrow> relocateHookSocketUnderPrivateDir preferred made dirs = ((sock, dir), dirs') \<Longrightarrow>
     set dirs' \<subseteq> set dirs \<union> ({dir} - {[]})"
  by (auto simp: relocateHookSocketUnderPrivateDir_def split: if_splits sum.splits)

lemma setup_isolated:
  assumes "setupHookBridge indent en mode no_bridge w = (r, b, w', vars)" and "mode = [] \<or> mode = HookConfigModeIsolated"
    and "\<And>p. se_homeTemp en = Inr p \<or> se_socketTemp en = Inr p \<Longrightarrow> p \<noteq> []" and "\<not> hw_listening w"
  shows "isolated_ok w b w' \<and> (r \<noteq> None \<longrightarrow> \<not> hw_listening w' \<and> hb_codexHome b = [] \<and> hb_socketDir b = [])"
proof -
  obtain sock dir dirs where rel: "relocateHookSocketUnderPrivateDir (se_socket en) (se_socketTemp en) (hw_tempDirs w) = ((sock, dir), dirs)"
    by (metis prod.exhaust)
  have d: "set dirs \<subseteq> set (hw_tempDirs w) \<union> ({dir} - {[]})" using relocate_dirs [OF _ rel] assms(3) by blast
  have m: "(if mode = [] then HookConfigModeIsolated else mode) = HookConfigModeIsolated"
    using assms(2) by auto
  have idle: "isolated_ok w no_bridge w" using assms(4) by (simp add: isolated_ok_def no_bridge_def no_install_def)
  have bail: "isolated_ok w (no_bridge\<lparr>hb_socketDir := []\<rparr>) (remove_dir dir (w\<lparr>hw_tempDirs := dirs\<rparr>))"
    using d assms(4) by (auto simp: isolated_ok_def no_bridge_def no_install_def)
  show ?thesis
  proof (cases "se_homeErr en \<noteq> None \<or> se_cacheErr en \<noteq> None")
    case True
    then have eq: "w' = w" "b = no_bridge"
      using assms(1) by (cases "se_homeErr en"; cases "se_cacheErr en"; auto simp: setupHookBridge_def)+
    have "hb_codexHome no_bridge = []" "hb_socketDir no_bridge = []" by (simp_all add: no_bridge_def)
    with idle assms(4) show ?thesis unfolding eq by blast
  next
    case False
    then have env: "se_homeErr en = None" "se_cacheErr en = None" by auto
    show ?thesis
    proof (cases "(case se_shim en of Inl e \<Rightarrow> True | Inr shim \<Rightarrow> se_listenErr en \<noteq> None)")
      case True
      then have "b = no_bridge\<lparr>hb_socketDir := []\<rparr> \<and> w' = remove_dir dir (w\<lparr>hw_tempDirs := dirs\<rparr>)"
        using assms(1) env rel
        by (auto simp: setupHookBridge_def Let_def cleanupHookSocketDir_def no_bridge_def split: sum.splits option.splits)
      with bail assms(4) show ?thesis by (simp add: no_bridge_def)
    next
      case False
      then obtain shim where shim: "se_shim en = Inr shim" "se_listenErr en = None" by (auto split: sum.splits)
      obtain r2 b2 w2 vars2 where s: "setup_mode indent en HookConfigModeIsolated shim
          ((no_bridge\<lparr>hb_socketDir := dir\<rparr>)\<lparr>hb_listener := True\<rparr>) ((w\<lparr>hw_tempDirs := dirs\<rparr>)\<lparr>hw_listening := True\<rparr>) = (r2, b2, w2, vars2)"
        by (metis prod.exhaust)
      have sm: "isolated_ok (w\<lparr>hw_tempDirs := dirs, hw_listening := True\<rparr>) (b2\<lparr>hb_socketDir := []\<rparr>) w2"
        "hb_socketDir b2 = dir" "r2 \<noteq> None \<longrightarrow> \<not> hw_listening w2 \<and> hb_codexHome b2 = []"
        using setup_mode_isolated [OF s assms(3), OF disjI1] by (simp_all add: no_bridge_def)
      show ?thesis
      proof (cases r2)
        case None
        then have "r = None" "b = b2" "w' = w2"
          using s shim env rel assms(1) m by (simp_all add: setupHookBridge_def Let_def no_bridge_def)
        with sm d show ?thesis by (auto simp: isolated_ok_def)
      next
        case (Some e)
        then have "b = b2\<lparr>hb_socketDir := []\<rparr>" "w' = remove_dir dir w2"
          using s shim env rel assms(1) m sm(2) by (simp_all add: setupHookBridge_def Let_def no_bridge_def cleanupHookSocketDir_def)
        with sm d Some show ?thesis by (auto simp: isolated_ok_def)
      qed
    qed
  qed
qed

lemma restore_isolated:
  assumes "hi_hooksPath h = NoPath \<or> (\<exists>p n. hi_hooksPath h = InTempDir p n)" and "hi_backupPath h = NoPath"
  shows "hw_codexDir (restoreUserHooksJSONPath i (hi_hooksPath h) (hi_backupPath h) w) = hw_codexDir w"
    "hw_tempDirs (restoreUserHooksJSONPath i (hi_hooksPath h) (hi_backupPath h) w) = hw_tempDirs w"
    "hw_listening (restoreUserHooksJSONPath i (hi_hooksPath h) (hi_backupPath h) w) = hw_listening w"
  using assms by (auto simp: restoreUserHooksJSONPath_def remove_path_def)



section \<open>Where the backup does not protect\<close>

definition first_install :: "hookInstall \<times> directory" where
  "first_install = snd (installHooksJSON (\<lambda>j. ''sdk'') (calm_at 100) 7 ''/bin/shim'' no_install user_dir)"

definition second_install :: "hookInstall \<times> directory" where
  "second_install = snd (installHooksJSON (\<lambda>j. ''sdk'') (calm_at 160) 8 ''/bin/shim'' no_install (snd first_install))"

text \<open>A second client of the same process overwrites the backup with the SDK's own file.\<close>

definition same_process_install :: "hookInstall \<times> directory" where
  "same_process_install = snd (installHooksJSON (\<lambda>j. ''sdk'') (calm_at 110) 7 ''/bin/shim'' no_install (snd first_install))"

lemma same_process_loses_user_file:
  "data_of user_dir hooks_name = Some ''mine'' \<and>
   fst (installHooksJSON (\<lambda>j. ''sdk'') (calm_at 110) 7 ''/bin/shim'' no_install (snd first_install)) = None \<and>
   data_of (snd (close_install (calm_at 120) (fst first_install,
      snd (close_install (calm_at 115) same_process_install)))) hooks_name = Some ''sdk''"
  by code_simp

text \<open>A write of \<open>hooks.json\<close> that fails half-way is answered by removing the backup.\<close>

lemma torn_write_loses_user_file:
  "data_of (snd (snd (installHooksJSON (\<lambda>j. ''sdk'')
     ((calm_at 100)\<lparr>io_write := (\<lambda>n. if n = hooks_name then Torn (ErrText ''no space'') [] else Written)\<rparr>)
     7 ''/bin/shim'' no_install user_dir))) hooks_name = Some [] \<and>
   data_of (snd (snd (installHooksJSON (\<lambda>j. ''sdk'')
     ((calm_at 100)\<lparr>io_write := (\<lambda>n. if n = hooks_name then Torn (ErrText ''no space'') [] else Written)\<rparr>)
     7 ''/bin/shim'' no_install user_dir))) (backup_name 7) = None"
  by code_simp

text \<open>A run that has lasted a minute counts as crashed: another one installs and removes its backup.\<close>

lemma long_run_not_detected:
  "fst (installHooksJSON (\<lambda>j. ''sdk'') (calm_at 160) 8 ''/bin/shim'' no_install (snd first_install)) = None \<and>
   data_of (snd second_install) (backup_name 7) = None"
  by code_simp

text \<open>A crash where the user had no file leaves the SDK's one for good.\<close>

lemma crash_without_user_file:
  "data_of (snd (close_install (calm_at 170) (snd (installHooksJSON (\<lambda>j. ''sdk'') (calm_at 160) 8 ''/bin/shim'' no_install
     (snd (snd (installHooksJSON (\<lambda>j. ''sdk'') (calm_at 100) 7 ''/bin/shim'' no_install []))))))) hooks_name = Some ''sdk''"
  by code_simp

end
