(* ===== verification/Client_Connect.thy ===== *)
theory Client_Connect
  imports Connect_Diagnostics Cli_Process Hook_Install Subprocess Dispatch
begin

text \<open>
  What one call of \<open>Connect\<close> does, in order (\<open>client.go\<close>, \<open>client_cli_compatibility.go\<close>,
  \<open>subprocess_appserver.go\<close>, \<open>subprocess_spawn.go\<close>): the configuration of the transport from the client's
  options, the hook bridge and the probed version; the command that is started, with its pipes and its
  environment; the handshake. The calls that leave the SDK (the search for the CLI, the probe, the
  spawn, the answers of the server) are arguments. How these phases interleave with \<open>Close\<close> is the
  subject of Client\_Lifecycle; the properties here follow the data: the arguments and the environment
  that reach the server, and from there the hook shim.
\<close>

section \<open>The configuration of the transport\<close>

text \<open>The logger and the observer are left out.\<close>

record appServerConfig =
  ac_CLIPath :: string
  ac_Cwd :: string
  ac_GlobalArgs :: "string list"
  ac_VersionProbe :: "(goError + semVer) ptr"
  ac_ExtraArgs :: "string list"
  ac_Env :: "string list"
  ac_ReadBufferSize :: int
  ac_MaxConsecutiveParseErrors :: nat

definition probeCLICompatibilityVersion ::
  "codexOptions \<Rightarrow> goError + string \<Rightarrow> (string \<Rightarrow> goError + semVer) \<Rightarrow> goError + semVer" where
  "probeCLICompatibilityVersion opts found probe =
     (if co_CLIPath opts \<noteq> [] then probe (co_CLIPath opts)
      else (case found of Inl e \<Rightarrow> Inl e | Inr p \<Rightarrow> probe p))"

text \<open>A failed probe leaves the zero version, which is not known.\<close>

definition compatibilityState :: "goError + semVer \<Rightarrow> semVer \<times> bool" where
  "compatibilityState p = (case p of Inl e \<Rightarrow> (SemVer 0 0 0, False) | Inr v \<Rightarrow> (v, True))"

definition transportConfig :: "codexOptions \<Rightarrow> string list \<Rightarrow> goError + semVer \<Rightarrow> appServerConfig" where
  "transportConfig opts env p =
     (case compatibilityState p of (version, known) \<Rightarrow>
      (case cliCompatibilityArgs opts version known of (globalArgs, extraArgs) \<Rightarrow>
       \<lparr>ac_CLIPath = co_CLIPath opts, ac_Cwd = co_DefaultCwd opts, ac_GlobalArgs = globalArgs,
        ac_VersionProbe = Some p, ac_ExtraArgs = extraArgs, ac_Env = env,
        ac_ReadBufferSize = co_ReadBufferSize opts,
        ac_MaxConsecutiveParseErrors = (case co_MaxConsecutiveParseErrors opts of None \<Rightarrow> 0 | Some n \<Rightarrow> n)\<rparr>))"

text \<open>\<open>hooks\<close> is the result of \<open>setupHookBridge\<close> with its additions to the environment, \<open>connect\<close> that of the
  transport's \<open>Connect\<close>. The compatibility state is stored before the transport is connected.\<close>

definition connectTransport ::
  "codexOptions \<Rightarrow> goError option \<times> string list \<Rightarrow> goError + string \<Rightarrow> (string \<Rightarrow> goError + semVer) \<Rightarrow>
   (appServerConfig \<Rightarrow> goError option) \<Rightarrow> (goError + appServerConfig) \<times> cliCompatibilityState" where
  "connectTransport opts hooks found probe connect =
     (case (if co_HookCallback opts then hooks else (None, [])) of
        (Some e, vars) \<Rightarrow> (Inl (ErrWrap ''codex.Client.Connect: hook bridge'' e), None)
      | (None, vars) \<Rightarrow>
          (let p = probeCLICompatibilityVersion opts found probe;
               cfg = transportConfig opts (co_Env opts @ vars) p in
           (case connect cfg of
              Some e \<Rightarrow> Inl (ErrWrap ''codex.Client.Connect: transport'' e)
            | None \<Rightarrow> Inr cfg, Some (compatibilityState p))))"

section \<open>The command\<close>

record spawnCommand =
  sc_Path :: string
  sc_Args :: "string list"
  sc_Dir :: "string ptr"
  sc_Env :: "string list"

definition newSpawnCommand ::
  "string list \<Rightarrow> ((string \<times> string) list \<Rightarrow> (string \<times> string) list) \<Rightarrow> appServerConfig \<Rightarrow> string \<Rightarrow> string list \<Rightarrow> spawnCommand" where
  "newSpawnCommand environ order cfg cliPath args =
     \<lparr>sc_Path = cliPath, sc_Args = args, sc_Dir = (if ac_Cwd cfg \<noteq> [] then Some (ac_Cwd cfg) else None),
      sc_Env = BuildRuntimeEnvironment environ order (ac_Env cfg)\<rparr>"

datatype pipe = StdinPipe | StdoutPipe | StderrPipe

text \<open>The pipes are opened in order; the result of each is an argument. The second component is what was
  closed again.\<close>

definition newSpawnedProc :: "goError option \<Rightarrow> goError option \<Rightarrow> goError option \<Rightarrow> (goError + pipe list) \<times> pipe list" where
  "newSpawnedProc stdin stdout stderr =
     (case stdin of Some e \<Rightarrow> (Inl (CLIConnectionError ''stdin pipe'' (Some e)), [])
      | None \<Rightarrow> (case stdout of Some e \<Rightarrow> (Inl (CLIConnectionError ''stdout pipe'' (Some e)), [StdinPipe])
      | None \<Rightarrow> (case stderr of Some e \<Rightarrow> (Inl (CLIConnectionError ''stderr pipe'' (Some e)), [StdinPipe, StdoutPipe])
      | None \<Rightarrow> (Inr [StdinPipe, StdoutPipe, StderrPipe], []))))"

definition closePipes :: "pipe list" where
  "closePipes = [StdinPipe, StdoutPipe, StderrPipe]"

text \<open>What \<open>doConnect\<close> starts and how it reads from it; the demultiplexer is always the ordered one. The
  spawn, with its retries, is an argument. What it then does to the state of the transport is
  \<^const>\<open>connected_to\<close> of Subprocess.\<close>

record serverPlan =
  sp_cli :: string
  sp_args :: "string list"
  sp_bufSize :: nat
  sp_ordered :: bool
  sp_maxParseErrors :: nat

definition doConnect ::
  "appServerConfig \<Rightarrow> goError + string \<Rightarrow> (string \<Rightarrow> string list \<Rightarrow> goError option) \<Rightarrow> goError + serverPlan" where
  "doConnect cfg found spawn =
     (case (if ac_CLIPath cfg = [] then found else Inr (ac_CLIPath cfg)) of
        Inl e \<Rightarrow> Inl e
      | Inr cli \<Rightarrow>
          (let args = appServerArgs (ac_GlobalArgs cfg) (ac_ExtraArgs cfg) in
           (case spawn cli args of
              Some e \<Rightarrow> Inl e
            | None \<Rightarrow> Inr \<lparr>sp_cli = cli, sp_args = args,
                sp_bufSize = (if ac_ReadBufferSize cfg < int MinReadBufferSize then MinReadBufferSize
                              else nat (ac_ReadBufferSize cfg)),
                sp_ordered = True, sp_maxParseErrors = ac_MaxConsecutiveParseErrors cfg\<rparr>)))"

text \<open>\<open>Connect\<close> and \<open>Close\<close> of the transport run their work once (\<open>sync.Once\<close>): every later call does nothing and
  returns \<open>nil\<close>, also when the first one failed. \<open>earlier\<close> says whether there was an earlier call.\<close>

definition run_once :: "bool \<Rightarrow> goError option \<Rightarrow> bool \<times> goError option" where
  "run_once earlier r = (if earlier then (True, None) else (True, r))"

definition appServerConnect ::
  "bool \<Rightarrow> appServerConfig \<Rightarrow> goError + string \<Rightarrow> (string \<Rightarrow> string list \<Rightarrow> goError option) \<Rightarrow> bool \<times> goError option" where
  "appServerConnect earlier cfg found spawn =
     run_once earlier (case doConnect cfg found spawn of Inl e \<Rightarrow> Some e | Inr plan \<Rightarrow> None)"

definition appServerClose :: "bool \<Rightarrow> goError option \<Rightarrow> bool \<times> goError option" where
  "appServerClose earlier doClose = run_once earlier doClose"

text \<open>A transport whose first \<open>Connect\<close> failed reports success on the second.\<close>

lemma failed_connect_then_nil:
  assumes "appServerConnect False cfg found spawn = (earlier, Some e)"
  shows "appServerConnect earlier cfg found spawn = (True, None)"
  using assms by (simp add: appServerConnect_def run_once_def)

section \<open>The handshake\<close>

record initializeResult =
  ir_UserAgent :: string
  ir_CodexHome :: string
  ir_PlatformFamily :: string
  ir_PlatformOs :: string

definition t_initializeResult :: gotype where
  "t_initializeResult = t_struct [(''userAgent'', t_str), (''codexHome'', t_str), (''platformFamily'', t_str),
     (''platformOs'', t_str)]"

definition to_initializeResult :: "gval \<Rightarrow> initializeResult" where
  "to_initializeResult g = \<lparr>ir_UserAgent = f_str g ''userAgent'', ir_CodexHome = f_str g ''codexHome'',
     ir_PlatformFamily = f_str g ''platformFamily'', ir_PlatformOs = f_str g ''platformOs''\<rparr>"

text \<open>A logged failure carries its kind, the code of the provider's error if there is one, and the
  redacted tail of stderr.\<close>

datatype handshakeCall = SentInitialize json | CloseTransport | LoggedFailure string "int option" string | WarnedShape
  | NotifiedInitialized | StartedDispatcher

text \<open>\<open>closed\<close> is what \<open>closeTransportAfterConnectError\<close> reads: a client that was closed meanwhile leaves the
  transport to \<open>Close\<close>. \<open>stderr\<close> is what the transport has kept.\<close>

definition closeTransportAfterConnectError :: "bool \<Rightarrow> string \<Rightarrow> handshakeCall list \<times> string" where
  "closeTransportAfterConnectError closed stderr =
     (if closed then [] else [CloseTransport], redactedStderrDiagnosticTail stderr)"

text \<open>The code \<open>errors.As\<close> finds.\<close>

fun rpcErrorCode :: "goError \<Rightarrow> int option" where
  "rpcErrorCode (RPCError c m d) = Some c"
| "rpcErrorCode (ErrWrap m e) = rpcErrorCode e"
| "rpcErrorCode (CLIConnectionError m c) = (case c of None \<Rightarrow> None | Some e \<Rightarrow> rpcErrorCode e)"
| "rpcErrorCode (JSONDecodeError r e) = rpcErrorCode e"
| "rpcErrorCode (ThreadHistoryError c t m cause) = (case cause of None \<Rightarrow> None | Some e \<Rightarrow> rpcErrorCode e)"
| "rpcErrorCode (ErrJoin es) = (case filter (\<lambda>c. c \<noteq> None) (map rpcErrorCode es) of [] \<Rightarrow> None | c # cs \<Rightarrow> c)"
| "rpcErrorCode e = None"

definition logInitializeFailure :: "goError \<Rightarrow> string \<Rightarrow> handshakeCall list" where
  "logInitializeFailure e stderrTail = [LoggedFailure (initializeFailureKind e) (rpcErrorCode e) stderrTail]"

text \<open>The part of \<open>Connect\<close> after the transport is published: what \<open>Send\<close>, \<open>Notify\<close> and \<open>startDispatcher\<close>
  return are arguments.\<close>

definition handshake ::
  "codexOptions \<Rightarrow> bool \<Rightarrow> string \<Rightarrow> goError + rpcResponse \<Rightarrow> goError option \<Rightarrow> goError option \<Rightarrow>
   handshakeCall list \<times> initializeResult option \<times> goError option" where
  "handshake opts closed stderr sent notify dispatcher =
     (let first = [SentInitialize (buildInitializeParams opts)];
          (close, tail) = closeTransportAfterConnectError closed stderr in
      case sent of
        Inl e \<Rightarrow> (first @ close @ logInitializeFailure e tail, None,
                  Some (ErrWrap ''codex.Client.Connect: initialize'' (CLIConnectionError ''initialize'' (Some e))))
      | Inr resp \<Rightarrow> (case resp_Error resp of
          Some e \<Rightarrow> (let err = RPCError (rpc_Code e) (rpc_Message e) (rpc_Data e) in
                     (first @ close @ logInitializeFailure err tail, None, Some err))
        | None \<Rightarrow> (case unmarshal t_initializeResult (resp_Result resp) of (g, ok) \<Rightarrow>
            (let warn = (if ok then [] else [WarnedShape]); init = to_initializeResult g in
             case notify of
               Some e \<Rightarrow> (first @ warn @ close, Some init, Some (ErrWrap ''codex.Client.Connect: initialized'' e))
             | None \<Rightarrow> (case dispatcher of
                 Some e \<Rightarrow> (first @ warn @ [NotifiedInitialized] @ close, Some init, Some e)
               | None \<Rightarrow> (first @ warn @ [NotifiedInitialized, StartedDispatcher], Some init, None))))))"

section \<open>Stopping the dispatcher\<close>

text \<open>What \<open>Close\<close> calls before it waits, each only when it is there, and the error of the wait: \<open>waited\<close> is
  \<^const>\<open>None\<close> when the \<open>select\<close> took the dispatcher's end, else the error of the caller's context.\<close>

datatype stopCall = CancelConnect | CancelDispatcher | CloseDemux

definition stopClientDispatcher ::
  "bool \<Rightarrow> bool \<Rightarrow> bool \<Rightarrow> bool \<Rightarrow> goError option \<Rightarrow> stopCall list \<times> goError option" where
  "stopClientDispatcher connectCancel dispatcherCancel hasDemux dispatcherDone waited =
     ((if connectCancel then [CancelConnect] else []) @ (if dispatcherCancel then [CancelDispatcher] else []) @
      (if hasDemux then [CloseDemux] else []),
      if dispatcherDone then map_option (ErrWrap ''codex.Client.Close: waiting for dispatcher'') waited else None)"

section \<open>What a client says of itself\<close>

text \<open>The transport is nil before \<open>Connect\<close> and after \<open>Close\<close>.\<close>

definition ProcessID :: "appServer ptr \<Rightarrow> nat" where
  "ProcessID tr = (case tr of None \<Rightarrow> 0 | Some t \<Rightarrow> Pid t)"

definition clientHealth :: "appServer ptr \<Rightarrow> transportHealth" where
  "clientHealth tr = (case tr of
      None \<Rightarrow> \<lparr>hl_Connected = False, hl_Ready = False, hl_PID = 0, hl_LastError = None\<rparr>
    | Some t \<Rightarrow> Health t)"

definition SessionID :: "client \<Rightarrow> string" where
  "SessionID c = cl_latest c"

section \<open>Properties\<close>

text \<open>The handshake in order, and nothing left behind: the client sends \<open>initialize\<close> before anything else;
  the dispatcher is started exactly when \<open>Connect\<close> succeeds, last, after \<open>initialized\<close> was sent, and
  then the transport is kept; when it fails the transport is closed exactly once, unless the client was
  closed meanwhile; and the failure of the request or the server's refusal, and nothing else, is
  logged, with no more of stderr than its redacted tail.\<close>

theorem handshake_order:
  assumes "handshake opts closed stderr sent notify dispatcher = (calls, init, err)"
  shows "hd calls = SentInitialize (buildInitializeParams opts) \<and>
     (err = None \<longleftrightarrow> StartedDispatcher \<in> set calls) \<and>
     (err = None \<longrightarrow> CloseTransport \<notin> set calls \<and> init \<noteq> None \<and>
        (\<exists>pre. calls = pre @ [NotifiedInitialized, StartedDispatcher])) \<and>
     (err \<noteq> None \<longrightarrow> count_list calls CloseTransport = (if closed then 0 else 1)) \<and>
     ((\<exists>k code tail. LoggedFailure k code tail \<in> set calls) \<longleftrightarrow>
        (case sent of Inl e \<Rightarrow> True | Inr resp \<Rightarrow> resp_Error resp \<noteq> None)) \<and>
     (\<forall>k code tail. LoggedFailure k code tail \<in> set calls \<longrightarrow> tail = redactedStderrDiagnosticTail stderr)"
  using assms
  by (auto simp: handshake_def Let_def closeTransportAfterConnectError_def logInitializeFailure_def
      split: sum.splits option.splits prod.splits if_splits)

lemma last_entry_append:
  "last_entry (xs @ ys) k = (case last_entry ys k of None \<Rightarrow> last_entry xs k | Some v \<Rightarrow> Some v)"
  by (auto simp: last_entry_def split: list.splits)

text \<open>What the set-up of the hook bridge adds to the environment.\<close>

lemma setup_mode_vars:
  "setup_mode indent en mode shim b w = (None, b', w', vars) \<Longrightarrow>
     vars = (if mode = HookConfigModeIsolated then [''CODEX_HOME='' @ hb_codexHome b'] else []) \<and>
     (mode = HookConfigModeIsolated \<longrightarrow> se_homeTemp en = Inr (hb_codexHome b'))"
  by (auto simp: setup_mode_def Let_def HookConfigModeIsolated_def HookConfigModeUserHome_def
      split: sum.splits prod.splits option.splits if_splits)

definition hook_socket :: "setupEnv \<Rightarrow> hookWorld \<Rightarrow> string" where
  "hook_socket en w = fst (fst (relocateHookSocketUnderPrivateDir (se_socket en) (se_socketTemp en) (hw_tempDirs w)))"

definition is_isolated :: "string \<Rightarrow> bool" where
  "is_isolated mode = (mode = [] \<or> mode = HookConfigModeIsolated)"

lemma setup_vars:
  assumes "setupHookBridge indent en mode b w = (None, b', w', vars)"
  shows "vars = (if is_isolated mode then [''CODEX_HOME='' @ hb_codexHome b'] else []) @
    [''CODEX_SDK_HOOK_SOCKET='' @ hook_socket en w]"
  using assms
  by (auto simp: setupHookBridge_def hook_socket_def is_isolated_def HookConfigModeIsolated_def Let_def
      split: option.splits sum.splits prod.splits if_splits dest!: setup_mode_vars)

lemma split_var:
  "splitKV (''CODEX_HOME='' @ v) = (''CODEX_HOME'', v, True)"
  "splitKV (''CODEX_SDK_HOOK_SOCKET='' @ v) = (''CODEX_SDK_HOOK_SOCKET'', v, True)"
  by simp_all

text \<open>C24: The hooks of one client reach its own handler: when the hook bridge was set up, the server is
  started with the bridge's socket as the one value of the variable the shim dials, and, in the
  isolated mode, with the SDK's own directory as the one value of \<open>CODEX_HOME\<close>, whatever the parent's
  environment and the caller's own entries say.\<close>

theorem hook_environment_reaches_server:
  assumes "setupHookBridge indent en (co_HookConfigMode opts) b w = (None, b', w', vars)"
    and "co_HookCallback opts" and "connectTransport opts (None, vars) found probe conn = (Inr cfg, st)"
    and "\<And>m. mset (order m) = mset m" and "hook_socket en w \<noteq> []" and "hb_codexHome b' \<noteq> []"
  shows "values_of (sc_Env (newSpawnCommand environ order cfg cli args)) ''CODEX_SDK_HOOK_SOCKET'' = [hook_socket en w] \<and>
     (is_isolated (co_HookConfigMode opts) \<longrightarrow>
        values_of (sc_Env (newSpawnCommand environ order cfg cli args)) ''CODEX_HOME'' = [hb_codexHome b'])"
proof -
  have env: "ac_Env cfg = co_Env opts @ vars"
    using assms(2,3) by (auto simp: connectTransport_def transportConfig_def Let_def split: option.splits prod.splits)
  have vars: "vars = (if is_isolated (co_HookConfigMode opts) then [''CODEX_HOME='' @ hb_codexHome b'] else []) @
      [''CODEX_SDK_HOOK_SOCKET='' @ hook_socket en w]"
    by (rule setup_vars [OF assms(1)])
  have "last_entry vars ''CODEX_SDK_HOOK_SOCKET'' = Some (hook_socket en w)"
    unfolding vars by (simp add: last_entry_def)
  moreover have "is_isolated (co_HookConfigMode opts) \<longrightarrow> last_entry vars ''CODEX_HOME'' = Some (hb_codexHome b')"
    unfolding vars by (simp add: last_entry_def)
  ultimately show ?thesis
    using runtime_env_overlay [OF assms(4), of environ "co_Env opts @ vars"] assms(5,6)
    by (simp add: newSpawnCommand_def env last_entry_append)
qed

text \<open>A pipe is not lost: whatever fails while the pipes of the server are made, those that were open are
  closed again.\<close>

theorem spawn_pipes_closed:
  "case newSpawnedProc i o' e of
     (Inr ps, cs) \<Rightarrow> ps = closePipes \<and> cs = []
   | (Inl err, cs) \<Rightarrow> is_CLIConnectionError err \<and> set cs = {p. (p = StdinPipe \<and> i = None) \<or> (p = StdoutPipe \<and> i = None \<and> o' = None)}"
  by (auto simp: newSpawnedProc_def closePipes_def split: option.splits)

section \<open>Witnesses\<close>

theorem handshake_order_witness:
  "count_list (fst (handshake NewCodexOptions False ''trace'' (Inl (Sentinel ErrContextCanceled)) None None)) CloseTransport = 1"
proof -
  obtain calls init err where h: "handshake NewCodexOptions False ''trace'' (Inl (Sentinel ErrContextCanceled)) None None = (calls, init, err)"
    by (metis prod_cases3)
  then have "err \<noteq> None" by (auto simp: handshake_def Let_def closeTransportAfterConnectError_def)
  with handshake_order [OF h] h show ?thesis by simp
qed

definition hook_options :: codexOptions where
  "hook_options = WithHookCallback True (WithEnv [''CODEX_HOME=/elsewhere''] NewCodexOptions)"

theorem hook_environment_reaches_server_witness:
  "\<exists>cfg. values_of (sc_Env (newSpawnCommand [''CODEX_HOME=/home/u/.codex''] id cfg ''/bin/codex'' [''app-server''])) ''CODEX_HOME'' = [''/tmp/home-1'']"
proof -
  let ?s = "setupHookBridge (\<lambda>j. ''sdk'') (run_env 100 7) [] no_bridge sample_world"
  obtain r b w' vars where s: "?s = (r, b, w', vars)" by (metis prod.exhaust)
  have r: "fst ?s = None" by code_simp
  have home: "hb_codexHome (fst (snd ?s)) = ''/tmp/home-1''" by code_simp
  have sock: "hook_socket (run_env 100 7) sample_world \<noteq> []" by code_simp
  have mode: "co_HookConfigMode hook_options = []" "co_HookCallback hook_options"
    by (simp_all add: hook_options_def WithHookCallback_def WithHooks_def WithEnv_def NewCodexOptions_def)
  have s': "setupHookBridge (\<lambda>j. ''sdk'') (run_env 100 7) (co_HookConfigMode hook_options) no_bridge sample_world = (None, b, w', vars)"
    using s r mode by simp
  have b: "hb_codexHome b = ''/tmp/home-1''" using s home by simp
  obtain cfg st where c: "connectTransport hook_options (None, vars) (Inr ''/bin/codex'') (\<lambda>p. Inr (SemVer 0 144 1)) (\<lambda>c. None) = (Inr cfg, st)"
    using mode by (auto simp: connectTransport_def Let_def)
  have iso: "is_isolated (co_HookConfigMode hook_options)" by (simp add: is_isolated_def mode)
  have "values_of (sc_Env (newSpawnCommand [''CODEX_HOME=/home/u/.codex''] id cfg ''/bin/codex'' [''app-server''])) ''CODEX_HOME'' = [hb_codexHome b]"
    using hook_environment_reaches_server [OF s' mode(2) c _ sock, of id] iso b by simp
  with b show ?thesis by auto
qed

end
