(* ===== verification/Pipeline.thy ===== *)
theory Pipeline
  imports Dispatch Transitions
begin

text \<open>
  The way from the wire to the application: the read loop of the demultiplexer (\<open>demux.go\<close>), the
  dispatcher that takes its ordered messages (\<open>client_dispatch.go\<close>), one subscription and its consumer
  (\<open>client_thread_events.go\<close>), and the other goroutines of the client, interleaved. The components are
  those of Demux, Dispatch and Thread\_Events; here they share one state and run together, and what
  each promises adds up to what a subscriber and the provider see of the lines on the wire.
\<close>

section \<open>The composed state\<close>

text \<open>\<open>pl_ended\<close>: \<open>dispatch\<close> has returned. The last two fields record what the end of the dispatcher did
  to the subscriptions and what the consumer of the observed subscription received; nothing reads them.\<close>

record pipeline =
  pl_demux :: demux
  pl_client :: client
  pl_ended :: bool
  pl_tail :: "subOp list"
  pl_got :: "envelope list"

definition pl_start :: "demux \<Rightarrow> client \<Rightarrow> pipeline" where
  "pl_start d c = \<lparr>pl_demux = d, pl_client = c, pl_ended = False, pl_tail = [], pl_got = []\<rparr>"

text \<open>What the other goroutines of the client do, the subscription \<open>i\<close> aside.\<close>

inductive client_work :: "nat \<Rightarrow> client \<Rightarrow> client \<Rightarrow> bool" for i :: nat where
  cw_register: "client_work i c (registerThread (newThread t) c)"
| cw_unregister: "client_work i c (unregisterThread t c)"
| cw_thread: "thread_of c t = Some h \<Longrightarrow> thstep h h' \<Longrightarrow> client_work i c (set_thread t h' c)"
| cw_subscribe: "client_work i c (c\<lparr>cl_subs := snd (SubscribeThreadEvents n b (cl_closed c, cl_connected c)
    (cl_closed c, cl_connected c) (cl_subs c))\<rparr>)"
| cw_cancel: "j \<noteq> i \<Longrightarrow> client_work i c (c\<lparr>cl_subs := removeThreadEventSubscriber j (cl_subs c)\<rparr>)"
| cw_recv: "j \<noteq> i \<Longrightarrow> sub_of (cl_subs c) j = Some s \<Longrightarrow> sub_recv s = Some (e, s') \<Longrightarrow>
    client_work i c (c\<lparr>cl_subs := set_sub j s' (cl_subs c)\<rparr>)"
| cw_closing: "client_work i c (c\<lparr>cl_closed := True\<rparr>)"

definition take_front :: "serverMessage \<Rightarrow> serverMessage list \<Rightarrow> demux \<Rightarrow> demux" where
  "take_front m ms d = d\<lparr>dm_serverMessages := ms, dm_consumed := dm_consumed d @ [m]\<rparr>"

text \<open>Only the dispatcher answers the provider's requests: \<open>RespondServerRequest\<close> has no other caller.\<close>

definition responds :: "demux \<Rightarrow> demux \<Rightarrow> bool" where
  "responds d d' = (\<exists>i result e. d' = snd (RespondServerRequest i result e d))"

definition end_ops :: "bool \<Rightarrow> goError ptr \<Rightarrow> client \<Rightarrow> subOp list" where
  "end_ops canceled cause c =
     (if \<not> canceled \<and> \<not> cl_closed c then [Fail (gap_envelope [] (ThreadEventSourceGapError cause))] else []) @ [CloseSub]"

text \<open>The loop of \<open>dispatch\<close> ends when its context is done, or when the read loop has ended, which
  closes the channel, and the channel is drained.\<close>

inductive pl_step :: "(goError \<Rightarrow> string) \<Rightarrow> approvalCallback option \<Rightarrow> nat \<Rightarrow> pipeline \<Rightarrow> pipeline \<Rightarrow> bool"
  for et :: "goError \<Rightarrow> string" and cb :: "approvalCallback option" and i :: nat where
  pl_wire: "dstep (pl_demux p) d' \<Longrightarrow> dm_consumed d' = dm_consumed (pl_demux p) \<Longrightarrow>
    \<not> responds (pl_demux p) d' \<Longrightarrow> pl_step et cb i p (p\<lparr>pl_demux := d'\<rparr>)"
| pl_dispatch: "\<not> pl_ended p \<Longrightarrow> dm_serverMessages (pl_demux p) = m # ms \<Longrightarrow>
    handleServerMessage et cb m (pl_client p, take_front m ms (pl_demux p)) = Some (c', d') \<Longrightarrow>
    pl_step et cb i p (p\<lparr>pl_demux := d', pl_client := c'\<rparr>)"
| pl_end: "\<not> pl_ended p \<Longrightarrow>
    canceled \<or> is_exited (dm_loop (pl_demux p)) \<and> dm_serverMessages (pl_demux p) = [] \<Longrightarrow>
    dispatch_end canceled cause (pl_client p) = Some c' \<Longrightarrow>
    pl_step et cb i p (p\<lparr>pl_client := c', pl_ended := True, pl_tail := end_ops canceled cause (pl_client p)\<rparr>)"
| pl_recv: "sub_of (cl_subs (pl_client p)) i = Some s \<Longrightarrow> sub_recv s = Some (e, s') \<Longrightarrow>
    pl_step et cb i p (p\<lparr>pl_client := (pl_client p)\<lparr>cl_subs := set_sub i s' (cl_subs (pl_client p))\<rparr>,
      pl_got := pl_got p @ [e]\<rparr>)"
| pl_work: "client_work i (pl_client p) c' \<Longrightarrow> pl_step et cb i p (p\<lparr>pl_client := c'\<rparr>)"

section \<open>Lemmas on the components\<close>

context bounded_stream
begin

lemma run_append:
  "run ops1 s = (s1, app1, got1) \<Longrightarrow> run ops2 s1 = (s2, app2, got2) \<Longrightarrow>
     run (ops1 @ ops2) s = (s2, app1 @ app2, got1 @ got2)"
proof (induction ops1 arbitrary: s app1 got1)
  case (Cons op ops)
  show ?case
  proof (cases op)
    case (Offer x)
    with Cons.prems(1) obtain a where "run ops (offer x s) = (s1, a, got1)" "app1 = added x s @ a"
      by (metis run_OfferE)
    with Cons.IH Cons.prems(2) Offer show ?thesis by simp
  next
    case Take
    with Cons.prems(1) have "run (Take # ops) s = (s1, app1, got1)" by simp
    then show ?thesis
      by (cases rule: run_TakeE) (use Cons.IH Cons.prems(2) Take in auto)
  qed
qed simp

end

lemma offers_append [simp]: "offers (xs @ ys) = offers xs @ offers ys"
  by (simp add: offers_def)

lemma stream_ops_snoc [simp]: "stream_ops (msgs @ [m]) = stream_ops msgs @ effect_ops (msg_effect m)"
  by (simp add: stream_ops_def)

lemma close_all:
  assumes "subs_ok st"
  shows "sub_of (closeThreadEventSubscriptions st) i = map_option close_subscriber (sub_of st i)"
proof -
  have "sub_of (st\<lparr>st_table := None\<rparr>) = sub_of st" "distinct (registered st)"
    using assms by (simp_all add: sub_of_def fun_eq_iff subs_ok_def)
  then show ?thesis
    using close_loop_round [of "registered st" "st\<lparr>st_table := None\<rparr>"] assms
    by (cases "sub_of st i") (auto simp: closeThreadEventSubscriptions_def subs_ok_def)
qed

lemma dispatch_end_subs:
  assumes "client_ok c" and "dispatch_end canceled cause c = Some c'"
  shows "client_ok c' \<and> sub_of (cl_subs c') i =
    map_option (\<lambda>s. foldl (\<lambda>s x. sub_offer x s) s (end_ops canceled cause c)) (sub_of (cl_subs c) i)"
proof (cases "\<not> canceled \<and> \<not> cl_closed c")
  case True
  let ?g = "gap_envelope [] (ThreadEventSourceGapError cause)"
  have "client_ok (c\<lparr>cl_connected := False\<rparr>)" using assms(1) by simp
  from fail_ok_client [OF this, of ?g] obtain c1 where c1:
    "fail_subscriptions ?g (c\<lparr>cl_connected := False\<rparr>) = Some c1" "client_ok c1"
    "sub_of (cl_subs c1) i = map_option (sub_offer (Fail ?g)) (sub_of (cl_subs c) i)" by auto
  with True assms(2) have "c' = clearFileApprovals (c1\<lparr>cl_connected := False,
      cl_subs := closeThreadEventSubscriptions (cl_subs c1)\<rparr>)" by (simp add: dispatch_end_def)
  with True c1 close_all [of "cl_subs c1" i] dispatch_end_ok [OF assms(1), of canceled cause] assms(2)
  show ?thesis by (simp add: end_ops_def client_ok_def option.map_comp o_def del: sub_offer.simps(1,2))
next
  case False
  with assms close_all [of "cl_subs c" i] dispatch_end_ok [OF assms(1), of canceled cause]
  show ?thesis by (auto simp: end_ops_def dispatch_end_def client_ok_def)
qed

lemma subscribe_keeps:
  assumes "subs_ok st" and "sub_of st i = Some s"
  shows "sub_of (snd (SubscribeThreadEvents n b f1 f2 st)) i = Some s"
proof -
  have "i \<le> st_next st" using assms unfolding subs_ok_def by blast
  then have "i \<noteq> st_next st + 1" by simp
  moreover have "sub_of (st\<lparr>st_table := t, st_next := k\<rparr>) = sub_of st" for t k
    by (simp add: sub_of_def fun_eq_iff)
  ultimately show ?thesis using assms(2) by (simp add: SubscribeThreadEvents_def Let_def)
qed

lemma client_work_ok:
  assumes "client_work i c c'" and "client_ok c"
  shows "client_ok c' \<and> cl_files c' = cl_files c \<and>
    (sub_of (cl_subs c) i = Some s \<longrightarrow> sub_of (cl_subs c') i = Some s)"
  using assms
proof cases
  case (cw_register t)
  with assms(2) client_ok_register [of c t] show ?thesis by (auto simp: registerThread_def split: option.splits)
next
  case (cw_unregister t)
  with assms(2) client_ok_unregister [of c t] show ?thesis by (auto simp: unregisterThread_def Let_def)
next
  case (cw_thread t h h')
  then have "th_ok h'" using assms(2) th_ok_step [of h h'] by (simp add: client_ok_def)
  with cw_thread assms(2) show ?thesis by (simp add: client_ok_set_thread) (simp add: set_thread_def)
next
  case (cw_subscribe n b)
  with assms(2) subscribe_keeps [of "cl_subs c" i s] subs_ok_subscribe [of "cl_subs c"] show ?thesis
    by (auto simp: client_ok_def thread_of_def)
next
  case (cw_cancel j)
  with assms(2) subs_ok_remove [of "cl_subs c" j] show ?thesis by (auto simp: client_ok_def thread_of_def)
next
  case (cw_recv j s1 e s')
  with assms(2) subs_ok_recv [of "cl_subs c" j s1 e s'] show ?thesis by (auto simp: client_ok_def thread_of_def)
next
  case cw_closing
  with assms(2) show ?thesis by (simp add: client_ok_def thread_of_def)
qed

lemma respond_frame [simp]:
  "dm_consumed (snd (RespondServerRequest i result e d)) = dm_consumed d"
  "dm_lines (snd (RespondServerRequest i result e d)) = dm_lines d"
  "dm_serverMessages (snd (RespondServerRequest i result e d)) = dm_serverMessages d"
  by (simp_all add: RespondServerRequest_def write_frame_def split: option.splits)

lemma handle_demux:
  "handleServerMessage et cb m (c, d) = Some (c', d') \<Longrightarrow>
     d' = d \<or> (\<exists>i result e. d' = snd (RespondServerRequest i result e d))"
  by (auto simp: handleServerMessage_def handleServerRequest_def split: serverMessage.splits prod.splits)

lemma reach_dispatch:
  assumes "reach d0 d" and "dm_serverMessages d = m # ms"
    and "handleServerMessage et cb m (c, take_front m ms d) = Some (c', d')"
  shows "reach d0 d' \<and> dm_consumed d' = dm_consumed d @ [m] \<and> dm_lines d' = dm_lines d"
proof -
  have r: "reach d0 (take_front m ms d)"
    unfolding take_front_def by (rule reach_step [OF assms(1) take_message [OF assms(2)]])
  have "reach d0 d'" using handle_demux [OF assms(3)] r reach_step [OF r respond_server] by blast
  moreover have "dm_consumed d' = dm_consumed d @ [m] \<and> dm_lines d' = dm_lines d"
    using handle_demux [OF assms(3)] by (auto simp: take_front_def)
  ultimately show ?thesis by blast
qed

section \<open>From the wire to a subscriber\<close>

definition pl_ok :: "nat \<Rightarrow> nat \<Rightarrow> nat \<Rightarrow> nat \<Rightarrow> pipeline \<Rightarrow> bool" where
  "pl_ok n i k cap p = (reach (NewDemux True n) (pl_demux p) \<and> client_ok (pl_client p) \<and>
     k \<le> length (dm_consumed (pl_demux p)) \<and> (\<not> pl_ended p \<longrightarrow> pl_tail p = []) \<and>
     (\<exists>s ops app. sub_of (cl_subs (pl_client p)) i = Some s \<and>
        offers ops = stream_ops (drop k (dm_consumed (pl_demux p))) @ pl_tail p \<and>
        sub.run ops (newThreadEventSubscriber cap) = (s, app, pl_got p)))"

lemma pl_ok_offers:
  assumes "sub.run ops s0 = (s, app, got)"
  shows "\<exists>app'. sub.run (ops @ map Offer xs) s0 = (foldl (\<lambda>s x. sub_offer x s) s xs, app', got)"
  using sub.run_append [OF assms] run_offers [of xs s] by fastforce

lemma pl_ok_take:
  assumes "sub.run ops s0 = (s, app, got)" and "sub_recv s = Some (e, s')"
  shows "sub.run (ops @ [Take]) s0 = (s', app, got @ [e])"
  using sub.run_append [OF assms(1), of "[Take]" s' "[]" "[e]"] assms(2) by simp

lemma pl_okI:
  assumes "reach (NewDemux True n) (pl_demux p)" and "client_ok (pl_client p)"
    and "k \<le> length (dm_consumed (pl_demux p))" and "\<not> pl_ended p \<longrightarrow> pl_tail p = []"
    and "sub_of (cl_subs (pl_client p)) i = Some s"
    and "offers ops = stream_ops (drop k (dm_consumed (pl_demux p))) @ pl_tail p"
    and "sub.run ops (newThreadEventSubscriber cap) = (s, app, pl_got p)"
  shows "pl_ok n i k cap p"
  using assms unfolding pl_ok_def by blast

lemma pl_ok_step:
  assumes "pl_step et cb i p p'" and ok: "pl_ok n i k cap p"
  shows "pl_ok n i k cap p'"
proof -
  obtain s ops app where run: "sub_of (cl_subs (pl_client p)) i = Some s"
      "offers ops = stream_ops (drop k (dm_consumed (pl_demux p))) @ pl_tail p"
      "sub.run ops (newThreadEventSubscriber cap) = (s, app, pl_got p)"
    using ok by (auto simp: pl_ok_def)
  have r: "reach (NewDemux True n) (pl_demux p)" and c: "client_ok (pl_client p)"
    and k: "k \<le> length (dm_consumed (pl_demux p))" and t: "\<not> pl_ended p \<longrightarrow> pl_tail p = []"
    using ok by (auto simp: pl_ok_def)
  show ?thesis
    using assms(1)
  proof cases
    case (pl_wire d')
    with ok reach_step [OF r, of d'] show ?thesis by (simp add: pl_ok_def)
  next
    case (pl_dispatch m ms c' d')
    note d = reach_dispatch [OF r pl_dispatch(3,4)]
    have e: "client_ok c'" "effect_ok (msg_effect m) (pl_client p) c'"
      using handleServerMessage_effect [OF c, of et cb m "take_front m ms (pl_demux p)"] pl_dispatch(4) by auto
    obtain app' where "sub.run (ops @ map Offer (effect_ops (msg_effect m))) (newThreadEventSubscriber cap) =
        (foldl (\<lambda>s x. sub_offer x s) s (effect_ops (msg_effect m)), app', pl_got p)"
      using pl_ok_offers [OF run(3)] by blast
    moreover have "offers (ops @ map Offer (effect_ops (msg_effect m))) =
        stream_ops (drop k (dm_consumed d')) @ pl_tail p"
      using run(2) d k t pl_dispatch(2) by simp
    moreover have "sub_of (cl_subs c') i = Some (foldl (\<lambda>s x. sub_offer x s) s (effect_ops (msg_effect m)))"
      using effect_subs [OF e(2), of i] run(1) by simp
    ultimately show ?thesis
      unfolding pl_dispatch(1) using d e(1) k t by (intro pl_okI) simp_all
  next
    case (pl_end canceled cause c')
    let ?ops = "end_ops canceled cause (pl_client p)"
    obtain app' where "sub.run (ops @ map Offer ?ops) (newThreadEventSubscriber cap) =
        (foldl (\<lambda>s x. sub_offer x s) s ?ops, app', pl_got p)"
      using pl_ok_offers [OF run(3)] by blast
    moreover have "offers (ops @ map Offer ?ops) = stream_ops (drop k (dm_consumed (pl_demux p))) @ ?ops"
      using run(2) t pl_end(2) by simp
    moreover have "sub_of (cl_subs c') i = Some (foldl (\<lambda>s x. sub_offer x s) s ?ops)" "client_ok c'"
      using dispatch_end_subs [OF c pl_end(4), of i] run(1) by simp_all
    ultimately show ?thesis
      unfolding pl_end(1) using r k by (intro pl_okI) simp_all
  next
    case (pl_recv s1 e s')
    then have s1: "s1 = s" using run(1) by simp
    have "client_ok (pl_client p\<lparr>cl_subs := set_sub i s' (cl_subs (pl_client p))\<rparr>)"
      using c subs_ok_recv [of "cl_subs (pl_client p)" i s1 e s'] pl_recv(2,3)
      by (intro client_ok_subs) (auto simp: client_ok_def)
    moreover have "offers (ops @ [Take]) = stream_ops (drop k (dm_consumed (pl_demux p))) @ pl_tail p"
      using run(2) by simp
    moreover have "sub.run (ops @ [Take]) (newThreadEventSubscriber cap) = (s', app, pl_got p @ [e])"
      using pl_ok_take [OF run(3)] pl_recv(3) s1 by simp
    ultimately show ?thesis
      unfolding pl_recv(1) using r k t by (intro pl_okI) simp_all
  next
    case (pl_work c')
    with client_work_ok [OF pl_work(2) c, of s] run r k t show ?thesis unfolding pl_ok_def by auto
  qed
qed

lemma pl_ok_reach:
  assumes "(pl_step et cb i)\<^sup>*\<^sup>* p p'" and "pl_ok n i k cap p"
  shows "pl_ok n i k cap p'"
  using assms(1) by induction (use assms(2) pl_ok_step in blast)+

lemma pl_ok_start:
  assumes "reach (NewDemux True n) d" and "client_reach c" and "sub_of (cl_subs c) i = Some (newThreadEventSubscriber cap)"
  shows "pl_ok n i (length (dm_consumed d)) cap (pl_start d c)"
  using assms client_reach_ok [OF assms(2)]
  by (auto simp: pl_ok_def pl_start_def stream_ops_def intro!: exI [of _ "[]"])

lemma consumed_prefix:
  assumes "reach (NewDemux True n) d"
  shows "prefix (dm_consumed d @ dm_serverMessages d) (fst (spec_messages (dm_lines d)))"
    "dm_loop d = Reading \<Longrightarrow> dm_consumed d @ dm_serverMessages d = fst (spec_messages (dm_lines d))"
  using reach_NewDemux(2,5) [OF assms]
  by (cases "dm_loop d"; auto simp: inv_order_def is_exited_def)+

section \<open>From a request on the wire to its reply\<close>

text \<open>A frame written to the provider is a reply when it names no method.\<close>

fun is_reply :: "json \<Rightarrow> bool" where
  "is_reply (JObj kvs) = (map_of kvs ''method'' = None)"
| "is_reply _ = False"

definition answered :: "demux \<Rightarrow> json list" where
  "answered d = filter is_reply (dm_written d)"

definition request_positions :: "serverMessage list \<Rightarrow> nat list" where
  "request_positions msgs = filter (\<lambda>k. is_request (msgs ! k)) [0..<length msgs]"

text \<open>The frame due to the request at a position: its id, and the decision after the events the messages
  before it stand for.\<close>

definition due_frame :: "(goError \<Rightarrow> string) \<Rightarrow> approvalCallback option \<Rightarrow> serverMessage list \<Rightarrow> nat \<Rightarrow> json" where
  "due_frame et cb msgs k = (case msgs ! k of
      MsgRequest i m p \<Rightarrow> encode_Response (due_reply et cb (routed_since_gap (take k msgs)) i m p)
    | MsgNotification n \<Rightarrow> JNull)"

text \<open>The requests of the client itself are no replies.\<close>

lemma not_reply [simp]: "\<not> is_reply (encode_Request r)" "\<not> is_reply (encode_Notification n)"
  by (simp_all add: encode_Request_def encode_Notification_def)

lemma reply_frame [simp]: "is_reply (encode_Response r)"
  by (simp add: encode_Response_def omit_raw_def split: option.splits)

definition sends_requests :: "demux \<Rightarrow> bool" where
  "sends_requests d = (\<forall>i c. call_of d i = Some c \<longrightarrow> \<not> is_reply (call_request c))"

lemma sends_requests_step: "dstep d d' \<Longrightarrow> sends_requests d \<Longrightarrow> sends_requests d'"
  by (induction rule: dstep.induct)
    (auto simp: sends_requests_def step_defs call_of_def Let_def
      split: option.splits frameClass.splits prod.splits if_splits)

lemma sends_requests_reach: "reach (NewDemux ordered n) d \<Longrightarrow> sends_requests d"
proof (induction rule: reach.induct)
  case reach_refl
  show ?case by (simp add: NewDemux_def sends_requests_def call_of_def)
qed (rule sends_requests_step)

lemma dstep_writes:
  assumes "dstep d d'" and "sends_requests d"
  shows "responds d d' \<or> (\<exists>ws. dm_written d' = dm_written d @ ws \<and> filter is_reply ws = [])"
  using assms
proof (induction rule: dstep.induct)
  case (respond_server d i result rpcErr)
  show ?case unfolding responds_def by blast
qed (auto simp: sends_requests_def step_defs Let_def
    split: option.splits frameClass.splits prod.splits if_splits)

lemma others_answer_nothing:
  "dstep d d' \<Longrightarrow> \<not> responds d d' \<Longrightarrow> sends_requests d \<Longrightarrow> answered d' = answered d"
  using dstep_writes by (fastforce simp: answered_def)

text \<open>The moves of a run; in a \<open>healthy\<close> one the pipe to the provider takes every write.\<close>

definition pl_move :: "bool \<Rightarrow> (goError \<Rightarrow> string) \<Rightarrow> approvalCallback option \<Rightarrow> nat \<Rightarrow> pipeline \<Rightarrow> pipeline \<Rightarrow> bool" where
  "pl_move healthy et cb i p p' = (pl_step et cb i p p' \<and> (healthy \<longrightarrow> dm_writer (pl_demux p) = None))"

definition rp_ok :: "bool \<Rightarrow> nat \<Rightarrow> (goError \<Rightarrow> string) \<Rightarrow> approvalCallback option \<Rightarrow> pipeline \<Rightarrow> bool" where
  "rp_ok healthy n et cb p = (reach (NewDemux True n) (pl_demux p) \<and> client_ok (pl_client p) \<and>
     (\<not> pl_ended p \<longrightarrow> cl_files (pl_client p) = remember_all (routed_since_gap (dm_consumed (pl_demux p)))) \<and>
     (\<exists>ks. subseq ks (request_positions (dm_consumed (pl_demux p))) \<and>
        (healthy \<longrightarrow> ks = request_positions (dm_consumed (pl_demux p))) \<and>
        answered (pl_demux p) = map (due_frame et cb (dm_consumed (pl_demux p))) ks))"

lemma request_positions_more:
  "request_positions (msgs @ rest) = request_positions msgs @
     filter (\<lambda>k. is_request ((msgs @ rest) ! k)) [length msgs..<length msgs + length rest]"
proof -
  have "filter (\<lambda>k. is_request ((msgs @ rest) ! k)) [0..<length msgs] = request_positions msgs"
    unfolding request_positions_def by (rule filter_cong) (simp_all add: nth_append)
  then show ?thesis by (simp add: request_positions_def upt_add_eq_append [of 0, simplified])
qed

lemma request_positions_snoc:
  "request_positions (msgs @ [m]) = request_positions msgs @ (if is_request m then [length msgs] else [])"
  by (simp add: request_positions_more)

lemma subseq_subset: "subseq xs ys \<Longrightarrow> set xs \<subseteq> set ys"
  by (rule subsetI, erule (1) list_emb_set) simp

lemma subseq_positions: "subseq ks (request_positions msgs) \<Longrightarrow> k \<in> set ks \<Longrightarrow> k < length msgs \<and> is_request (msgs ! k)"
  by (drule subseq_subset) (auto simp: request_positions_def)

lemma due_frames_more:
  "subseq ks (request_positions msgs) \<Longrightarrow> map (due_frame et cb (msgs @ rest)) ks = map (due_frame et cb msgs) ks"
  by (rule map_cong [OF refl], drule (1) subseq_positions)
    (simp add: due_frame_def nth_append split: serverMessage.split)

lemma dispatch_answers:
  assumes files: "cl_files c = remember_all (routed_since_gap (dm_consumed d))"
    and h: "handleServerMessage et cb m (c, take_front m ms d) = Some (c', d')"
  shows "answered d' = answered d @
    (if is_request m \<and> dm_writer d = None then [due_frame et cb (dm_consumed d @ [m]) (length (dm_consumed d))] else [])"
proof (cases m)
  case (MsgRequest i q ps)
  obtain result e where r: "server_reply et cb q ps c = (result, e)" by fastforce
  with server_reply_due [OF files, where et = et and cb = cb and m = q and p = ps and i = i]
  have due: "\<lparr>resp_ID = i, resp_Result = (if e = None then result else None), resp_Error = e\<rparr> =
      due_reply et cb (routed_since_gap (dm_consumed d)) i q ps" by simp
  have "d' = snd (RespondServerRequest i result e (take_front m ms d))"
    using h r MsgRequest by (simp add: handleServerMessage_def handleServerRequest_def)
  then have "dm_written d' = dm_written d @ (if dm_writer d = None
      then [encode_Response (due_reply et cb (routed_since_gap (dm_consumed d)) i q ps)] else [])"
    unfolding due [symmetric]
    by (auto simp: RespondServerRequest_def write_frame_def take_front_def split: option.splits)
  then show ?thesis using MsgRequest by (simp add: answered_def due_frame_def)
next
  case (MsgNotification nt)
  with h show ?thesis by (auto simp: handleServerMessage_def take_front_def answered_def)
qed

lemma rp_ok_dispatch:
  assumes ok: "rp_ok healthy n et cb p" and "\<not> pl_ended p" and m: "dm_serverMessages (pl_demux p) = m # ms"
    and h: "handleServerMessage et cb m (pl_client p, take_front m ms (pl_demux p)) = Some (c', d')"
    and w: "healthy \<longrightarrow> dm_writer (pl_demux p) = None"
  shows "rp_ok healthy n et cb (p\<lparr>pl_demux := d', pl_client := c'\<rparr>)"
proof -
  let ?msgs = "dm_consumed (pl_demux p)"
  have r: "reach (NewDemux True n) (pl_demux p)" and c: "client_ok (pl_client p)"
    and f: "cl_files (pl_client p) = remember_all (routed_since_gap ?msgs)"
    using ok assms(2) by (simp_all add: rp_ok_def)
  obtain ks where ks: "subseq ks (request_positions ?msgs)" "healthy \<longrightarrow> ks = request_positions ?msgs"
      "answered (pl_demux p) = map (due_frame et cb ?msgs) ks" using ok by (auto simp: rp_ok_def)
  note d = reach_dispatch [OF r m h]
  have e: "client_ok c'" "effect_ok (msg_effect m) (pl_client p) c'"
    using handleServerMessage_effect [OF c, of et cb m "take_front m ms (pl_demux p)"] h by auto
  have files: "cl_files c' = remember_all (routed_since_gap (?msgs @ [m]))"
    using effect_files [OF e(2) f] by (simp add: routed_since_gap_def)
  let ?new = "if is_request m \<and> dm_writer (pl_demux p) = None then [length ?msgs] else []"
  have sub: "subseq (ks @ ?new) (request_positions (?msgs @ [m]))"
    unfolding request_positions_snoc by (rule list_emb_append_mono [OF ks(1)]) simp
  have all: "healthy \<longrightarrow> ks @ ?new = request_positions (?msgs @ [m])"
    using ks(2) w by (simp add: request_positions_snoc)
  have "answered d' = map (due_frame et cb (?msgs @ [m])) (ks @ ?new)"
    using dispatch_answers [OF f h] ks(3) due_frames_more [OF ks(1), of et cb "[m]"] by simp
  with sub all have "\<exists>ks. subseq ks (request_positions (?msgs @ [m])) \<and>
      (healthy \<longrightarrow> ks = request_positions (?msgs @ [m])) \<and> answered d' = map (due_frame et cb (?msgs @ [m])) ks"
    by blast
  with d e(1) files show ?thesis by (simp add: rp_ok_def)
qed

lemma rp_ok_step:
  assumes "pl_move healthy et cb i p p'" and ok: "rp_ok healthy n et cb p"
  shows "rp_ok healthy n et cb p'"
proof -
  have r: "reach (NewDemux True n) (pl_demux p)" and c: "client_ok (pl_client p)"
    using ok by (simp_all add: rp_ok_def)
  have st: "pl_step et cb i p p'" and w: "healthy \<longrightarrow> dm_writer (pl_demux p) = None"
    using assms(1) by (simp_all add: pl_move_def)
  show ?thesis
    using st
  proof cases
    case (pl_wire d')
    with others_answer_nothing [OF pl_wire(2,4) sends_requests_reach [OF r]] ok reach_step [OF r, of d']
    show ?thesis by (simp add: rp_ok_def)
  next
    case (pl_dispatch m ms c' d')
    with rp_ok_dispatch [OF ok _ _ _ w] show ?thesis by blast
  next
    case (pl_end canceled cause c')
    with ok dispatch_end_subs [OF c pl_end(4)] show ?thesis by (simp add: rp_ok_def)
  next
    case (pl_recv s e s')
    have "client_ok (pl_client p\<lparr>cl_subs := set_sub i s' (cl_subs (pl_client p))\<rparr>)"
      using c subs_ok_recv [of "cl_subs (pl_client p)" i s e s'] pl_recv(2,3)
      by (intro client_ok_subs) (auto simp: client_ok_def)
    with ok pl_recv(1) show ?thesis by (simp add: rp_ok_def)
  next
    case (pl_work c')
    with client_work_ok [OF pl_work(2) c] ok show ?thesis by (simp add: rp_ok_def)
  qed
qed

lemma rp_ok_start: "rp_ok healthy n et cb (pl_start (NewDemux True n) new_client)"
  using client_ok_new
  by (simp add: rp_ok_def pl_start_def reach_refl)
    (simp add: NewDemux_def new_client_def routed_since_gap_def remember_all_def request_positions_def answered_def)

interpretation replies: step_invariant "pl_start (NewDemux True n) new_client" "pl_move healthy et cb i" "rp_ok healthy n et cb"
  for n healthy et cb i
  by unfold_locales (rule rp_ok_start, rule rp_ok_step)

lemma rp_ok_steps: "(pl_step et cb i)\<^sup>*\<^sup>* (pl_start (NewDemux True n) new_client) p \<Longrightarrow> rp_ok False n et cb p"
  using replies.reach_ok [of False et cb i n p] by (simp add: pl_move_def [abs_def])

lemma rp_ok_prefix:
  "rp_ok healthy n et cb p \<Longrightarrow> prefix (dm_consumed (pl_demux p)) (fst (spec_messages (dm_lines (pl_demux p))))"
  using consumed_prefix(1) [of n "pl_demux p"] by (auto simp: rp_ok_def dest: append_prefixD)

text \<open>A written frame that grants.\<close>

fun is_grant :: "json \<Rightarrow> bool" where
  "is_grant (JObj kvs) = (map_of kvs ''method'' = None \<and>
     (case map_of kvs ''result'' of Some j \<Rightarrow> grants j | None \<Rightarrow> False))"
| "is_grant _ = False"

fun has_id :: "nat \<Rightarrow> json \<Rightarrow> bool" where
  "has_id i (JObj kvs) = (map_of kvs ''id'' = Some (JNum (itoa i)))"
| "has_id i _ = False"

text \<open>The frame answers the request at a position of the messages, which a grant may answer.\<close>

definition granted_by :: "approvalCallback option \<Rightarrow> serverMessage list \<Rightarrow> nat \<Rightarrow> json \<Rightarrow> bool" where
  "granted_by cb msgs k frame = (case msgs ! k of
      MsgRequest i m p \<Rightarrow> has_id i frame \<and> grant_backed cb (routed_since_gap (take k msgs)) m p
    | MsgNotification n \<Rightarrow> False)"

lemma is_grant_response: "is_grant (encode_Response r) \<longleftrightarrow> (case resp_Result r of Some j \<Rightarrow> grants j | None \<Rightarrow> False)"
  by (simp add: encode_Response_def omit_raw_def split: option.splits)

lemma is_grant_reply: "is_grant j \<Longrightarrow> is_reply j"
  by (cases j) simp_all

lemma due_frame_granted:
  assumes "k < length msgs" and "is_request (msgs ! k)" and "is_grant (due_frame et cb msgs k)"
  shows "granted_by cb (msgs @ rest) k (due_frame et cb msgs k)"
proof (cases "msgs ! k")
  case (MsgRequest i m p)
  let ?r = "due_reply et cb (routed_since_gap (take k msgs)) i m p"
  have "case resp_Result ?r of Some j \<Rightarrow> grants j | None \<Rightarrow> False"
    using assms(3) MsgRequest by (simp add: due_frame_def is_grant_response)
  then have "grant_backed cb (routed_since_gap (take k msgs)) m p"
    using due_reply_grants [of et cb "routed_since_gap (take k msgs)" i m p] by (simp split: option.splits)
  moreover have "has_id i (encode_Response ?r)"
    by (cases "ParseApprovalRequest m p") (simp_all add: due_reply_def encode_Response_def)
  ultimately show ?thesis using assms(1) MsgRequest by (simp add: granted_by_def due_frame_def nth_append)
qed (use assms(2) in simp)

lemma filter_grants: "filter is_grant (dm_written d) = filter is_grant (answered d)"
  using is_grant_reply by (auto simp: answered_def intro: filter_cong)

lemma pl_consumed:
  assumes "(pl_step et cb i)\<^sup>*\<^sup>* p p'"
  shows "prefix (dm_consumed (pl_demux p)) (dm_consumed (pl_demux p'))"
  using assms
proof (induction rule: rtranclp_induct)
  case (step p1 p2)
  from step(2) have "prefix (dm_consumed (pl_demux p1)) (dm_consumed (pl_demux p2))"
  proof cases
    case (pl_dispatch m ms c' d')
    then show ?thesis
      using handle_demux [OF pl_dispatch(4)] by (auto simp: take_front_def)
  qed simp_all
  with step(3) show ?case by (rule prefix_order.order_trans)
qed simp

section \<open>A sample run\<close>

text \<open>One line that stands for one message, read, delivered and dispatched.\<close>

lemma one_line_run:
  assumes c: "client_ok c" and l: "dm_loop (on_line l (NewDemux True n)) = Delivering m g None b"
  shows "\<exists>p. (pl_move True et cb i)\<^sup>*\<^sup>* (pl_start (NewDemux True n) c) p \<and> dm_consumed (pl_demux p) = [m] \<and>
    dm_lines (pl_demux p) = [l] \<and> \<not> pl_ended p \<and> pl_tail p = []"
proof -
  let ?d0 = "NewDemux True n" let ?d1 = "on_line l ?d0" let ?d2 = "after_delivery g None (enqueue m ?d1)"
  have q: "dm_serverMessages ?d1 = [] \<and> dm_consumed ?d1 = [] \<and> dm_ordered ?d1"
    by (auto simp: NewDemux_def step_defs Let_def split: option.splits frameClass.splits prod.splits)
  have w: "dm_writer ?d0 = None" "dm_writer ?d1 = None" "dm_writer ?d2 = None"
    by simp_all (simp_all add: NewDemux_def)
  from q have d2: "dm_serverMessages ?d2 = [m]" "dm_consumed ?d2 = []" "dm_lines ?d2 = [l]"
    using on_line_lines [of l ?d0] by (simp_all add: after_delivery_def enqueue_def NewDemux_def)
  have "dm_lines ?d1 \<noteq> dm_lines ?d0" "dm_serverMessages ?d2 \<noteq> dm_serverMessages ?d1"
    using on_line_lines [of l ?d0] q d2(1) by simp_all
  then have nr: "\<not> responds ?d0 ?d1" "\<not> responds ?d1 ?d2" by (auto simp: responds_def)
  obtain c' d' where h: "handleServerMessage et cb m (c, take_front m [] ?d2) = Some (c', d')"
    using handleServerMessage_effect [OF c] by blast
  have d': "dm_consumed d' = [m]" "dm_lines d' = [l]"
    using handle_demux [OF h] d2 by (auto simp: take_front_def)
  have "pl_move True et cb i (pl_start ?d0 c) (pl_start ?d1 c)"
    using pl_wire [of "pl_start ?d0 c" ?d1 et cb i] read_line [of ?d0 l] q nr(1) w(1)
    by (simp add: pl_start_def pl_move_def) (simp add: NewDemux_def)
  moreover have "pl_move True et cb i (pl_start ?d1 c) (pl_start ?d2 c)"
    using pl_wire [of "pl_start ?d1 c" ?d2 et cb i] deliver [OF l] q d2 nr(2) w(2)
    by (simp add: pl_start_def room_def pl_move_def)
  moreover have "pl_move True et cb i (pl_start ?d2 c) (pl_start d' c')"
    using pl_dispatch [of "pl_start ?d2 c" m "[]" et cb c' d' i] h d2 w(3) by (simp add: pl_start_def pl_move_def)
  ultimately have "(pl_move True et cb i)\<^sup>*\<^sup>* (pl_start ?d0 c) (pl_start d' c')"
    by (meson converse_rtranclp_into_rtranclp rtranclp.rtrancl_refl)
  with d' show ?thesis by (intro exI [of _ "pl_start d' c'"]) (simp add: pl_start_def)
qed

lemma pl_moves_steps: "(pl_move healthy et cb i)\<^sup>*\<^sup>* p p' \<Longrightarrow> (pl_step et cb i)\<^sup>*\<^sup>* p p'"
  by (rule rtranclp_mono [THEN predicate2D]) (auto simp: pl_move_def)

section \<open>Properties\<close>

text \<open>C1: From the wire to the application: whatever way reading, delivering, dispatching, receiving and the
  client's other work interleave, what the consumer of a subscription has received and will receive is
  the thread events of the lines read since it subscribed, in the order of the wire and without a
  hole, up to one gap record that ends the stream; nothing is held back once the read loop waits and
  the queue is empty; and the dispatcher can always take the next message.\<close>

theorem wire_to_subscriber:
  assumes "reach (NewDemux True n) d" and "client_reach c"
    and "sub_of (cl_subs c) i = Some (newThreadEventSubscriber cap)"
    and "(pl_step et cb i)\<^sup>*\<^sup>* (pl_start d c) p"
  shows "\<exists>s msgs. sub_of (cl_subs (pl_client p)) i = Some s \<and>
     complete_or_gap cap (stream_ops msgs @ pl_tail p) (pl_got p @ ch_buf (s_events s)) \<and>
     (\<not> pl_ended p \<longrightarrow> pl_tail p = []) \<and>
     dm_consumed (pl_demux p) = dm_consumed d @ msgs \<and>
     prefix (dm_consumed (pl_demux p)) (fst (spec_messages (dm_lines (pl_demux p)))) \<and>
     (dm_loop (pl_demux p) = Reading \<and> dm_serverMessages (pl_demux p) = [] \<longrightarrow>
        dm_consumed (pl_demux p) = fst (spec_messages (dm_lines (pl_demux p)))) \<and>
     (\<not> pl_ended p \<and> dm_serverMessages (pl_demux p) \<noteq> [] \<longrightarrow>
        (\<exists>p'. pl_step et cb i p p' \<and>
           dm_consumed (pl_demux p') = dm_consumed (pl_demux p) @ [hd (dm_serverMessages (pl_demux p))]))"
proof -
  have ok: "pl_ok n i (length (dm_consumed d)) cap p"
    by (rule pl_ok_reach [OF assms(4) pl_ok_start [OF assms(1-3)]])
  obtain msgs where msgs: "dm_consumed (pl_demux p) = dm_consumed d @ msgs"
    using pl_consumed [OF assms(4)] by (auto simp: pl_start_def prefix_def)
  obtain s ops app where run: "sub_of (cl_subs (pl_client p)) i = Some s" "offers ops = stream_ops msgs @ pl_tail p"
      "sub.run ops (newThreadEventSubscriber cap) = (s, app, pl_got p)"
    using ok msgs by (auto simp: pl_ok_def)
  have r: "reach (NewDemux True n) (pl_demux p)" and c: "client_ok (pl_client p)" using ok by (simp_all add: pl_ok_def)
  have "complete_or_gap cap (offers ops) app"
    by (rule run_complete_or_gap [OF sub_ok_new _ _ run(3)]) (simp_all add: newThreadEventSubscriber_def)
  moreover have "pl_got p @ ch_buf (s_events s) = app"
    using sub.run_fifo [OF sub_ok_new run(3)] by (simp add: newThreadEventSubscriber_def)
  ultimately have stream: "complete_or_gap cap (stream_ops msgs @ pl_tail p) (pl_got p @ ch_buf (s_events s))"
    using run(2) by simp
  have pre: "prefix (dm_consumed (pl_demux p)) (fst (spec_messages (dm_lines (pl_demux p))))"
    using consumed_prefix(1) [OF r] by (metis append_prefixD)
  have all: "dm_consumed (pl_demux p) = fst (spec_messages (dm_lines (pl_demux p)))"
    if "dm_loop (pl_demux p) = Reading \<and> dm_serverMessages (pl_demux p) = []"
    using consumed_prefix(2) [OF r] that by simp
  have go: "\<exists>p'. pl_step et cb i p p' \<and>
      dm_consumed (pl_demux p') = dm_consumed (pl_demux p) @ [hd (dm_serverMessages (pl_demux p))]"
    if run: "\<not> pl_ended p \<and> dm_serverMessages (pl_demux p) \<noteq> []"
  proof -
    obtain m ms where m: "dm_serverMessages (pl_demux p) = m # ms"
      using run by (cases "dm_serverMessages (pl_demux p)") auto
    obtain c' d' where h: "handleServerMessage et cb m (pl_client p, take_front m ms (pl_demux p)) = Some (c', d')"
      using handleServerMessage_effect [OF c] by blast
    from pl_dispatch [OF _ m h] run reach_dispatch [OF r m h] m show ?thesis by fastforce
  qed
  show ?thesis
    using run(1) stream msgs pre all go ok by (intro exI [of _ s] exI [of _ msgs]) (simp add: pl_ok_def)
qed

text \<open>C4: Every request on the wire is answered once, in the order of the wire: the replies written to the
  provider are those due to requests the dispatcher has taken, each with the id of its request and the
  decision due after the messages before it, none twice, none out of order and nothing in between; and
  when the pipe takes every write, every request taken has its reply.\<close>

theorem wire_requests_answered:
  assumes "(pl_move healthy et cb i)\<^sup>*\<^sup>* (pl_start (NewDemux True n) new_client) p"
  shows "prefix (dm_consumed (pl_demux p)) (fst (spec_messages (dm_lines (pl_demux p)))) \<and>
     (\<exists>ks. subseq ks (request_positions (dm_consumed (pl_demux p))) \<and>
        (healthy \<longrightarrow> ks = request_positions (dm_consumed (pl_demux p))) \<and>
        answered (pl_demux p) = map (due_frame et cb (dm_consumed (pl_demux p))) ks)"
proof -
  have "rp_ok healthy n et cb p" by (rule replies.reach_ok [OF assms])
  with rp_ok_prefix [OF this] show ?thesis by (simp add: rp_ok_def)
qed

text \<open>C2: A grant rests on the wire: the frames written to the provider that let it go on answer, in the order
  of the wire and at most one each, requests the provider sent, with their ids; the caller's own
  callback accepted each, and for a file change it was shown what the events before the request on the
  wire recorded for the item since the last line that could not be decoded, parsed or attributed, or
  when they recorded nothing, no change but the one the request itself describes.\<close>

theorem wire_grants_backed:
  assumes "(pl_step et cb i)\<^sup>*\<^sup>* (pl_start (NewDemux True n) new_client) p"
    and "msgs = fst (spec_messages (dm_lines (pl_demux p)))"
  shows "\<exists>ks. subseq ks (request_positions msgs) \<and>
     list_all2 (granted_by cb msgs) ks (filter is_grant (dm_written (pl_demux p)))"
proof -
  let ?msgs = "dm_consumed (pl_demux p)" and ?due = "due_frame et cb (dm_consumed (pl_demux p))"
  have ok: "rp_ok False n et cb p" by (rule rp_ok_steps [OF assms(1)])
  obtain rest where more: "msgs = ?msgs @ rest" using rp_ok_prefix [OF ok] assms(2) by (auto simp: prefix_def)
  obtain ks where ks: "subseq ks (request_positions ?msgs)" "answered (pl_demux p) = map ?due ks"
    using ok by (auto simp: rp_ok_def)
  let ?ks = "filter (\<lambda>k. is_grant (?due k)) ks"
  have "subseq ?ks (request_positions msgs)"
    unfolding more request_positions_more
    by (rule subseq_order.order_trans [OF subseq_filter_left]) (use list_emb_append_mono [OF ks(1) list_emb_Nil] in simp)
  moreover have "granted_by cb msgs k (?due k)" if "k \<in> set ?ks" for k
    using that subseq_positions [OF ks(1)] due_frame_granted [of k ?msgs et cb rest] more by auto
  then have "list_all2 (granted_by cb msgs) ?ks (map ?due ?ks)"
    unfolding list_all2_map2 by (rule list.rel_refl_strong)
  moreover have "filter is_grant (dm_written (pl_demux p)) = map ?due ?ks"
    unfolding filter_grants ks(2) by (simp add: filter_map o_def)
  ultimately show ?thesis by auto
qed

section \<open>Witnesses\<close>

lemma bad_line_loop: "dm_loop (on_line ''x'' (NewDemux True 3)) = Delivering decode_gap True None False"
  by (simp add: on_line_def NewDemux_def decode_frame_x handleDecodeFailure_def recordParseFailure_def
      WithMaxParseErrors_def log_def want_def Let_def)

theorem wire_to_subscriber_witness:
  "\<exists>(p :: pipeline) s. dm_lines (pl_demux p) = [''x''] \<and> sub_of (cl_subs (pl_client p)) 1 = Some s \<and>
     complete_or_gap 2 (stream_ops [decode_gap]) (pl_got p @ ch_buf (s_events s))"
proof -
  obtain p where p: "(pl_step (\<lambda>e. []) None 1)\<^sup>*\<^sup>* (pl_start (NewDemux True 3) sample_client) p"
      "dm_consumed (pl_demux p) = [decode_gap]" "dm_lines (pl_demux p) = [''x'']" "\<not> pl_ended p"
    using one_line_run [OF client_reach_ok [OF sample_client_reach] bad_line_loop] pl_moves_steps by blast
  obtain s msgs where s: "sub_of (cl_subs (pl_client p)) 1 = Some s"
      "complete_or_gap 2 (stream_ops msgs @ pl_tail p) (pl_got p @ ch_buf (s_events s))" "\<not> pl_ended p \<longrightarrow> pl_tail p = []"
      "dm_consumed (pl_demux p) = dm_consumed (NewDemux True 3) @ msgs"
    using wire_to_subscriber [OF reach_refl sample_client_reach sample_client_sub p(1)] by blast
  then have "msgs = [decode_gap]" using p(2) by (simp add: NewDemux_def)
  with s p show ?thesis by auto
qed

text \<open>A request of a method the SDK does not know, which the callback accepts.\<close>

definition ask_request :: rpcRequest where
  "ask_request = \<lparr>req_ID = 7, req_Method = ''ask'', req_Params = None\<rparr>"

definition ask_line :: string where
  "ask_line = render (encode_Request ask_request)"

lemma ask_line_loop:
  "dm_loop (on_line ask_line (NewDemux True 0)) = Delivering (MsgRequest 7 ''ask'' None) False None False"
proof -
  obtain g where "unmarshal t_rawFrame (Some (encode_Request ask_request)) = (g, True)"
    "to_rawFrame g = \<lparr>rf_ID = Some 7, rf_Method = Some ''ask'', rf_Params = None, rf_Result = None, rf_Error = None\<rparr>"
    using to_rawFrame_Request [of ask_request] by (auto simp: ask_request_def)
  moreover have "wf_json (encode_Request ask_request) \<and> json_depth (encode_Request ask_request) \<le> 10000"
    by (rule wf_encode(1)) (simp add: ask_request_def wf_raw_def)
  ultimately have "decode_frame ask_line = Some \<lparr>rf_ID = Some 7, rf_Method = Some ''ask'', rf_Params = None,
      rf_Result = None, rf_Error = None\<rparr>"
    unfolding ask_line_def using decode_frame_render by metis
  moreover have "ask_line \<noteq> []" by (simp add: ask_line_def encode_Request_def)
  ultimately show ?thesis
    by (simp add: on_line_def NewDemux_def classifyAndRoute_def classify_def log_def want_def Let_def)
qed

definition accept_frame :: json where
  "accept_frame = JObj [(''id'', JNum (itoa 7)), (''result'', JObj [(''decision'', JStr ''accept'')])]"

lemma ask_run:
  "\<exists>p. (pl_move True (\<lambda>e. []) (Some (\<lambda>q. ApprovalAccept)) 1)\<^sup>*\<^sup>* (pl_start (NewDemux True 0) new_client) p \<and>
     dm_lines (pl_demux p) = [ask_line] \<and> dm_consumed (pl_demux p) = [MsgRequest 7 ''ask'' None]"
  using one_line_run [OF client_ok_new ask_line_loop] by blast

lemma ask_due: "due_frame (\<lambda>e. []) (Some (\<lambda>q. ApprovalAccept)) [MsgRequest 7 ''ask'' None] 0 = accept_frame"
  by (simp add: due_frame_def due_reply_def due_decision_def decided_by_def ParseApprovalRequest_def
      encode_Response_def omit_raw_def accept_frame_def)

theorem wire_requests_answered_witness:
  "\<exists>p :: pipeline. dm_lines (pl_demux p) = [ask_line] \<and> answered (pl_demux p) = [accept_frame]"
proof -
  obtain p where p: "(pl_move True (\<lambda>e. []) (Some (\<lambda>q. ApprovalAccept)) 1)\<^sup>*\<^sup>* (pl_start (NewDemux True 0) new_client) p"
      "dm_lines (pl_demux p) = [ask_line]" "dm_consumed (pl_demux p) = [MsgRequest 7 ''ask'' None]"
    using ask_run by blast
  have "request_positions (dm_consumed (pl_demux p)) = [0]" by (simp add: p(3) request_positions_def)
  with wire_requests_answered [OF p(1)] p(2) ask_due show ?thesis by (auto simp: p(3))
qed

theorem wire_grants_backed_witness:
  "\<exists>(p :: pipeline) k. filter is_grant (dm_written (pl_demux p)) = [accept_frame] \<and>
     granted_by (Some (\<lambda>q. ApprovalAccept)) (fst (spec_messages [ask_line])) k accept_frame"
proof -
  obtain p where p: "(pl_move True (\<lambda>e. []) (Some (\<lambda>q. ApprovalAccept)) 1)\<^sup>*\<^sup>* (pl_start (NewDemux True 0) new_client) p"
      "dm_lines (pl_demux p) = [ask_line]" "dm_consumed (pl_demux p) = [MsgRequest 7 ''ask'' None]"
    using ask_run by blast
  have "rp_ok True 0 (\<lambda>e. []) (Some (\<lambda>q. ApprovalAccept)) p" by (rule replies.reach_ok [OF p(1)])
  moreover have "request_positions (dm_consumed (pl_demux p)) = [0]" by (simp add: p(3) request_positions_def)
  ultimately have "answered (pl_demux p) = [accept_frame]" using ask_due by (auto simp: rp_ok_def p(3))
  moreover have "is_grant accept_frame" by (simp add: accept_frame_def grants_def)
  ultimately have w: "filter is_grant (dm_written (pl_demux p)) = [accept_frame]" by (simp add: filter_grants)
  with wire_grants_backed [OF pl_moves_steps [OF p(1)] refl] p(2) show ?thesis
    by (auto simp: list_all2_Cons2)
qed

end
