(* ===== verification/Turn_Pipeline.thy ===== *)
theory Turn_Pipeline
  imports Pipeline
begin

text \<open>
  One turn from the wire to its caller: the read loop (\<open>demux.go\<close>), the dispatcher that delivers the
  events of a thread to its inbox (\<open>client_dispatch.go\<close>), the goroutine that streams the turn and the
  caller that receives it (\<open>threads.go\<close>), interleaved with everything else the client does. The thread's
  state is shared: the client's routing table and the stream hold the same handle as long as the
  thread is registered.
\<close>

section \<open>The composed state\<close>

text \<open>\<open>tp_routed\<close>: the handle the stream reads from is the one registered for its thread id.\<close>

record turnPipe =
  tp_demux :: demux
  tp_client :: client
  tp_turn :: turnStream
  tp_routed :: bool
  tp_ended :: bool

definition tp_start :: "string \<Rightarrow> string \<Rightarrow> thread \<Rightarrow> demux \<Rightarrow> client \<Rightarrow> turnPipe" where
  "tp_start t u h d c = \<lparr>tp_demux = d, tp_client = set_thread t (tn_thread (start_stream u h)) c,
     tp_turn = start_stream u h, tp_routed = True, tp_ended = False\<rparr>"

definition put_turn :: "string \<Rightarrow> turnStream \<Rightarrow> turnPipe \<Rightarrow> turnPipe" where
  "put_turn t s p = p\<lparr>tp_turn := s,
     tp_client := (if tp_routed p then set_thread t (tn_thread s) (tp_client p) else tp_client p)\<rparr>"

text \<open>What the dispatcher left in the shared handle, recorded.\<close>

definition after_dispatch :: "string \<Rightarrow> client \<Rightarrow> turnPipe \<Rightarrow> turnStream" where
  "after_dispatch t c p = (case thread_of c t of
      None \<Rightarrow> tp_turn p
    | Some h \<Rightarrow> if tp_routed p then (tp_turn p)\<lparr>tn_thread := h, tn_accepted := tn_accepted (tp_turn p) @
         drop (length (inbox_of (tp_turn p))) (ch_buf (th_inbox h))\<rparr> else tp_turn p)"

text \<open>The moves of the stream, its caller and the callers of the thread's other operations.\<close>

inductive turn_move :: "turnStream \<Rightarrow> turnStream \<Rightarrow> bool" where
  mv_take: "tn_phase s = Selecting \<Longrightarrow> chan_recv (th_inbox (tn_thread s)) = (Received ev, c) \<Longrightarrow>
    turn_move s (s\<lparr>tn_thread := (tn_thread s)\<lparr>th_inbox := c\<rparr>, tn_phase := Forwarding ev\<rparr>)"
| mv_forward: "tn_phase s = Forwarding ev \<Longrightarrow> send_out ev s = Some s' \<Longrightarrow> turn_move s s'"
| mv_recv: "chan_recv (tn_out s) = (Received ev, c) \<Longrightarrow> turn_move s (s\<lparr>tn_out := c, tn_got := tn_got s @ [ev]\<rparr>)"
| mv_canceled: "running s \<Longrightarrow> turn_move s (finish False s)"
| mv_close: "turn_move s (s\<lparr>tn_thread := markClosed (tn_thread s)\<rparr>)"
| mv_compact: "turn_move s (s\<lparr>tn_thread := snd (compact_install (tn_thread s))\<rparr>)"
| mv_compact_failed: "turn_move s (s\<lparr>tn_thread := snd (compact_end a (Some e) (tn_thread s))\<rparr>)"
| mv_wait_ctx: "turn_move s (s\<lparr>tn_thread := snd (wait_ctx a e (tn_thread s))\<rparr>)"
| mv_wait: "wait_recv a (tn_thread s) = Some (r, h) \<Longrightarrow> turn_move s (s\<lparr>tn_thread := h\<rparr>)"

text \<open>Archiving unregisters the thread, resuming it registers a fresh handle, closing the client drops the
  table.\<close>

inductive tp_step :: "(goError \<Rightarrow> string) \<Rightarrow> approvalCallback option \<Rightarrow> string \<Rightarrow> turnPipe \<Rightarrow> turnPipe \<Rightarrow> bool"
  for et :: "goError \<Rightarrow> string" and cb :: "approvalCallback option" and t :: string where
  tp_wire: "dstep (tp_demux p) d' \<Longrightarrow> dm_consumed d' = dm_consumed (tp_demux p) \<Longrightarrow>
    tp_step et cb t p (p\<lparr>tp_demux := d'\<rparr>)"
| tp_dispatch: "\<not> tp_ended p \<Longrightarrow> dm_serverMessages (tp_demux p) = m # ms \<Longrightarrow>
    handleServerMessage et cb m (tp_client p, take_front m ms (tp_demux p)) = Some (c', d') \<Longrightarrow>
    tp_step et cb t p (p\<lparr>tp_demux := d', tp_client := c', tp_turn := after_dispatch t c' p\<rparr>)"
| tp_end: "\<not> tp_ended p \<Longrightarrow>
    canceled \<or> is_exited (dm_loop (tp_demux p)) \<and> dm_serverMessages (tp_demux p) = [] \<Longrightarrow>
    dispatch_end canceled cause (tp_client p) = Some c' \<Longrightarrow>
    tp_step et cb t p (p\<lparr>tp_client := c', tp_ended := True\<rparr>)"
| tp_move: "turn_move (tp_turn p) s \<Longrightarrow> tp_step et cb t p (put_turn t s p)"
| tp_work: "client_work 0 (tp_client p) c' \<Longrightarrow> (tp_routed p \<Longrightarrow> thread_of c' t = thread_of (tp_client p) t) \<Longrightarrow>
    tp_step et cb t p (p\<lparr>tp_client := c'\<rparr>)"
| tp_unregister: "tp_step et cb t p (p\<lparr>tp_client := unregisterThread t (tp_client p), tp_routed := False\<rparr>)"
| tp_replace: "tp_step et cb t p (p\<lparr>tp_client := registerThread (newThread t) (tp_client p), tp_routed := False\<rparr>)"
| tp_drop: "tp_step et cb t p (p\<lparr>tp_client := (tp_client p)\<lparr>cl_threads := None\<rparr>,
    tp_turn := (tp_turn p)\<lparr>tn_thread := markClosed (tn_thread (tp_turn p))\<rparr>, tp_routed := False\<rparr>)"

section \<open>The events of a thread on the wire\<close>

fun thread_event :: "string \<Rightarrow> noteEffect \<Rightarrow> threadEvent list" where
  "thread_event t (Routed t' ev) = (if t' = t then [ev] else [])"
| "thread_event t _ = []"

definition thread_events :: "string \<Rightarrow> serverMessage list \<Rightarrow> threadEvent list" where
  "thread_events t msgs = concat (map (\<lambda>m. thread_event t (msg_effect m)) msgs)"

lemma thread_events_snoc [simp]: "thread_events t (msgs @ [m]) = thread_events t msgs @ thread_event t (msg_effect m)"
  by (simp add: thread_events_def)

lemma deliver_accepts:
  assumes "th_ok h" and "deliverEvent ev h = Some h'"
  shows "ch_buf (th_inbox h') = ch_buf (th_inbox h) @
      (if \<not> th_closed h \<and> length (ch_buf (th_inbox h)) < ThreadInboxBuffer then [ev] else [])"
proof (cases "th_closed h")
  case False
  have "th_ok (track_turn ev h)" using assms(1) by simp
  from tee_ok [OF this, of ev] obtain h1 where h1: "tee_compact ev (track_turn ev h) = Some h1"
      "th_inbox h1 = th_inbox h" by auto
  with False assms show ?thesis
    by (auto simp: deliverEvent_def chan_try_send_def th_ok_def split: if_splits)
qed (use assms(2) in \<open>simp add: deliverEvent_def\<close>)

lemma turn_move_inv:
  assumes "turn_move s s'" and "tn_inv s"
  shows "tn_inv s' \<and> tn_accepted s' = tn_accepted s \<and> tn_first s' = tn_first s \<and>
     (th_closed (tn_thread s) \<longrightarrow> th_closed (tn_thread s')) \<and> length (inbox_of s') \<le> length (inbox_of s)"
proof -
  have ok: "th_ok (tn_thread s)" using assms(2) by (simp add: tn_inv_def)
  have handle: "tn_inv (s\<lparr>tn_thread := h\<rparr>)"
    if "thstep (tn_thread s) h" and "th_inbox h = th_inbox (tn_thread s)" for h
    using tn_inv_accept [OF assms(2) th_ok_step [OF that(1) ok], of "[]"] that(2) by (simp add: inbox_of_def)
  show ?thesis
    using assms(1)
  proof cases
    case (mv_take ev c)
    with tn_inv_step [OF t_take [OF mv_take(2,3)] assms(2)] chan_recv_Received [OF mv_take(3)] show ?thesis
      by (simp add: inbox_of_def)
  next
    case (mv_forward ev)
    with tn_inv_step [OF t_forward [OF mv_forward] assms(2)] show ?thesis
      by (auto simp: send_out_def after_forward_def finish_def Let_def inbox_of_def)
  next
    case (mv_recv ev c)
    with tn_inv_step [OF t_recv [OF mv_recv(2)] assms(2)] show ?thesis by (simp add: inbox_of_def)
  next
    case mv_canceled
    with tn_inv_step [OF t_canceled assms(2)] show ?thesis by (simp add: inbox_of_def finish_def)
  next
    case mv_close
    with handle [OF th_close] show ?thesis
      by (auto simp: inbox_of_def markClosed_def Let_def split: option.splits)
  next
    case mv_compact
    with handle [OF th_compact_install] show ?thesis by (auto simp: inbox_of_def compact_install_def Let_def)
  next
    case (mv_compact_failed a e)
    with handle [OF th_compact_failed] show ?thesis by (auto simp: inbox_of_def compact_end_def detach_def)
  next
    case (mv_wait_ctx a e)
    with handle [OF th_wait_ctx] show ?thesis by (auto simp: inbox_of_def wait_ctx_def detach_def)
  next
    case (mv_wait a r h)
    then have "th_inbox h = th_inbox (tn_thread s)" "th_closed h = th_closed (tn_thread s)"
      by (auto simp: wait_recv_def detach_def split: option.splits prod.splits received.splits if_splits)
    with handle [OF th_wait [OF mv_wait(2)]] mv_wait(1) show ?thesis by (simp add: inbox_of_def)
  qed
qed

section \<open>Invariant\<close>

text \<open>\<open>queued\<close> is what was in the inbox when the turn was started, \<open>k\<close> how many messages had been taken.\<close>

definition turn_ok :: "nat \<Rightarrow> string \<Rightarrow> string \<Rightarrow> threadEvent list \<Rightarrow> nat \<Rightarrow> turnPipe \<Rightarrow> bool" where
  "turn_ok n t u queued k p = (reach (NewDemux True n) (tp_demux p) \<and> client_ok (tp_client p) \<and>
     k \<le> length (dm_consumed (tp_demux p)) \<and> tn_inv (tp_turn p) \<and> tn_first (tp_turn p) = u \<and>
     length (inbox_of (tp_turn p)) \<le> length (tn_accepted (tp_turn p)) \<and>
     (tp_routed p \<longrightarrow> thread_of (tp_client p) t = Some (tn_thread (tp_turn p))) \<and>
     (\<exists>new. tn_accepted (tp_turn p) = queued @ new \<and>
        subseq new (thread_events t (drop k (dm_consumed (tp_demux p)))) \<and>
        (tp_routed p \<and> \<not> th_closed (tn_thread (tp_turn p)) \<and>
         length queued + length (thread_events t (drop k (dm_consumed (tp_demux p)))) \<le> ThreadInboxBuffer \<longrightarrow>
           new = thread_events t (drop k (dm_consumed (tp_demux p))))))"

lemma turn_okI:
  assumes "reach (NewDemux True n) (tp_demux p)" and "client_ok (tp_client p)" and "k \<le> length (dm_consumed (tp_demux p))"
    and "tn_inv (tp_turn p)" and "tn_first (tp_turn p) = u" and "length (inbox_of (tp_turn p)) \<le> length (tn_accepted (tp_turn p))"
    and "tp_routed p \<Longrightarrow> thread_of (tp_client p) t = Some (tn_thread (tp_turn p))"
    and "tn_accepted (tp_turn p) = queued @ new" and "subseq new (thread_events t (drop k (dm_consumed (tp_demux p))))"
    and "tp_routed p \<Longrightarrow> \<not> th_closed (tn_thread (tp_turn p)) \<Longrightarrow>
      length queued + length (thread_events t (drop k (dm_consumed (tp_demux p)))) \<le> ThreadInboxBuffer \<Longrightarrow>
      new = thread_events t (drop k (dm_consumed (tp_demux p)))"
  shows "turn_ok n t u queued k p"
  using assms unfolding turn_ok_def by blast

lemma thread_of_set [simp]:
  "thread_of c t \<noteq> None \<Longrightarrow> thread_of (set_thread t h c) i = (if i = t then Some h else thread_of c i)"
  by (auto simp: set_thread_def) (auto simp: thread_of_def)

text \<open>One message of the dispatcher, seen from the stream.\<close>

lemma after_dispatch_ok:
  assumes ok: "turn_ok n t u queued k p" and m: "dm_serverMessages (tp_demux p) = m # ms"
    and h: "handleServerMessage et cb m (tp_client p, take_front m ms (tp_demux p)) = Some (c', d')"
  shows "turn_ok n t u queued k (p\<lparr>tp_demux := d', tp_client := c', tp_turn := after_dispatch t c' p\<rparr>)"
proof -
  let ?s = "tp_turn p" and ?msgs = "dm_consumed (tp_demux p)"
  have r: "reach (NewDemux True n) (tp_demux p)" and c: "client_ok (tp_client p)" and k: "k \<le> length ?msgs"
    and s: "tn_inv ?s" "tn_first ?s = u" "length (inbox_of ?s) \<le> length (tn_accepted ?s)"
    and th: "tp_routed p \<longrightarrow> thread_of (tp_client p) t = Some (tn_thread ?s)"
    using ok by (simp_all add: turn_ok_def)
  obtain new where new: "tn_accepted ?s = queued @ new" "subseq new (thread_events t (drop k ?msgs))"
      "tp_routed p \<and> \<not> th_closed (tn_thread ?s) \<and>
         length queued + length (thread_events t (drop k ?msgs)) \<le> ThreadInboxBuffer \<longrightarrow>
         new = thread_events t (drop k ?msgs)"
    using ok by (auto simp: turn_ok_def)
  note d = reach_dispatch [OF r m h]
  have e: "client_ok c'" "effect_ok (msg_effect m) (tp_client p) c'"
    using handleServerMessage_effect [OF c, of et cb m "take_front m ms (tp_demux p)"] h by auto
  have evs: "thread_events t (drop k (dm_consumed d')) = thread_events t (drop k ?msgs) @ thread_event t (msg_effect m)"
    using d k by simp
  show ?thesis
  proof (cases "tp_routed p \<and> (\<exists>ev. msg_effect m = Routed t ev)")
    case True
    then obtain ev where ev: "msg_effect m = Routed t ev" by blast
    with True th e(2) obtain h' where h': "deliverEvent ev (tn_thread ?s) = Some h'" "thread_of c' t = Some h'"
      by (auto simp: effect_ok_def)
    let ?s' = "after_dispatch t c' p"
    have s': "dispatch_to ev ?s = Some ?s'"
      using h' True by (simp add: after_dispatch_def dispatch_to_def inbox_of_def)
    have th_ok: "th_ok (tn_thread ?s)" using s(1) by (simp add: tn_inv_def)
    let ?more = "if \<not> th_closed (tn_thread ?s) \<and> length (inbox_of ?s) < ThreadInboxBuffer then [ev] else []"
    have inbox: "ch_buf (th_inbox h') = inbox_of ?s @ ?more"
      using deliver_accepts [OF th_ok h'(1)] by (simp add: inbox_of_def)
    then have s1: "tn_thread ?s' = h'" "tn_accepted ?s' = queued @ (new @ ?more)" "tn_first ?s' = u"
      using h'(2) True s(2) new(1) by (simp_all add: after_dispatch_def)
    have closed: "th_closed h' = th_closed (tn_thread ?s)"
      using deliver_event_ok [OF th_ok, of ev] h'(1) by auto
    have sub: "subseq (new @ ?more) (thread_events t (drop k ?msgs) @ [ev])"
      using new(2) by (simp add: subseq_append' list_emb_append_mono)
    show ?thesis
    proof (rule turn_okI [where new = "new @ ?more"])
      show "tn_inv (tp_turn (p\<lparr>tp_demux := d', tp_client := c', tp_turn := ?s'\<rparr>))"
        using tn_inv_dispatch [OF s(1) s'] by simp
      show "length (inbox_of (tp_turn (p\<lparr>tp_demux := d', tp_client := c', tp_turn := ?s'\<rparr>)))
          \<le> length (tn_accepted (tp_turn (p\<lparr>tp_demux := d', tp_client := c', tp_turn := ?s'\<rparr>)))"
        using inbox s(3) new(1) s1(2) by (simp add: inbox_of_def s1(1))
    next
      assume "tp_routed (p\<lparr>tp_demux := d', tp_client := c', tp_turn := ?s'\<rparr>)"
        and a: "\<not> th_closed (tn_thread (tp_turn (p\<lparr>tp_demux := d', tp_client := c', tp_turn := ?s'\<rparr>)))"
        and b: "length queued + length (thread_events t (drop k (dm_consumed (tp_demux
          (p\<lparr>tp_demux := d', tp_client := c', tp_turn := ?s'\<rparr>))))) \<le> ThreadInboxBuffer"
      have le: "length queued + length (thread_events t (drop k ?msgs)) < ThreadInboxBuffer"
        using b evs ev by simp
      then have "new = thread_events t (drop k ?msgs)" using new(3) True a closed s1(1) by simp
      moreover have "length (inbox_of ?s) < ThreadInboxBuffer"
        using le s(3) new(1) calculation by simp
      ultimately show "new @ ?more = thread_events t (drop k (dm_consumed (tp_demux
          (p\<lparr>tp_demux := d', tp_client := c', tp_turn := ?s'\<rparr>))))"
        using a closed s1(1) evs ev by simp
    qed (use d k e(1) s1 h'(2) sub evs ev in simp_all)
  next
    case False
    have stays: "thread_of c' t = thread_of (tp_client p) t" if "tp_routed p"
      using e(2) False that by (cases "msg_effect m") (auto simp: effect_ok_def thread_of_def)
    have same: "after_dispatch t c' p = ?s"
      using th stays by (cases "tp_routed p") (auto simp: after_dispatch_def inbox_of_def split: option.splits)
    have none: "thread_event t (msg_effect m) = []" if "tp_routed p"
      using False that by (cases "msg_effect m") auto
    show ?thesis
      by (rule turn_okI [where new = new])
        (use same d k e(1) s th stays new none evs in \<open>auto intro: subseq_append'\<close>)
  qed
qed

lemma dispatch_end_threads: "client_ok c \<Longrightarrow> dispatch_end canceled cause c = Some c' \<Longrightarrow> cl_threads c' = cl_threads c"
  using fail_ok_client [of "c\<lparr>cl_connected := False\<rparr>" "gap_envelope [] (ThreadEventSourceGapError cause)"]
  by (auto simp: dispatch_end_def split: if_splits)

lemma turn_ok_put:
  assumes ok: "turn_ok n t u queued k p" and mv: "turn_move (tp_turn p) s"
  shows "turn_ok n t u queued k (put_turn t s p)"
proof -
  have i: "tn_inv s" "tn_accepted s = tn_accepted (tp_turn p)" "tn_first s = tn_first (tp_turn p)"
      "th_closed (tn_thread (tp_turn p)) \<longrightarrow> th_closed (tn_thread s)" "length (inbox_of s) \<le> length (inbox_of (tp_turn p))"
    using turn_move_inv [OF mv] ok by (simp_all add: turn_ok_def)
  moreover have "th_ok (tn_thread s)" using i(1) by (simp add: tn_inv_def)
  moreover have "length (inbox_of (tp_turn p)) \<le> length (tn_accepted (tp_turn p))" using ok by (simp add: turn_ok_def)
  moreover note order.trans [OF i(5) this]
  ultimately show ?thesis using ok by (auto simp: turn_ok_def put_turn_def client_ok_set_thread)
qed

lemma markClosed_keeps:
  assumes "tn_inv s"
  shows "tn_inv (s\<lparr>tn_thread := markClosed (tn_thread s)\<rparr>) \<and> ch_buf (th_inbox (markClosed (tn_thread s))) = inbox_of s \<and>
    th_closed (markClosed (tn_thread s))"
  using tn_inv_step [OF t_close assms]
  by (auto simp: inbox_of_def markClosed_def Let_def split: option.splits)

lemma turn_ok_step:
  assumes "tp_step et cb t p p'" and ok: "turn_ok n t u queued k p"
  shows "turn_ok n t u queued k p'"
proof -
  have r: "reach (NewDemux True n) (tp_demux p)" and c: "client_ok (tp_client p)" and i: "tn_inv (tp_turn p)"
    using ok by (simp_all add: turn_ok_def)
  show ?thesis
    using assms(1)
  proof cases
    case (tp_wire d')
    with ok reach_step [OF r, of d'] show ?thesis by (simp add: turn_ok_def)
  next
    case (tp_dispatch m ms c' d')
    with after_dispatch_ok [OF ok] show ?thesis by blast
  next
    case (tp_end canceled cause c')
    with ok dispatch_end_subs [OF c tp_end(4)] dispatch_end_threads [OF c tp_end(4)] show ?thesis
      by (simp add: turn_ok_def thread_of_def)
  next
    case (tp_move s)
    with turn_ok_put [OF ok] show ?thesis by blast
  next
    case (tp_work c')
    with ok client_work_ok [OF tp_work(2) c] show ?thesis by (auto simp: turn_ok_def)
  next
    case tp_unregister
    with ok client_ok_unregister [OF c] show ?thesis by (auto simp: turn_ok_def)
  next
    case tp_replace
    with ok client_ok_register [OF c] show ?thesis by (auto simp: turn_ok_def)
  next
    case tp_drop
    with ok markClosed_keeps [OF i] c show ?thesis
      by (auto simp: turn_ok_def client_ok_def thread_of_def inbox_of_def)
  qed
qed

lemma turn_ok_reach:
  assumes "(tp_step et cb t)\<^sup>*\<^sup>* p p'" and "turn_ok n t u queued k p"
  shows "turn_ok n t u queued k p'"
  using assms(1) by induction (use assms(2) turn_ok_step in blast)+

lemma turn_ok_start:
  assumes "reach (NewDemux True n) d" and "client_reach c" and "thread_of c t = Some h"
  shows "turn_ok n t u (ch_buf (th_inbox h)) (length (dm_consumed d)) (tp_start t u h d c)"
proof -
  have c: "client_ok c" by (rule client_reach_ok [OF assms(2)])
  then have h: "th_ok h" using assms(3) by (simp add: client_ok_def)
  have "th_ok (tn_thread (start_stream u h))" using h by (simp add: start_stream_def)
  then show ?thesis
    using assms(1,3) c tn_inv_start [OF h, of u]
    by (simp add: turn_ok_def tp_start_def client_ok_set_thread thread_events_def)
      (simp add: start_stream_def inbox_of_def)
qed

lemma tp_consumed:
  assumes "(tp_step et cb t)\<^sup>*\<^sup>* p p'"
  shows "prefix (dm_consumed (tp_demux p)) (dm_consumed (tp_demux p'))"
  using assms
proof (induction rule: rtranclp_induct)
  case (step p1 p2)
  from step(2) have "prefix (dm_consumed (tp_demux p1)) (dm_consumed (tp_demux p2))"
  proof cases
    case (tp_dispatch m ms c' d')
    then show ?thesis
      using handle_demux [OF tp_dispatch(4)] by (auto simp: take_front_def)
  qed (simp_all add: put_turn_def)
  with step(3) show ?case by (rule prefix_order.order_trans)
qed simp

section \<open>The stream can finish\<close>

definition todo :: "turnStream \<Rightarrow> nat" where
  "todo s = 3 * length (inbox_of s) + 2 * length (in_hand (tn_phase s)) + length (ch_buf (tn_out s))"

lemma progressI:
  "turn_move s s' \<Longrightarrow> tn_phase s' \<noteq> Finished False \<Longrightarrow> todo s' < todo s \<Longrightarrow>
     \<exists>s'. turn_move s s' \<and> tn_phase s' \<noteq> Finished False \<and> todo s' < todo s"
  by blast

text \<open>One move of the stream or its caller towards the end of a turn whose end is in the inbox.\<close>

lemma turn_progress:
  assumes inv: "tn_inv s" and end': "turn_events (tn_first s) (tn_accepted s) = (out, y, True, rest)"
    and live: "tn_phase s \<noteq> Finished False" and more: "\<not> (tn_phase s = Finished True \<and> ch_buf (tn_out s) = [])"
  shows "\<exists>s'. turn_move s s' \<and> tn_phase s' \<noteq> Finished False \<and> todo s' < todo s"
proof (cases "ch_buf (tn_out s)")
  case (Cons x xs)
  then have "chan_recv (tn_out s) = (Received x, (tn_out s)\<lparr>ch_buf := xs\<rparr>)" by (simp add: chan_recv_def)
  from mv_recv [OF this] show ?thesis
    by (rule progressI) (use Cons live in \<open>simp_all add: todo_def inbox_of_def\<close>)
next
  case Nil
  show ?thesis
  proof (cases "tn_phase s")
    case Selecting
    have "inbox_of s \<noteq> []"
    proof
      assume "inbox_of s = []"
      with inv Selecting end' show False by (simp add: tn_inv_def)
    qed
    then obtain x xs where q: "inbox_of s = x # xs" by (cases "inbox_of s") auto
    then have "chan_recv (th_inbox (tn_thread s)) = (Received x, (th_inbox (tn_thread s))\<lparr>ch_buf := xs\<rparr>)"
      by (simp add: chan_recv_def inbox_of_def)
    from mv_take [OF Selecting this] show ?thesis
      by (rule progressI) (use q in \<open>simp_all add: todo_def inbox_of_def Selecting\<close>)
  next
    case (Forwarding ev)
    have "\<not> ch_closed (tn_out s)" "ch_cap (tn_out s) = ThreadInboxBuffer"
      using inv Forwarding by (simp_all add: tn_inv_def running_def)
    with Nil have "chan_send ev (tn_out s) = Some ((tn_out s)\<lparr>ch_buf := [ev]\<rparr>)"
      by (simp add: chan_send_def ThreadInboxBuffer_def)
    then obtain s' where s': "send_out ev s = Some s'"
        "s' = after_forward ev (s\<lparr>tn_out := (tn_out s)\<lparr>ch_buf := [ev]\<rparr>, tn_sent := tn_sent s @ [ev]\<rparr>)"
      by (simp add: send_out_def)
    have "tn_phase s' \<noteq> Finished False \<and> todo s' < todo s"
      using Forwarding Nil by (simp add: s'(2) after_forward_def finish_def Let_def todo_def inbox_of_def)
    with mv_forward [OF Forwarding s'(1)] show ?thesis by blast
  next
    case (Finished b)
    with live more Nil show ?thesis by (cases b) simp_all
  qed
qed

lemma turn_finishes:
  assumes "tn_inv s" and "turn_events (tn_first s) (tn_accepted s) = (out, y, True, rest)"
    and "tn_phase s \<noteq> Finished False"
  shows "\<exists>s'. turn_move\<^sup>*\<^sup>* s s' \<and> tn_phase s' = Finished True \<and> tn_got s' = out"
  using assms
proof (induction "todo s" arbitrary: s rule: less_induct)
  case less
  show ?case
  proof (cases "tn_phase s = Finished True \<and> ch_buf (tn_out s) = []")
    case True
    with less.prems(1,2) have "tn_got s = out" by (simp add: tn_inv_def)
    with True show ?thesis by blast
  next
    case False
    from turn_progress [OF less.prems False] obtain s1 where s1: "turn_move s s1" "tn_phase s1 \<noteq> Finished False"
        "todo s1 < todo s" by blast
    with turn_move_inv [OF s1(1) less.prems(1)] less.prems(2) less.hyps [OF s1(3)] show ?thesis
      by (metis converse_rtranclp_into_rtranclp)
  qed
qed

lemma turn_moves_run:
  assumes "turn_move\<^sup>*\<^sup>* (tp_turn p) s"
  shows "\<exists>p'. (tp_step et cb t)\<^sup>*\<^sup>* p p' \<and> tp_turn p' = s \<and> tp_demux p' = tp_demux p"
  using assms
proof (induction rule: rtranclp_induct)
  case (step s1 s2)
  then obtain p1 where p1: "(tp_step et cb t)\<^sup>*\<^sup>* p p1" "tp_turn p1 = s1" "tp_demux p1 = tp_demux p" by blast
  have "tp_step et cb t p1 (put_turn t s2 p1)" using step(2) p1(2) by (intro tp_move) simp
  with p1 show ?case by (intro exI [of _ "put_turn t s2 p1"]) (auto simp: put_turn_def)
qed blast

section \<open>Properties\<close>

text \<open>C6: A turn, end to end: whatever way reading, dispatching, streaming, receiving, cancelling, closing and the
  client's other work interleave, what the caller of a turn has received and will receive is a prefix
  of the events of the turn among those its thread had queued and those the wire carried for it
  since, in the order of the wire, and all of them once the stream has ended by itself; and no event
  is missing as long as the thread is registered and open and its inbox was never asked to hold more
  than it can.\<close>

theorem wire_to_turn:
  assumes "reach (NewDemux True n) d" and "client_reach c" and "thread_of c t = Some h"
    and "(tp_step et cb t)\<^sup>*\<^sup>* (tp_start t u h d c) p"
  shows "\<exists>msgs new. dm_consumed (tp_demux p) = dm_consumed d @ msgs \<and>
     prefix (dm_consumed (tp_demux p)) (fst (spec_messages (dm_lines (tp_demux p)))) \<and>
     subseq new (thread_events t msgs) \<and>
     (tp_routed p \<and> \<not> th_closed (tn_thread (tp_turn p)) \<and>
      length (ch_buf (th_inbox h)) + length (thread_events t msgs) \<le> ThreadInboxBuffer \<longrightarrow> new = thread_events t msgs) \<and>
     prefix (tn_got (tp_turn p) @ ch_buf (tn_out (tp_turn p))) (fst (turn_events u (ch_buf (th_inbox h) @ new))) \<and>
     (tn_phase (tp_turn p) = Finished True \<longrightarrow>
        tn_got (tp_turn p) @ ch_buf (tn_out (tp_turn p)) = fst (turn_events u (ch_buf (th_inbox h) @ new)))"
proof -
  let ?s = "tp_turn p"
  have ok: "turn_ok n t u (ch_buf (th_inbox h)) (length (dm_consumed d)) p"
    by (rule turn_ok_reach [OF assms(4) turn_ok_start [OF assms(1-3)]])
  obtain msgs where msgs: "dm_consumed (tp_demux p) = dm_consumed d @ msgs"
    using tp_consumed [OF assms(4)] by (auto simp: tp_start_def prefix_def)
  obtain new where new: "tn_accepted ?s = ch_buf (th_inbox h) @ new" "subseq new (thread_events t msgs)"
      "tp_routed p \<and> \<not> th_closed (tn_thread ?s) \<and>
       length (ch_buf (th_inbox h)) + length (thread_events t msgs) \<le> ThreadInboxBuffer \<longrightarrow> new = thread_events t msgs"
    using ok msgs by (auto simp: turn_ok_def)
  have inv: "tn_inv ?s" and u: "tn_first ?s = u" and r: "reach (NewDemux True n) (tp_demux p)"
    using ok by (simp_all add: turn_ok_def)
  have pre: "prefix (dm_consumed (tp_demux p)) (fst (spec_messages (dm_lines (tp_demux p))))"
    using consumed_prefix(1) [OF r] by (metis append_prefixD)
  have sent: "tn_got ?s @ ch_buf (tn_out ?s) = tn_sent ?s" using inv by (simp add: tn_inv_def)
  have part: "prefix (tn_sent ?s) (fst (turn_events u (tn_accepted ?s)))"
    using inv u prefix_turn_events [of u "tn_sent ?s" "tn_expected ?s"]
    by (cases "tn_phase ?s") (auto simp: tn_inv_def split: bool.splits)
  have whole: "tn_phase ?s = Finished True \<longrightarrow> tn_sent ?s = fst (turn_events u (tn_accepted ?s))"
    using inv u by (auto simp: tn_inv_def)
  show ?thesis
    using msgs new pre part whole sent by (intro exI [of _ msgs] exI [of _ new]) simp
qed

text \<open>C7: A turn is delivered: once the wire has carried the end of a turn and the dispatcher has taken it, and the
  thread is registered, open and within the bound of its inbox, and the turn was not cancelled, the
  stream and its caller alone can bring the turn to its end, with exactly the turn's events received,
  whatever the rest of the client does.\<close>

theorem wire_turn_completes:
  assumes "reach (NewDemux True n) d" and "client_reach c" and "thread_of c t = Some h"
    and "(tp_step et cb t)\<^sup>*\<^sup>* (tp_start t u h d c) p"
    and "dm_consumed (tp_demux p) = dm_consumed d @ msgs"
    and "tp_routed p" and "\<not> th_closed (tn_thread (tp_turn p))" and "tn_phase (tp_turn p) \<noteq> Finished False"
    and "length (ch_buf (th_inbox h)) + length (thread_events t msgs) \<le> ThreadInboxBuffer"
    and "turn_events u (ch_buf (th_inbox h) @ thread_events t msgs) = (out, y, True, rest)"
  shows "\<exists>p'. (tp_step et cb t)\<^sup>*\<^sup>* p p' \<and> tp_demux p' = tp_demux p \<and> tn_phase (tp_turn p') = Finished True \<and>
     tn_got (tp_turn p') = out"
proof -
  have ok: "turn_ok n t u (ch_buf (th_inbox h)) (length (dm_consumed d)) p"
    by (rule turn_ok_reach [OF assms(4) turn_ok_start [OF assms(1-3)]])
  then have "tn_accepted (tp_turn p) = ch_buf (th_inbox h) @ thread_events t msgs"
    using assms(5-7,9) by (auto simp: turn_ok_def)
  with ok assms(10) have "turn_events (tn_first (tp_turn p)) (tn_accepted (tp_turn p)) = (out, y, True, rest)"
    "tn_inv (tp_turn p)" by (simp_all add: turn_ok_def)
  with assms(8) obtain s where s: "turn_move\<^sup>*\<^sup>* (tp_turn p) s" "tn_phase s = Finished True" "tn_got s = out"
    using turn_finishes by blast
  from turn_moves_run [OF s(1), of et cb t] s(2,3) show ?thesis by auto
qed

section \<open>Witnesses\<close>

text \<open>A thread whose inbox already holds the end of its turn.\<close>

definition ready_thread :: thread where
  "ready_thread = (newThread ''t'')\<lparr>th_inbox := \<lparr>ch_buf = [sample_terminus], ch_cap = ThreadInboxBuffer, ch_closed = False\<rparr>\<rparr>"

definition ready_client :: client where
  "ready_client = set_thread ''t'' ready_thread (registerThread (newThread ''t'') new_client)"

lemma ready_client_reach: "client_reach ready_client" "thread_of ready_client ''t'' = Some ready_thread"
proof -
  let ?c = "registerThread (newThread ''t'') new_client"
  have t: "thread_of ?c ''t'' = Some (newThread ''t'')"
    by (simp add: registerThread_def new_client_def thread_of_def newThread_def)
  have "deliverEvent sample_terminus (newThread ''t'') = Some ready_thread"
    by (simp add: ready_thread_def newThread_def th_defs sample_terminus_def Let_def make_chan_def ThreadInboxBuffer_def)
  from cr_thread [OF cr_register [OF cr_new] t th_deliver [OF this]] show "client_reach ready_client"
    by (simp add: ready_client_def)
  show "thread_of ready_client ''t'' = Some ready_thread" using t by (simp add: ready_client_def)
qed

lemma ready_events: "turn_events ''u'' (ch_buf (th_inbox ready_thread) @ thread_events ''t'' []) = ([sample_terminus], ''u'', True, [])"
  by (simp add: ready_thread_def thread_events_def sample_terminus_def Let_def)

lemma ready_start:
  "tp_routed (tp_start ''t'' ''u'' ready_thread d c)" "tp_demux (tp_start ''t'' ''u'' ready_thread d c) = d"
  "\<not> th_closed (tn_thread (tp_turn (tp_start ''t'' ''u'' ready_thread d c)))"
  "tn_phase (tp_turn (tp_start ''t'' ''u'' ready_thread d c)) = Selecting"
  by (simp_all add: tp_start_def start_stream_def ready_thread_def newThread_def)

lemma ready_bound: "length (ch_buf (th_inbox ready_thread)) + length (thread_events ''t'' []) \<le> ThreadInboxBuffer"
  by (simp add: ready_thread_def thread_events_def ThreadInboxBuffer_def)

theorem wire_turn_completes_witness:
  "\<exists>p :: turnPipe. (tp_step (\<lambda>e. []) None ''t'')\<^sup>*\<^sup>* (tp_start ''t'' ''u'' ready_thread (NewDemux True 0) ready_client) p \<and>
     tn_got (tp_turn p) = [sample_terminus] \<and> tn_phase (tp_turn p) = Finished True"
  using wire_turn_completes [OF reach_refl ready_client_reach rtranclp.rtrancl_refl _ ready_start(1,3) _ ready_bound ready_events,
      of 0 "\<lambda>e. []" None] by (auto simp: ready_start)

lemma ready_run:
  "\<exists>p :: turnPipe. (tp_step (\<lambda>e. []) None ''t'')\<^sup>*\<^sup>* (tp_start ''t'' ''u'' ready_thread (NewDemux True 0) ready_client) p \<and>
     tn_phase (tp_turn p) = Finished True"
proof -
  have ok: "turn_ok 0 ''t'' ''u'' (ch_buf (th_inbox ready_thread)) 0 (tp_start ''t'' ''u'' ready_thread (NewDemux True 0) ready_client)"
    using turn_ok_start [OF reach_refl ready_client_reach, of 0 "''u''"] by (simp add: NewDemux_def)
  let ?s = "tp_turn (tp_start ''t'' ''u'' ready_thread (NewDemux True 0) ready_client)"
  have "turn_events (tn_first ?s) (tn_accepted ?s) = ([sample_terminus], ''u'', True, [])"
    using ready_events by (simp add: tp_start_def start_stream_def thread_events_def)
  from turn_finishes [OF _ this] ok ready_start(4) obtain s where "turn_move\<^sup>*\<^sup>* ?s s" "tn_phase s = Finished True"
    by (auto simp: turn_ok_def)
  with turn_moves_run [OF this(1), of "\<lambda>e. []" None "''t''"] show ?thesis by auto
qed

theorem wire_to_turn_witness:
  "\<exists>(p :: turnPipe) new. tn_phase (tp_turn p) = Finished True \<and>
     tn_got (tp_turn p) @ ch_buf (tn_out (tp_turn p)) = fst (turn_events ''u'' (sample_terminus # new))"
proof -
  obtain p where p: "(tp_step (\<lambda>e. []) None ''t'')\<^sup>*\<^sup>* (tp_start ''t'' ''u'' ready_thread (NewDemux True 0) ready_client) p"
      "tn_phase (tp_turn p) = Finished True" using ready_run by blast
  from wire_to_turn [OF reach_refl ready_client_reach p(1)] p(2) show ?thesis
    by (intro exI [of _ p]) (auto simp: ready_thread_def)
qed

end
