(* ===== verification/Telemetry.thy ===== *)
theory Telemetry
  imports Errors
begin

text \<open>
  The two sinks the SDK writes to besides its results: the logger (\<open>internal/log/logger.go\<close>), a wrapper of
  the package \<open>zap\<close>, whose functions are parameters, and the observer (\<open>types/observer.go\<close>), an interface
  of callbacks. Both may be missing; the nil cases are settled in one place each.
\<close>

section \<open>The logger\<close>

datatype logLevel = DebugLevel | InfoLevel | WarnLevel | ErrorLevel

text \<open>What the wrapper uses of \<open>zap\<close>: building a logger for a level, naming it, the logger that drops all,
  and writing a message to it, as an effect on the output.\<close>

record ('z, 'o) zap =
  zap_Build :: "logLevel \<Rightarrow> goError + 'z"
  zap_Named :: "'z \<Rightarrow> string \<Rightarrow> 'z"
  zap_Nop :: 'z
  zap_Write :: "'z \<Rightarrow> logLevel \<Rightarrow> string \<Rightarrow> 'o \<Rightarrow> 'o"

definition NewLogger :: "('z, 'o) zap \<Rightarrow> bool \<Rightarrow> 'z" where
  "NewLogger z verbose = (case zap_Build z (if verbose then DebugLevel else WarnLevel) of
      Inl e \<Rightarrow> zap_Nop z
    | Inr l \<Rightarrow> zap_Named z l ''codex-sdk'')"

definition NewLoggerFromZap :: "('z, 'o) zap \<Rightarrow> 'z option \<Rightarrow> 'z" where
  "NewLoggerFromZap z l = (case l of None \<Rightarrow> zap_Nop z | Some x \<Rightarrow> x)"

text \<open>\<open>Debug\<close>, \<open>Info\<close>, \<open>Warn\<close> and \<open>Error\<close> pass on to \<open>zap\<close>.\<close>

definition log_message :: "('z, 'o) zap \<Rightarrow> 'z \<Rightarrow> logLevel \<Rightarrow> string \<Rightarrow> 'o \<Rightarrow> 'o" where
  "log_message z l level msg out = zap_Write z l level msg out"

text \<open>The logger a client gets, from the options \<open>Logger\<close> and \<open>Verbose\<close>.\<close>

definition client_logger :: "('z, 'o) zap \<Rightarrow> 'z option \<Rightarrow> bool \<Rightarrow> 'z" where
  "client_logger z l verbose =
     (if l = None \<and> verbose then NewLogger z True else NewLoggerFromZap z l)"

text \<open>The documentation of the option says that passing nil silences the SDK. With \<open>Verbose\<close> it does not:
  the client then writes debug messages to the standard error stream.\<close>

lemma nil_logger_not_silent:
  assumes "zap_Build z DebugLevel = Inr l"
  shows "client_logger z None True = zap_Named z l ''codex-sdk''" and "client_logger z None False = zap_Nop z"
    and "client_logger z (Some l') verbose = l'"
  using assms by (simp_all add: client_logger_def NewLogger_def NewLoggerFromZap_def)

section \<open>The observer\<close>

text \<open>The calls of the interface; durations and the error of a decode failure are left out.\<close>

datatype observerCall =
    CallConnect "goError ptr"
  | CallFirstMessage
  | CallSubprocessExit int bool "goError ptr"
  | CallParseError nat
  | CallParseGiveUp nat
  | CallBackpressure
  | CallUnknownMessage string

type_synonym 'o observer = "observerCall \<Rightarrow> 'o \<Rightarrow> 'o"

definition NopObserver :: "'o observer" where
  "NopObserver c out = out"

text \<open>\<open>ObserverOrNop\<close> on the observer of the options, which is nil where there are none.\<close>

definition ObserverOrNop :: "'o observer option \<Rightarrow> 'o observer" where
  "ObserverOrNop obs = (case obs of None \<Rightarrow> NopObserver | Some f \<Rightarrow> f)"

definition observe :: "'o observer option \<Rightarrow> observerCall list \<Rightarrow> 'o \<Rightarrow> 'o" where
  "observe obs cs out = fold (ObserverOrNop obs) cs out"

lemma observe_nil: "observe None cs = id"
  by (induction cs) (auto simp: observe_def ObserverOrNop_def NopObserver_def fun_eq_iff)

lemma observe_append: "observe obs (cs @ ds) out = observe obs ds (observe obs cs out)"
  by (simp add: observe_def)

end
