(* ===== verification/Transport.thy ===== *)
theory Transport
  imports Demux Subprocess Telemetry
begin

text \<open>
  The transport as \<open>doConnect\<close> wires it (\<open>subprocess_appserver.go\<close>): the server process of Subprocess and
  the demultiplexer of Demux in one state, with the observer and the give-up callback the read loop calls,
  the close of the demultiplexer by the transport's own \<open>Close\<close>, and the observer of \<open>types/observer.go\<close>
  as the list of the calls it received (Telemetry; \<open>observe\<close> gives what they do).
\<close>

section \<open>The observer\<close>

text \<open>What the demultiplexer's telemetry is to the observer; the handler of a give-up is no call of it.\<close>

fun observer_call :: "telemetry \<Rightarrow> observerCall list" where
  "observer_call OnFirstMessage = [CallFirstMessage]"
| "observer_call (OnParseError n) = [CallParseError n]"
| "observer_call (OnParseGiveUp n) = [CallParseGiveUp n]"
| "observer_call (OnUnrecoverable e) = []"
| "observer_call OnBackpressure = [CallBackpressure]"
| "observer_call OnUnknownMessage = [CallUnknownMessage ''unclassifiable-frame'']"

definition observer_calls :: "telemetry list \<Rightarrow> observerCall list" where
  "observer_calls ts = concat (map observer_call ts)"

fun exit_call :: "int \<times> bool \<times> goError ptr \<Rightarrow> observerCall" where
  "exit_call (code, requested, cause) = CallSubprocessExit code requested cause"

fun is_exit_call :: "observerCall \<Rightarrow> bool" where
  "is_exit_call (CallSubprocessExit c r e) = True"
| "is_exit_call _ = False"

section \<open>The composed state\<close>

text \<open>\<open>tw_pending\<close>: the calls the read loop is in the middle of, in their order; it does nothing else until
  they are done. \<open>tw_killing\<close>: the give-up callback has recorded its error and is about to kill the
  process.\<close>

record transport =
  tw_server :: appServer
  tw_demux :: demux
  tw_calls :: "observerCall list"
  tw_pending :: "telemetry list"
  tw_killing :: bool

definition NewTransport :: "nat \<Rightarrow> transport" where
  "NewTransport n = \<lparr>tw_server = NewAppServer, tw_demux = NewDemux True n, tw_calls = [], tw_pending = [], tw_killing = False\<rparr>"

definition loop_busy :: "transport \<Rightarrow> bool" where
  "loop_busy w = (tw_pending w \<noteq> [] \<or> tw_killing w)"

text \<open>A step of the demultiplexer that is one of its read loop.\<close>

definition loop_moves :: "demux \<Rightarrow> demux \<Rightarrow> bool" where
  "loop_moves d d' = (dm_loop d' \<noteq> dm_loop d \<or> dm_lines d' \<noteq> dm_lines d)"

text \<open>The demultiplexer exists once \<open>doConnect\<close> has published it with the process. Its calls of the observer
  and of \<open>terminateOnUnrecoverableError\<close>, which \<open>WithUnrecoverableHandler\<close> gives it, are steps of their
  own, and so are the critical section and the kill of the latter. The transport's \<open>Close\<close> closes the
  demultiplexer, waiting for another \<open>Close\<close> of it that is under way.\<close>

inductive tw_step :: "transport \<Rightarrow> transport \<Rightarrow> bool" where
  tw_wire: "has_cmd (tw_server w) \<Longrightarrow> dstep (tw_demux w) d' \<Longrightarrow> dm_trace d' = dm_trace (tw_demux w) @ ts \<Longrightarrow>
    \<not> (loop_busy w \<and> loop_moves (tw_demux w) d') \<Longrightarrow>
    tw_step w (w\<lparr>tw_demux := d', tw_pending := tw_pending w @ ts\<rparr>)"
| tw_tell: "\<not> tw_killing w \<Longrightarrow> tw_pending w = t # ts \<Longrightarrow> \<not> is_give_up t \<Longrightarrow>
    tw_step w (w\<lparr>tw_pending := ts, tw_calls := tw_calls w @ observer_call t\<rparr>)"
| tw_record: "\<not> tw_killing w \<Longrightarrow> tw_pending w = OnUnrecoverable e # ts \<Longrightarrow>
    tw_step w (w\<lparr>tw_pending := ts, tw_server := record_unrecoverable e (tw_server w), tw_killing := True\<rparr>)"
| tw_kill: "tw_killing w \<Longrightarrow> tw_step w (w\<lparr>tw_server := kill_process (tw_server w), tw_killing := False\<rparr>)"
| tw_process: "as_moves False (tw_server w) s' \<Longrightarrow> as_closedOnce s' = as_closedOnce (tw_server w) \<or> \<not> has_cmd (tw_server w) \<Longrightarrow>
    as_exits s' = as_exits (tw_server w) @ xs \<Longrightarrow>
    tw_step w (w\<lparr>tw_server := s', tw_calls := tw_calls w @ map exit_call xs\<rparr>)"
| tw_close: "has_cmd (tw_server w) \<Longrightarrow> \<not> as_closedOnce (tw_server w) \<Longrightarrow>
    dm_closed (tw_demux w) = dm_stopped (tw_demux w) \<Longrightarrow>
    tw_step w (w\<lparr>tw_server := close_begin (tw_server w), tw_demux := close_demux (tw_demux w)\<rparr>)"

section \<open>Lemmas on the components\<close>

lemma dstep_trace:
  "dstep d d' \<Longrightarrow> \<exists>ts. dm_trace d' = dm_trace d @ ts \<and> (\<forall>e. OnUnrecoverable e \<in> set ts \<longrightarrow> e = give_up_error) \<and>
     ((\<exists>k. OnParseGiveUp k \<in> set ts) \<longleftrightarrow> OnUnrecoverable give_up_error \<in> set ts)"
  by (induction rule: dstep.induct)
    (auto simp: step_defs Let_def split: option.splits frameClass.splits prod.splits if_splits)

lemma dstep_stopped: "dstep d d' \<Longrightarrow> dm_stopped d \<Longrightarrow> dm_stopped d'"
  by (induction rule: dstep.induct)
    (auto simp: step_defs Let_def split: option.splits frameClass.splits prod.splits if_splits)

lemma moves_exits: "as_moves hooked s s' \<Longrightarrow> \<exists>xs. as_exits s' = as_exits s @ xs"
  by (induction rule: as_moves.induct) (auto simp: as_defs record_exit_fields close_timeout_def split: closer.splits)

lemma moves_has_cmd: "as_moves hooked s s' \<Longrightarrow> has_cmd s \<Longrightarrow> has_cmd s'"
  by (induction rule: as_moves.induct) (auto simp: as_defs record_exit_fields close_timeout_def split: closer.splits)

lemma moves_killed: "as_moves hooked s s' \<Longrightarrow> as_killed s \<Longrightarrow> as_killed s'"
  by (induction rule: as_moves.induct)
    (auto simp: as_defs record_exit_fields close_timeout_def split: closer.splits)

text \<open>A give-up in the telemetry comes with the call of the handler.\<close>

lemma give_up_handled:
  assumes "reach (NewDemux ordered n) d" and "OnParseGiveUp k \<in> set (dm_trace d)"
  shows "OnUnrecoverable give_up_error \<in> set (dm_trace d)"
proof -
  have "(\<exists>k. OnParseGiveUp k \<in> set (dm_trace d)) \<longrightarrow> OnUnrecoverable give_up_error \<in> set (dm_trace d)"
    using assms(1)
  proof induction
    case reach_refl
    show ?case by (simp add: NewDemux_def)
  next
    case (reach_step d d')
    with dstep_trace [OF reach_step(2)] show ?case by auto
  qed
  with assms(2) show ?thesis by blast
qed

section \<open>Invariant\<close>

text \<open>Before the exit is recorded, the transport's error can only be that of a give-up.\<close>

definition unreaped :: "watcher \<Rightarrow> bool" where
  "unreaped x = (x = NoWatcher \<or> x = Draining \<or> x = Waiting)"

text \<open>The callback has recorded its error, given the calls done.\<close>

definition recorded :: "telemetry list \<Rightarrow> bool" where
  "recorded told = (OnUnrecoverable give_up_error \<in> set told)"

text \<open>\<open>told\<close> is what the read loop has told so far.\<close>

definition tw_inv :: "nat \<Rightarrow> telemetry list \<Rightarrow> transport \<Rightarrow> bool" where
  "tw_inv n told w = (as_reach (tw_server w) \<and> reach (NewDemux True n) (tw_demux w) \<and>
     dm_trace (tw_demux w) = told @ tw_pending w \<and>
     (\<forall>e. OnUnrecoverable e \<in> set (dm_trace (tw_demux w)) \<longrightarrow> e = give_up_error) \<and>
     (loop_busy w \<longrightarrow> has_cmd (tw_server w)) \<and>
     (recorded told \<longrightarrow> has_cmd (tw_server w) \<and> as_lastErr (tw_server w) \<noteq> None \<and>
        (tw_killing w \<or> as_killed (tw_server w))) \<and>
     (unreaped (as_watcher (tw_server w)) \<longrightarrow>
        as_lastErr (tw_server w) = (if recorded told then Some give_up_error else None)) \<and>
     (as_closer (tw_server w) \<in> {NotClosing, ReturnedEarly} \<or> dm_stopped (tw_demux w)) \<and>
     filter is_exit_call (tw_calls w) = map exit_call (as_exits (tw_server w)) \<and>
     filter (\<lambda>c. \<not> is_exit_call c) (tw_calls w) = observer_calls told)"

definition tw_ok :: "nat \<Rightarrow> transport \<Rightarrow> bool" where
  "tw_ok n w = (\<exists>told. tw_inv n told w)"

lemma observer_calls_append: "observer_calls (xs @ ys) = observer_calls xs @ observer_calls ys"
  by (simp add: observer_calls_def)

lemma observer_call_kind: "filter is_exit_call (observer_call t) = []" "filter (\<lambda>c. \<not> is_exit_call c) (observer_call t) = observer_call t"
  by (cases t; simp)+

lemma exit_calls_only [simp]:
  "filter is_exit_call (map exit_call xs) = map exit_call xs" "filter (\<lambda>c. \<not> is_exit_call c) (map exit_call xs) = []"
  by (induction xs) auto

text \<open>The process's own moves set an error only with the record of the exit.\<close>

lemma close_timeout_fields:
  "as_watcher (close_timeout s) = as_watcher s \<and> as_lastErr (close_timeout s) = as_lastErr s"
  by (cases "as_closer s") (simp_all add: close_timeout_def)

lemma moves_unreaped:
  assumes "as_moves False s s'" and u: "unreaped (as_watcher s')"
  shows "(unreaped (as_watcher s) \<or> \<not> as_connectOnce s) \<and> as_lastErr s' = as_lastErr s"
  using assms(1)
proof cases
  case (watch_wait w c tx)
  with u record_exit_fields(12) [of tx w c s] show ?thesis by (auto simp: unreaped_def)
qed (use u in \<open>auto simp: as_defs unreaped_def close_timeout_fields\<close>)

lemma moves_closer:
  assumes "as_moves hooked s s'" and "as_closedOnce s' = as_closedOnce s \<or> \<not> has_cmd s"
    and "as_closer s \<in> {NotClosing, ReturnedEarly}"
  shows "as_closer s' \<in> {NotClosing, ReturnedEarly}"
  using assms(1)
proof cases
  case (close_wait err)
  with assms(3) show ?thesis by (auto simp: waits_exit_def)
qed (use assms(2,3) in \<open>auto simp: as_defs record_exit_fields\<close>)

lemma tw_inv_wire:
  assumes ok: "tw_inv n told w" and st: "has_cmd (tw_server w)" "dstep (tw_demux w) d'"
    and ts: "dm_trace d' = dm_trace (tw_demux w) @ ts"
  shows "tw_inv n told (w\<lparr>tw_demux := d', tw_pending := tw_pending w @ ts\<rparr>)"
proof -
  obtain ts' where "dm_trace d' = dm_trace (tw_demux w) @ ts'" "\<forall>e. OnUnrecoverable e \<in> set ts' \<longrightarrow> e = give_up_error"
    using dstep_trace [OF st(2)] by blast
  then have "\<forall>e. OnUnrecoverable e \<in> set ts \<longrightarrow> e = give_up_error" using ts by auto
  moreover have "reach (NewDemux True n) d'" using ok reach_step [OF _ st(2)] by (auto simp: tw_inv_def)
  moreover have "as_closer (tw_server w) \<in> {NotClosing, ReturnedEarly} \<or> dm_stopped d'"
    using ok dstep_stopped [OF st(2)] by (auto simp: tw_inv_def)
  ultimately show ?thesis using ok st(1) ts by (auto simp: tw_inv_def)
qed

lemma tw_inv_tell:
  assumes ok: "tw_inv n told w" and "\<not> tw_killing w" and t: "tw_pending w = t # ts" "\<not> is_give_up t"
  shows "tw_inv n (told @ [t]) (w\<lparr>tw_pending := ts, tw_calls := tw_calls w @ observer_call t\<rparr>)"
proof -
  have r: "recorded (told @ [t]) = recorded told" using t(2) by (auto simp: recorded_def)
  have "observer_calls (told @ [t]) = observer_calls told @ observer_call t" by (simp add: observer_calls_def)
  with ok t r show ?thesis by (simp add: tw_inv_def loop_busy_def observer_call_kind)
qed

lemma tw_inv_record:
  assumes ok: "tw_inv n told w" and "\<not> tw_killing w" and t: "tw_pending w = OnUnrecoverable e # ts"
  shows "tw_inv n (told @ [OnUnrecoverable e])
    (w\<lparr>tw_pending := ts, tw_server := record_unrecoverable e (tw_server w), tw_killing := True\<rparr>)"
proof -
  let ?s = "tw_server w"
  have e: "e = give_up_error" and c: "has_cmd ?s" using ok t by (auto simp: tw_inv_def loop_busy_def)
  then have r: "recorded (told @ [OnUnrecoverable e])" by (simp add: recorded_def)
  have "as_reach (record_unrecoverable e ?s)" using ok as_next [OF _ give_up] by (auto simp: tw_inv_def)
  moreover have "observer_calls (told @ [OnUnrecoverable e]) = observer_calls told" by (simp add: observer_calls_def)
  moreover have "unreaped (as_watcher ?s) \<longrightarrow> as_lastErr (record_unrecoverable e ?s) = Some give_up_error"
    using ok e by (auto simp: tw_inv_def record_unrecoverable_def split: if_splits)
  ultimately show ?thesis using ok t c r by (simp add: tw_inv_def) (simp add: record_unrecoverable_def has_cmd_def)
qed

lemma tw_inv_kill:
  assumes ok: "tw_inv n told w" and "tw_killing w"
  shows "tw_inv n told (w\<lparr>tw_server := kill_process (tw_server w), tw_killing := False\<rparr>)"
proof -
  have "as_reach (kill_process (tw_server w))" using ok as_next [OF _ give_up_kill] by (auto simp: tw_inv_def)
  with assms show ?thesis by (auto simp: tw_inv_def loop_busy_def kill_process_def has_cmd_def)
qed

lemma tw_inv_process:
  assumes ok: "tw_inv n told w" and mv: "as_moves False (tw_server w) s'"
    and cl: "as_closedOnce s' = as_closedOnce (tw_server w) \<or> \<not> has_cmd (tw_server w)"
    and xs: "as_exits s' = as_exits (tw_server w) @ xs"
  shows "tw_inv n told (w\<lparr>tw_server := s', tw_calls := tw_calls w @ map exit_call xs\<rparr>)"
proof -
  let ?s = "tw_server w"
  have r: "as_reach s'" using ok as_next [OF _ as_moves_step [OF mv]] by (simp add: tw_inv_def)
  have "recorded told \<longrightarrow> has_cmd s' \<and> as_lastErr s' \<noteq> None \<and> (tw_killing w \<or> as_killed s')"
    using ok moves_killed [OF mv] moves_has_cmd [OF mv] first_error_wins [OF as_moves_step [OF mv]]
    by (auto simp: tw_inv_def)
  moreover have "\<not> as_connectOnce ?s \<longrightarrow> unreaped (as_watcher ?s)"
    using ok server.reach_ok [of ?s] by (auto simp: tw_inv_def as_ok_def watch_ok_def unreaped_def split: watcher.splits)
  then have "unreaped (as_watcher s') \<longrightarrow> as_lastErr s' = (if recorded told then Some give_up_error else None)"
    using ok moves_unreaped [OF mv] by (auto simp: tw_inv_def)
  moreover have "as_closer s' \<in> {NotClosing, ReturnedEarly} \<or> dm_stopped (tw_demux w)"
    using ok moves_closer [OF mv cl] by (auto simp: tw_inv_def)
  moreover have "loop_busy w \<longrightarrow> has_cmd s'" using ok moves_has_cmd [OF mv] by (simp add: tw_inv_def)
  ultimately show ?thesis using r ok xs by (simp add: tw_inv_def loop_busy_def)
qed

lemma tw_inv_close:
  assumes ok: "tw_inv n told w" and c: "\<not> as_closedOnce (tw_server w)" "dm_closed (tw_demux w) = dm_stopped (tw_demux w)"
  shows "tw_inv n told (w\<lparr>tw_server := close_begin (tw_server w), tw_demux := close_demux (tw_demux w)\<rparr>)"
proof -
  have r: "as_reach (close_begin (tw_server w))"
    using ok as_next [OF _ close_call [OF c(1)]] by (simp add: tw_inv_def)
  have r0: "reach (NewDemux True n) (tw_demux w)" using ok by (simp add: tw_inv_def)
  have d: "reach (NewDemux True n) (close_demux (tw_demux w))" by (rule reach_trans [OF reach_close [OF r0] r0])
  have "dm_stopped (close_demux (tw_demux w)) \<and> dm_trace (close_demux (tw_demux w)) = dm_trace (tw_demux w)"
    using c(2) by (simp add: close_demux_def close_stop_def close_writer_def close_registry_def)
  then show ?thesis using r d ok by (simp add: tw_inv_def loop_busy_def has_cmd_def) (simp add: close_begin_def)
qed

lemma tw_ok_step:
  assumes "tw_step w w'" and "tw_ok n w"
  shows "tw_ok n w'"
proof -
  obtain told where ok: "tw_inv n told w" using assms(2) by (auto simp: tw_ok_def)
  show ?thesis
    using assms(1)
    by cases (use tw_inv_wire [OF ok] tw_inv_tell [OF ok] tw_inv_record [OF ok] tw_inv_kill [OF ok]
      tw_inv_process [OF ok] tw_inv_close [OF ok] in \<open>unfold tw_ok_def; blast\<close>)+
qed

lemma tw_ok_start: "tw_ok n (NewTransport n)"
  by (simp add: tw_ok_def tw_inv_def NewTransport_def reach_refl loop_busy_def)
    (simp add: NewAppServer_def NewDemux_def recorded_def observer_calls_def)

interpretation transport: step_invariant "NewTransport n" tw_step "tw_ok n" for n
  by unfold_locales (rule tw_ok_start, rule tw_ok_step)

section \<open>After a give-up\<close>

text \<open>The callback has been called: it is about to kill the process, or has.\<close>

definition killed_or_killing :: "transport \<Rightarrow> bool" where
  "killed_or_killing w = (has_cmd (tw_server w) \<and> (tw_killing w \<or> as_killed (tw_server w)))"

lemma killed_or_killing_step: "tw_step w w' \<Longrightarrow> killed_or_killing w \<Longrightarrow> killed_or_killing w'"
  by (induction rule: tw_step.induct)
    (auto simp: killed_or_killing_def has_cmd_def record_unrecoverable_def kill_process_def close_begin_def
      dest: moves_killed moves_has_cmd [unfolded has_cmd_def])

lemma killed_or_killing_steps: "tw_step\<^sup>*\<^sup>* w w' \<Longrightarrow> killed_or_killing w \<Longrightarrow> killed_or_killing w'"
  by (induction rule: rtranclp_induct) (auto intro: killed_or_killing_step)

lemma tw_first_error: "tw_step w w' \<Longrightarrow> as_lastErr (tw_server w) = Some e \<Longrightarrow> as_lastErr (tw_server w') = Some e"
  by (induction rule: tw_step.induct)
    (auto simp: record_unrecoverable_def kill_process_def close_begin_def dest: first_error_wins [OF as_moves_step])

interpretation transport_record: stable_value tw_step "\<lambda>w. as_lastErr (tw_server w)"
  by unfold_locales (rule tw_first_error)

definition accepted_cause :: "bool \<Rightarrow> goError ptr \<Rightarrow> bool" where
  "accepted_cause requested cause = (requested \<or> cause = Some give_up_error)"

definition gu_ok :: "appServer \<Rightarrow> bool" where
  "gu_ok s = (as_lastErr s = Some give_up_error \<and> as_connectOnce s \<and> as_watcher s \<noteq> NoWatcher \<and>
     (\<forall>w c req cause. as_watcher s = Publishing w c req cause \<longrightarrow> accepted_cause req cause) \<and>
     (\<forall>c req cause. as_watcher s = Emitting c req cause \<longrightarrow> accepted_cause req cause) \<and>
     list_all (\<lambda>(c, req, cause). accepted_cause req cause) (as_exits s))"

lemma gu_ok_moves:
  assumes "as_moves False s s'" and g: "gu_ok s"
  shows "gu_ok s'"
  using assms(1)
proof cases
  case (watch_wait w c tx)
  with g show ?thesis
    by (cases "as_shutdownReq s"; cases w) (simp_all add: gu_ok_def record_exit_def accepted_cause_def Let_def)
next
  case close_grace_over
  with g show ?thesis by (auto simp: gu_ok_def close_timeout_def)
qed (use g in \<open>auto simp: gu_ok_def as_defs\<close>)

lemma gu_ok_step:
  assumes "tw_step w w'" and "gu_ok (tw_server w)"
  shows "gu_ok (tw_server w')"
  using assms(1)
proof cases
  case (tw_process s' xs)
  with gu_ok_moves assms(2) show ?thesis by simp
qed (use assms(2) in \<open>simp_all add: gu_ok_def close_begin_def record_unrecoverable_def kill_process_def\<close>)

lemma gu_ok_steps: "tw_step\<^sup>*\<^sup>* w w' \<Longrightarrow> gu_ok (tw_server w) \<Longrightarrow> gu_ok (tw_server w')"
  by (induction rule: rtranclp_induct) (auto intro: gu_ok_step)

text \<open>A killed process is waited for and its exit reported, with no help from outside and without a close.\<close>

definition own_step :: "appServer \<Rightarrow> appServer \<Rightarrow> bool" where
  "own_step s s' = (unaided s s' \<and> as_closedOnce s' = as_closedOnce s)"

definition can_report :: "appServer \<Rightarrow> bool" where
  "can_report s = (\<exists>s'. own_step\<^sup>*\<^sup>* s s' \<and> length (as_exits s') = 1)"

lemma can_report_before:
  assumes "as_moves False s s1" and "as_proc s = Running \<and> \<not> as_killed s \<longrightarrow> as_proc s1 = Running"
    and "as_stderrDone s1 = as_stderrDone s" and "as_closedOnce s1 = as_closedOnce s" and "can_report s1"
  shows "can_report s"
proof -
  have "own_step s s1" using assms(1-4) by (simp add: own_step_def unaided_def)
  with assms(5) show ?thesis unfolding can_report_def by (meson converse_rtranclp_into_rtranclp)
qed

lemma report_emitting:
  assumes "as_watcher s = Emitting c req cause" and "as_exits s = []"
  shows "can_report s"
  by (rule can_report_before [OF watch_emit [OF assms(1)]])
    (use assms(2) in \<open>auto simp: emit_exit_def can_report_def intro!: exI [of _ "emit_exit c req cause s"]\<close>)

lemma report_publishing:
  assumes "as_watcher s = Publishing w c req cause" and "as_waitDone s = None" and "as_exits s = []"
  shows "can_report s"
  by (rule can_report_before [OF watch_publish [OF assms(1,2)]])
    (use assms(3) in \<open>auto simp: publish_exit_def intro!: report_emitting\<close>)

lemma report_exited:
  assumes "as_watcher s = Waiting" and "as_proc s = process.Exited w c" and "as_waitDone s = None" and "as_exits s = []"
  shows "can_report s"
proof (rule can_report_before [OF watch_wait [OF assms(1,2)]])
  obtain cause where "as_watcher (record_exit (\<lambda>e. []) w c s) = Publishing w c (as_shutdownReq s) cause"
    using record_exit_fields(12) by metis
  then show "can_report (record_exit (\<lambda>e. []) w c s)"
    by (rule report_publishing) (simp_all add: record_exit_fields assms)
qed (simp_all add: record_exit_fields assms)

lemma report_waiting:
  assumes "as_watcher s = Waiting" and "as_proc s \<noteq> Unborn" and "as_waitDone s = None" and "as_exits s = []" and "as_killed s"
  shows "can_report s"
proof (cases "as_proc s")
  case Running
  show ?thesis
    by (rule can_report_before [OF process_exit [OF Running, of _ None 0]])
      (use assms in \<open>auto intro: report_exited\<close>)
qed (use assms report_exited in auto)

lemma report_follows:
  assumes "as_ok s" and "has_cmd s" and "as_killed s"
  shows "can_report s"
proof (cases "as_watcher s")
  case NoWatcher
  with assms(1,2) show ?thesis by (simp add: as_ok_def watch_ok_def has_cmd_def)
next
  case Draining
  show ?thesis
    by (rule can_report_before [OF watch_drain_timeout [OF Draining]])
      (use assms Draining in \<open>auto simp: as_ok_def watch_ok_def intro: report_waiting\<close>)
next
  case WatchOver
  with assms(1) show ?thesis by (auto simp: as_ok_def watch_ok_def can_report_def)
qed (use assms in \<open>auto simp: as_ok_def watch_ok_def intro: report_waiting report_publishing report_emitting\<close>)

text \<open>A step of the transport with no help from outside: nothing arrives on the wire, and the process exits
  only when killed.\<close>

definition tw_unaided :: "transport \<Rightarrow> transport \<Rightarrow> bool" where
  "tw_unaided w w' = (tw_step w w' \<and> tw_demux w' = tw_demux w \<and>
     (as_proc (tw_server w) = Running \<and> \<not> as_killed (tw_server w) \<longrightarrow> as_proc (tw_server w') = Running) \<and>
     as_stderrDone (tw_server w') = as_stderrDone (tw_server w))"

lemma tw_unaided_steps: "tw_unaided\<^sup>*\<^sup>* w w' \<Longrightarrow> tw_step\<^sup>*\<^sup>* w w'"
  by (rule rtranclp_mono [THEN predicate2D]) (auto simp: tw_unaided_def)

lemma own_steps_lift:
  assumes "own_step\<^sup>*\<^sup>* (tw_server w) s'"
  shows "\<exists>w'. tw_unaided\<^sup>*\<^sup>* w w' \<and> tw_server w' = s' \<and> tw_demux w' = tw_demux w \<and> tw_pending w' = tw_pending w \<and>
    tw_killing w' = tw_killing w"
  using assms
proof (induction rule: rtranclp_induct)
  case (step s1 s2)
  then obtain w1 where w1: "tw_unaided\<^sup>*\<^sup>* w w1" "tw_server w1 = s1" "tw_demux w1 = tw_demux w"
      "tw_pending w1 = tw_pending w" "tw_killing w1 = tw_killing w" by blast
  have mv: "as_moves False s1 s2" using step(2) by (simp add: own_step_def unaided_def)
  obtain xs where "as_exits s2 = as_exits s1 @ xs" using moves_exits [OF mv] by blast
  then have "tw_step w1 (w1\<lparr>tw_server := s2, tw_calls := tw_calls w1 @ map exit_call xs\<rparr>)"
    using step(2) w1(2) mv by (intro tw_process) (simp_all add: own_step_def)
  then have "tw_unaided w1 (w1\<lparr>tw_server := s2, tw_calls := tw_calls w1 @ map exit_call xs\<rparr>)"
    using step(2) w1(2) by (simp add: tw_unaided_def own_step_def unaided_def)
  then show ?case using w1
    by (intro exI [of _ "w1\<lparr>tw_server := s2, tw_calls := tw_calls w1 @ map exit_call xs\<rparr>"]) simp
qed auto

lemma killed_reports:
  assumes "tw_ok n w" and "killed_or_killing w"
  shows "\<exists>w2. tw_unaided\<^sup>*\<^sup>* w w2 \<and> as_killed (tw_server w2) \<and> length (filter is_exit_call (tw_calls w2)) = 1"
proof -
  have "\<exists>w1. tw_unaided\<^sup>*\<^sup>* w w1 \<and> has_cmd (tw_server w1) \<and> as_killed (tw_server w1)"
  proof (cases "as_killed (tw_server w)")
    case True
    with assms(2) show ?thesis by (auto simp: killed_or_killing_def)
  next
    case False
    with assms(2) have k: "tw_killing w" "has_cmd (tw_server w)" by (simp_all add: killed_or_killing_def)
    have "tw_unaided w (w\<lparr>tw_server := kill_process (tw_server w), tw_killing := False\<rparr>)"
      using tw_kill [OF k(1)] by (simp add: tw_unaided_def kill_process_def)
    moreover have "has_cmd (kill_process (tw_server w)) \<and> as_killed (kill_process (tw_server w))"
      using k(2) by (simp add: kill_process_def has_cmd_def)
    ultimately show ?thesis
      by (intro exI [of _ "w\<lparr>tw_server := kill_process (tw_server w), tw_killing := False\<rparr>"]) auto
  qed
  then obtain w1 where w1: "tw_unaided\<^sup>*\<^sup>* w w1" "has_cmd (tw_server w1)" "as_killed (tw_server w1)" by blast
  have ok1: "tw_ok n w1" by (rule transport.steps_ok [OF tw_unaided_steps [OF w1(1)] assms(1)])
  then have "as_ok (tw_server w1)" using server.reach_ok by (auto simp: tw_ok_def tw_inv_def)
  from report_follows [OF this w1(2,3)] obtain s2 where s2: "own_step\<^sup>*\<^sup>* (tw_server w1) s2" "length (as_exits s2) = 1"
    by (auto simp: can_report_def)
  obtain w2 where w2: "tw_unaided\<^sup>*\<^sup>* w1 w2" "tw_server w2 = s2" using own_steps_lift [OF s2(1)] by blast
  have "tw_ok n w2" by (rule transport.steps_ok [OF tw_unaided_steps [OF w2(1)] ok1])
  then have "length (filter is_exit_call (tw_calls w2)) = 1" using w2(2) s2(2) by (auto simp: tw_ok_def tw_inv_def)
  moreover have "as_killed s2" using s2(1) w1(3)
    by (induction rule: rtranclp_induct) (auto simp: own_step_def unaided_def dest: moves_killed)
  moreover have "tw_unaided\<^sup>*\<^sup>* w w2" using w1(1) w2(1) by (rule rtranclp_trans)
  ultimately show ?thesis using w2(2) by blast
qed

text \<open>The observer has been told of a give-up whose callback is not still to come.\<close>

lemma told_recorded:
  assumes ok: "tw_inv n told w" and "CallParseGiveUp k \<in> set (tw_calls w)" and "\<not> list_ex is_give_up (tw_pending w)"
  shows "recorded told"
proof -
  have "CallParseGiveUp k \<in> set (filter (\<lambda>c. \<not> is_exit_call c) (tw_calls w))" using assms(2) by simp
  moreover have "filter (\<lambda>c. \<not> is_exit_call c) (tw_calls w) = observer_calls told" using ok by (simp add: tw_inv_def)
  ultimately have "CallParseGiveUp k \<in> set (observer_calls told)" by metis
  then obtain t where t: "t \<in> set told" "CallParseGiveUp k \<in> set (observer_call t)" by (auto simp: observer_calls_def)
  have "t = OnParseGiveUp k" using t(2) by (cases t) simp_all
  with t(1) ok have "OnParseGiveUp k \<in> set (dm_trace (tw_demux w))" by (simp add: tw_inv_def)
  moreover have "reach (NewDemux True n) (tw_demux w)" using ok by (simp add: tw_inv_def)
  ultimately have "OnUnrecoverable give_up_error \<in> set (dm_trace (tw_demux w))" by (rule give_up_handled [rotated])
  moreover have "dm_trace (tw_demux w) = told @ tw_pending w" using ok by (simp add: tw_inv_def)
  ultimately show ?thesis using assms(3) by (auto simp: recorded_def list_ex_iff)
qed

section \<open>Properties\<close>

text \<open>C8: A give-up of the read loop reaches the process: once the observer has been told of it and the
  callback that follows has recorded its error, health shows an error from then on, the process has
  been killed or is about to be, and with nobody's help the exit is reported to the observer. If the
  callback recorded its error before the exit of the process was recorded, the error that health shows
  from then on is the give-up, and the report of an exit that the SDK did not ask for has it as its
  cause. Other calls of the transport may come between the parts of the callback.\<close>

theorem give_up_reported:
  assumes "tw_step\<^sup>*\<^sup>* (NewTransport n) w" and "CallParseGiveUp k \<in> set (tw_calls w)"
    and "\<not> list_ex is_give_up (tw_pending w)" and "tw_step\<^sup>*\<^sup>* w w'"
  shows "hl_LastError (Health (tw_server w')) \<noteq> None \<and> (tw_killing w' \<or> as_killed (tw_server w')) \<and>
     (\<exists>w2. tw_unaided\<^sup>*\<^sup>* w' w2 \<and> as_killed (tw_server w2) \<and> length (filter is_exit_call (tw_calls w2)) = 1) \<and>
     (as_watcher (tw_server w) = Draining \<or> as_watcher (tw_server w) = Waiting \<longrightarrow>
        hl_LastError (Health (tw_server w')) = Some give_up_error \<and>
        (\<forall>(code, requested, cause) \<in> set (as_exits (tw_server w')). requested \<or> cause = Some give_up_error))"
proof -
  have ok: "tw_ok n w" using assms(1) by (rule transport.reach_ok)
  then obtain told where inv: "tw_inv n told w" by (auto simp: tw_ok_def)
  have rec: "recorded told" by (rule told_recorded [OF inv assms(2,3)])
  have ok': "tw_ok n w'" by (rule transport.steps_ok [OF assms(4) ok])
  have kk: "killed_or_killing w'"
    by (rule killed_or_killing_steps [OF assms(4)]) (use inv rec in \<open>simp add: tw_inv_def killed_or_killing_def\<close>)
  obtain e where "as_lastErr (tw_server w) = Some e" using inv rec by (auto simp: tw_inv_def)
  then have err: "as_lastErr (tw_server w') = Some e" by (rule transport_record.steps_keep [OF assms(4)])
  have gu: "gu_ok (tw_server w')" if d: "as_watcher (tw_server w) = Draining \<or> as_watcher (tw_server w) = Waiting"
  proof (rule gu_ok_steps [OF assms(4)])
    have "as_ok (tw_server w)" using inv server.reach_ok by (simp add: tw_inv_def)
    then have "as_exits (tw_server w) = []" "as_connectOnce (tw_server w)"
      using d by (auto simp: as_ok_def watch_ok_def)
    moreover have "as_lastErr (tw_server w) = Some give_up_error"
      using inv rec d by (auto simp: tw_inv_def unreaped_def)
    ultimately show "gu_ok (tw_server w)" using d by (auto simp: gu_ok_def)
  qed
  then have "as_watcher (tw_server w) = Draining \<or> as_watcher (tw_server w) = Waiting \<longrightarrow>
      hl_LastError (Health (tw_server w')) = Some give_up_error \<and>
      (\<forall>(code, requested, cause) \<in> set (as_exits (tw_server w')). requested \<or> cause = Some give_up_error)"
    by (auto simp: gu_ok_def Health_def list_all_iff accepted_cause_def)
  then show ?thesis using killed_reports [OF ok' kk] kk err by (simp add: Health_def killed_or_killing_def)
qed

text \<open>Once \<open>Close\<close> of the transport has returned with a process, the process is over and no request is
  registered any more.\<close>

lemma transport_closed:
  assumes "tw_step\<^sup>*\<^sup>* (NewTransport n) w" and "as_closer (tw_server w) = Returned r"
  shows "r = None \<and> (\<exists>x c. as_proc (tw_server w) = process.Exited x c) \<and> dm_stopped (tw_demux w) \<and> dm_pending (tw_demux w) = []"
proof -
  have ok: "tw_ok n w" using assms(1) by (rule transport.reach_ok)
  then have d: "dm_stopped (tw_demux w)" and i: "inv_calls (tw_demux w)" and a: "as_ok (tw_server w)"
    using assms(2) reach_NewDemux(3) server.reach_ok by (auto simp: tw_ok_def tw_inv_def)
  have "past_publish (as_watcher (tw_server w))" "r = None" using a assms(2) by (simp_all add: as_ok_def close_ok_def)
  moreover have "dm_pending (tw_demux w) = []" using d i by (auto simp: inv_calls_def)
  ultimately show ?thesis using a d by (auto simp: as_ok_def watch_ok_def past_publish_def split: watcher.splits)
qed

section \<open>Sample runs\<close>

text \<open>A process is started.\<close>

definition sample_started :: transport where
  "sample_started = (NewTransport 1)\<lparr>tw_server := connected_to 7 NewAppServer\<rparr>"

lemma sample_started_reach: "tw_step\<^sup>*\<^sup>* (NewTransport 1) sample_started"
proof -
  have "as_moves False (tw_server (NewTransport 1)) (connected_to 7 NewAppServer)"
    using connect_ok [of NewAppServer 7 False] by (simp add: NewTransport_def) (simp add: NewAppServer_def)
  from tw_process [OF this, of "[]"]
  have "tw_step (NewTransport 1) ((NewTransport 1)\<lparr>tw_server := connected_to 7 NewAppServer, tw_calls := tw_calls (NewTransport 1) @ map exit_call []\<rparr>)"
    by (simp add: NewTransport_def) (simp add: NewAppServer_def connected_to_def)
  then show ?thesis by (simp add: NewTransport_def sample_started_def)
qed

text \<open>One line that is no JSON, with a threshold of one: the observer is told of the failure and of the
  give-up, and the callback records and kills.\<close>

definition bad_calls :: "telemetry list" where
  "bad_calls = [OnParseError 1, OnParseGiveUp 1, OnUnrecoverable give_up_error]"

definition after_bad_line :: "transport \<Rightarrow> transport" where
  "after_bad_line w = w\<lparr>tw_demux := on_line ''x'' (NewDemux True 1), tw_pending := bad_calls\<rparr>"

definition after_telling :: "transport \<Rightarrow> transport" where
  "after_telling w = (after_bad_line w)\<lparr>tw_pending := [OnUnrecoverable give_up_error],
     tw_calls := tw_calls w @ [CallParseError 1, CallParseGiveUp 1]\<rparr>"

definition after_record :: "transport \<Rightarrow> transport" where
  "after_record w = (after_telling w)\<lparr>tw_pending := [], tw_server := record_unrecoverable give_up_error (tw_server w),
     tw_killing := True\<rparr>"

lemma bad_line_trace: "dm_trace (on_line ''x'' (NewDemux True 1)) = bad_calls"
  by (simp add: on_line_def NewDemux_def decode_frame_x handleDecodeFailure_def recordParseFailure_def
      WithMaxParseErrors_def log_def want_def Let_def bad_calls_def)

lemma bad_line_step:
  assumes "tw_demux w = NewDemux True 1" and "has_cmd (tw_server w)" and "\<not> loop_busy w"
  shows "tw_step w (after_bad_line w)"
proof -
  have "dstep (tw_demux w) (on_line ''x'' (NewDemux True 1))"
    unfolding assms(1) by (rule read_line) (simp add: NewDemux_def)
  moreover have "dm_trace (on_line ''x'' (NewDemux True 1)) = dm_trace (tw_demux w) @ bad_calls"
    unfolding bad_line_trace assms(1) by (simp add: NewDemux_def)
  ultimately have "tw_step w (w\<lparr>tw_demux := on_line ''x'' (NewDemux True 1), tw_pending := tw_pending w @ bad_calls\<rparr>)"
    using assms(3) by (intro tw_wire [OF assms(2)]) simp_all
  then show ?thesis using assms(3) by (simp add: after_bad_line_def loop_busy_def)
qed

lemma telling_steps:
  assumes "\<not> tw_killing w"
  shows "tw_step\<^sup>*\<^sup>* (after_bad_line w) (after_telling w)"
proof -
  let ?w = "after_bad_line w"
  let ?w1 = "?w\<lparr>tw_pending := [OnParseGiveUp 1, OnUnrecoverable give_up_error], tw_calls := tw_calls w @ [CallParseError 1]\<rparr>"
  have k: "\<not> tw_killing ?w" "\<not> tw_killing ?w1" using assms by (simp_all add: after_bad_line_def)
  have "tw_step ?w ?w1" using tw_tell [OF k(1), of "OnParseError 1" "[OnParseGiveUp 1, OnUnrecoverable give_up_error]"]
    by (simp add: after_bad_line_def bad_calls_def)
  moreover have "tw_step ?w1 (after_telling w)"
    using tw_tell [OF k(2), of "OnParseGiveUp 1" "[OnUnrecoverable give_up_error]"]
    by (simp add: after_bad_line_def after_telling_def)
  ultimately show ?thesis by auto
qed

lemma record_step: "\<not> tw_killing w \<Longrightarrow> tw_step (after_telling w) (after_record w)"
  using tw_record [of "after_telling w" give_up_error "[]"]
  by (simp add: after_telling_def after_record_def after_bad_line_def)

lemma sample_recorded_reach: "tw_step\<^sup>*\<^sup>* (NewTransport 1) (after_record sample_started)"
proof -
  have "tw_step sample_started (after_bad_line sample_started)"
    by (rule bad_line_step) (simp_all add: sample_started_def NewTransport_def has_cmd_def connected_to_def loop_busy_def)
  moreover have "\<not> tw_killing sample_started" by (simp add: sample_started_def NewTransport_def)
  ultimately show ?thesis
    using sample_started_reach telling_steps record_step
    by (meson rtranclp.rtrancl_into_rtrancl rtranclp_trans)
qed

theorem give_up_reported_witness:
  "\<exists>w w2. tw_calls w = [CallParseError 1, CallParseGiveUp 1] \<and> as_proc (tw_server w) = Running \<and> tw_unaided\<^sup>*\<^sup>* w w2 \<and>
     length (filter is_exit_call (tw_calls w2)) = 1 \<and> hl_LastError (Health (tw_server w)) = Some give_up_error"
proof -
  let ?w = "after_record sample_started"
  have f: "tw_calls ?w = [CallParseError 1, CallParseGiveUp 1]" "tw_pending ?w = []"
      "as_watcher (tw_server ?w) = Draining" "as_proc (tw_server ?w) = Running"
    by (simp_all add: after_record_def after_telling_def after_bad_line_def sample_started_def NewTransport_def
        record_unrecoverable_def connected_to_def)
  have c: "CallParseGiveUp 1 \<in> set (tw_calls ?w)" "\<not> list_ex is_give_up (tw_pending ?w)" using f by simp_all
  from give_up_reported [OF sample_recorded_reach c rtranclp.rtrancl_refl] f show ?thesis by blast
qed

lemma tw_calls_grow: "tw_step\<^sup>*\<^sup>* w w' \<Longrightarrow> prefix (tw_calls w) (tw_calls w')"
proof (induction rule: rtranclp_induct)
  case (step w1 w2)
  from step(2) have "prefix (tw_calls w1) (tw_calls w2)" by cases auto
  with step(3) show ?case by (rule prefix_order.order_trans)
qed simp

lemma at_most_one_exit:
  assumes "tw_step\<^sup>*\<^sup>* (NewTransport n) w"
  shows "length (filter is_exit_call (tw_calls w)) \<le> 1"
proof -
  obtain told where inv: "tw_inv n told w" using transport.reach_ok [OF assms] by (auto simp: tw_ok_def)
  then have "as_ok (tw_server w)" using server.reach_ok by (simp add: tw_inv_def)
  then have "length (as_exits (tw_server w)) \<le> 1" by (auto simp: as_ok_def watch_ok_def split: watcher.splits)
  with inv show ?thesis by (simp add: tw_inv_def)
qed

text \<open>The comment on \<open>OnParseGiveUp\<close> says that it is always followed by an \<open>OnSubprocessExit\<close>. Nothing orders
  the read loop, which may have lines in its buffer, and the goroutine that waits for the process: the
  exit can be reported first, and then nothing follows.\<close>

definition sample_exited :: appServer where
  "sample_exited = (let s = (connected_to 7 NewAppServer)\<lparr>as_watcher := Waiting, as_proc := process.Exited None 0\<rparr> in
     emit_exit 0 False None (publish_exit None 0 False None (record_exit (\<lambda>e. []) None 0 s)))"

definition open_step :: "appServer \<Rightarrow> appServer \<Rightarrow> bool" where
  "open_step s s' = (as_moves False s s' \<and> as_closedOnce s' = as_closedOnce s)"

lemma open_stepI: "as_moves False s s' \<Longrightarrow> as_closedOnce s' = as_closedOnce s \<Longrightarrow> open_step s s'"
  by (simp add: open_step_def)

lemma sample_exited_moves: "open_step\<^sup>*\<^sup>* (connected_to 7 NewAppServer) sample_exited"
proof -
  let ?s0 = "connected_to 7 NewAppServer"
  let ?s1 = "?s0\<lparr>as_watcher := Waiting\<rparr>" let ?s2 = "?s1\<lparr>as_proc := process.Exited None 0\<rparr>"
  let ?s3 = "record_exit (\<lambda>e. []) None 0 ?s2" let ?s4 = "publish_exit None 0 False None ?s3"
  have s3: "as_watcher ?s3 = Publishing None 0 False None" "as_waitDone ?s3 = None"
    by (simp_all add: record_exit_def connected_to_def NewAppServer_def)
  have m: "as_moves False ?s0 ?s1" "as_moves False ?s1 ?s2" "as_moves False ?s2 ?s3" "as_moves False ?s3 ?s4"
      "as_moves False ?s4 sample_exited"
    using watch_drain_timeout [of ?s0 False] process_exit [of ?s1 False None 0] watch_wait [of ?s2 None 0 False "\<lambda>e. []"]
      watch_publish [OF s3, of False] watch_emit [of ?s4 0 False None False]
    by (simp_all add: connected_to_def publish_exit_def sample_exited_def Let_def)
  have "as_closedOnce ?s1 = as_closedOnce ?s0" "as_closedOnce ?s2 = as_closedOnce ?s1" by simp_all
  then have o1: "open_step ?s0 ?s1" "open_step ?s1 ?s2" using m(1,2) open_stepI by blast+
  have "as_closedOnce ?s3 = as_closedOnce ?s2" by (rule record_exit_fields(5))
  then have o2: "open_step ?s2 ?s3" using m(3) open_stepI by blast
  have "as_closedOnce ?s4 = as_closedOnce ?s3" "as_closedOnce sample_exited = as_closedOnce ?s4"
    by (simp_all add: publish_exit_def emit_exit_def sample_exited_def Let_def)
  then have o3: "open_step ?s3 ?s4" "open_step ?s4 sample_exited" using m(4,5) open_stepI by blast+
  show ?thesis
    by (rule converse_rtranclp_into_rtranclp, rule o1(1), rule converse_rtranclp_into_rtranclp, rule o1(2),
        rule converse_rtranclp_into_rtranclp, rule o2, rule converse_rtranclp_into_rtranclp, rule o3(1),
        rule r_into_rtranclp, rule o3(2))
qed

lemma moves_lift:
  assumes "open_step\<^sup>*\<^sup>* (tw_server w) s'"
  shows "\<exists>cs. tw_step\<^sup>*\<^sup>* w (w\<lparr>tw_server := s', tw_calls := cs\<rparr>)"
  using assms
proof (induction rule: rtranclp_induct)
  case base
  show ?case by (rule exI [of _ "tw_calls w"]) simp
next
  case (step s1 s2)
  then obtain cs where w1: "tw_step\<^sup>*\<^sup>* w (w\<lparr>tw_server := s1, tw_calls := cs\<rparr>)" by blast
  obtain xs where "as_exits s2 = as_exits s1 @ xs" using step(2) moves_exits unfolding open_step_def by blast
  with tw_process [of "w\<lparr>tw_server := s1, tw_calls := cs\<rparr>" s2 xs] step(2) [unfolded open_step_def]
  have "tw_step (w\<lparr>tw_server := s1, tw_calls := cs\<rparr>) (w\<lparr>tw_server := s2, tw_calls := cs @ map exit_call xs\<rparr>)" by simp
  with w1 show ?case by (meson rtranclp.rtrancl_into_rtrancl)
qed

lemma give_up_after_exit:
  "\<exists>w. tw_step\<^sup>*\<^sup>* (NewTransport 1) w \<and> tw_calls w = [CallSubprocessExit 0 False None, CallParseError 1, CallParseGiveUp 1] \<and>
     (\<forall>w'. tw_step\<^sup>*\<^sup>* w w' \<longrightarrow> length (filter is_exit_call (tw_calls w')) = 1)"
proof -
  have "tw_server sample_started = connected_to 7 NewAppServer" by (simp add: sample_started_def)
  then obtain cs where w1: "tw_step\<^sup>*\<^sup>* sample_started (sample_started\<lparr>tw_server := sample_exited, tw_calls := cs\<rparr>)"
    using moves_lift [of sample_started] sample_exited_moves by metis
  let ?w1 = "sample_started\<lparr>tw_server := sample_exited, tw_calls := cs\<rparr>"
  have r1: "tw_step\<^sup>*\<^sup>* (NewTransport 1) ?w1" by (rule rtranclp_trans [OF sample_started_reach w1])
  obtain told where inv: "tw_inv 1 told ?w1" using transport.reach_ok [OF r1] by (auto simp: tw_ok_def)
  have d: "tw_demux ?w1 = NewDemux True 1" "tw_pending ?w1 = []" "\<not> tw_killing ?w1" "has_cmd (tw_server ?w1)"
    "as_exits (tw_server ?w1) = [(0, False, None)]" "dm_trace (NewDemux True 1) = []"
    by (simp_all add: sample_started_def NewTransport_def sample_exited_def emit_exit_def publish_exit_def
        record_exit_def connected_to_def NewAppServer_def has_cmd_def NewDemux_def Let_def)
  have "told = []" using inv d(1,2,6) by (simp add: tw_inv_def)
  moreover have "filter (\<lambda>c. \<not> is_exit_call c) cs = observer_calls told" "filter is_exit_call cs = map exit_call [(0, False, None)]"
    using inv d(5) by (simp_all add: tw_inv_def)
  ultimately have f: "filter (\<lambda>c. \<not> is_exit_call c) cs = []" "filter is_exit_call cs = [CallSubprocessExit 0 False None]"
    by (simp_all add: observer_calls_def)
  have "filter is_exit_call cs = cs" using f(1) by (simp add: filter_id_conv filter_empty_conv)
  then have cs: "cs = [CallSubprocessExit 0 False None]" using f(2) by simp
  let ?w = "after_telling ?w1"
  have rw: "tw_step\<^sup>*\<^sup>* (NewTransport 1) ?w"
  proof (rule rtranclp_trans [OF rtranclp.rtrancl_into_rtrancl [OF r1 bad_line_step] telling_steps])
    show "\<not> loop_busy ?w1" using d(2,3) by (simp add: loop_busy_def)
  qed (rule d(1) d(3) d(4))+
  have c: "tw_calls ?w = [CallSubprocessExit 0 False None, CallParseError 1, CallParseGiveUp 1]"
    by (simp add: after_telling_def cs)
  have "length (filter is_exit_call (tw_calls w')) = 1" if w': "tw_step\<^sup>*\<^sup>* ?w w'" for w'
  proof -
    obtain rest where "tw_calls w' = tw_calls ?w @ rest" using tw_calls_grow [OF w'] by (auto simp: prefix_def)
    moreover have "length (filter is_exit_call (tw_calls w')) \<le> 1" by (rule at_most_one_exit [OF rtranclp_trans [OF rw w']])
    ultimately show ?thesis using c by simp
  qed
  with rw c show ?thesis by blast
qed

end
