(* ===== verification/Query.thy ===== *)
theory Query
  imports Turn_Stream Options Transitions
begin

text \<open>
  The one-shot query (\<open>query.go\<close>): the calls that lead to a running turn, with the clean-up when one of
  them fails, and the goroutine that forwards the events of the turn to the caller's channel and closes
  the client afterwards. The turn it reads from is the one of Turn\_Stream, whose only consumer the
  goroutine is. Also the warm pool and \<open>Startup\<close> (\<open>warm_pool.go\<close>, \<open>startup.go\<close>), which hold nothing in
  this version.
\<close>

section \<open>Until the turn runs\<close>

datatype queryCall = CallNewClient codexOptions | CallConnect | CallStartThread | CallRunStreamed string | CallClose

text \<open>What is called, in order, and the error returned; the arguments are what the four calls return.\<close>

definition QueryCalls :: "codexOptions option \<Rightarrow> string \<Rightarrow> goError ptr \<Rightarrow> goError ptr \<Rightarrow> goError ptr \<Rightarrow> goError ptr \<Rightarrow>
    queryCall list \<times> goError ptr" where
  "QueryCalls opts prompt newErr connErr startErr runErr =
     (let o' = (case opts of None \<Rightarrow> NewCodexOptions | Some x \<Rightarrow> x) in
      case newErr of Some e \<Rightarrow> ([CallNewClient o'], Some e)
      | None \<Rightarrow> (case connErr of Some e \<Rightarrow> ([CallNewClient o', CallConnect], Some e)
      | None \<Rightarrow> (case startErr of
          Some e \<Rightarrow> ([CallNewClient o', CallConnect, CallStartThread, CallClose],
                     Some (ErrWrap ''codex.Query: StartThread'' e))
      | None \<Rightarrow> (case runErr of
          Some e \<Rightarrow> ([CallNewClient o', CallConnect, CallStartThread, CallRunStreamed prompt, CallClose],
                     Some (ErrWrap ''codex.Query: RunStreamed'' e))
      | None \<Rightarrow> ([CallNewClient o', CallConnect, CallStartThread, CallRunStreamed prompt], None)))))"

section \<open>The forwarding goroutine\<close>

text \<open>Where it is: at the \<open>range\<close>, with an event in its hand, or in the deferred functions, which run last
  to first. \<open>q_canceled\<close> records that it left with an event in its hand, \<open>q_got\<close> what the caller received.\<close>

datatype forwardPhase = Ranging | Holding threadEvent | ClosingClient | ClosingOut | ForwardOver

record query =
  q_turn :: turnStream
  q_phase :: forwardPhase
  q_out :: "threadEvent gochan"
  q_clientClosed :: bool
  q_ctxDone :: bool
  q_canceled :: bool
  q_got :: "threadEvent list"

definition start_query :: "turnStream \<Rightarrow> query" where
  "start_query s = \<lparr>q_turn = s, q_phase = Ranging, q_out = make_chan ThreadInboxBuffer, q_clientClosed = False,
     q_ctxDone = False, q_canceled = False, q_got = []\<rparr>"

inductive qstep :: "query \<Rightarrow> query \<Rightarrow> bool" where
  q_inner: "tstep (q_turn q) s \<Longrightarrow> tn_got s = tn_got (q_turn q) \<Longrightarrow> qstep q (q\<lparr>q_turn := s\<rparr>)"
| q_take: "q_phase q = Ranging \<Longrightarrow> chan_recv (tn_out (q_turn q)) = (Received ev, c) \<Longrightarrow>
    qstep q (q\<lparr>q_turn := (q_turn q)\<lparr>tn_out := c, tn_got := tn_got (q_turn q) @ [ev]\<rparr>, q_phase := Holding ev\<rparr>)"
| q_drained: "q_phase q = Ranging \<Longrightarrow> chan_recv (tn_out (q_turn q)) = (ChanClosed, c) \<Longrightarrow>
    qstep q (q\<lparr>q_phase := ClosingClient\<rparr>)"
| q_forward: "q_phase q = Holding ev \<Longrightarrow> chan_send ev (q_out q) = Some c \<Longrightarrow>
    qstep q (q\<lparr>q_out := c, q_phase := Ranging\<rparr>)"
| q_abandon: "q_phase q = Holding ev \<Longrightarrow> q_ctxDone q \<Longrightarrow> qstep q (q\<lparr>q_phase := ClosingClient, q_canceled := True\<rparr>)"
| q_ctx_done: "qstep q (q\<lparr>q_ctxDone := True\<rparr>)"
| q_close_client: "q_phase q = ClosingClient \<Longrightarrow>
    qstep q (q\<lparr>q_turn := (q_turn q)\<lparr>tn_thread := markClosed (tn_thread (q_turn q))\<rparr>, q_clientClosed := True,
               q_phase := ClosingOut\<rparr>)"
| q_close_out: "q_phase q = ClosingOut \<Longrightarrow> qstep q (q\<lparr>q_out := chan_close (q_out q), q_phase := ForwardOver\<rparr>)"
| q_recv: "chan_recv (q_out q) = (Received ev, c) \<Longrightarrow> qstep q (q\<lparr>q_out := c, q_got := q_got q @ [ev]\<rparr>)"

section \<open>The warm pool\<close>

text \<open>\<open>Acquire\<close> finds nothing and \<open>Release\<close> keeps nothing.\<close>

record warmPool =
  wp_idle :: "nat list"

definition NewWarmPool :: warmPool where "NewWarmPool = \<lparr>wp_idle = []\<rparr>"

definition Acquire :: "warmPool \<Rightarrow> nat ptr \<times> warmPool" where "Acquire p = (None, p)"

definition Release :: "nat \<Rightarrow> warmPool \<Rightarrow> warmPool" where "Release t p = p"

record startupConfig =
  su_cliPath :: string

definition WithStartupCLIPath :: "string \<Rightarrow> startupConfig \<Rightarrow> startupConfig" where
  "WithStartupCLIPath path c = c\<lparr>su_cliPath := path\<rparr>"

definition Startup :: "(startupConfig \<Rightarrow> startupConfig) list \<Rightarrow> startupConfig \<times> goError ptr" where
  "Startup opts = (foldl (\<lambda>c f. f c) \<lparr>su_cliPath = []\<rparr> opts, None)"

section \<open>Invariant\<close>

fun held :: "forwardPhase \<Rightarrow> threadEvent list" where
  "held (Holding ev) = [ev]"
| "held _ = []"

definition leaving :: "forwardPhase \<Rightarrow> bool" where
  "leaving p = (p \<in> {ClosingClient, ClosingOut, ForwardOver})"

definition q_ok :: "query \<Rightarrow> bool" where
  "q_ok q = (tn_inv (q_turn q) \<and> chan_ok (q_out q) \<and> ch_cap (q_out q) = ThreadInboxBuffer \<and>
     ch_closed (q_out q) = (q_phase q = ForwardOver) \<and>
     q_clientClosed q = (q_phase q \<in> {ClosingOut, ForwardOver}) \<and>
     (q_canceled q \<longrightarrow> q_ctxDone q \<and> leaving (q_phase q)) \<and>
     (if q_canceled q then prefix (q_got q @ ch_buf (q_out q)) (tn_got (q_turn q))
      else q_got q @ ch_buf (q_out q) @ held (q_phase q) = tn_got (q_turn q)) \<and>
     (leaving (q_phase q) \<and> \<not> q_canceled q \<longrightarrow>
        ch_closed (tn_out (q_turn q)) \<and> ch_buf (tn_out (q_turn q)) = []))"

lemma prefix_of_append: "a @ b @ c = d \<Longrightarrow> prefix (a @ b) d"
  by auto

lemma tn_out_over:
  assumes "tstep s s'" and "tn_inv s" and "ch_closed (tn_out s)" and "ch_buf (tn_out s) = []"
  shows "ch_closed (tn_out s') \<and> ch_buf (tn_out s') = []"
  using assms
proof (induction rule: tstep.induct)
  case (t_deliver ev s s')
  then show ?case by (auto simp: dispatch_to_def)
next
  case (t_forward s ev s')
  then show ?case by (auto simp: send_out_def chan_send_def)
next
  case (t_canceled s)
  then show ?case by (simp add: finish_def)
qed (auto simp: chan_recv_def split: list.splits)

lemma q_ok_start: "th_ok t \<Longrightarrow> q_ok (start_query (start_stream u t))"
  using tn_inv_start [of t u]
  by (simp add: q_ok_def start_query_def leaving_def chan_ok_def) (simp add: start_stream_def)

lemma q_ok_step: "qstep q q' \<Longrightarrow> q_ok q \<Longrightarrow> q_ok q'"
proof (induction rule: qstep.induct)
  case (q_inner q s)
  have "leaving (q_phase q) \<and> \<not> q_canceled q \<longrightarrow> ch_closed (tn_out s) \<and> ch_buf (tn_out s) = []"
    using tn_out_over [OF q_inner(1)] q_inner(3) by (simp add: q_ok_def)
  with q_inner tn_inv_step [OF q_inner(1)] show ?case by (simp add: q_ok_def)
next
  case (q_take q ev c)
  from t_recv [OF q_take(2)] q_take(3) have "tn_inv ((q_turn q)\<lparr>tn_out := c, tn_got := tn_got (q_turn q) @ [ev]\<rparr>)"
    using tn_inv_step by (auto simp: q_ok_def)
  with q_take show ?case by (auto simp: q_ok_def leaving_def)
next
  case (q_drained q c)
  then have "ch_closed (tn_out (q_turn q)) \<and> ch_buf (tn_out (q_turn q)) = []"
    by (auto simp: chan_recv_def split: list.splits if_splits)
  with q_drained show ?case by (auto simp: q_ok_def leaving_def)
next
  case (q_forward q ev c)
  then show ?case by (auto simp: q_ok_def leaving_def chan_send_def chan_ok_def split: if_splits)
next
  case (q_abandon q ev)
  then show ?case by (auto simp: q_ok_def leaving_def intro: prefix_of_append)
next
  case (q_close_client q)
  have "tn_inv ((q_turn q)\<lparr>tn_thread := markClosed (tn_thread (q_turn q))\<rparr>)"
    using tn_inv_step [OF t_close] q_close_client(2) by (simp add: q_ok_def)
  with q_close_client show ?case by (auto simp: q_ok_def leaving_def)
next
  case (q_recv q ev c)
  then show ?case
    using chan_recv_Received [OF q_recv(1)] by (auto simp: q_ok_def chan_ok_def)
qed (auto simp: q_ok_def leaving_def chan_ok_def)

lemma qsteps_ok: "qstep\<^sup>*\<^sup>* q q' \<Longrightarrow> q_ok q \<Longrightarrow> q_ok q'"
  by (induction rule: rtranclp_induct) (auto intro: q_ok_step)

lemma tn_first_qsteps: "qstep\<^sup>*\<^sup>* q q' \<Longrightarrow> tn_first (q_turn q') = tn_first (q_turn q)"
proof (induction rule: rtranclp_induct)
  case (step q1 q2)
  from step(2) have "tn_first (q_turn q2) = tn_first (q_turn q1)"
    by cases (auto simp: tn_first_step)
  with step(3) show ?case by simp
qed simp

section \<open>Properties\<close>

text \<open>A query that fails leaves nothing running: when the client was connected and a later call failed,
  the last thing done is to close it, and nothing is called after the call that failed.\<close>

theorem query_failure_closes_client:
  assumes "QueryCalls opts prompt newErr connErr startErr runErr = (calls, Some e)"
  shows "(newErr \<noteq> None \<or> connErr \<noteq> None) \<and> CallStartThread \<notin> set calls \<and> CallClose \<notin> set calls \<or>
         newErr = None \<and> connErr = None \<and> last calls = CallClose \<and> count_list calls CallClose = 1 \<and>
           (startErr \<noteq> None \<longrightarrow> CallRunStreamed prompt \<notin> set calls)"
  using assms by (auto simp: QueryCalls_def Let_def split: option.splits)

text \<open>C20: The caller of a query sees the turn: what it has received and will receive is a prefix of what the
  turn sent, and the turn sends the events of its own specification; the channel is closed only after
  the client was closed; and once it is closed, without the caller's context having stopped the
  forwarding, the caller has everything the turn sent, which is the whole turn when the turn ended.\<close>

theorem query_forwards_turn:
  assumes "threach (newThread i) t" and "qstep\<^sup>*\<^sup>* (start_query (start_stream u t)) q"
  shows "prefix (q_got q @ ch_buf (q_out q)) (tn_sent (q_turn q)) \<and>
     prefix (tn_sent (q_turn q)) (fst (turn_events u (tn_accepted (q_turn q)))) \<and>
     (ch_closed (q_out q) \<longrightarrow> q_clientClosed q) \<and>
     (ch_closed (q_out q) \<and> \<not> q_canceled q \<longrightarrow>
        q_got q @ ch_buf (q_out q) = tn_sent (q_turn q) \<and> \<not> running (q_turn q) \<and>
        (tn_phase (q_turn q) = Finished True \<longrightarrow>
           q_got q @ ch_buf (q_out q) = fst (turn_events u (tn_accepted (q_turn q)))))"
proof -
  have "th_ok t" using assms(1) by (rule threach_ok) simp
  then have ok: "q_ok q" using qsteps_ok [OF assms(2) q_ok_start] by blast
  have u: "tn_first (q_turn q) = u" using tn_first_qsteps [OF assms(2)] by (simp add: start_query_def start_stream_def)
  have inv: "tn_inv (q_turn q)" using ok by (simp add: q_ok_def)
  then have sent: "tn_got (q_turn q) @ ch_buf (tn_out (q_turn q)) = tn_sent (q_turn q)" by (simp add: tn_inv_def)
  have "prefix (q_got q @ ch_buf (q_out q)) (tn_got (q_turn q))"
    using ok prefix_of_append [of "q_got q" "ch_buf (q_out q)" "held (q_phase q)"]
    by (cases "q_canceled q") (simp_all add: q_ok_def)
  with sent have 1: "prefix (q_got q @ ch_buf (q_out q)) (tn_sent (q_turn q))" by (metis prefix_append)
  have 2: "prefix (tn_sent (q_turn q)) (fst (turn_events u (tn_accepted (q_turn q))))"
    using inv u prefix_turn_events [of u "tn_sent (q_turn q)" "tn_expected (q_turn q)"]
    by (cases "tn_phase (q_turn q)") (auto simp: tn_inv_def split: bool.splits)
  have 3: "ch_closed (q_out q) \<longrightarrow> q_clientClosed q" using ok by (simp add: q_ok_def)
  have 4: "q_got q @ ch_buf (q_out q) = tn_sent (q_turn q) \<and> \<not> running (q_turn q) \<and>
      (tn_phase (q_turn q) = Finished True \<longrightarrow>
         q_got q @ ch_buf (q_out q) = fst (turn_events u (tn_accepted (q_turn q))))"
    if "ch_closed (q_out q) \<and> \<not> q_canceled q"
  proof -
    have "q_got q @ ch_buf (q_out q) = tn_sent (q_turn q)" "ch_closed (tn_out (q_turn q))"
      using that ok sent by (auto simp: q_ok_def leaving_def)
    then show ?thesis using inv u by (auto simp: tn_inv_def)
  qed
  show ?thesis using 1 2 3 4 by blast
qed

text \<open>The goroutine can come to its end, with the client and the channel closed and nothing received.\<close>

definition q_ends :: "threadEvent list \<Rightarrow> query \<Rightarrow> bool" where
  "q_ends got q = (\<exists>q'. qstep\<^sup>*\<^sup>* q q' \<and> q_phase q' = ForwardOver \<and> q_clientClosed q' \<and> ch_closed (q_out q') \<and> q_got q' = got)"

lemma q_ends_step: "qstep q q1 \<Longrightarrow> q_ends got q1 \<Longrightarrow> q_ends got q"
  unfolding q_ends_def by (blast intro: converse_rtranclp_into_rtranclp)

lemma q_ends_over: "q_ok q \<Longrightarrow> q_phase q = ForwardOver \<Longrightarrow> q_got q = got \<Longrightarrow> q_ends got q"
  unfolding q_ends_def by (intro exI [of _ q]) (simp add: q_ok_def)

lemma q_ends_out: "q_ok q \<Longrightarrow> q_phase q = ClosingOut \<Longrightarrow> q_got q = got \<Longrightarrow> q_ends got q"
  by (rule q_ends_step [OF q_close_out q_ends_over]) (auto intro: q_ok_step [OF q_close_out])

lemma q_ends_client: "q_ok q \<Longrightarrow> q_phase q = ClosingClient \<Longrightarrow> q_got q = got \<Longrightarrow> q_ends got q"
  by (rule q_ends_step [OF q_close_client q_ends_out]) (auto intro: q_ok_step [OF q_close_client])

lemma q_ends_holding: "q_ok q \<Longrightarrow> q_phase q = Holding ev \<Longrightarrow> q_ctxDone q \<Longrightarrow> q_got q = got \<Longrightarrow> q_ends got q"
  by (rule q_ends_step [OF q_abandon q_ends_client]) (auto intro: q_ok_step [OF q_abandon])

lemma q_ends_ranging:
  assumes "q_ok q" and "q_phase q = Ranging" and "q_ctxDone q" and "q_got q = got" and "ch_closed (tn_out (q_turn q))"
  shows "q_ends got q"
proof (cases "ch_buf (tn_out (q_turn q))")
  case Nil
  with assms(5) have "chan_recv (tn_out (q_turn q)) = (ChanClosed, tn_out (q_turn q))" by (simp add: chan_recv_def)
  note s = q_drained [OF assms(2) this]
  show ?thesis
    by (rule q_ends_step [OF s q_ends_client [OF q_ok_step [OF s assms(1)]]]) (simp_all add: assms(4))
next
  case (Cons ev evs)
  then have "chan_recv (tn_out (q_turn q)) = (Received ev, (tn_out (q_turn q))\<lparr>ch_buf := evs\<rparr>)"
    by (simp add: chan_recv_def)
  note s = q_take [OF assms(2) this]
  show ?thesis
    by (rule q_ends_step [OF s q_ends_holding [OF q_ok_step [OF s assms(1)]]]) (simp_all add: assms(3,4))
qed

text \<open>Cancellation ends a query: once the caller's context is done, the goroutine can come to its end,
  with the client and the channel closed, whether or not anybody receives from the channel.\<close>

theorem query_cancel_ends:
  assumes "threach (newThread i) t" and "qstep\<^sup>*\<^sup>* (start_query (start_stream u t)) q" and "q_ctxDone q"
  shows "\<exists>q'. qstep\<^sup>*\<^sup>* q q' \<and> q_phase q' = ForwardOver \<and> q_clientClosed q' \<and> ch_closed (q_out q') \<and> q_got q' = q_got q"
proof -
  have ok: "q_ok q" using qsteps_ok [OF assms(2) q_ok_start [OF threach_ok [OF assms(1) th_ok_new]]] .
  have "q_ends (q_got q) q"
  proof (cases "q_phase q")
    case Ranging
    show ?thesis
    proof (cases "running (q_turn q)")
      case True
      have s: "qstep q (q\<lparr>q_turn := finish False (q_turn q)\<rparr>)"
        by (rule q_inner [OF t_canceled [OF True]]) (simp add: finish_def)
      show ?thesis
        by (rule q_ends_step [OF s q_ends_ranging [OF q_ok_step [OF s ok]]])
          (use Ranging assms(3) in \<open>simp_all add: finish_def\<close>)
    next
      case False
      then have "ch_closed (tn_out (q_turn q))" using ok by (simp add: q_ok_def tn_inv_def)
      with ok Ranging assms(3) q_ends_ranging show ?thesis by blast
    qed
  qed (use ok assms(3) q_ends_holding q_ends_client q_ends_out q_ends_over in blast)+
  then show ?thesis by (simp add: q_ends_def)
qed

section \<open>Witnesses\<close>

theorem query_failure_closes_client_witness:
  "last (fst (QueryCalls None ''hi'' None None (Some (ErrText ''x'')) None)) = CallClose"
proof -
  have "QueryCalls None ''hi'' None None (Some (ErrText ''x'')) None =
      ([CallNewClient NewCodexOptions, CallConnect, CallStartThread, CallClose],
       Some (ErrWrap ''codex.Query: StartThread'' (ErrText ''x'')))"
    by (simp add: QueryCalls_def)
  from query_failure_closes_client [OF this] this show ?thesis by simp
qed

definition fresh_query :: query where
  "fresh_query = start_query (start_stream ''u'' (newThread ''t''))"

theorem query_forwards_turn_witness:
  "q_got fresh_query = [] \<and> prefix (q_got fresh_query) (tn_sent (q_turn fresh_query))"
  using query_forwards_turn [OF threach_refl rtranclp.rtrancl_refl, of "''t''" "''u''"]
  by (simp add: fresh_query_def start_query_def)

theorem query_cancel_ends_witness:
  "\<exists>q'. qstep\<^sup>*\<^sup>* (fresh_query\<lparr>q_ctxDone := True\<rparr>) q' \<and> q_phase q' = ForwardOver \<and> q_clientClosed q'"
proof -
  have "qstep\<^sup>*\<^sup>* (start_query (start_stream ''u'' (newThread ''t''))) (fresh_query\<lparr>q_ctxDone := True\<rparr>)"
    unfolding fresh_query_def by (rule r_into_rtranclp, rule q_ctx_done)
  from query_cancel_ends [OF threach_refl this] show ?thesis by auto
qed

end
