(* ===== verification/Local_Helpers.thy ===== *)
theory Local_Helpers
  imports Client_Commands
begin

text \<open>
  The helpers of the client and of a thread: the scaffold of \<open>AGENTS.md\<close> and the remote diff
  (\<open>client_helpers.go\<close>), the local \<open>git diff\<close> with its capped output (\<open>threads_helpers.go\<close>), and the texts of the typed errors
  (\<open>types/errors.go\<close>). The file system and the run of \<open>git\<close> are parameters.
\<close>

section \<open>AGENTS.md\<close>

record initAgentsMDOptions =
  ia_Overwrite :: bool
  ia_Template :: string

definition template_lines :: "string list" where
  "template_lines =
     [''# AGENTS.md'', [], ''## Project Overview'', [],
      ''<!-- Describe the repo in 1-3 sentences. What does it do? What'' @ [CHR 0x27] @ ''s the tech stack? -->'', [],
      ''## Build & Test'', [], ''<!-- Commands a contributor runs to verify changes. Example:'', [],
      CHR 0x09 # ''go test ./...'', CHR 0x09 # ''npm run lint'', ''-->'', [], ''## Conventions'', [],
      ''<!-- House style, naming rules, module boundaries, anything an agent'',
      ''     should know before editing. -->'', [], ''## Do Not'', [],
      ''<!-- Things that look like good ideas but break the build / policy. -->'']"

definition defaultAgentsMDTemplate :: string where
  "defaultAgentsMDTemplate = concat (map (\<lambda>l. l @ [lf]) template_lines)"

text \<open>What \<open>os.Stat\<close> says: there is something, a directory or not; there is nothing; or another error.\<close>

datatype statResult = Exists bool | Missing goError | StatFailed goError

definition InitAgentsMD ::
  "string \<Rightarrow> (string \<Rightarrow> string \<Rightarrow> string) \<Rightarrow> (string \<Rightarrow> statResult) \<Rightarrow> (string \<Rightarrow> goError option) \<Rightarrow> string \<Rightarrow>
   initAgentsMDOptions ptr \<Rightarrow> goError option \<times> (string \<times> string) option" where
  "InitAgentsMD defaultTemplate join stat write dir opts =
     (if dir = [] then (Some (ErrText ''codex.Client.InitAgentsMD: dir must not be empty''), None)
      else (case stat dir of
          Missing e \<Rightarrow> (Some (ErrWrap ''codex.Client.InitAgentsMD: stat dir'' e), None)
        | StatFailed e \<Rightarrow> (Some (ErrWrap ''codex.Client.InitAgentsMD: stat dir'' e), None)
        | Exists is_dir \<Rightarrow>
            (if \<not> is_dir then (Some (ErrText (''codex.Client.InitAgentsMD: '' @ dir @ '' is not a directory'')), None)
             else (let target = join dir ''AGENTS.md'';
                       overwrite = (case opts of None \<Rightarrow> False | Some o' \<Rightarrow> ia_Overwrite o');
                       template = (case opts of None \<Rightarrow> defaultTemplate
                                   | Some o' \<Rightarrow> (if ia_Template o' \<noteq> [] then ia_Template o' else defaultTemplate));
                       write_it = (case write target of
                           Some e \<Rightarrow> (Some (ErrWrap ''codex.Client.InitAgentsMD: write'' e), Some (target, template))
                         | None \<Rightarrow> (None, Some (target, template)))
                   in (case stat target of
                         Exists d \<Rightarrow> (if \<not> overwrite then (Some (AGENTSMDExistsError target), None) else write_it)
                       | Missing e \<Rightarrow> write_it
                       | StatFailed e \<Rightarrow> (Some (ErrWrap ''codex.Client.InitAgentsMD: stat target'' e), None))))))"

text \<open>The second result is the write that was tried. An existing file is never written without consent, and
  a success has written the template that was asked for.\<close>

lemma init_never_overwrites:
  assumes "stat (join dir ''AGENTS.md'') = Exists d" and "case opts of None \<Rightarrow> True | Some o' \<Rightarrow> \<not> ia_Overwrite o'"
  shows "snd (InitAgentsMD t join stat write dir opts) = None"
  using assms by (simp add: InitAgentsMD_def Let_def split: statResult.splits option.splits)

section \<open>The remote diff\<close>

record remoteDiffResult =
  rd_Sha :: string
  rd_Diff :: string

definition t_remoteDiffResult :: gotype where
  "t_remoteDiffResult = t_struct [(''sha'', t_str), (''diff'', t_str)]"

definition to_remoteDiffResult :: "gval \<Rightarrow> remoteDiffResult" where
  "to_remoteDiffResult g = \<lparr>rd_Sha = f_str g ''sha'', rd_Diff = f_str g ''diff''\<rparr>"

definition GitDiffToRemote :: "client \<Rightarrow> 's server \<Rightarrow> string \<Rightarrow> 's \<Rightarrow> (remoteDiffResult, 's) outcome" where
  "GitDiffToRemote c srv cwd s =
     (if cwd = [] then (Inl (ErrText ''codex.Client.GitDiffToRemote: cwd must not be empty''), s)
      else decode_as ''codex.Client.GitDiffToRemote'' t_remoteDiffResult to_remoteDiffResult
        (sendRaw c srv ''GitDiffToRemote'' ''gitDiffToRemote'' (Some (JObj [(''cwd'', JStr cwd)])) s))"

section \<open>Local git diff\<close>

definition maxDefaultGitDiffBytes :: nat where "maxDefaultGitDiffBytes = 2 ^ 20"

record gitDiffOptions =
  gd_Staged :: bool
  gd_IncludeAll :: bool
  gd_StatusOnly :: bool
  gd_MaxBytes :: int

record gitDiffResult =
  gr_Command :: "string list"
  gr_Stdout :: string
  gr_Stderr :: string
  gr_Truncated :: bool
  gr_ExitCode :: int

definition buildGitArgs :: "string \<Rightarrow> gitDiffOptions ptr \<Rightarrow> string list" where
  "buildGitArgs cwd opts = [''-C'', cwd] @ (case opts of
      None \<Rightarrow> [''diff'']
    | Some o' \<Rightarrow> (if gd_IncludeAll o' then [''diff'', ''HEAD'']
        else if gd_StatusOnly o' then [''status'', ''--porcelain'']
        else if gd_Staged o' then [''diff'', ''--staged''] else [''diff'']))"

record cappedWriter =
  cw_buf :: string
  cw_limit :: nat
  cw_truncated :: bool

definition cw_Write :: "string \<Rightarrow> cappedWriter \<Rightarrow> nat \<times> cappedWriter" where
  "cw_Write p w =
     (let remaining = int (cw_limit w) - int (length (cw_buf w)) in
      if remaining \<le> 0 then (length p, w\<lparr>cw_truncated := True\<rparr>)
      else if remaining < int (length p)
      then (length p, w\<lparr>cw_truncated := True, cw_buf := cw_buf w @ take (nat remaining) p\<rparr>)
      else (length p, w\<lparr>cw_buf := cw_buf w @ p\<rparr>))"

text \<open>The end of the run: no error, an exit code, or another error.\<close>

datatype gitRun = RunOk | RunExit int goError | RunErr goError

text \<open>\<open>chunks\<close> is what git writes to its output, write by write.\<close>

definition GitDiff ::
  "bool \<Rightarrow> string \<Rightarrow> (string list \<Rightarrow> string list \<times> string \<times> gitRun) \<Rightarrow> gitDiffOptions ptr \<Rightarrow>
   gitDiffResult ptr \<times> goError option" where
  "GitDiff closed cwd git opts =
     (if closed then (None, Some (ErrText ''codex.Thread.GitDiff: thread closed''))
      else if cwd = [] then (None, Some (ErrText ''codex.Thread.GitDiff: thread cwd is empty (set ThreadOptions.Cwd at StartThread)''))
      else (let args = buildGitArgs cwd opts;
                maxBytes = (case opts of None \<Rightarrow> maxDefaultGitDiffBytes
                            | Some o' \<Rightarrow> (if 0 < gd_MaxBytes o' then nat (gd_MaxBytes o') else maxDefaultGitDiffBytes))
            in (case git args of (chunks, stderr, run) \<Rightarrow>
              (let w = foldl (\<lambda>w p. snd (cw_Write p w)) \<lparr>cw_buf = [], cw_limit = maxBytes, cw_truncated = False\<rparr> chunks;
                   result = \<lparr>gr_Command = ''git'' # args, gr_Stdout = cw_buf w, gr_Stderr = stderr,
                             gr_Truncated = cw_truncated w, gr_ExitCode = 0\<rparr>
               in (case run of
                     RunOk \<Rightarrow> (Some result, None)
                   | RunExit c e \<Rightarrow> (let r = result\<lparr>gr_ExitCode := c\<rparr> in
                       if c = 1 then (Some r, None)
                       else (Some r, Some (ErrText (''codex.Thread.GitDiff: git exited '' @ render_int c @ '': '' @ trim_space stderr))))
                   | RunErr e \<Rightarrow> (Some result, Some (ErrWrap ''codex.Thread.GitDiff'' e)))))))"

lemma capped_run:
  "length (cw_buf w) \<le> cw_limit w \<Longrightarrow>
   (let w' = foldl (\<lambda>w p. snd (cw_Write p w)) w ps; s = cw_buf w @ concat ps in
    cw_buf w' = take (cw_limit w) s \<and> cw_limit w' = cw_limit w \<and>
    (cw_limit w < length s \<longrightarrow> cw_truncated w') \<and> (cw_truncated w \<longrightarrow> cw_truncated w') \<and>
    (cw_truncated w' \<longrightarrow> cw_truncated w \<or> cw_limit w < length s \<or> (cw_limit w \<le> length s \<and> [] \<in> set ps)))"
proof (induction ps arbitrary: w)
  case Nil
  then show ?case by simp
next
  case (Cons p ps)
  let ?w = "snd (cw_Write p w)"
  have step: "cw_buf ?w = take (cw_limit w) (cw_buf w @ p)" "cw_limit ?w = cw_limit w"
    "cw_truncated ?w = (cw_truncated w \<or> cw_limit w < length (cw_buf w @ p) \<or> cw_limit w \<le> length (cw_buf w))"
    using Cons.prems by (auto simp: cw_Write_def Let_def nat_minus_as_int)
  have take: "take (cw_limit w) (take (cw_limit w) (cw_buf w @ p) @ concat ps) = take (cw_limit w) (cw_buf w @ p @ concat ps)"
    using Cons.prems by (cases "cw_limit w \<le> length (cw_buf w @ p)") (simp_all add: min_absorb1)
  let ?w' = "foldl (\<lambda>w p. snd (cw_Write p w)) ?w ps" and ?s = "cw_buf w @ p @ concat ps"
  have "length (cw_buf ?w) \<le> cw_limit ?w" using step by simp
  from Cons.IH [OF this] have ih: "cw_buf ?w' = take (cw_limit w) (cw_buf ?w @ concat ps)" "cw_limit ?w' = cw_limit w"
    "cw_limit w < length (cw_buf ?w @ concat ps) \<longrightarrow> cw_truncated ?w'" "cw_truncated ?w \<longrightarrow> cw_truncated ?w'"
    "cw_truncated ?w' \<longrightarrow> cw_truncated ?w \<or> cw_limit w < length (cw_buf ?w @ concat ps) \<or>
       (cw_limit w \<le> length (cw_buf ?w @ concat ps) \<and> [] \<in> set ps)"
    unfolding Let_def step(2) by blast+
  have "cw_buf ?w' = take (cw_limit w) ?s" using ih(1) step(1) take by simp
  moreover have "cw_truncated ?w'" if "cw_limit w < length ?s"
    using that step(1,3) ih(3,4) by (cases "cw_limit w < length (cw_buf w @ p)") simp_all
  moreover have "cw_truncated w \<longrightarrow> cw_truncated ?w'" using step(3) ih(4) by simp
  moreover have "cw_truncated w \<or> cw_limit w < length ?s \<or> (cw_limit w \<le> length ?s \<and> [] \<in> set (p # ps))"
    if "cw_truncated ?w'"
  proof (cases "cw_limit w < length (cw_buf w @ p)")
    case False
    then have "length (cw_buf ?w @ concat ps) = length ?s" using step(1) by simp
    moreover have "cw_truncated ?w \<Longrightarrow> cw_truncated w \<or> (cw_limit w \<le> length (cw_buf w) \<and> p = [])"
      using False step(3) Cons.prems by auto
    ultimately show ?thesis using that ih(5) by auto
  qed simp
  ultimately show ?case using ih(2) by (simp add: Let_def)
qed

text \<open>The diff that is returned is exactly the first bytes of what git wrote, up to the limit, however git
  cuts its writes; when bytes were dropped the result says so; and it says so without reason only when git
  made an empty write at the limit.\<close>

theorem git_diff_output_capped:
  assumes "git (buildGitArgs cwd opts) = (chunks, stderr, run)" and "GitDiff False cwd git opts = (Some r, err)"
    and "opts = Some o'" and "0 < gd_MaxBytes o'"
  shows "gr_Stdout r = take (nat (gd_MaxBytes o')) (concat chunks) \<and>
     (nat (gd_MaxBytes o') < length (concat chunks) \<longrightarrow> gr_Truncated r) \<and>
     ([] \<notin> set chunks \<and> gr_Truncated r \<longrightarrow> nat (gd_MaxBytes o') < length (concat chunks))"
proof -
  let ?w = "foldl (\<lambda>w p. snd (cw_Write p w)) \<lparr>cw_buf = [], cw_limit = nat (gd_MaxBytes o'), cw_truncated = False\<rparr> chunks"
  have "cwd \<noteq> []" using assms(2) by (auto simp: GitDiff_def)
  then have "gr_Stdout r = cw_buf ?w \<and> gr_Truncated r = cw_truncated ?w"
    using assms by (cases run) (auto simp: GitDiff_def Let_def split: if_splits)
  then show ?thesis
    using capped_run [of "\<lparr>cw_buf = [], cw_limit = nat (gd_MaxBytes o'), cw_truncated = False\<rparr>" chunks]
    by (auto simp: Let_def)
qed

theorem git_diff_output_capped_witness:
  "gr_Stdout (the (fst (GitDiff False ''/r'' (\<lambda>a. ([''abc'', ''defg''], [], RunExit 1 (ErrText ''x'')))
     (Some \<lparr>gd_Staged = False, gd_IncludeAll = False, gd_StatusOnly = False, gd_MaxBytes = 5\<rparr>)))) = ''abcde''"
proof -
  let ?o = "\<lparr>gd_Staged = False, gd_IncludeAll = False, gd_StatusOnly = False, gd_MaxBytes = 5\<rparr>"
  let ?git = "\<lambda>a. ([''abc'', ''defg''], [], RunExit 1 (ErrText ''x''))"
  obtain r err where g: "GitDiff False ''/r'' ?git (Some ?o) = (Some r, err)"
    by (auto simp: GitDiff_def Let_def)
  from git_diff_output_capped [OF refl g refl] have "gr_Stdout r = ''abcde''" by simp
  with g show ?thesis by simp
qed

text \<open>The empty write at the limit.\<close>

lemma truncated_without_loss:
  "cw_truncated (foldl (\<lambda>w p. snd (cw_Write p w)) \<lparr>cw_buf = [], cw_limit = 3, cw_truncated = False\<rparr> [''abc'', []])"
  by (simp add: cw_Write_def)

section \<open>Texts of the errors\<close>

definition snippet :: "string \<Rightarrow> string" where
  "snippet raw = (if 200 < length raw then take 200 raw @ [CHR 0xE2, CHR 0x80, CHR 0xA6] else raw)"

text \<open>The texts of each type, given that of its cause; \<open>q\<close> is the quoting of \<open>%q\<close>.\<close>

definition CLIConnectionError_text :: "string \<Rightarrow> string option \<Rightarrow> string" where
  "CLIConnectionError_text m cause = (case cause of None \<Rightarrow> m | Some t \<Rightarrow> m @ '': '' @ t)"

definition ProcessError_text :: "(string \<Rightarrow> string) \<Rightarrow> string \<Rightarrow> int \<Rightarrow> string \<Rightarrow> string" where
  "ProcessError_text q m code stderr =
     (if stderr \<noteq> [] then m @ '': exit='' @ render_int code @ '' stderr='' @ q stderr
      else m @ '': exit='' @ render_int code)"

definition JSONDecodeError_text :: "(string \<Rightarrow> string) \<Rightarrow> string \<Rightarrow> string \<Rightarrow> string" where
  "JSONDecodeError_text q raw cause = ''json decode: '' @ cause @ '' (raw='' @ q (snippet raw) @ '')''"

definition MessageParseError_text :: "(string \<Rightarrow> string) \<Rightarrow> string \<Rightarrow> string \<Rightarrow> string" where
  "MessageParseError_text q m raw = ''message parse: '' @ m @ '' (raw='' @ q (snippet raw) @ '')''"

definition RPCError_text :: "int \<Rightarrow> string \<Rightarrow> string" where
  "RPCError_text code m = ''rpc error '' @ render_int code @ '': '' @ m"

definition ApprovalDeniedError_text :: "string \<Rightarrow> string \<Rightarrow> string" where
  "ApprovalDeniedError_text rpc reason =
     (if reason = [] then ''approval denied: '' @ rpc else ''approval denied for '' @ rpc @ '': '' @ reason)"

definition FeatureNotEnabledError_text :: "string \<Rightarrow> string \<Rightarrow> string \<Rightarrow> string" where
  "FeatureNotEnabledError_text feature rpc m =
     (if rpc \<noteq> [] then rpc @ '' requires '' @ feature @ '': '' @ m
      else ''feature not enabled ('' @ feature @ ''): '' @ m)"

definition UnsupportedApprovalPolicyError_text :: "(string \<Rightarrow> string) \<Rightarrow> string \<Rightarrow> string \<Rightarrow> string" where
  "UnsupportedApprovalPolicyError_text q policy version =
     ''approval policy '' @ q policy @ '' is not supported by codex CLI '' @ version"

definition MCPServerOAuthRequiredError_text :: "(string \<Rightarrow> string) \<Rightarrow> string \<Rightarrow> string \<Rightarrow> string" where
  "MCPServerOAuthRequiredError_text q server m =
     (if m = [] then ''MCP server '' @ q server @ '' requires OAuth''
      else ''MCP server '' @ q server @ '' requires OAuth: '' @ m)"

definition AGENTSMDExistsError_text :: "string \<Rightarrow> string" where
  "AGENTSMDExistsError_text path = ''AGENTS.md already exists at '' @ path @ '' (pass Overwrite: true to replace)''"

definition ThreadHistoryError_text :: "string \<Rightarrow> string \<Rightarrow> string \<Rightarrow> string option \<Rightarrow> string" where
  "ThreadHistoryError_text code thread m cause =
     (let msg = (if m = [] then code else m);
          msg1 = (if thread \<noteq> [] then msg @ '' (thread_id='' @ thread @ '')'' else msg)
      in (case cause of None \<Rightarrow> msg1 | Some t \<Rightarrow> msg1 @ '': '' @ t))"

text \<open>The text of an error; \<open>sr\<close> is the text of raw JSON and \<open>st\<close> that of a sentinel.\<close>

fun error_text :: "(string \<Rightarrow> string) \<Rightarrow> (raw \<Rightarrow> string) \<Rightarrow> (sentinel \<Rightarrow> string) \<Rightarrow> goError \<Rightarrow> string" where
  "error_text q sr st (ErrText m) = m"
| "error_text q sr st (Sentinel s) = st s"
| "error_text q sr st (ErrWrap m e) = m @ '': '' @ error_text q sr st e"
| "error_text q sr st (ErrJoin es) = (case map (error_text q sr st) es of
     [] \<Rightarrow> [] | t # ts \<Rightarrow> t @ concat (map (\<lambda>x. lf # x) ts))"
| "error_text q sr st (CLINotFoundError m) = m"
| "error_text q sr st (CLIConnectionError m c) = CLIConnectionError_text m (map_option (error_text q sr st) c)"
| "error_text q sr st (ProcessError m code se) = ProcessError_text q m code se"
| "error_text q sr st (JSONDecodeError r e) = JSONDecodeError_text q (sr r) (error_text q sr st e)"
| "error_text q sr st (MessageParseError m r) = MessageParseError_text q m (sr r)"
| "error_text q sr st (RPCError code m d) = RPCError_text code m"
| "error_text q sr st (ApprovalDeniedError m r) = ApprovalDeniedError_text m r"
| "error_text q sr st (FeatureNotEnabledError feature m msg) = FeatureNotEnabledError_text feature m msg"
| "error_text q sr st (UnsupportedApprovalPolicyError p v) = UnsupportedApprovalPolicyError_text q p v"
| "error_text q sr st (MCPServerOAuthRequiredError n m) = MCPServerOAuthRequiredError_text q n m"
| "error_text q sr st (AGENTSMDExistsError p) = AGENTSMDExistsError_text p"
| "error_text q sr st (ThreadHistoryError code t m c) = ThreadHistoryError_text code t m (map_option (error_text q sr st) c)"

end
