(* ===== verification/Spec2Isabelle.thy ===== *)
theory Spec2Isabelle
  imports Events_Parser Demux Hook_Decision Hook_Listener Semver Thread_Commands Runtime_Features Thread_History Cli_Process
    Subprocess Client_Lifecycle Connect_Diagnostics Hook_Install Client_Connect Pipeline Turn_Pipeline Transport Query Local_Helpers
begin

text \<open>
  This development models the Go SDK for the Codex app-server: the package \<open>codex\<close> at the root of the
  repository, \<open>types\<close>, \<open>internal/events\<close>, \<open>internal/jsonrpc\<close>, \<open>internal/transport\<close>,
  \<open>internal/hookbridge\<close> and the shim under \<open>cmd\<close>.

  \<^bold>\<open>The program.\<close> A client starts \<open>codex app-server\<close> as a subprocess (\<open>internal/transport\<close>) and
  exchanges one JSON value per line with it. The demultiplexer (\<open>internal/jsonrpc\<close>) reads the lines,
  gives responses to the calls that wait for them and passes notifications and server requests, in wire
  order, to the client's dispatcher (\<open>client_dispatch.go\<close>). The dispatcher parses a notification into a
  typed event (\<open>internal/events\<close>, \<open>types\<close>), remembers what file changes a request for approval will be
  about (\<open>client_file_approval.go\<close>), delivers the event to the inbox of its thread (\<open>threads.go\<close>) and
  publishes it to the subscribers (\<open>client_thread_events.go\<close>); it answers server requests with the
  decision of the caller's callback (\<open>internal/events/approvals.go\<close>). A turn is streamed from the inbox
  to the caller. Hooks run in a second process, the shim, which asks the client over a socket
  (\<open>internal/hookbridge\<close>, \<open>client_hookbridge.go\<close>).

  \<^bold>\<open>Theories.\<close>
  \<^item> \<open>Prelude\<close>: Go's string operations, machine integers (\<open>wrap64\<close>), decimal numbers, association lists
    for Go maps (\<open>put\<close>, \<open>drop_key\<close>), insertion sort with a given comparison.
  \<^item> \<open>Json\<close>, \<open>Json_Text\<close>: \<open>encoding/json\<close> as the sources use it: values, decoding into Go types
    described by values of type \<open>ftype\<close> (case-insensitive field names, \<open>null\<close>, the zero value that is
    kept after an error), printing and parsing of text. A \<open>json.RawMessage\<close> is a value or absent.
  \<^item> \<open>Errors\<close>, \<open>Local_Helpers\<close>: typed errors, \<open>errors.Is\<close>, \<open>errors.As\<close>, \<open>errors.Join\<close>, their texts
    (\<open>types/errors.go\<close>); \<open>InitAgentsMD\<close> and the capped local \<open>git diff\<close>.
  \<^item> \<open>Items\<close>, \<open>Items_Parser\<close>, \<open>Events\<close>, \<open>Events_System\<close>, \<open>Events_Thread\<close>, \<open>Events_Parser\<close>: the items and
    events with their decoders (\<open>types/items.go\<close>, \<open>types/events*.go\<close>, \<open>internal/events\<close>).
  \<^item> \<open>Framing\<close> (locale \<open>frame_codec\<close>), \<open>Jsonrpc\<close>, \<open>Demux\<close>: frames, messages, the read loop, calls,
    close and give-up (\<open>internal/jsonrpc\<close>).
  \<^item> \<open>Hook_Frames\<close>, \<open>Hook_Output\<close>, \<open>Hook_Decision\<close>, \<open>Hook_Listener\<close>, \<open>Hook_Install\<close>: the length-prefixed
    frames, the output structs and the generated \<open>hooks.json\<close>, decisions,
    one listener connection and the shim; the life of the listener with its accept loop, connections and
    \<open>Close\<close>; the installation of \<open>hooks.json\<close> with its backup and recovery.
  \<^item> \<open>Approvals\<close>, \<open>Thread_Ids\<close>, \<open>Channels\<close> (locale \<open>bounded_stream\<close>), \<open>Thread_Events\<close>,
    \<open>File_Approval\<close>, \<open>Threads\<close>, \<open>Turn_Stream\<close>, \<open>Dispatch\<close>: requests and decisions, the identity of an
    event, Go channels, subscriptions, file approval contexts, the state of a thread, the stream of a
    turn and \<open>Run\<close>, the dispatcher.
  \<^item> \<open>Pipeline\<close>: the read loop of \<open>Demux\<close>, the dispatcher of \<open>Dispatch\<close>, a subscription of \<open>Thread_Events\<close> and
    the rest of the client in one state, interleaved. \<open>Turn_Pipeline\<close>: the same for a turn, with the stream of
    \<open>Turn_Stream\<close> and its caller in place of the subscription.
  \<^item> \<open>Telemetry\<close>, \<open>Transport\<close>: the logger, the observer; the process of \<open>Subprocess\<close> and the read loop of \<open>Demux\<close>
    in one state, with the calls of the observer and of the give-up callback, the latter's record and kill as
    steps of their own, and the transport's \<open>Close\<close>.
  \<^item> \<open>Query\<close>: the one-shot query over \<open>Turn_Stream\<close>; the warm pool and \<open>Startup\<close>.
  \<^item> \<open>Semver\<close>, \<open>Options\<close>, \<open>Thread_Start\<close>, \<open>Client_Types\<close>, \<open>Client_Commands\<close>,
    \<open>Background_Terminals\<close>, \<open>Thread_Commands\<close>, \<open>Thread_History\<close>: versions, options and their merge,
    the data and the code of every command of \<open>Client\<close> and \<open>Thread\<close>.
  \<^item> \<open>Runtime_Controls\<close>, \<open>Runtime_Features\<close>: discovery from the CLI's help and its generated schema.
  \<^item> \<open>Transitions\<close> (locales \<open>step_invariant\<close>, \<open>stable_value\<close>), \<open>Cli_Process\<close>, \<open>Ring_Buffer\<close>,
    \<open>Subprocess\<close>, \<open>Client_Lifecycle\<close>, \<open>Connect_Diagnostics\<close>, \<open>Client_Connect\<close>: running and finding the CLI, the
    ring of stderr, the life of the subprocess, \<open>Connect\<close> and \<open>Close\<close> as interleaved steps, what they log,
    and the data of one \<open>Connect\<close> from the options to the arguments, the environment and the handshake.

  \<^bold>\<open>How code becomes definitions.\<close> A struct is a record or a datatype, a sum interface a datatype, a pointer
  an option (\<open>ptr\<close>), a map an association list; where the result could depend on Go's iteration order the
  order is an argument. A function that returns an error returns a sum or an option of \<open>goError\<close>. Error
  texts keep their fixed parts; \<open>fmt.Errorf\<close> with \<open>%w\<close> is \<open>ErrWrap\<close>. A method that changes its receiver
  returns it. Goroutines are step relations: what happens under a mutex is one step, so is a channel
  operation, and an operation that would block has no step (or the result \<open>None\<close>); timers and contexts may
  fire at any time. Strings are lists of bytes; \<open>unicode.IsSpace\<close> is modelled on ASCII. The peer that
  answers a request, the file system, the environment, the process and the callbacks are parameters.

  \<^bold>\<open>What is proved.\<close>
  \<^item> \<open>Pipeline\<close>: end to end, a subscriber gets the events of the lines on the wire in order, up to one gap
    record; the replies written are those due to the requests taken, once each and in order, and all of them
    when the pipe takes every write; a grant rests on the events before it, or, where they recorded nothing,
    on what the request itself shows.
    \<open>Turn_Pipeline\<close>: end to end, the caller of a turn gets its events, and the turn can be brought to its end.
  \<^item> \<open>Dispatch\<close>: a subscriber gets the routed events without holes up to one gap record; what cannot be
    understood ends every stream and forgets every approval context; a grant needs the callback's decision
    and, for files, the recorded changes.
  \<^item> \<open>Demux\<close>: wire order, responses to their own calls, close releases every call, give-up at the threshold.
  \<^item> \<open>Turn_Stream\<close>, \<open>Threads\<close>, \<open>Thread_Events\<close>, \<open>File_Approval\<close>: refinement of the specified event stream
    under every interleaving, own terminus last, bounded buffers, contexts that follow the history.
  \<^item> \<open>Client_Lifecycle\<close>, \<open>Subprocess\<close>, \<open>Cli_Process\<close>: nothing is left behind, one exit report, no process
    after close, close returns in a bounded number of its own steps even when the process exits only if
    killed and stderr stays open, one search at a time, bounded retries.
    \<open>Transport\<close>: a give-up of the read loop kills the process, whose exit is then reported; it is the cause
    reported where it was recorded before the exit.
  \<^item> \<open>Hook_Install\<close>, \<open>Hook_Decision\<close>: the user's file comes back after a close, and after a crash and a later
    run, where no operation fails and no backup is in the way; the isolated mode does not touch it; the shim
    does what the handler decided if the answer comes within its 30 seconds, and otherwise fails open.
  \<^item> \<open>Hook_Listener\<close>: \<open>Close\<close> returns, leaves nothing behind, and does not wait for a callback; every answer
    is a decision. \<open>Client_Connect\<close>: the server gets the client's own hook socket and directory.
  \<^item> \<open>Query\<close>: the caller gets the turn, a failure closes the client, a cancellation ends the query.
  \<^item> codecs: round trips of frames, messages, items and requirements; parsers keep the discriminator.
  \<^item> commands and discovery: one request each, bounded pagination, no write to the hooks section while a
    callback owns it, offered
    controls within the requirements, the ring keeps the last bytes, redaction hides content.

  \<^bold>\<open>Bounds and fuel.\<close> No definition needs fuel: pagination recurses on the pages that are left (its limit is
  the code's), the retry on the attempts that are left, readers and parsers on their input. A close of the
  transport has at most nine steps left: three rungs and the drain, four of the goroutine that waits for the
  process, and its exit. Capacities of channels, the thresholds and the sizes are the code's constants.

  \<^bold>\<open>Not modelled.\<close> The places where the code logs, the text of the messages and the durations given to the
  observer (which calls the transport makes is in \<open>Transport\<close>; those of the client are left out), the
  system calls that start, signal and kill processes, the setters of the logger, the observer and the
  approval callback, interface declarations, and the example programs.
\<close>

end
